(* ===== verification/Kd_Prelude.thy ===== *)
theory Kd_Prelude
  imports Main "HOL-Library.Word"
begin

text \<open>
  Shared vocabulary of the development: machine words, the arithmetic of dyadic blocks
  (ranges of \<open>2 ^ o\<close> page frames that start at a multiple of \<open>2 ^ o\<close>), list and option
  lemmas, and the theorem collections that the component theories fill.
\<close>

unbundle bit_operations_syntax

type_synonym u8 = "8 word"
type_synonym u16 = "16 word"
type_synonym u32 = "32 word"
type_synonym u64 = "64 word"

named_theorems proj_simps
  \<open>what a projection of a component state is after one primitive update\<close>

section \<open>Dyadic blocks\<close>

definition blk :: "nat \<Rightarrow> nat \<Rightarrow> nat set" where
  "blk p o' = {p..<p + 2 ^ o'}"

definition buddy_of :: "nat \<Rightarrow> nat \<Rightarrow> nat" where
  "buddy_of p o' = (if even (p div 2 ^ o') then p + 2 ^ o' else p - 2 ^ o')"

definition parent_of :: "nat \<Rightarrow> nat \<Rightarrow> nat" where
  "parent_of p o' = (if even (p div 2 ^ o') then p else p - 2 ^ o')"

lemma odd_div_le: "odd (p div 2 ^ o') \<Longrightarrow> 2 ^ o' \<le> (p :: nat)"
  by (metis div_less dvd_0_right leI)

lemma mem_blk [simp]: "x \<in> blk p o' \<longleftrightarrow> p \<le> x \<and> x < p + 2 ^ o'"
  by (simp add: blk_def)

lemma blk_0 [simp]: "blk p 0 = {p}"
  by auto

lemma finite_blk [simp]: "finite (blk p o')"
  by (simp add: blk_def)

lemma card_blk [simp]: "card (blk p o') = 2 ^ o'"
  by (simp add: blk_def)

lemma blk_nonempty [simp]: "blk p o' \<noteq> {}"
  by (simp add: blk_def)

lemma start_in_blk [intro]: "p \<in> blk p o'"
  by simp

lemma unset_bit_nat_eq: "unset_bit n a = (if bit a n then a - 2 ^ n else a)" for a :: nat
proof -
  have "int (unset_bit n a) = int a - of_bool (bit (int a) n) * 2 ^ n"
    by (simp add: of_nat_unset_bit_eq unset_bit_eq)
  also have "bit (int a) n = bit a n"
    by (simp add: bit_of_nat_iff)
  finally have e: "int (unset_bit n a) = int a - of_bool (bit a n) * 2 ^ n" .
  show ?thesis
  proof (cases "bit a n")
    case True
    then have "2 ^ n \<le> a"
      by (simp add: bit_iff_odd odd_div_le)
    then have "int (unset_bit n a) = int (a - 2 ^ n)"
      using e True by (simp add: of_nat_diff)
    then show ?thesis
      using True by (simp only: of_nat_eq_iff if_True)
  qed (use e in simp)
qed

lemma xor_pow_eq_buddy: "x XOR 2 ^ o' = buddy_of x o'" for x :: nat
proof -
  have "x XOR 2 ^ o' = flip_bit o' x"
    by (simp add: flip_bit_eq_xor push_bit_of_1)
  also have "\<dots> = buddy_of x o'"
    by (simp add: flip_bit_eq_if set_bit_eq unset_bit_nat_eq bit_iff_odd buddy_of_def)
  finally show ?thesis .
qed

lemma unset_pow_eq_parent: "nat (int x AND NOT (2 ^ o')) = parent_of x o'"
proof -
  have "int x AND NOT (2 ^ o') = unset_bit o' (int x)"
    by (simp add: unset_bit_eq_and_not push_bit_of_1)
  also have "\<dots> = int (unset_bit o' x)"
    by (simp add: of_nat_unset_bit_eq)
  finally show ?thesis
    by (simp add: unset_bit_nat_eq bit_iff_odd parent_of_def)
qed

lemma even_div_mod_pow:
  assumes "o' < M"
  shows "even ((p mod 2 ^ M) div 2 ^ o') = even ((p :: nat) div 2 ^ o')"
proof -
  have "bit (take_bit M p) o' = bit p o'"
    using assms by (simp add: bit_take_bit_iff)
  then show ?thesis
    by (simp add: bit_iff_odd take_bit_eq_mod)
qed

lemma buddy_of_index:
  assumes "o' < M"
  shows "p + buddy_of (p mod 2 ^ M) o' - p mod 2 ^ M = buddy_of p o'"
proof (cases "even (p div 2 ^ o')")
  case True
  then show ?thesis
    using assms by (simp add: buddy_of_def even_div_mod_pow)
next
  case False
  have o: "odd ((p mod 2 ^ M) div 2 ^ o')"
    using False assms by (simp add: even_div_mod_pow)
  have "2 ^ o' \<le> p mod 2 ^ M"
    using o by (rule odd_div_le)
  then show ?thesis
    using False o by (simp add: buddy_of_def)
qed

lemma parent_of_index:
  assumes "o' < M"
  shows "p + parent_of (p mod 2 ^ M) o' - p mod 2 ^ M = parent_of p o'"
proof (cases "even (p div 2 ^ o')")
  case True
  then show ?thesis
    using assms by (simp add: parent_of_def even_div_mod_pow)
next
  case False
  have o: "odd ((p mod 2 ^ M) div 2 ^ o')"
    using False assms by (simp add: even_div_mod_pow)
  have "2 ^ o' \<le> p mod 2 ^ M"
    using o by (rule odd_div_le)
  then show ?thesis
    using False o by (simp add: parent_of_def)
qed

lemma parent_of_mod:
  assumes "o' < M"
  shows "parent_of (p mod 2 ^ M) o' = parent_of p o' mod 2 ^ M"
proof (cases "even (p div 2 ^ o')")
  case True
  then show ?thesis
    using assms by (simp add: parent_of_def even_div_mod_pow)
next
  case False
  have o: "odd ((p mod 2 ^ M) div 2 ^ o')"
    using False assms by (simp add: even_div_mod_pow)
  have le: "2 ^ o' \<le> p mod 2 ^ M"
    using o by (rule odd_div_le)
  have "p - 2 ^ o' = 2 ^ M * (p div 2 ^ M) + (p mod 2 ^ M - 2 ^ o')"
    using le mult_div_mod_eq [of "2 ^ M" p] by linarith
  moreover have "p mod 2 ^ M - 2 ^ o' < 2 ^ M"
    by (meson less_imp_diff_less mod_less_divisor zero_less_numeral zero_less_power)
  ultimately have "(p - 2 ^ o') mod 2 ^ M = p mod 2 ^ M - 2 ^ o'"
    by (metis mod_less mod_mult_self4)
  then show ?thesis
    using False o by (simp add: parent_of_def)
qed

lemma buddy_neq: "buddy_of p o' \<noteq> p"
proof (cases "even (p div 2 ^ o')")
  case False
  have "2 ^ o' \<le> p"
    using False by (rule odd_div_le)
  moreover have "(0::nat) < 2 ^ o'"
    by simp
  ultimately have "p - 2 ^ o' < p"
    by linarith
  then show ?thesis
    using False by (simp add: buddy_of_def)
qed (simp add: buddy_of_def)

lemma dvd_odd_split:
  assumes "2 ^ o' dvd (p :: nat)"
  obtains k where "p = 2 ^ o' * k" and "p div 2 ^ o' = k"
  using assms by (metis dvdE nonzero_mult_div_cancel_left power_not_zero zero_neq_numeral)

lemma buddy_dvd: "2 ^ o' dvd p \<Longrightarrow> 2 ^ o' dvd buddy_of p o'"
  by (auto simp: buddy_of_def dvd_diff_nat)

lemma parent_dvd:
  assumes "2 ^ o' dvd p"
  shows "2 ^ Suc o' dvd parent_of p o'"
proof -
  obtain k where k: "p = 2 ^ o' * k" "p div 2 ^ o' = k"
    using assms by (rule dvd_odd_split)
  show ?thesis
  proof (cases "even k")
    case True
    then show ?thesis
      using k by (auto simp: parent_of_def elim!: evenE)
  next
    case False
    then obtain j where "k = 2 * j + 1" by (auto elim: oddE)
    then show ?thesis
      using k False by (auto simp: parent_of_def algebra_simps)
  qed
qed

lemma buddy_buddy:
  assumes "2 ^ o' dvd p"
  shows "buddy_of (buddy_of p o') o' = p"
proof -
  obtain k where k: "p = 2 ^ o' * k" "p div 2 ^ o' = k"
    using assms by (rule dvd_odd_split)
  show ?thesis
  proof (cases "even k")
    case True
    have "(2 ^ o' * k + 2 ^ o') div 2 ^ o' = Suc k"
      by (metis add.commute div_mult_self2 div_self plus_1_eq_Suc power_not_zero zero_neq_numeral)
    then show ?thesis
      using k True by (simp add: buddy_of_def)
  next
    case False
    then obtain j where j: "k = Suc j" "even j"
      by (cases k) auto
    have "2 ^ o' * k - 2 ^ o' = 2 ^ o' * j"
      using j by simp
    then show ?thesis
      using k False j by (simp add: buddy_of_def)
  qed
qed

lemma blk_buddy_union:
  assumes "2 ^ o' dvd p"
  shows "blk p o' \<union> blk (buddy_of p o') o' = blk (parent_of p o') (Suc o')"
proof (cases "even (p div 2 ^ o')")
  case True
  then show ?thesis
    by (auto simp: buddy_of_def parent_of_def)
next
  case False
  have "2 ^ o' \<le> p"
    using False by (rule odd_div_le)
  then show ?thesis
    using False by (auto simp: buddy_of_def parent_of_def)
qed

lemma blk_buddy_disjoint:
  assumes "2 ^ o' dvd p"
  shows "blk p o' \<inter> blk (buddy_of p o') o' = {}"
proof (cases "even (p div 2 ^ o')")
  case True
  then show ?thesis
    by (auto simp: buddy_of_def)
next
  case False
  have "2 ^ o' \<le> p"
    using False by (rule odd_div_le)
  then show ?thesis
    using False by (auto simp: buddy_of_def)
qed

lemma blk_halves: "blk p (Suc o') = blk p o' \<union> blk (p + 2 ^ o') o'"
  by auto

lemma blk_halves_disjoint: "blk p o' \<inter> blk (p + 2 ^ o') o' = {}"
  by auto

lemma upper_half_buddy:
  assumes "2 ^ Suc o' dvd p"
  shows "buddy_of (p + 2 ^ o') o' = p" and "buddy_of p o' = p + 2 ^ o'"
proof -
  have d: "2 ^ o' dvd p"
    using assms by (metis dvd_trans le_imp_power_dvd lessI less_imp_le)
  obtain k where "p = 2 ^ o' * 2 * k"
    using assms by (auto simp: mult.commute elim!: dvdE)
  then have "p div 2 ^ o' = 2 * k"
    by simp
  then show b: "buddy_of p o' = p + 2 ^ o'"
    by (simp add: buddy_of_def)
  show "buddy_of (p + 2 ^ o') o' = p"
    using buddy_buddy [OF d] b by simp
qed

lemma skip_block_less: "p \<le> e \<Longrightarrow> Suc e - (p + 2 ^ n) < Suc e - p"
proof -
  assume "p \<le> e"
  moreover have "(0::nat) < 2 ^ n"
    by simp
  ultimately show ?thesis
    by linarith
qed

section \<open>Lists\<close>

lemma length_remove1_mem [simp]:
  "x \<in> set xs \<Longrightarrow> length (remove1 x xs) = length xs - 1"
  by (simp add: length_remove1)

section \<open>Masks\<close>

lemma and_nat_le: "(x::nat) AND y \<le> y"
proof -
  have "int (x AND y) \<le> int y"
    by (simp add: of_nat_and_eq)
  then show ?thesis by simp
qed

lemma and_mask_less: "(x::nat) AND (2 ^ n - 1) < 2 ^ n"
  using and_nat_le [of x "2 ^ n - 1"] by (rule le_less_trans) simp

end
