(* ===== verification/Page_Types.thy ===== *)
theory Page_Types
  imports Kd_Prelude
begin

text \<open>
  The data of the page allocator (mm/page\_alloc.c, include/linux/mm.h): page frames, free
  areas, per-cpu page lists, zones and the global state, with the accessors and the
  primitive updates the allocator is written in.

  A page is named by its page frame number; \<open>mem_map\<close> is the array of \<open>struct page\<close>, so
  that \<open>page + n\<close> of the code is addition on frame numbers. A zone is named by its index;
  \<open>page_zone\<close> and \<open>page_zone_id\<close> read the index that \<open>set_page_links\<close> stored in the page.
  An intrusive \<open>list_head\<close> is the list of the frame numbers linked on it, head first.
  What the headers outside the repository fix (the number of orders, the pageblock size, the
  flag masks, which frames have a memmap) is the record \<open>mmcfg\<close>, an argument of every
  operation that uses it.
\<close>

section \<open>Pages and zones\<close>

datatype pgflag = PG_buddy | PG_head | PG_tail | PG_reserved | PG_mlocked | PG_hwpoison
  | PG_other nat

datatype compound_dtor = No_dtor | Free_compound_page

record page =
  flags :: "pgflag set"
  pg_private :: nat
  pg_count :: int
  mapcount :: int
  mapping :: nat
  first_page :: nat
  lru_next_dtor :: compound_dtor
  lru_prev_order :: nat
  zone_id :: nat
  zero_filled :: bool

record free_area =
  free_list :: "nat \<Rightarrow> nat list"
  nr_free :: int

record per_cpu_pages =
  pcp_count :: int
  pcp_high :: int
  pcp_batch :: int
  pcp_lists :: "nat \<Rightarrow> nat list"

record zone =
  zone_start_pfn :: nat
  spanned_pages :: nat
  present_pages :: nat
  area :: "nat \<Rightarrow> free_area"
  nr_free_pages :: int
  nr_mlock :: int
  pages_scanned :: nat
  all_unreclaimable :: bool
  watermark :: "nat \<Rightarrow> nat"
  lowmem_reserve :: "nat \<Rightarrow> nat"
  pageblock_flags :: "nat \<Rightarrow> bool"
  pageset :: "nat \<Rightarrow> per_cpu_pages"

record mmcfg =
  MAX_ORDER :: nat
  pageblock_order :: nat
  pfn_valid_within :: "nat \<Rightarrow> bool"
  PAGE_FLAGS_CHECK_AT_FREE :: "pgflag set"
  PAGE_FLAGS_CHECK_AT_PREP :: "pgflag set"
  HZ :: u32

record bad_page_log =
  resume :: u32
  nr_shown :: nat
  nr_unshown :: u32
  printed :: nat

record mm =
  mem_map :: "nat \<Rightarrow> page"
  zones :: "nat \<Rightarrow> zone"
  page_group_by_mobility_disabled :: bool
  jiffies :: u32
  bad_log :: bad_page_log
  tainted :: bool
  ev_pgfree :: int
  ev_pgalloc :: int
  ev_mlockfreed :: int

text \<open>The migrate types, numbered as the code compares them.\<close>

abbreviation (input) "MIGRATE_UNMOVABLE \<equiv> (0::nat)"
abbreviation (input) "MIGRATE_RECLAIMABLE \<equiv> (1::nat)"
abbreviation (input) "MIGRATE_MOVABLE \<equiv> (2::nat)"
abbreviation (input) "MIGRATE_PCPTYPES \<equiv> (3::nat)"
abbreviation (input) "MIGRATE_RESERVE \<equiv> (3::nat)"
abbreviation (input) "MIGRATE_ISOLATE \<equiv> (4::nat)"
abbreviation (input) "MIGRATE_TYPES \<equiv> (5::nat)"

section \<open>Primitive updates\<close>

definition upd_page :: "nat \<Rightarrow> (page \<Rightarrow> page) \<Rightarrow> mm \<Rightarrow> mm" where
  "upd_page p f s = s\<lparr>mem_map := (mem_map s)(p := f (mem_map s p))\<rparr>"

definition upd_zone :: "nat \<Rightarrow> (zone \<Rightarrow> zone) \<Rightarrow> mm \<Rightarrow> mm" where
  "upd_zone z f s = s\<lparr>zones := (zones s)(z := f (zones s z))\<rparr>"

definition upd_area :: "nat \<Rightarrow> nat \<Rightarrow> (free_area \<Rightarrow> free_area) \<Rightarrow> mm \<Rightarrow> mm" where
  "upd_area z ord f = upd_zone z (\<lambda>g. g\<lparr>area := (area g)(ord := f (area g ord))\<rparr>)"

definition PageBuddy :: "mm \<Rightarrow> nat \<Rightarrow> bool" where
  "PageBuddy s p \<longleftrightarrow> PG_buddy \<in> flags (mem_map s p)"

definition PageHead :: "mm \<Rightarrow> nat \<Rightarrow> bool" where
  "PageHead s p \<longleftrightarrow> PG_head \<in> flags (mem_map s p)"

definition PageTail :: "mm \<Rightarrow> nat \<Rightarrow> bool" where
  "PageTail s p \<longleftrightarrow> PG_tail \<in> flags (mem_map s p)"

definition PageCompound :: "mm \<Rightarrow> nat \<Rightarrow> bool" where
  "PageCompound s p \<longleftrightarrow> PageHead s p \<or> PageTail s p"

definition PageAnon :: "mm \<Rightarrow> nat \<Rightarrow> bool" where
  "PageAnon s p \<longleftrightarrow> odd (mapping (mem_map s p))"

definition set_flag :: "pgflag \<Rightarrow> nat \<Rightarrow> mm \<Rightarrow> mm" where
  "set_flag f p = upd_page p (\<lambda>g. g\<lparr>flags := insert f (flags g)\<rparr>)"

definition clear_flag :: "pgflag \<Rightarrow> nat \<Rightarrow> mm \<Rightarrow> mm" where
  "clear_flag f p = upd_page p (\<lambda>g. g\<lparr>flags := flags g - {f}\<rparr>)"

text \<open>
  \<open>list_add(&page->lru, &zone->free_area[ord].free_list[t])\<close> links a page at the head of a
  free list. \<open>list_del(&page->lru)\<close> unlinks it from whichever free list of the zone its
  \<open>lru\<close> is on: the code does not name the list.
\<close>

definition list_add_free :: "nat \<Rightarrow> nat \<Rightarrow> nat \<Rightarrow> nat \<Rightarrow> mm \<Rightarrow> mm" where
  "list_add_free z ord t p =
     upd_area z ord (\<lambda>a. a\<lparr>free_list := (free_list a)(t := p # free_list a t)\<rparr>)"

definition list_del_free :: "nat \<Rightarrow> nat \<Rightarrow> mm \<Rightarrow> mm" where
  "list_del_free z p =
     upd_zone z (\<lambda>g. g\<lparr>area := (\<lambda>ord. (area g ord)
       \<lparr>free_list := (\<lambda>t. remove1 p (free_list (area g ord) t))\<rparr>)\<rparr>)"

definition add_nr_free :: "nat \<Rightarrow> nat \<Rightarrow> int \<Rightarrow> mm \<Rightarrow> mm" where
  "add_nr_free z ord d = upd_area z ord (\<lambda>a. a\<lparr>nr_free := nr_free a + d\<rparr>)"

definition mod_nr_free_pages :: "nat \<Rightarrow> int \<Rightarrow> mm \<Rightarrow> mm" where
  "mod_nr_free_pages z d = upd_zone z (\<lambda>g. g\<lparr>nr_free_pages := nr_free_pages g + d\<rparr>)"

section \<open>Compound pages (include/linux/mm.h)\<close>

definition compound_head :: "mm \<Rightarrow> nat \<Rightarrow> nat" where
  "compound_head s p = (if PageTail s p then first_page (mem_map s p) else p)"

definition page_count :: "mm \<Rightarrow> nat \<Rightarrow> int" where
  "page_count s p = pg_count (mem_map s (compound_head s p))"

definition set_compound_page_dtor :: "nat \<Rightarrow> compound_dtor \<Rightarrow> mm \<Rightarrow> mm" where
  "set_compound_page_dtor p d = upd_page (p + 1) (\<lambda>g. g\<lparr>lru_next_dtor := d\<rparr>)"

definition compound_order :: "mm \<Rightarrow> nat \<Rightarrow> nat" where
  "compound_order s p = (if \<not> PageHead s p then 0 else lru_prev_order (mem_map s (p + 1)))"

definition set_compound_order :: "nat \<Rightarrow> nat \<Rightarrow> mm \<Rightarrow> mm" where
  "set_compound_order p ord = upd_page (p + 1) (\<lambda>g. g\<lparr>lru_prev_order := ord\<rparr>)"

definition put_page_testzero :: "nat \<Rightarrow> mm \<Rightarrow> bool \<times> mm" where
  "put_page_testzero p s =
     (let s' = upd_page p (\<lambda>g. g\<lparr>pg_count := pg_count g - 1\<rparr>) s
      in (pg_count (mem_map s' p) = 0, s'))"

definition set_page_refcounted :: "nat \<Rightarrow> mm \<Rightarrow> mm" where
  "set_page_refcounted p = upd_page p (\<lambda>g. g\<lparr>pg_count := 1\<rparr>)"

section \<open>What the proofs read\<close>

definition fl :: "mm \<Rightarrow> nat \<Rightarrow> nat \<Rightarrow> nat \<Rightarrow> nat list" where
  "fl s z ord t = free_list (area (zones s z) ord) t"

definition nf :: "mm \<Rightarrow> nat \<Rightarrow> nat \<Rightarrow> int" where
  "nf s z ord = nr_free (area (zones s z) ord)"

definition page_order :: "mm \<Rightarrow> nat \<Rightarrow> nat" where
  "page_order s p = pg_private (mem_map s p)"

definition page_zone :: "mm \<Rightarrow> nat \<Rightarrow> nat" where
  "page_zone s p = zone_id (mem_map s p)"

lemmas proj_defs = fl_def nf_def page_order_def page_zone_def PageBuddy_def
  list_add_free_def list_del_free_def add_nr_free_def mod_nr_free_pages_def
  upd_area_def upd_zone_def upd_page_def set_flag_def clear_flag_def

lemma fl_list_add [proj_simps]:
  "fl (list_add_free z ord t p s) z' ord' t' =
     (if z' = z \<and> ord' = ord \<and> t' = t then p # fl s z ord t else fl s z' ord' t')"
  by (simp add: proj_defs)

lemma fl_list_del [proj_simps]:
  "fl (list_del_free z p s) z' ord t = (if z' = z then remove1 p (fl s z ord t) else fl s z' ord t)"
  by (simp add: proj_defs)

lemma fl_frame [proj_simps]:
  "fl (add_nr_free z ord d s) = fl s"
  "fl (mod_nr_free_pages z d s) = fl s"
  "fl (upd_page p f s) = fl s"
  by (auto simp: proj_defs fun_eq_iff)

lemma nf_add_nr_free [proj_simps]:
  "nf (add_nr_free z ord d s) z' ord' = nf s z' ord' + (if z' = z \<and> ord' = ord then d else 0)"
  by (simp add: proj_defs)

lemma nf_frame [proj_simps]:
  "nf (list_add_free z ord t p s) = nf s"
  "nf (list_del_free z p s) = nf s"
  "nf (mod_nr_free_pages z d s) = nf s"
  "nf (upd_page p f s) = nf s"
  by (auto simp: proj_defs fun_eq_iff)

lemma mem_map_frame [proj_simps]:
  "mem_map (list_add_free z ord t p s) = mem_map s"
  "mem_map (list_del_free z p s) = mem_map s"
  "mem_map (add_nr_free z ord d s) = mem_map s"
  "mem_map (mod_nr_free_pages z d s) = mem_map s"
  "mem_map (upd_page p f s) q = (if q = p then f (mem_map s p) else mem_map s q)"
  by (auto simp: proj_defs)

lemma nr_free_pages_frame [proj_simps]:
  "nr_free_pages (zones (list_add_free z ord t p s) z') = nr_free_pages (zones s z')"
  "nr_free_pages (zones (list_del_free z p s) z') = nr_free_pages (zones s z')"
  "nr_free_pages (zones (add_nr_free z ord d s) z') = nr_free_pages (zones s z')"
  "nr_free_pages (zones (upd_page p f s) z') = nr_free_pages (zones s z')"
  "nr_free_pages (zones (mod_nr_free_pages z d s) z') =
     nr_free_pages (zones s z') + (if z' = z then d else 0)"
  by (auto simp: proj_defs)

end
