(* ===== verification/Pageblock.thy ===== *)
theory Pageblock
  imports Page_Types
begin

text \<open>
  The pageblock bitmap of a zone (the end of mm/page\_alloc.c): a few bits per block of
  \<open>2 ^ pageblock_order\<close> frames hold the block's migrate type. The lemmas give the round trip
  of \<open>set_pageblock_flags_group\<close> and \<open>get_pageblock_flags_group\<close>, and that setting one block
  leaves the others alone.
\<close>

abbreviation (input) "PB_migrate \<equiv> (0::nat)"
abbreviation (input) "PB_migrate_end \<equiv> (2::nat)"
abbreviation (input) "NR_PAGEBLOCK_BITS \<equiv> (3::nat)"

definition get_pageblock_bitmap :: "mm \<Rightarrow> nat \<Rightarrow> (nat \<Rightarrow> bool)" where
  "get_pageblock_bitmap s z = pageblock_flags (zones s z)"

definition pfn_to_bitidx :: "mmcfg \<Rightarrow> mm \<Rightarrow> nat \<Rightarrow> nat \<Rightarrow> nat" where
  "pfn_to_bitidx c s z pfn =
     drop_bit (pageblock_order c) (pfn - zone_start_pfn (zones s z)) * NR_PAGEBLOCK_BITS"

function get_flags_loop :: "(nat \<Rightarrow> bool) \<Rightarrow> nat \<Rightarrow> nat \<Rightarrow> nat \<Rightarrow> nat \<Rightarrow> nat \<Rightarrow> nat" where
  "get_flags_loop bitmap bitidx start_bitidx end_bitidx value flgs =
     (if start_bitidx \<le> end_bitidx
      then get_flags_loop bitmap bitidx (start_bitidx + 1) end_bitidx (push_bit 1 value)
             (if bitmap (bitidx + start_bitidx) then flgs OR value else flgs)
      else flgs)"
  by pat_completeness auto
termination
  by (relation "measure (\<lambda>(bm, b, s, e, v, f). Suc e - s)") auto

function set_flags_loop :: "nat \<Rightarrow> nat \<Rightarrow> nat \<Rightarrow> nat \<Rightarrow> nat \<Rightarrow> (nat \<Rightarrow> bool) \<Rightarrow> (nat \<Rightarrow> bool)" where
  "set_flags_loop flgs bitidx start_bitidx end_bitidx value bitmap =
     (if start_bitidx \<le> end_bitidx
      then set_flags_loop flgs bitidx (start_bitidx + 1) end_bitidx (push_bit 1 value)
             (bitmap(bitidx + start_bitidx := (flgs AND value \<noteq> 0)))
      else bitmap)"
  by pat_completeness auto
termination
  by (relation "measure (\<lambda>(f, b, s, e, v, bm). Suc e - s)") auto

declare get_flags_loop.simps [simp del] set_flags_loop.simps [simp del]

definition get_pageblock_flags_group :: "mmcfg \<Rightarrow> mm \<Rightarrow> nat \<Rightarrow> nat \<Rightarrow> nat \<Rightarrow> nat" where
  "get_pageblock_flags_group c s pfn start_bitidx end_bitidx =
     (let z = page_zone s pfn
      in get_flags_loop (get_pageblock_bitmap s z) (pfn_to_bitidx c s z pfn)
           start_bitidx end_bitidx 1 0)"

definition set_pageblock_flags_group :: "mmcfg \<Rightarrow> nat \<Rightarrow> nat \<Rightarrow> nat \<Rightarrow> nat \<Rightarrow> mm \<Rightarrow> mm" where
  "set_pageblock_flags_group c pfn flgs start_bitidx end_bitidx s =
     (let z = page_zone s pfn
      in upd_zone z (\<lambda>g. g\<lparr>pageblock_flags :=
           set_flags_loop flgs (pfn_to_bitidx c s z pfn) start_bitidx end_bitidx 1
             (get_pageblock_bitmap s z)\<rparr>) s)"

definition get_pageblock_migratetype :: "mmcfg \<Rightarrow> mm \<Rightarrow> nat \<Rightarrow> nat" where
  "get_pageblock_migratetype c s pfn =
     get_pageblock_flags_group c s pfn PB_migrate PB_migrate_end"

definition set_pageblock_migratetype :: "mmcfg \<Rightarrow> nat \<Rightarrow> nat \<Rightarrow> mm \<Rightarrow> mm" where
  "set_pageblock_migratetype c pfn migratetype s =
     (let t = (if page_group_by_mobility_disabled s then MIGRATE_UNMOVABLE else migratetype)
      in set_pageblock_flags_group c pfn t PB_migrate PB_migrate_end s)"

section \<open>The loops, bit by bit\<close>

lemma set_flags_loop_bit:
  "set_flags_loop flgs b s e (2 ^ k) bm i =
     (if b + s \<le> i \<and> i \<le> b + e then bit flgs (i - (b + s) + k) else bm i)"
proof (induction flgs b s e "2 ^ k :: nat" bm arbitrary: k rule: set_flags_loop.induct)
  case (1 flgs b s e bm k)
  have and_bit: "(flgs AND 2 ^ k \<noteq> 0) = bit flgs k"
    by (auto simp: and_exp_eq_0_iff_not_bit)
  show ?case
  proof (cases "s \<le> e")
    case True
    let ?bm = "bm(b + s := (flgs AND 2 ^ k \<noteq> 0))"
    have p: "push_bit 1 (2 ^ k) = (2 ^ Suc k :: nat)"
      by (simp add: push_bit_eq_mult)
    have "set_flags_loop flgs b s e (2 ^ k) bm = set_flags_loop flgs b (s + 1) e (2 ^ Suc k) ?bm"
      by (subst set_flags_loop.simps) (simp only: p True if_True)
    then have "set_flags_loop flgs b s e (2 ^ k) bm i =
        (if b + (s + 1) \<le> i \<and> i \<le> b + e then bit flgs (i - (b + (s + 1)) + Suc k) else ?bm i)"
      using "1" [of "Suc k"] True p by simp
    also have "\<dots> = (if b + s \<le> i \<and> i \<le> b + e then bit flgs (i - (b + s) + k) else bm i)"
      using True and_bit by (cases "i = b + s") (simp_all add: Suc_diff_Suc)
    finally show ?thesis .
  qed (subst set_flags_loop.simps, auto)
qed

lemma get_flags_loop_bit:
  "bit (get_flags_loop bm b s e (2 ^ k) flgs) j =
     (bit flgs j \<or> (k \<le> j \<and> j - k + s \<le> e \<and> bm (b + s + (j - k))))"
proof (induction bm b s e "2 ^ k :: nat" flgs arbitrary: k rule: get_flags_loop.induct)
  case (1 bm b s e flgs k)
  have p: "push_bit 1 (2 ^ k) = (2 ^ Suc k :: nat)"
    by (simp add: push_bit_eq_mult)
  let ?f = "if bm (b + s) then flgs OR 2 ^ k else flgs"
  have f: "bit ?f j = (bit flgs j \<or> (j = k \<and> bm (b + s)))"
    by (auto simp: bit_or_iff bit_exp_iff)
  show ?case
  proof (cases "s \<le> e")
    case True
    have "get_flags_loop bm b s e (2 ^ k) flgs = get_flags_loop bm b (s + 1) e (2 ^ Suc k) ?f"
      by (subst get_flags_loop.simps) (simp only: p True if_True)
    then have "bit (get_flags_loop bm b s e (2 ^ k) flgs) j =
        (bit ?f j \<or> (Suc k \<le> j \<and> j - Suc k + (s + 1) \<le> e \<and> bm (b + (s + 1) + (j - Suc k))))"
      using "1" [of "Suc k"] True p by simp
    also have "\<dots> = (bit flgs j \<or> (k \<le> j \<and> j - k + s \<le> e \<and> bm (b + s + (j - k))))"
      using f True by (cases "j = k") (auto simp: Suc_diff_Suc)
    finally show ?thesis .
  qed (subst get_flags_loop.simps, auto)
qed

lemma get_after_set_flags:
  "get_flags_loop (set_flags_loop flgs b s e 1 bm) b s e 1 0 = take_bit (Suc e - s) flgs"
proof (rule bit_eqI)
  fix j
  show "bit (get_flags_loop (set_flags_loop flgs b s e 1 bm) b s e 1 0) j
      = bit (take_bit (Suc e - s) flgs) j"
    using get_flags_loop_bit [of "set_flags_loop flgs b s e 1 bm" b s e 0 0 j]
      set_flags_loop_bit [of flgs b s e 0 bm]
    by (auto simp: bit_take_bit_iff)
qed

lemma get_set_flags_other:
  assumes "b' + e < b + s \<or> b + e < b' + s"
  shows "get_flags_loop (set_flags_loop flgs b s e 1 bm) b' s e 1 0 = get_flags_loop bm b' s e 1 0"
proof (rule bit_eqI)
  fix j
  show "bit (get_flags_loop (set_flags_loop flgs b s e 1 bm) b' s e 1 0) j
      = bit (get_flags_loop bm b' s e 1 0) j"
    using assms get_flags_loop_bit [of "set_flags_loop flgs b s e 1 bm" b' s e 0 0 j]
      get_flags_loop_bit [of bm b' s e 0 0 j] set_flags_loop_bit [of flgs b s e 0 bm]
    by auto
qed

section \<open>The round trip of a block's migrate type\<close>

lemma page_zone_set_flags [proj_simps]:
  "page_zone (set_pageblock_flags_group c pfn f a b s) q = page_zone s q"
  by (simp add: set_pageblock_flags_group_def Let_def upd_zone_def page_zone_def)

lemma bitidx_set_flags [proj_simps]:
  "pfn_to_bitidx c (set_pageblock_flags_group c' pfn f a b s) z q = pfn_to_bitidx c s z q"
  by (simp add: set_pageblock_flags_group_def Let_def upd_zone_def pfn_to_bitidx_def)

lemma set_pageblock_migratetype_frame [proj_simps]:
  "fl (set_pageblock_migratetype c pfn t s) = fl s"
  "nf (set_pageblock_migratetype c pfn t s) = nf s"
  "mem_map (set_pageblock_migratetype c pfn t s) = mem_map s"
  "nr_free_pages (zones (set_pageblock_migratetype c pfn t s) z) = nr_free_pages (zones s z)"
  "zone_start_pfn (zones (set_pageblock_migratetype c pfn t s) z) = zone_start_pfn (zones s z)"
  "spanned_pages (zones (set_pageblock_migratetype c pfn t s) z) = spanned_pages (zones s z)"
  by (auto simp: set_pageblock_migratetype_def set_pageblock_flags_group_def Let_def
      fl_def nf_def upd_zone_def fun_eq_iff)

lemma get_set_migratetype:
  assumes "t < 8" and "\<not> page_group_by_mobility_disabled s"
    and "page_zone s q = page_zone s p"
    and "pfn_to_bitidx c s (page_zone s q) q = pfn_to_bitidx c s (page_zone s p) p"
  shows "get_pageblock_migratetype c (set_pageblock_migratetype c p t s) q = t"
  using assms get_after_set_flags [of t "pfn_to_bitidx c s (page_zone s p) p" 0 2]
  by (simp add: get_pageblock_migratetype_def get_pageblock_flags_group_def
      set_pageblock_migratetype_def Let_def proj_simps get_pageblock_bitmap_def
      set_pageblock_flags_group_def upd_zone_def take_bit_nat_eq_self pfn_to_bitidx_def page_zone_def)

text \<open>
  \<open>set_pageblock_migratetype\<close> followed by \<open>get_pageblock_migratetype\<close> reads back the type
  that was stored, for every frame of the same pageblock of the same zone, and every frame of
  another pageblock (of any zone) keeps the type it had. The frames lie above the start of
  their zones, as the code's \<open>VM_BUG_ON\<close> demands.
\<close>

theorem pageblock_migratetype_roundtrip:
  assumes "t < 8" and "\<not> page_group_by_mobility_disabled s"
    and "zone_start_pfn (zones s (page_zone s p)) \<le> p"
    and "zone_start_pfn (zones s (page_zone s q)) \<le> q"
  shows "get_pageblock_migratetype c (set_pageblock_migratetype c p t s) q =
    (if page_zone s q = page_zone s p
        \<and> drop_bit (pageblock_order c) (q - zone_start_pfn (zones s (page_zone s p)))
          = drop_bit (pageblock_order c) (p - zone_start_pfn (zones s (page_zone s p)))
     then t else get_pageblock_migratetype c s q)"
proof (cases "page_zone s q = page_zone s p
    \<and> drop_bit (pageblock_order c) (q - zone_start_pfn (zones s (page_zone s p)))
      = drop_bit (pageblock_order c) (p - zone_start_pfn (zones s (page_zone s p)))")
  case True
  then show ?thesis
    using get_set_migratetype [of t s q p c] assms by (simp add: pfn_to_bitidx_def)
next
  case False
  let ?b = "\<lambda>x. pfn_to_bitidx c s (page_zone s x) x"
  show ?thesis
  proof (cases "page_zone s q = page_zone s p")
    case True
    with False have "?b q + 2 < ?b p + 0 \<or> ?b p + 2 < ?b q + 0"
      by (auto simp: pfn_to_bitidx_def)
    from get_set_flags_other [OF this, of t "get_pageblock_bitmap s (page_zone s p)"]
    show ?thesis
      using False True assms
      by (simp add: get_pageblock_migratetype_def get_pageblock_flags_group_def
          set_pageblock_migratetype_def Let_def proj_simps get_pageblock_bitmap_def
          set_pageblock_flags_group_def upd_zone_def pfn_to_bitidx_def page_zone_def)
  next
    case other: False
    then show ?thesis
      using False assms
      by (simp add: get_pageblock_migratetype_def get_pageblock_flags_group_def
          set_pageblock_migratetype_def Let_def proj_simps get_pageblock_bitmap_def
          set_pageblock_flags_group_def upd_zone_def pfn_to_bitidx_def page_zone_def)
  qed
qed

definition mm0 :: mm where
  "mm0 = \<lparr>mem_map = (\<lambda>p. \<lparr>flags = {}, pg_private = 0, pg_count = 0, mapcount = 0, mapping = 0,
       first_page = 0, lru_next_dtor = No_dtor, lru_prev_order = 0, zone_id = 0,
       zero_filled = False\<rparr>),
     zones = (\<lambda>z. \<lparr>zone_start_pfn = 0, spanned_pages = 64, present_pages = 64,
       area = (\<lambda>ord. \<lparr>free_list = (\<lambda>t. []), nr_free = 0\<rparr>), nr_free_pages = 0, nr_mlock = 0,
       pages_scanned = 0, all_unreclaimable = False, watermark = (\<lambda>_. 0),
       lowmem_reserve = (\<lambda>_. 0), pageblock_flags = (\<lambda>_. False),
       pageset = (\<lambda>_. \<lparr>pcp_count = 0, pcp_high = 6, pcp_batch = 1, pcp_lists = (\<lambda>t. [])\<rparr>)\<rparr>),
     page_group_by_mobility_disabled = False, jiffies = 0,
     bad_log = \<lparr>resume = 0, nr_shown = 0, nr_unshown = 0, printed = 0\<rparr>, tainted = False,
     ev_pgfree = 0, ev_pgalloc = 0, ev_mlockfreed = 0\<rparr>"

definition cfg0 :: mmcfg where
  "cfg0 = \<lparr>MAX_ORDER = 3, pageblock_order = 2, pfn_valid_within = (\<lambda>_. True),
     PAGE_FLAGS_CHECK_AT_FREE = {PG_buddy, PG_reserved, PG_mlocked},
     PAGE_FLAGS_CHECK_AT_PREP = {PG_buddy, PG_reserved, PG_mlocked}, HZ = 100\<rparr>"

theorem pageblock_migratetype_roundtrip_witness:
  "get_pageblock_migratetype cfg0 (set_pageblock_migratetype cfg0 9 MIGRATE_MOVABLE mm0) 10
     = MIGRATE_MOVABLE
   \<and> get_pageblock_migratetype cfg0 (set_pageblock_migratetype cfg0 9 MIGRATE_MOVABLE mm0) 12
     = get_pageblock_migratetype cfg0 mm0 12"
  using pageblock_migratetype_roundtrip [of MIGRATE_MOVABLE mm0 9 10 cfg0]
    pageblock_migratetype_roundtrip [of MIGRATE_MOVABLE mm0 9 12 cfg0]
  by (simp add: mm0_def cfg0_def page_zone_def drop_bit_eq_div)

end
