(* ===== verification/Buddy.thy ===== *)
theory Buddy
  imports Pageblock
begin

text \<open>
  The buddy system of mm/page\_alloc.c: \<open>\<^verbatim>\<open>__free_one_page\<close>\<close> with its coalescing loop,
  \<open>expand\<close> and \<open>\<^verbatim>\<open>__rmqueue_smallest\<close>\<close>, the compound-page set-up and tear-down, and the page
  checks on the two paths. A name that starts with two underscores in the code starts with
  \<open>uu_\<close> here. The build is the one without CONFIG\_DEBUG\_VM: \<open>VM_BUG_ON\<close> and \<open>bad_range\<close> are
  empty, and what they would check are the preconditions of the lemmas.
\<close>

section \<open>Bad pages\<close>

definition time_before :: "u32 \<Rightarrow> u32 \<Rightarrow> bool" where
  "time_before a b \<longleftrightarrow> sint (a - b) < 0"

definition bad_page_report :: "mmcfg \<Rightarrow> u32 \<Rightarrow> bad_page_log \<Rightarrow> bad_page_log" where
  "bad_page_report c now l =
     (if nr_shown l = 60 \<and> time_before now (resume l)
      then l\<lparr>nr_unshown := nr_unshown l + 1\<rparr>
      else
        let l1 = (if nr_shown l = 60
                  then (if nr_unshown l \<noteq> 0 then l\<lparr>nr_unshown := 0\<rparr> else l)\<lparr>nr_shown := 0\<rparr>
                  else l);
            l2 = (if nr_shown l1 = 0 then l1\<lparr>resume := now + 60 * HZ c\<rparr> else l1)
        in l2\<lparr>nr_shown := nr_shown l1 + 1, printed := printed l2 + 1\<rparr>)"

definition bad_page :: "mmcfg \<Rightarrow> nat \<Rightarrow> mm \<Rightarrow> mm" where
  "bad_page c p s =
     (if PG_hwpoison \<in> flags (mem_map s p) then clear_flag PG_buddy p s
      else (clear_flag PG_buddy p (s\<lparr>bad_log := bad_page_report c (jiffies s) (bad_log s)\<rparr>))
             \<lparr>tainted := True\<rparr>)"

section \<open>Compound pages\<close>

definition prep_compound_tail :: "nat \<Rightarrow> mm \<Rightarrow> nat \<Rightarrow> mm" where
  "prep_compound_tail p s i =
     upd_page (p + i) (\<lambda>g. g\<lparr>first_page := p\<rparr>) (set_flag PG_tail (p + i) s)"

definition prep_compound_page :: "nat \<Rightarrow> nat \<Rightarrow> mm \<Rightarrow> mm" where
  "prep_compound_page p ord s =
     foldl (prep_compound_tail p)
       (set_flag PG_head p (set_compound_order p ord (set_compound_page_dtor p Free_compound_page s)))
       [1..<2 ^ ord]"

definition destroy_compound_tail :: "mmcfg \<Rightarrow> nat \<Rightarrow> nat \<times> mm \<Rightarrow> nat \<Rightarrow> nat \<times> mm" where
  "destroy_compound_tail c p = (\<lambda>(bad, s) i.
     let (bad', s') = (if \<not> PageTail s (p + i) \<or> first_page (mem_map s (p + i)) \<noteq> p
                       then (bad + 1, bad_page c p s) else (bad, s))
     in (bad', clear_flag PG_tail (p + i) s'))"

definition destroy_compound_page :: "mmcfg \<Rightarrow> nat \<Rightarrow> nat \<Rightarrow> mm \<Rightarrow> nat \<times> mm" where
  "destroy_compound_page c p ord s =
     (let (bad, s1) = (if compound_order s p \<noteq> ord \<or> \<not> PageHead s p
                       then (1, bad_page c p s) else (0, s))
      in foldl (destroy_compound_tail c p) (bad, clear_flag PG_head p s1) [1..<2 ^ ord])"

definition prep_zero_page :: "nat \<Rightarrow> nat \<Rightarrow> mm \<Rightarrow> mm" where
  "prep_zero_page p ord s =
     foldl (\<lambda>s i. upd_page (p + i) (\<lambda>g. g\<lparr>zero_filled := True\<rparr>) s) s [0..<2 ^ ord]"

section \<open>Freeing a block\<close>

definition set_page_order :: "nat \<Rightarrow> nat \<Rightarrow> mm \<Rightarrow> mm" where
  "set_page_order p ord s = set_flag PG_buddy p (upd_page p (\<lambda>g. g\<lparr>pg_private := ord\<rparr>) s)"

definition rmv_page_order :: "nat \<Rightarrow> mm \<Rightarrow> mm" where
  "rmv_page_order p s = upd_page p (\<lambda>g. g\<lparr>pg_private := 0\<rparr>) (clear_flag PG_buddy p s)"

definition uu_page_find_buddy :: "nat \<Rightarrow> nat \<Rightarrow> nat \<Rightarrow> nat" where
  "uu_page_find_buddy p page_idx ord =
     (let buddy_idx = page_idx XOR push_bit ord 1 in p + buddy_idx - page_idx)"

definition uu_find_combined_index :: "nat \<Rightarrow> nat \<Rightarrow> nat" where
  "uu_find_combined_index page_idx ord = nat (int page_idx AND NOT (push_bit ord 1))"

definition page_is_buddy :: "mmcfg \<Rightarrow> mm \<Rightarrow> nat \<Rightarrow> nat \<Rightarrow> nat \<Rightarrow> bool" where
  "page_is_buddy c s p buddy ord =
     (if \<not> pfn_valid_within c buddy then False
      else if page_zone s p \<noteq> page_zone s buddy then False
      else if PageBuddy s buddy \<and> page_order s buddy = ord then True
      else False)"

function free_one_page_loop ::
  "mmcfg \<Rightarrow> nat \<Rightarrow> nat \<Rightarrow> nat \<Rightarrow> nat \<Rightarrow> mm \<Rightarrow> nat \<times> nat \<times> mm" where
  "free_one_page_loop c z p page_idx ord s =
     (if ord < MAX_ORDER c - 1 then
        let buddy = uu_page_find_buddy p page_idx ord in
        if \<not> page_is_buddy c s p buddy ord then (p, ord, s)
        else
          let s1 = rmv_page_order buddy (add_nr_free z ord (-1) (list_del_free z buddy s));
              combined_idx = uu_find_combined_index page_idx ord
          in free_one_page_loop c z (p + combined_idx - page_idx) combined_idx (ord + 1) s1
      else (p, ord, s))"
  by pat_completeness auto
termination
  by (relation "measure (\<lambda>(c, z, p, idx, ord, s). MAX_ORDER c - ord)") auto

declare free_one_page_loop.simps [simp del]

definition uu_free_one_page :: "mmcfg \<Rightarrow> nat \<Rightarrow> nat \<Rightarrow> nat \<Rightarrow> nat \<Rightarrow> mm \<Rightarrow> mm" where
  "uu_free_one_page c p z ord migratetype s =
     (let (bad, s0) = (if PageCompound s p then destroy_compound_page c p ord s else (0, s))
      in if bad \<noteq> 0 then s0
         else
           let page_idx = p AND (push_bit (MAX_ORDER c) 1 - 1);
               (p', ord', s1) = free_one_page_loop c z p page_idx ord s0
           in add_nr_free z ord' 1
                (list_add_free z ord' migratetype p' (set_page_order p' ord' s1)))"

section \<open>Checks when a page is freed\<close>

definition free_page_mlock :: "nat \<Rightarrow> mm \<Rightarrow> mm" where
  "free_page_mlock p s =
     (upd_zone (page_zone s p) (\<lambda>g. g\<lparr>nr_mlock := nr_mlock g - 1\<rparr>) s)
       \<lparr>ev_mlockfreed := ev_mlockfreed s + 1\<rparr>"

definition free_pages_check :: "mmcfg \<Rightarrow> nat \<Rightarrow> mm \<Rightarrow> nat \<times> mm" where
  "free_pages_check c p s =
     (let g = mem_map s p in
      if mapcount g \<noteq> 0 \<or> mapping g \<noteq> 0 \<or> pg_count g \<noteq> 0
          \<or> flags g \<inter> PAGE_FLAGS_CHECK_AT_FREE c \<noteq> {}
      then (1, bad_page c p s)
      else if flags g \<inter> PAGE_FLAGS_CHECK_AT_PREP c \<noteq> {}
      then (0, upd_page p (\<lambda>g. g\<lparr>flags := flags g - PAGE_FLAGS_CHECK_AT_PREP c\<rparr>) s)
      else (0, s))"

definition free_one_page :: "mmcfg \<Rightarrow> nat \<Rightarrow> nat \<Rightarrow> nat \<Rightarrow> nat \<Rightarrow> mm \<Rightarrow> mm" where
  "free_one_page c z p ord migratetype s =
     (let s1 = upd_zone z (\<lambda>g. g\<lparr>all_unreclaimable := False, pages_scanned := 0\<rparr>) s
      in uu_free_one_page c p z ord migratetype (mod_nr_free_pages z (2 ^ ord) s1))"

definition test_clear_mlocked :: "nat \<Rightarrow> mm \<Rightarrow> bool \<times> mm" where
  "test_clear_mlocked p s = (PG_mlocked \<in> flags (mem_map s p), clear_flag PG_mlocked p s)"

definition free_check_range :: "mmcfg \<Rightarrow> nat \<Rightarrow> nat \<Rightarrow> mm \<Rightarrow> nat \<times> mm" where
  "free_check_range c p n s =
     foldl (\<lambda>(bad, s) i. let (b, s') = free_pages_check c (p + i) s in (bad + b, s')) (0, s) [0..<n]"

definition uu_free_pages_ok :: "mmcfg \<Rightarrow> nat \<Rightarrow> nat \<Rightarrow> mm \<Rightarrow> mm" where
  "uu_free_pages_ok c p ord s =
     (let (wasMlocked, s1) = test_clear_mlocked p s;
          (bad, s2) = free_check_range c p (2 ^ ord) s1
      in if bad \<noteq> 0 then s2
         else
           let s3 = (if wasMlocked then free_page_mlock p s2 else s2);
               s4 = s3\<lparr>ev_pgfree := ev_pgfree s3 + 2 ^ ord\<rparr>
           in free_one_page c (page_zone s4 p) p ord (get_pageblock_migratetype c s4 p) s4)"

definition free_compound_page :: "mmcfg \<Rightarrow> nat \<Rightarrow> mm \<Rightarrow> mm" where
  "free_compound_page c p s = uu_free_pages_ok c p (compound_order s p) s"

section \<open>Taking a block\<close>

fun expand :: "nat \<Rightarrow> nat \<Rightarrow> nat \<Rightarrow> nat \<Rightarrow> nat \<Rightarrow> mm \<Rightarrow> mm" where
  "expand z p low 0 migratetype s = s"
| "expand z p low (Suc high') migratetype s =
     (if Suc high' > low then
        let size = 2 ^ high' in
        expand z p low high' migratetype
          (set_page_order (p + size) high'
            (add_nr_free z high' 1 (list_add_free z high' migratetype (p + size) s)))
      else s)"

definition check_new_page :: "mmcfg \<Rightarrow> nat \<Rightarrow> mm \<Rightarrow> bool \<times> mm" where
  "check_new_page c p s =
     (let g = mem_map s p in
      if mapcount g \<noteq> 0 \<or> mapping g \<noteq> 0 \<or> pg_count g \<noteq> 0
          \<or> flags g \<inter> PAGE_FLAGS_CHECK_AT_PREP c \<noteq> {}
      then (True, bad_page c p s)
      else (False, s))"

fun check_new_pages :: "mmcfg \<Rightarrow> nat \<Rightarrow> nat list \<Rightarrow> mm \<Rightarrow> bool \<times> mm" where
  "check_new_pages c p [] s = (False, s)"
| "check_new_pages c p (i # is) s =
     (let (b, s') = check_new_page c (p + i) s
      in if b then (True, s') else check_new_pages c p is s')"

definition prep_new_page :: "mmcfg \<Rightarrow> nat \<Rightarrow> nat \<Rightarrow> bool \<Rightarrow> bool \<Rightarrow> mm \<Rightarrow> bool \<times> mm" where
  "prep_new_page c p ord gfp_zero gfp_comp s =
     (let (bad, s1) = check_new_pages c p [0..<2 ^ ord] s
      in if bad then (True, s1)
         else
           let s2 = set_page_refcounted p (upd_page p (\<lambda>g. g\<lparr>pg_private := 0\<rparr>) s1);
               s3 = (if gfp_zero then prep_zero_page p ord s2 else s2);
               s4 = (if ord \<noteq> 0 \<and> gfp_comp then prep_compound_page p ord s3 else s3)
           in (False, s4))"

function rmqueue_smallest_loop ::
  "mmcfg \<Rightarrow> nat \<Rightarrow> nat \<Rightarrow> nat \<Rightarrow> nat \<Rightarrow> mm \<Rightarrow> nat option \<times> mm" where
  "rmqueue_smallest_loop c z ord migratetype current_order s =
     (if current_order < MAX_ORDER c then
        (case fl s z current_order migratetype of
           [] \<Rightarrow> rmqueue_smallest_loop c z ord migratetype (current_order + 1) s
         | p # _ \<Rightarrow>
             (Some p,
              expand z p ord current_order migratetype
                (add_nr_free z current_order (-1) (rmv_page_order p (list_del_free z p s)))))
      else (None, s))"
  by pat_completeness auto
termination
  by (relation "measure (\<lambda>(c, z, ord, t, cur, s). MAX_ORDER c - cur)") auto

declare rmqueue_smallest_loop.simps [simp del]

definition uu_rmqueue_smallest :: "mmcfg \<Rightarrow> nat \<Rightarrow> nat \<Rightarrow> nat \<Rightarrow> mm \<Rightarrow> nat option \<times> mm" where
  "uu_rmqueue_smallest c z ord migratetype s =
     rmqueue_smallest_loop c z ord migratetype ord s"

end
