(* ===== verification/Buddy_Inv.thy ===== *)
theory Buddy_Inv
  imports Buddy
begin

text \<open>
  The invariant of a zone's free lists and its preservation by the buddy system. The abstract
  state of a zone is its set of free blocks \<open>(frame, order)\<close>; linking and unlinking one block
  are relations on states that every list manipulation of the code implements, so the loops
  of \<open>\<^verbatim>\<open>__free_one_page\<close>\<close>, \<open>expand\<close> and \<open>\<^verbatim>\<open>__rmqueue_smallest\<close>\<close> are proved on blocks.
\<close>

section \<open>Free blocks and the invariant\<close>

definition free_blocks :: "mm \<Rightarrow> nat \<Rightarrow> (nat \<times> nat) set" where
  "free_blocks s z = {(p, ord). \<exists>t. p \<in> set (fl s z ord t)}"

definition free_pfns :: "mm \<Rightarrow> nat \<Rightarrow> nat set" where
  "free_pfns s z = (\<Union>(p, ord) \<in> free_blocks s z. blk p ord)"

definition block_ok :: "mmcfg \<Rightarrow> mm \<Rightarrow> nat \<Rightarrow> nat \<Rightarrow> nat \<Rightarrow> bool" where
  "block_ok c s z p ord \<longleftrightarrow> ord < MAX_ORDER c \<and> 2 ^ ord dvd p
     \<and> (\<forall>q \<in> blk p ord. page_zone s q = z \<and> pfn_valid_within c q)"

definition lists_wf :: "mmcfg \<Rightarrow> mm \<Rightarrow> nat \<Rightarrow> bool" where
  "lists_wf c s z \<longleftrightarrow>
     (\<forall>ord t. distinct (fl s z ord t)) \<and>
     (\<forall>ord t p. p \<in> set (fl s z ord t) \<longrightarrow>
        t < MIGRATE_TYPES \<and> block_ok c s z p ord \<and> PageBuddy s p \<and> page_order s p = ord) \<and>
     (\<forall>ord t t' p. p \<in> set (fl s z ord t) \<longrightarrow> p \<in> set (fl s z ord t') \<longrightarrow> t = t') \<and>
     (\<forall>p. page_zone s p = z \<longrightarrow> PageBuddy s p \<longrightarrow> (p, page_order s p) \<in> free_blocks s z) \<and>
     (\<forall>p ord q r. (p, ord) \<in> free_blocks s z \<longrightarrow> (q, r) \<in> free_blocks s z \<longrightarrow>
        (p, ord) \<noteq> (q, r) \<longrightarrow> blk p ord \<inter> blk q r = {}) \<and>
     (\<forall>ord. nf s z ord = (\<Sum>t<MIGRATE_TYPES. int (length (fl s z ord t))))"

definition coalesced :: "mmcfg \<Rightarrow> mm \<Rightarrow> nat \<Rightarrow> bool" where
  "coalesced c s z \<longleftrightarrow> (\<forall>p ord. (p, ord) \<in> free_blocks s z \<longrightarrow> ord < MAX_ORDER c - 1 \<longrightarrow>
     (buddy_of p ord, ord) \<notin> free_blocks s z)"

definition in_hand :: "mmcfg \<Rightarrow> mm \<Rightarrow> nat \<Rightarrow> nat \<Rightarrow> nat \<Rightarrow> bool" where
  "in_hand c s z p ord \<longleftrightarrow> block_ok c s z p ord \<and> blk p ord \<inter> free_pfns s z = {}"

lemma free_blocksI: "p \<in> set (fl s z ord t) \<Longrightarrow> (p, ord) \<in> free_blocks s z"
  by (auto simp: free_blocks_def)

lemma free_blocksE:
  assumes "(p, ord) \<in> free_blocks s z"
  obtains t where "p \<in> set (fl s z ord t)"
  using assms by (auto simp: free_blocks_def)

lemma wf_distinct: "lists_wf c s z \<Longrightarrow> distinct (fl s z ord t)"
  by (simp add: lists_wf_def)

lemma wf_member:
  assumes "lists_wf c s z" and "p \<in> set (fl s z ord t)"
  shows "t < MIGRATE_TYPES" and "block_ok c s z p ord" and "PageBuddy s p" and "page_order s p = ord"
  using assms by (simp_all add: lists_wf_def)

lemma wf_type_unique:
  "lists_wf c s z \<Longrightarrow> p \<in> set (fl s z ord t) \<Longrightarrow> p \<in> set (fl s z ord t') \<Longrightarrow> t = t'"
  unfolding lists_wf_def by blast

lemma wf_buddy_listed:
  "lists_wf c s z \<Longrightarrow> page_zone s p = z \<Longrightarrow> PageBuddy s p \<Longrightarrow>
     (p, page_order s p) \<in> free_blocks s z"
  unfolding lists_wf_def by blast

lemma wf_disjoint:
  "lists_wf c s z \<Longrightarrow> (p, ord) \<in> free_blocks s z \<Longrightarrow> (q, r) \<in> free_blocks s z \<Longrightarrow>
     (p, ord) \<noteq> (q, r) \<Longrightarrow> blk p ord \<inter> blk q r = {}"
  unfolding lists_wf_def by blast

lemma wf_nf: "lists_wf c s z \<Longrightarrow> nf s z ord = (\<Sum>t<MIGRATE_TYPES. int (length (fl s z ord t)))"
  by (simp add: lists_wf_def)

lemma wf_block:
  assumes wf: "lists_wf c s z" and "(p, ord) \<in> free_blocks s z"
  shows "block_ok c s z p ord" "PageBuddy s p" "page_order s p = ord"
proof -
  obtain t where "p \<in> set (fl s z ord t)"
    using assms(2) by (rule free_blocksE)
  then show "block_ok c s z p ord" "PageBuddy s p" "page_order s p = ord"
    using wf_member [OF wf] by blast+
qed

lemma wf_order_unique:
  "lists_wf c s z \<Longrightarrow> (p, ord) \<in> free_blocks s z \<Longrightarrow> (p, r) \<in> free_blocks s z \<Longrightarrow> r = ord"
  using wf_block(3) by blast

lemma in_hand_not_listed:
  assumes wf: "lists_wf c s z" and "in_hand c s z p ord"
  shows "p \<notin> set (fl s z r t)" and "\<not> PageBuddy s p"
proof -
  have p: "p \<notin> free_pfns s z" and z: "page_zone s p = z"
    using assms by (auto simp: in_hand_def block_ok_def)
  have none: "(p, r) \<notin> free_blocks s z" for r
  proof
    assume "(p, r) \<in> free_blocks s z"
    then have "p \<in> free_pfns s z"
      unfolding free_pfns_def by (rule UN_I) simp
    then show False using p by simp
  qed
  show "p \<notin> set (fl s z r t)"
    using none free_blocksI by metis
  show "\<not> PageBuddy s p"
    using none wf_buddy_listed [OF wf z] by blast
qed

section \<open>Linking and unlinking a block\<close>

text \<open>
  \<open>mm_rest\<close> forgets what the free lists own: the buddy flag and the order of each page, the
  free areas of each zone and the migrate types of its pageblocks. Everything else is the same
  before and after a list operation.
\<close>

definition page_rest :: "page \<Rightarrow> page" where
  "page_rest g = g\<lparr>flags := flags g - {PG_buddy}, pg_private := 0\<rparr>"

definition zone_rest :: "zone \<Rightarrow> zone" where
  "zone_rest g = g\<lparr>area := (\<lambda>_. \<lparr>free_list = (\<lambda>_. []), nr_free = 0\<rparr>),
     pageblock_flags := (\<lambda>_. False)\<rparr>"

definition mm_rest :: "mm \<Rightarrow> mm" where
  "mm_rest s = s\<lparr>mem_map := (\<lambda>q. page_rest (mem_map s q)), zones := (\<lambda>z. zone_rest (zones s z))\<rparr>"

lemma mm_rest_page: "mm_rest s' = mm_rest s \<Longrightarrow> page_rest (mem_map s' q) = page_rest (mem_map s q)"
  by (drule arg_cong [where f = "\<lambda>m. mem_map m q"]) (simp add: mm_rest_def)

lemma mm_rest_zone: "mm_rest s' = mm_rest s \<Longrightarrow> zone_rest (zones s' z) = zone_rest (zones s z)"
  by (drule arg_cong [where f = "\<lambda>m. zones m z"]) (simp add: mm_rest_def)

lemma mm_rest_page_zone: "mm_rest s' = mm_rest s \<Longrightarrow> page_zone s' q = page_zone s q"
  by (drule mm_rest_page [where q = q], drule arg_cong [where f = zone_id])
     (simp add: page_rest_def page_zone_def)

lemma mm_rest_flag:
  assumes "mm_rest s' = mm_rest s" and "f \<noteq> PG_buddy"
  shows "f \<in> flags (mem_map s' q) \<longleftrightarrow> f \<in> flags (mem_map s q)"
proof -
  have "flags (mem_map s' q) - {PG_buddy} = flags (mem_map s q) - {PG_buddy}"
    using mm_rest_page [OF assms(1), of q, THEN arg_cong [where f = flags]]
    by (simp add: page_rest_def)
  then show ?thesis
    using assms(2) by blast
qed

lemma mm_rest_compound: "mm_rest s' = mm_rest s \<Longrightarrow> PageCompound s' q = PageCompound s q"
  using mm_rest_flag [of s' s PG_head q] mm_rest_flag [of s' s PG_tail q]
  by (simp add: PageCompound_def PageHead_def PageTail_def)

lemma mm_rest_zone_field:
  assumes "mm_rest s' = mm_rest s"
  shows "nr_free_pages (zones s' z) = nr_free_pages (zones s z)"
    and "zone_start_pfn (zones s' z) = zone_start_pfn (zones s z)"
    and "spanned_pages (zones s' z) = spanned_pages (zones s z)"
    and "pageset (zones s' z) = pageset (zones s z)"
  using mm_rest_zone [OF assms, of z, THEN arg_cong [where f = nr_free_pages]]
    mm_rest_zone [OF assms, of z, THEN arg_cong [where f = zone_start_pfn]]
    mm_rest_zone [OF assms, of z, THEN arg_cong [where f = spanned_pages]]
    mm_rest_zone [OF assms, of z, THEN arg_cong [where f = pageset]]
  by (simp_all add: zone_rest_def)

lemma mm_rest_page_field:
  assumes "mm_rest s' = mm_rest s"
  shows "pg_count (mem_map s' q) = pg_count (mem_map s q)"
    and "mapcount (mem_map s' q) = mapcount (mem_map s q)"
    and "mapping (mem_map s' q) = mapping (mem_map s q)"
  using mm_rest_page [OF assms, of q, THEN arg_cong [where f = pg_count]]
    mm_rest_page [OF assms, of q, THEN arg_cong [where f = mapcount]]
    mm_rest_page [OF assms, of q, THEN arg_cong [where f = mapping]]
  by (simp_all add: page_rest_def)

lemma page_order_ops [proj_simps]:
  "fl (set_page_order p ord s) = fl s" "nf (set_page_order p ord s) = nf s"
  "fl (rmv_page_order p s) = fl s" "nf (rmv_page_order p s) = nf s"
  "PageBuddy (set_page_order p ord s) q \<longleftrightarrow> q = p \<or> PageBuddy s q"
  "PageBuddy (rmv_page_order p s) q \<longleftrightarrow> q \<noteq> p \<and> PageBuddy s q"
  "page_order (set_page_order p ord s) q = (if q = p then ord else page_order s q)"
  "page_order (rmv_page_order p s) q = (if q = p then 0 else page_order s q)"
  by (auto simp: set_page_order_def rmv_page_order_def proj_defs fun_eq_iff)

lemma buddy_flag_frame [proj_simps]:
  "PageBuddy (list_add_free z ord t p s) = PageBuddy s"
  "PageBuddy (list_del_free z p s) = PageBuddy s"
  "PageBuddy (add_nr_free z ord d s) = PageBuddy s"
  "page_order (list_add_free z ord t p s) = page_order s"
  "page_order (list_del_free z p s) = page_order s"
  "page_order (add_nr_free z ord d s) = page_order s"
  by (auto simp: proj_defs fun_eq_iff)

lemma mm_rest_prims [proj_simps]:
  "mm_rest (list_add_free z ord t p s) = mm_rest s"
  "mm_rest (list_del_free z p s) = mm_rest s"
  "mm_rest (add_nr_free z ord d s) = mm_rest s"
  "mm_rest (set_page_order p ord s) = mm_rest s"
  "mm_rest (rmv_page_order p s) = mm_rest s"
  "mm_rest (set_pageblock_migratetype c p t s) = mm_rest s"
  by (auto simp: mm_rest_def proj_defs zone_rest_def page_rest_def set_page_order_def
      rmv_page_order_def set_pageblock_migratetype_def set_pageblock_flags_group_def Let_def fun_eq_iff)

definition linked :: "nat \<Rightarrow> nat \<Rightarrow> nat \<Rightarrow> nat \<Rightarrow> mm \<Rightarrow> mm \<Rightarrow> bool" where
  "linked z p ord t s s' \<longleftrightarrow>
     (\<forall>z' r u. fl s' z' r u =
        (if z' = z \<and> r = ord \<and> u = t then p # fl s z ord t else fl s z' r u)) \<and>
     (\<forall>z' r. nf s' z' r = nf s z' r + (if z' = z \<and> r = ord then 1 else 0)) \<and>
     (\<forall>q. PageBuddy s' q \<longleftrightarrow> q = p \<or> PageBuddy s q) \<and>
     (\<forall>q. page_order s' q = (if q = p then ord else page_order s q)) \<and>
     mm_rest s' = mm_rest s"

definition unlinked :: "nat \<Rightarrow> nat \<Rightarrow> nat \<Rightarrow> mm \<Rightarrow> mm \<Rightarrow> bool" where
  "unlinked z p ord s s' \<longleftrightarrow>
     (\<forall>z' r u. fl s' z' r u = (if z' = z then remove1 p (fl s z r u) else fl s z' r u)) \<and>
     (\<forall>z' r. nf s' z' r = nf s z' r - (if z' = z \<and> r = ord then 1 else 0)) \<and>
     (\<forall>q. PageBuddy s' q \<longleftrightarrow> q \<noteq> p \<and> PageBuddy s q) \<and>
     (\<forall>q. q \<noteq> p \<longrightarrow> page_order s' q = page_order s q) \<and>
     mm_rest s' = mm_rest s"

lemma linkedD:
  assumes "linked z p ord t s s'"
  shows "fl s' z' r u = (if z' = z \<and> r = ord \<and> u = t then p # fl s z ord t else fl s z' r u)"
    and "nf s' z' r = nf s z' r + (if z' = z \<and> r = ord then 1 else 0)"
    and "PageBuddy s' q \<longleftrightarrow> q = p \<or> PageBuddy s q"
    and "page_order s' q = (if q = p then ord else page_order s q)"
    and "page_zone s' q = page_zone s q"
    and "mm_rest s' = mm_rest s"
  using assms mm_rest_page_zone [of s' s q] unfolding linked_def by blast+

lemma unlinkedD:
  assumes "unlinked z p ord s s'"
  shows "fl s' z' r u = (if z' = z then remove1 p (fl s z r u) else fl s z' r u)"
    and "nf s' z' r = nf s z' r - (if z' = z \<and> r = ord then 1 else 0)"
    and "PageBuddy s' q \<longleftrightarrow> q \<noteq> p \<and> PageBuddy s q"
    and "q \<noteq> p \<Longrightarrow> page_order s' q = page_order s q"
    and "page_zone s' q = page_zone s q"
    and "mm_rest s' = mm_rest s"
  using assms mm_rest_page_zone [of s' s q] unfolding unlinked_def by blast+

lemma block_ok_cong: "(\<And>q. page_zone s' q = page_zone s q) \<Longrightarrow> block_ok c s' z p ord = block_ok c s z p ord"
  by (simp add: block_ok_def)

lemma linked_free_blocks:
  assumes "linked z p ord t s s'"
  shows "free_blocks s' z' = (if z' = z then insert (p, ord) (free_blocks s z) else free_blocks s z')"
  by (auto simp: free_blocks_def linkedD(1) [OF assms] split: if_splits)

lemma linked_free_pfns:
  assumes "linked z p ord t s s'"
  shows "free_pfns s' z' = (if z' = z then blk p ord \<union> free_pfns s z else free_pfns s z')"
  using linked_free_blocks [OF assms] by (simp add: free_pfns_def)

lemma linked_wf:
  assumes l: "linked z p ord t s s'" and wf: "lists_wf c s z"
    and h: "in_hand c s z p ord" and t: "t < MIGRATE_TYPES"
  shows "lists_wf c s' z"
proof -
  have fl: "fl s' z r u = (if r = ord \<and> u = t then p # fl s z ord t else fl s z r u)" for r u
    by (simp add: linkedD(1) [OF l])
  have zone: "page_zone s' q = page_zone s q" for q
    by (rule linkedD(5) [OF l])
  note new = in_hand_not_listed [OF wf h]
  note fb = linked_free_blocks [OF l, of z, simplified]
  have ok: "block_ok c s' z q r = block_ok c s z q r" for q r
    using zone by (rule block_ok_cong)
  have "distinct (fl s' z r u)" for r u
    using new(1) wf_distinct [OF wf] by (simp add: fl)
  moreover have "u < MIGRATE_TYPES \<and> block_ok c s' z q r \<and> PageBuddy s' q \<and> page_order s' q = r"
    if "q \<in> set (fl s' z r u)" for r u q
  proof (cases "q = p")
    case True
    then have "r = ord \<and> u = t"
      using that new(1) by (simp add: fl split: if_splits)
    then show ?thesis
      using True h t by (simp add: ok linkedD(3,4) [OF l] in_hand_def)
  next
    case False
    then have "q \<in> set (fl s z r u)"
      using that by (auto simp: fl split: if_splits)
    then show ?thesis
      using False wf_member [OF wf, of q r u] by (simp add: ok linkedD(3,4) [OF l])
  qed
  moreover have "u = u'" if "q \<in> set (fl s' z r u)" "q \<in> set (fl s' z r u')" for r u u' q
    using that new(1) wf_type_unique [OF wf] by (fastforce simp: fl split: if_splits)
  moreover have "(q, page_order s' q) \<in> free_blocks s' z"
    if "page_zone s' q = z" "PageBuddy s' q" for q
    using that wf_buddy_listed [OF wf, of q] by (auto simp: fb zone linkedD(3,4) [OF l])
  moreover have "blk q r \<inter> blk q' r' = {}"
    if "(q, r) \<in> free_blocks s' z" "(q', r') \<in> free_blocks s' z" "(q, r) \<noteq> (q', r')" for q r q' r'
  proof -
    have hd: "blk p ord \<inter> blk x y = {}" if "(x, y) \<in> free_blocks s z" for x y
      using h that by (fastforce simp: in_hand_def free_pfns_def)
    show ?thesis
      using that hd [of q r] hd [of q' r'] wf_disjoint [OF wf, of q r q' r']
      by (simp only: fb) blast
  qed
  moreover have "nf s' z r = (\<Sum>u<MIGRATE_TYPES. int (length (fl s' z r u)))" for r
  proof -
    have "(\<Sum>u<MIGRATE_TYPES. int (length (fl s' z r u))) =
        (\<Sum>u<MIGRATE_TYPES. int (length (fl s z r u)) + (if u = t then (if r = ord then 1 else 0) else 0))"
      by (rule sum.cong) (auto simp: fl)
    also have "\<dots> = nf s z r + (if r = ord then 1 else 0)"
      using t by (simp add: sum.distrib sum.delta' wf_nf [OF wf] del: sum.lessThan_Suc)
    finally show ?thesis
      by (simp add: linkedD(2) [OF l])
  qed
  ultimately show ?thesis
    unfolding lists_wf_def by blast
qed

lemma unlinked_free_blocks:
  assumes u: "unlinked z p ord s s'" and wf: "lists_wf c s z" and b: "(p, ord) \<in> free_blocks s z"
  shows "free_blocks s' z = free_blocks s z - {(p, ord)}"
proof -
  have fl: "fl s' z r v = remove1 p (fl s z r v)" for r v
    by (simp add: unlinkedD(1) [OF u])
  have mem: "q \<in> set (fl s' z r v) \<longleftrightarrow> q \<noteq> p \<and> q \<in> set (fl s z r v)" for q r v
    by (simp add: fl wf_distinct [OF wf] conj_commute)
  have "(q, r) \<in> free_blocks s' z \<longleftrightarrow> (q, r) \<in> free_blocks s z \<and> q \<noteq> p" for q r
    by (auto simp: free_blocks_def mem)
  moreover have "(q, r) \<in> free_blocks s z \<Longrightarrow> q = p \<longleftrightarrow> (q, r) = (p, ord)" for q r
    using wf_order_unique [OF wf b] by auto
  ultimately show ?thesis
    by auto
qed

lemma unlinked_wf:
  assumes u: "unlinked z p ord s s'" and wf: "lists_wf c s z" and b: "(p, ord) \<in> free_blocks s z"
  shows "lists_wf c s' z"
proof -
  have fl: "fl s' z r v = remove1 p (fl s z r v)" for r v
    by (simp add: unlinkedD(1) [OF u])
  have mem: "q \<in> set (fl s' z r v) \<longleftrightarrow> q \<noteq> p \<and> q \<in> set (fl s z r v)" for q r v
    by (simp add: fl wf_distinct [OF wf] conj_commute)
  have zone: "page_zone s' q = page_zone s q" for q
    by (rule unlinkedD(5) [OF u])
  have ok: "block_ok c s' z q r = block_ok c s z q r" for q r
    using zone by (rule block_ok_cong)
  note fb = unlinked_free_blocks [OF u wf b]
  obtain t where t: "p \<in> set (fl s z ord t)"
    using b by (rule free_blocksE)
  have "distinct (fl s' z r v)" for r v
    by (simp add: fl wf_distinct [OF wf])
  moreover have "v < MIGRATE_TYPES \<and> block_ok c s' z q r \<and> PageBuddy s' q \<and> page_order s' q = r"
    if "q \<in> set (fl s' z r v)" for r v q
    using that wf_member [OF wf, of q r v] by (simp add: mem ok unlinkedD(3,4) [OF u])
  moreover have "v = v'" if "q \<in> set (fl s' z r v)" "q \<in> set (fl s' z r v')" for r v v' q
    using that wf_type_unique [OF wf, of q r v v'] by (simp add: mem)
  moreover have "(q, page_order s' q) \<in> free_blocks s' z"
    if "page_zone s' q = z" "PageBuddy s' q" for q
    using that wf_buddy_listed [OF wf, of q] by (simp add: fb zone unlinkedD(3,4) [OF u])
  moreover have "blk q r \<inter> blk q' r' = {}"
    if "(q, r) \<in> free_blocks s' z" "(q', r') \<in> free_blocks s' z" "(q, r) \<noteq> (q', r')" for q r q' r'
    using that wf_disjoint [OF wf] by (simp add: fb)
  moreover have "nf s' z r = (\<Sum>v<MIGRATE_TYPES. int (length (fl s' z r v)))" for r
  proof -
    have memb: "p \<in> set (fl s z r v) \<longleftrightarrow> r = ord \<and> v = t" for v
      using t wf_type_unique [OF wf t] wf_order_unique [OF wf b free_blocksI] by blast
    have len: "int (length (remove1 p (fl s z r v))) =
        int (length (fl s z r v)) - (if v = t then (if r = ord then 1 else 0) else 0)" for v
      using memb [of v] length_pos_if_in_set [of p "fl s z r v"]
      by (auto simp: length_remove1 of_nat_diff Suc_le_eq)
    have "(\<Sum>v<MIGRATE_TYPES. int (length (fl s' z r v))) =
        (\<Sum>v<MIGRATE_TYPES. int (length (fl s z r v)) - (if v = t then (if r = ord then 1 else 0) else 0))"
      by (rule sum.cong) (simp_all only: fl len)
    also have "\<dots> = nf s z r - (if r = ord then 1 else 0)"
      using wf_member(1) [OF wf t]
      by (simp add: sum_subtractf sum.delta' wf_nf [OF wf] del: sum.lessThan_Suc)
    finally show ?thesis
      by (simp add: unlinkedD(2) [OF u])
  qed
  ultimately show ?thesis
    unfolding lists_wf_def by blast
qed

lemma unlinked_in_hand:
  assumes u: "unlinked z p ord s s'" and wf: "lists_wf c s z" and b: "(p, ord) \<in> free_blocks s z"
  shows "in_hand c s' z p ord" and "free_pfns s z = blk p ord \<union> free_pfns s' z"
proof -
  note fb = unlinked_free_blocks [OF u wf b]
  have zone: "page_zone s' q = page_zone s q" for q
    by (rule unlinkedD(5) [OF u])
  have "blk p ord \<inter> blk q r = {}" if "(q, r) \<in> free_blocks s' z" for q r
    using that wf_disjoint [OF wf b] by (simp add: fb) (metis)
  then have "blk p ord \<inter> free_pfns s' z = {}"
    by (fastforce simp: free_pfns_def)
  then show "in_hand c s' z p ord"
    using wf_block(1) [OF wf b] block_ok_cong [of s' s c z p ord, OF zone] by (simp add: in_hand_def)
  show "free_pfns s z = blk p ord \<union> free_pfns s' z"
    using b by (auto simp: free_pfns_def fb)
qed

end
