(* ===== verification/Buddy_Ops.thy ===== *)
theory Buddy_Ops
  imports Buddy_Inv
begin

text \<open>
  The buddy system keeps the invariant: freeing adds exactly the pages of the block and leaves
  the zone fully coalesced, taking a block removes exactly its pages, and the decomposition of
  the free pages into blocks is canonical, so an aligned free range always lies inside one
  block that \<open>\<^verbatim>\<open>__rmqueue_smallest\<close>\<close> can find.
\<close>

section \<open>What an operation on one zone leaves alone\<close>

definition buddy_frame :: "nat \<Rightarrow> mm \<Rightarrow> mm \<Rightarrow> bool" where
  "buddy_frame z s s' \<longleftrightarrow>
     (\<forall>z' r u. z' \<noteq> z \<longrightarrow> fl s' z' r u = fl s z' r u) \<and>
     (\<forall>z' r. z' \<noteq> z \<longrightarrow> nf s' z' r = nf s z' r) \<and>
     (\<forall>q. page_zone s q \<noteq> z \<longrightarrow>
        PageBuddy s' q = PageBuddy s q \<and> page_order s' q = page_order s q) \<and>
     mm_rest s' = mm_rest s"

lemma buddy_frame_refl [simp]: "buddy_frame z s s"
  by (simp add: buddy_frame_def)

lemma buddy_frame_trans [trans]: "buddy_frame z s s' \<Longrightarrow> buddy_frame z s' s'' \<Longrightarrow> buddy_frame z s s''"
  using mm_rest_page_zone [of s' s] by (simp add: buddy_frame_def)

lemma buddy_frame_rest: "buddy_frame z s s' \<Longrightarrow> mm_rest s' = mm_rest s"
  by (simp add: buddy_frame_def)

lemmas buddy_frame_zone = mm_rest_page_zone [OF buddy_frame_rest]

lemma linked_frame: "linked z p ord t s s' \<Longrightarrow> page_zone s p = z \<Longrightarrow> buddy_frame z s s'"
  by (auto simp: buddy_frame_def linkedD)

lemma unlinked_frame: "unlinked z p ord s s' \<Longrightarrow> page_zone s p = z \<Longrightarrow> buddy_frame z s s'"
  unfolding buddy_frame_def by (auto simp: unlinkedD(1,2,3,5,6) intro!: unlinkedD(4))

lemma buddy_frame_free_blocks:
  "buddy_frame z s s' \<Longrightarrow> z' \<noteq> z \<Longrightarrow> free_blocks s' z' = free_blocks s z'"
  by (simp add: buddy_frame_def free_blocks_def)

lemma buddy_frame_other_zone:
  assumes f: "buddy_frame z s s'" and n: "z' \<noteq> z" and wf: "lists_wf c s z'"
  shows "lists_wf c s' z'"
proof -
  have fl: "fl s' z' r u = fl s z' r u" and nf: "nf s' z' r = nf s z' r" for r u
    using f n by (simp_all add: buddy_frame_def)
  note fb = buddy_frame_free_blocks [OF f n]
  have ok: "block_ok c s' z' p r = block_ok c s z' p r" for p r
    using buddy_frame_zone [OF f] by (rule block_ok_cong)
  have same: "page_zone s q = z' \<Longrightarrow> PageBuddy s' q = PageBuddy s q \<and> page_order s' q = page_order s q"
    for q using f n by (simp add: buddy_frame_def)
  have zone: "q \<in> set (fl s z' r u) \<Longrightarrow> page_zone s q = z'" for q r u
    using wf_member(2) [OF wf] by (auto simp: block_ok_def)
  have "u < MIGRATE_TYPES \<and> block_ok c s' z' q r \<and> PageBuddy s' q \<and> page_order s' q = r"
    if "q \<in> set (fl s' z' r u)" for q r u
    using that wf_member [OF wf, of q r u] same [OF zone, of q r u] by (simp add: fl ok)
  moreover have "(q, page_order s' q) \<in> free_blocks s' z'"
    if "page_zone s' q = z'" "PageBuddy s' q" for q
    using that same [of q] wf_buddy_listed [OF wf, of q] buddy_frame_zone [OF f] by (simp add: fb)
  ultimately show ?thesis
    using wf wf_type_unique [OF wf] unfolding lists_wf_def by (simp add: fl nf fb)
qed

text \<open>The order stored in a page changes only inside the blocks an operation works on.\<close>

definition orders_kept :: "nat set \<Rightarrow> mm \<Rightarrow> mm \<Rightarrow> bool" where
  "orders_kept S s s' \<longleftrightarrow> (\<forall>q. q \<notin> S \<longrightarrow> page_order s' q = page_order s q)"

lemma orders_kept_refl [simp]: "orders_kept S s s"
  by (simp add: orders_kept_def)

lemma orders_kept_trans: "orders_kept S s s' \<Longrightarrow> orders_kept T s' s'' \<Longrightarrow> T \<subseteq> S \<Longrightarrow> orders_kept S s s''"
  unfolding orders_kept_def by (metis subsetD)

lemma linked_orders: "linked z p ord t s s' \<Longrightarrow> p \<in> S \<Longrightarrow> orders_kept S s s'"
  by (auto simp: orders_kept_def linkedD)

lemma unlinked_orders: "unlinked z p ord s s' \<Longrightarrow> p \<in> S \<Longrightarrow> orders_kept S s s'"
  unfolding orders_kept_def by (metis unlinkedD(4))

section \<open>The list manipulations of the code\<close>

lemma link_free:
  "linked z p ord t s (add_nr_free z ord 1 (list_add_free z ord t p (set_page_order p ord s)))"
  by (simp add: linked_def proj_simps)

lemma link_expand:
  "linked z p ord t s (set_page_order p ord (add_nr_free z ord 1 (list_add_free z ord t p s)))"
  by (simp add: linked_def proj_simps)

lemma unlink_merge:
  "unlinked z p ord s (rmv_page_order p (add_nr_free z ord (-1) (list_del_free z p s)))"
  by (simp add: unlinked_def proj_simps)

lemma unlink_rmqueue:
  "unlinked z p ord s (add_nr_free z ord (-1) (rmv_page_order p (list_del_free z p s)))"
  by (simp add: unlinked_def proj_simps)

lemma coalesced_mono:
  "coalesced c s z \<Longrightarrow> free_blocks s' z \<subseteq> free_blocks s z \<Longrightarrow> coalesced c s' z"
  unfolding coalesced_def by blast

lemma linked_coalesced:
  assumes l: "linked z p ord t s s'" and wf: "lists_wf c s z" and co: "coalesced c s z"
    and h: "in_hand c s z p ord"
    and nb: "ord < MAX_ORDER c - 1 \<Longrightarrow> (buddy_of p ord, ord) \<notin> free_blocks s z"
  shows "coalesced c s' z"
  unfolding coalesced_def
proof (intro allI impI)
  fix q r
  assume q: "(q, r) \<in> free_blocks s' z" and r: "r < MAX_ORDER c - 1"
  note fb = linked_free_blocks [OF l, of z, simplified]
  have dvd: "2 ^ ord dvd p"
    using h by (simp add: in_hand_def block_ok_def)
  show "(buddy_of q r, r) \<notin> free_blocks s' z"
  proof (cases "(q, r) = (p, ord)")
    case True
    then show ?thesis
      using nb r by (auto simp: fb buddy_neq)
  next
    case False
    then have old: "(q, r) \<in> free_blocks s z"
      using q by (auto simp: fb)
    have "(buddy_of q r, r) \<noteq> (p, ord)"
    proof
      assume "(buddy_of q r, r) = (p, ord)"
      moreover have "2 ^ r dvd q"
        using wf_block(1) [OF wf old] by (simp add: block_ok_def)
      ultimately have "q = buddy_of p ord" and "r = ord"
        using buddy_buddy [of r q] by auto
      then show False
        using nb r old by simp
    qed
    then show ?thesis
      using co old r by (auto simp: fb coalesced_def)
  qed
qed

section \<open>The coalescing loop of \<^verbatim>\<open>__free_one_page\<close>\<close>

lemma page_idx_mod: "p AND (push_bit M 1 - 1) = p mod 2 ^ M" for p :: nat
proof -
  have "push_bit M 1 - 1 = (mask M :: nat)"
    by (simp add: mask_eq_exp_minus_1 push_bit_of_1)
  then have "p AND (push_bit M 1 - 1) = take_bit M p"
    by (simp only: take_bit_eq_mask)
  then show ?thesis
    by (simp only: take_bit_eq_mod)
qed

lemma find_buddy_eq:
  "ord < MAX_ORDER c \<Longrightarrow> uu_page_find_buddy p (p mod 2 ^ MAX_ORDER c) ord = buddy_of p ord"
  by (simp add: uu_page_find_buddy_def push_bit_of_1 xor_pow_eq_buddy buddy_of_index Let_def)

lemma combined_eq:
  assumes "ord < MAX_ORDER c"
  shows "uu_find_combined_index (p mod 2 ^ MAX_ORDER c) ord = parent_of p ord mod 2 ^ MAX_ORDER c"
    and "p + parent_of p ord mod 2 ^ MAX_ORDER c - p mod 2 ^ MAX_ORDER c = parent_of p ord"
  using assms parent_of_index [OF assms, of p]
  by (simp_all add: uu_find_combined_index_def push_bit_of_1 unset_pow_eq_parent parent_of_mod)

lemma page_is_buddy_iff:
  assumes wf: "lists_wf c s z" and "page_zone s p = z"
  shows "page_is_buddy c s p b ord \<longleftrightarrow> (b, ord) \<in> free_blocks s z"
proof
  assume "page_is_buddy c s p b ord"
  then have "page_zone s b = z" "PageBuddy s b" "page_order s b = ord"
    using assms by (auto simp: page_is_buddy_def split: if_splits)
  then show "(b, ord) \<in> free_blocks s z"
    using wf_buddy_listed [OF wf, of b] by simp
next
  assume "(b, ord) \<in> free_blocks s z"
  from wf_block [OF wf this] show "page_is_buddy c s p b ord"
    using assms by (simp add: page_is_buddy_def block_ok_def)
qed

lemma merge_in_hand:
  assumes u: "unlinked z (buddy_of p ord) ord s s'" and wf: "lists_wf c s z"
    and b: "(buddy_of p ord, ord) \<in> free_blocks s z" and h: "in_hand c s z p ord"
    and o: "ord < MAX_ORDER c - 1"
  shows "in_hand c s' z (parent_of p ord) (Suc ord)"
    and "blk p ord \<union> free_pfns s z = blk (parent_of p ord) (Suc ord) \<union> free_pfns s' z"
proof -
  have dvd: "2 ^ ord dvd p"
    using h by (simp add: in_hand_def block_ok_def)
  note un = blk_buddy_union [OF dvd]
  note hand = unlinked_in_hand [OF u wf b]
  have zone: "page_zone s' q = page_zone s q" for q
    by (rule unlinkedD(5) [OF u])
  show "blk p ord \<union> free_pfns s z = blk (parent_of p ord) (Suc ord) \<union> free_pfns s' z"
    using hand(2) un by blast
  have "blk (parent_of p ord) (Suc ord) \<inter> free_pfns s' z = {}"
    using un hand h unfolding in_hand_def by blast
  moreover have "block_ok c s' z (parent_of p ord) (Suc ord)"
  proof -
    have "\<forall>q\<in>blk (parent_of p ord) (Suc ord). page_zone s' q = z \<and> pfn_valid_within c q"
      using h hand(1) unfolding in_hand_def block_ok_def un [symmetric] zone by blast
    then show ?thesis
      using o parent_dvd [OF dvd] by (simp add: block_ok_def)
  qed
  ultimately show "in_hand c s' z (parent_of p ord) (Suc ord)"
    by (simp add: in_hand_def)
qed

definition merged_ok :: "mmcfg \<Rightarrow> nat \<Rightarrow> nat \<Rightarrow> nat \<Rightarrow> mm \<Rightarrow> nat \<times> nat \<times> mm \<Rightarrow> bool" where
  "merged_ok c z p ord s = (\<lambda>(p', ord', s').
     lists_wf c s' z \<and> coalesced c s' z \<and> in_hand c s' z p' ord' \<and> ord \<le> ord' \<and>
     blk p ord \<union> free_pfns s z = blk p' ord' \<union> free_pfns s' z \<and>
     (ord' < MAX_ORDER c - 1 \<longrightarrow> (buddy_of p' ord', ord') \<notin> free_blocks s' z) \<and>
     buddy_frame z s s' \<and> orders_kept (blk p ord \<union> free_pfns s z) s s')"

lemma free_one_page_loop_ok:
  assumes "lists_wf c s z" and "coalesced c s z" and "in_hand c s z p ord"
    and "page_idx = p mod 2 ^ MAX_ORDER c"
  shows "merged_ok c z p ord s (free_one_page_loop c z p page_idx ord s)"
  using assms
proof (induction c z p page_idx ord s rule: free_one_page_loop.induct)
  case (1 c z p page_idx ord s)
  note wf = "1.prems"(1) and co = "1.prems"(2) and h = "1.prems"(3) and idx = "1.prems"(4)
  have zone: "page_zone s p = z" and lt: "ord < MAX_ORDER c"
    using h by (auto simp: in_hand_def block_ok_def)
  note fb = find_buddy_eq [OF lt, of p] and ce = combined_eq [OF lt, of p]
  show ?case
  proof (cases "ord < MAX_ORDER c - 1 \<and> page_is_buddy c s p (buddy_of p ord) ord")
    case True
    let ?b = "buddy_of p ord"
    let ?s = "rmv_page_order ?b (add_nr_free z ord (-1) (list_del_free z ?b s))"
    have u: "unlinked z ?b ord s ?s"
      by (rule unlink_merge)
    have b: "(?b, ord) \<in> free_blocks s z"
      using True page_is_buddy_iff [OF wf zone] by blast
    have bz: "page_zone s ?b = z"
      using wf_block(1) [OF wf b] by (auto simp: block_ok_def)
    have o: "ord < MAX_ORDER c - 1"
      using True by simp
    note m = merge_in_hand [OF u wf b h o]
    have co': "coalesced c ?s z"
      using co by (rule coalesced_mono) (use unlinked_free_blocks [OF u wf b] in blast)
    have IH: "merged_ok c z (parent_of p ord) (Suc ord) ?s
        (free_one_page_loop c z (parent_of p ord) (parent_of p ord mod 2 ^ MAX_ORDER c) (ord + 1) ?s)"
      using "1.IH" [OF o refl _ refl refl] True idx unlinked_wf [OF u wf b] co' m(1)
      by (simp add: fb ce)
    have eq: "free_one_page_loop c z p page_idx ord s = free_one_page_loop c z (parent_of p ord)
        (parent_of p ord mod 2 ^ MAX_ORDER c) (ord + 1) ?s"
      using True idx by (subst free_one_page_loop.simps) (simp add: fb ce Let_def)
    have ord1: "orders_kept (blk p ord \<union> free_pfns s z) s ?s"
    proof (rule unlinked_orders [OF u UnI2])
      show "?b \<in> free_pfns s z"
        unfolding free_pfns_def using b by (rule UN_I) simp
    qed
    show ?thesis
      unfolding eq using IH m(2) unlinked_frame [OF u bz] ord1 orders_kept_trans [OF ord1]
      by (auto simp: merged_ok_def split: prod.splits dest: buddy_frame_trans)
  next
    case False
    then have "free_one_page_loop c z p page_idx ord s = (p, ord, s)"
      using idx by (subst free_one_page_loop.simps) (auto simp: fb Let_def)
    then show ?thesis
      using False wf co h page_is_buddy_iff [OF wf zone] by (auto simp: merged_ok_def)
  qed
qed

lemma free_block_ok:
  assumes wf: "lists_wf c s z" and co: "coalesced c s z" and h: "in_hand c s z p ord"
    and t: "t < MIGRATE_TYPES" and nc: "\<not> PageCompound s p"
  defines "s' \<equiv> uu_free_one_page c p z ord t s"
  shows "lists_wf c s' z" and "coalesced c s' z"
    and "free_pfns s' z = blk p ord \<union> free_pfns s z" and "buddy_frame z s s'"
    and "orders_kept (blk p ord \<union> free_pfns s z) s s'"
proof -
  obtain p' ord' s1 where l: "free_one_page_loop c z p (p mod 2 ^ MAX_ORDER c) ord s = (p', ord', s1)"
    by (metis prod_cases3)
  have m: "merged_ok c z p ord s (p', ord', s1)"
    using free_one_page_loop_ok [OF wf co h refl] l by simp
  let ?s = "add_nr_free z ord' 1 (list_add_free z ord' t p' (set_page_order p' ord' s1))"
  have s': "s' = ?s"
    unfolding s'_def uu_free_one_page_def page_idx_mod using nc l by (simp add: Let_def)
  note lk = link_free [of z p' ord' t s1, folded s']
  have h': "in_hand c s1 z p' ord'" and wf1: "lists_wf c s1 z" and co1: "coalesced c s1 z"
    using m by (auto simp: merged_ok_def)
  show "lists_wf c s' z"
    using lk wf1 h' t by (rule linked_wf)
  show "coalesced c s' z"
    using m by (intro linked_coalesced [OF lk wf1 co1 h']) (auto simp: merged_ok_def)
  show "free_pfns s' z = blk p ord \<union> free_pfns s z"
    using linked_free_pfns [OF lk, of z] m by (auto simp: merged_ok_def)
  have "buddy_frame z s1 s'"
    using h' by (intro linked_frame [OF lk]) (auto simp: in_hand_def block_ok_def)
  then show "buddy_frame z s s'"
    using m by (auto simp: merged_ok_def dest: buddy_frame_trans)
  have "p' \<in> blk p' ord'"
    by simp
  then have "p' \<in> blk p ord \<union> free_pfns s z"
    using m unfolding merged_ok_def by blast
  then have "orders_kept (blk p ord \<union> free_pfns s z) s1 s'"
    by (rule linked_orders [OF lk])
  then show "orders_kept (blk p ord \<union> free_pfns s z) s s'"
    using m orders_kept_trans [of _ s s1 _ s'] by (auto simp: merged_ok_def)
qed

end
