(* ===== verification/Buddy_Alloc.thy ===== *)
theory Buddy_Alloc
  imports Buddy_Ops
begin

text \<open>
  Taking blocks: \<open>expand\<close> gives the upper halves of the block it breaks back to the free
  lists, \<open>\<^verbatim>\<open>__rmqueue_smallest\<close>\<close> finds a block whenever a list of sufficient order is not empty,
  and the canonical decomposition: in a coalesced zone every aligned free range lies inside
  one free block, and the free pages determine the free blocks.
\<close>

section \<open>expand\<close>

lemma split_in_hand:
  assumes h: "in_hand c s z p (Suc h')"
  shows "in_hand c s z (p + 2 ^ h') h'" and "in_hand c s z p h'"
    and "(buddy_of (p + 2 ^ h') h', h') \<notin> free_blocks s z"
proof -
  have dvd: "2 ^ Suc h' dvd p"
    using h by (simp add: in_hand_def block_ok_def)
  have d: "2 ^ h' dvd p"
    using dvd by (metis dvd_trans le_imp_power_dvd lessI less_imp_le)
  note halves = blk_halves [of p h']
  show "in_hand c s z (p + 2 ^ h') h'" "in_hand c s z p h'"
    using h d unfolding in_hand_def block_ok_def halves by auto
  have "p \<in> blk p (Suc h')"
    by simp
  then have p: "p \<notin> free_pfns s z"
    using h unfolding in_hand_def by blast
  have "(p, h') \<notin> free_blocks s z"
  proof
    assume "(p, h') \<in> free_blocks s z"
    then have "p \<in> free_pfns s z"
      unfolding free_pfns_def by (rule UN_I) simp
    with p show False ..
  qed
  then show "(buddy_of (p + 2 ^ h') h', h') \<notin> free_blocks s z"
    by (simp add: upper_half_buddy(1) [OF dvd])
qed

lemma linked_in_hand_other:
  assumes l: "linked z q r t s s'" and h: "in_hand c s z p ord" and d: "blk p ord \<inter> blk q r = {}"
  shows "in_hand c s' z p ord"
proof -
  have "block_ok c s' z p ord = block_ok c s z p ord"
    by (rule block_ok_cong) (rule linkedD(5) [OF l])
  then show ?thesis
    using h d linked_free_pfns [OF l, of z] by (auto simp: in_hand_def)
qed

lemma expand_ok:
  assumes "lists_wf c s z" and "coalesced c s z" and "in_hand c s z p high" and "low \<le> high"
    and "t < MIGRATE_TYPES"
  shows "lists_wf c (expand z p low high t s) z \<and> coalesced c (expand z p low high t s) z
    \<and> in_hand c (expand z p low high t s) z p low
    \<and> free_pfns (expand z p low high t s) z \<union> blk p low = free_pfns s z \<union> blk p high
    \<and> buddy_frame z s (expand z p low high t s) \<and> orders_kept (blk p high) s (expand z p low high t s)"
  using assms
proof (induction z p low high t s rule: expand.induct)
  case (2 z p low h' t s)
  note wf = "2.prems"(1) and co = "2.prems"(2) and h = "2.prems"(3) and t = "2.prems"(5)
  show ?case
  proof (cases "low \<le> h'")
    case True
    let ?s = "set_page_order (p + 2 ^ h') h'
      (add_nr_free z h' 1 (list_add_free z h' t (p + 2 ^ h') s))"
    have lk: "linked z (p + 2 ^ h') h' t s ?s"
      by (rule link_expand)
    note sp = split_in_hand [OF h]
    have wf': "lists_wf c ?s z"
      using lk wf sp(1) t by (rule linked_wf)
    have co': "coalesced c ?s z"
      using lk wf co sp(1,3) by (rule linked_coalesced)
    have h': "in_hand c ?s z p h'"
      using lk sp(2) blk_halves_disjoint by (rule linked_in_hand_other)
    have zone: "page_zone s (p + 2 ^ h') = z"
      using sp(1) by (auto simp: in_hand_def block_ok_def)
    have eq: "expand z p low (Suc h') t s = expand z p low h' t ?s"
      using True by (simp add: Let_def)
    have "p + 2 ^ h' \<in> blk p (Suc h')"
      by simp
    then have o1: "orders_kept (blk p (Suc h')) s ?s"
      by (rule linked_orders [OF lk])
    have "blk p h' \<subseteq> blk p (Suc h')"
      using blk_halves [of p h'] by blast
    note o2 = orders_kept_trans [OF o1 _ this]
    have "free_pfns ?s z \<union> blk p h' = free_pfns s z \<union> blk p (Suc h')"
      using linked_free_pfns [OF lk, of z] blk_halves [of p h'] by auto
    then show ?thesis
      unfolding eq using "2.IH" [OF _ refl wf' co' h' True t] True linked_frame [OF lk zone] o2
      by (auto dest: buddy_frame_trans)
  next
    case False
    then have "low = Suc h'"
      using "2.prems"(4) by simp
    then show ?thesis
      using "2.prems" by simp
  qed
qed simp

section \<open>\<^verbatim>\<open>__rmqueue_smallest\<close>\<close>

definition taken_ok :: "mmcfg \<Rightarrow> nat \<Rightarrow> nat \<Rightarrow> mm \<Rightarrow> nat \<Rightarrow> mm \<Rightarrow> bool" where
  "taken_ok c z ord s p s' \<longleftrightarrow> lists_wf c s' z \<and> coalesced c s' z \<and> in_hand c s' z p ord
     \<and> free_pfns s z = blk p ord \<union> free_pfns s' z \<and> buddy_frame z s s'
     \<and> orders_kept (free_pfns s z) s s'"

lemma take_block_ok:
  assumes wf: "lists_wf c s z" and co: "coalesced c s z" and b: "(p, cur) \<in> free_blocks s z"
    and u: "unlinked z p cur s s1" and le: "ord \<le> cur" and t: "t < MIGRATE_TYPES"
  shows "taken_ok c z ord s p (expand z p ord cur t s1)"
proof -
  note h = unlinked_in_hand [OF u wf b]
  have co1: "coalesced c s1 z"
    using co by (rule coalesced_mono) (use unlinked_free_blocks [OF u wf b] in blast)
  have zone: "page_zone s p = z"
    using wf_block(1) [OF wf b] by (auto simp: block_ok_def)
  note e = expand_ok [OF unlinked_wf [OF u wf b] co1 h(1) le t]
  have p: "p \<in> free_pfns s z" and sub: "blk p cur \<subseteq> free_pfns s z"
    using h(2) by auto
  note o = orders_kept_trans [OF unlinked_orders [OF u p] _ sub]
  show ?thesis
    using e h(2) unlinked_frame [OF u zone] o by (auto simp: taken_ok_def dest: buddy_frame_trans)
qed

lemma rmqueue_smallest_loop_None:
  "fst (rmqueue_smallest_loop c z ord t cur s) = None \<longleftrightarrow>
     (\<forall>r. cur \<le> r \<longrightarrow> r < MAX_ORDER c \<longrightarrow> fl s z r t = [])"
proof (induction c z ord t cur s rule: rmqueue_smallest_loop.induct)
  case (1 c z ord t cur s)
  show ?case
  proof (cases "cur < MAX_ORDER c \<and> fl s z cur t = []")
    case True
    then have eq: "rmqueue_smallest_loop c z ord t cur s = rmqueue_smallest_loop c z ord t (cur + 1) s"
      by (subst rmqueue_smallest_loop.simps) simp
    have "(\<forall>r. cur \<le> r \<longrightarrow> r < MAX_ORDER c \<longrightarrow> fl s z r t = []) =
        (\<forall>r. cur + 1 \<le> r \<longrightarrow> r < MAX_ORDER c \<longrightarrow> fl s z r t = [])"
      using True by (metis Suc_eq_plus1 Suc_leI le_neq_implies_less Suc_leD)
    then show ?thesis
      using "1" True by (simp add: eq)
  qed (subst rmqueue_smallest_loop.simps, auto split: list.splits)
qed

lemma rmqueue_smallest_loop_Some:
  assumes "lists_wf c s z" and "coalesced c s z" and "ord \<le> cur" and "t < MIGRATE_TYPES"
    and "rmqueue_smallest_loop c z ord t cur s = (Some p, s')"
  shows "taken_ok c z ord s p s' \<and> (\<exists>r \<ge> cur. (p, r) \<in> free_blocks s z)"
  using assms
proof (induction c z ord t cur s rule: rmqueue_smallest_loop.induct)
  case (1 c z ord t cur s)
  have cur: "cur < MAX_ORDER c"
    using "1.prems"(5) by (subst (asm) rmqueue_smallest_loop.simps) (auto split: if_splits)
  show ?case
  proof (cases "fl s z cur t")
    case Nil
    then have "rmqueue_smallest_loop c z ord t (cur + 1) s = (Some p, s')"
      using "1.prems"(5) cur by (subst (asm) rmqueue_smallest_loop.simps) simp
    then have "taken_ok c z ord s p s' \<and> (\<exists>r \<ge> cur + 1. (p, r) \<in> free_blocks s z)"
      using "1.IH" [OF cur Nil] "1.prems" by simp
    then show ?thesis
      by (meson add_leD1)
  next
    case (Cons x xs)
    let ?s = "add_nr_free z cur (-1) (rmv_page_order x (list_del_free z x s))"
    have eq: "p = x" "s' = expand z x ord cur t ?s"
      using "1.prems"(5) cur Cons by (subst (asm) rmqueue_smallest_loop.simps, simp)+
    have b: "(x, cur) \<in> free_blocks s z"
      using Cons free_blocksI [of x s z cur t] by simp
    show ?thesis
      using take_block_ok [OF "1.prems"(1,2) b unlink_rmqueue "1.prems"(3,4)] b eq by auto
  qed
qed

lemma rmqueue_smallest_None_state:
  "rmqueue_smallest_loop c z ord t cur s = (None, s') \<Longrightarrow> s' = s"
proof (induction c z ord t cur s rule: rmqueue_smallest_loop.induct)
  case (1 c z ord t cur s)
  from "1.prems" show ?case
    by (subst (asm) rmqueue_smallest_loop.simps) (auto split: if_splits list.splits intro: "1.IH")
qed

section \<open>The decomposition into blocks is canonical\<close>

lemma dyadic_nested:
  assumes "2 ^ m dvd (a::nat)" "2 ^ n dvd b" "m \<le> n" "x \<in> blk a m" "x \<in> blk b n"
  shows "blk a m \<subseteq> blk b n"
proof -
  obtain k where k: "b = 2 ^ n * k"
    using assms(2) by (rule dvdE)
  obtain j where j: "a = 2 ^ m * j"
    using assms(1) by (rule dvdE)
  obtain d where d: "(2::nat) ^ n = 2 ^ m * d" and dpos: "0 < d"
    using assms(3) by (metis le_imp_power_dvd dvdE gr0I mult_0_right power_not_zero zero_neq_numeral)
  have "x div 2 ^ m = j"
    using assms(4) j by (auto intro!: div_nat_eqI simp: algebra_simps)
  moreover have lo: "2 ^ m * (d * k) \<le> x" and hi: "x < 2 ^ m * (d * k + d)"
    using assms(5) k d by (auto simp: algebra_simps)
  ultimately have "d * k \<le> j" "j < d * k + d"
    by (metis div_le_mono nonzero_mult_div_cancel_left power_not_zero zero_neq_numeral)
       (metis hi less_mult_imp_div_less mult.commute \<open>x div 2 ^ m = j\<close>)
  then have "2 ^ m * (d * k) \<le> 2 ^ m * j" "2 ^ m * (j + 1) \<le> 2 ^ m * (d * k + d)"
    by (intro mult_le_mono2, simp)+
  then have "b \<le> a" "a + 2 ^ m \<le> b + 2 ^ n"
    using j k d by (auto simp: algebra_simps)
  then show ?thesis
    by auto
qed

lemma blk_subset_order: "blk a m \<subseteq> blk b n \<Longrightarrow> m \<le> n"
  by (metis card_blk card_mono finite_blk one_less_numeral_iff power_le_imp_le_exp semiring_norm(76))

lemma blk_subset_antisym: "blk a m \<subseteq> blk b n \<Longrightarrow> blk b n \<subseteq> blk a m \<Longrightarrow> (a, m) = (b, n)"
proof -
  assume "blk a m \<subseteq> blk b n" "blk b n \<subseteq> blk a m"
  moreover from this have "m = n"
    by (metis antisym blk_subset_order)
  moreover have "a \<in> blk a m" "b \<in> blk b n"
    by auto
  ultimately show ?thesis
    by (metis antisym mem_blk subsetD)
qed

lemma aligned_free_in_block:
  assumes wf: "lists_wf c s z" and co: "coalesced c s z"
    and "2 ^ ord dvd p" and "ord < MAX_ORDER c" and "blk p ord \<subseteq> free_pfns s z"
  shows "\<exists>q r. (q, r) \<in> free_blocks s z \<and> blk p ord \<subseteq> blk q r"
  using assms(3-)
proof (induction ord arbitrary: p)
  case 0
  then have "p \<in> free_pfns s z"
    by auto
  then show ?case
    by (fastforce simp: free_pfns_def)
next
  case (Suc h)
  have d: "2 ^ h dvd p" and d2: "2 ^ h dvd p + 2 ^ h"
    using Suc.prems(1) by (metis dvd_trans le_imp_power_dvd lessI less_imp_le)
      (metis Suc.prems(1) dvd_add_triv_right_iff dvd_trans le_imp_power_dvd lessI less_imp_le)
  note halves = blk_halves [of p h]
  obtain q1 r1 where b1: "(q1, r1) \<in> free_blocks s z" "blk p h \<subseteq> blk q1 r1"
    using Suc.IH [OF d] Suc.prems(2,3) halves by (metis Suc_lessD le_sup_iff)
  obtain q2 r2 where b2: "(q2, r2) \<in> free_blocks s z" "blk (p + 2 ^ h) h \<subseteq> blk q2 r2"
    using Suc.IH [OF d2] Suc.prems(2,3) halves by (metis Suc_lessD le_sup_iff)
  have dv: "2 ^ r1 dvd q1" "2 ^ r2 dvd q2"
    using wf_block(1) [OF wf] b1 b2 by (auto simp: block_ok_def)
  have ge: "h \<le> r1" "h \<le> r2"
    using b1(2) b2(2) by (auto dest: blk_subset_order)
  have wide1: "blk p (Suc h) \<subseteq> blk q1 r1" if "Suc h \<le> r1"
  proof (rule dyadic_nested [OF Suc.prems(1) dv(1) that])
    show "p \<in> blk p (Suc h)" by simp
    show "p \<in> blk q1 r1" using b1(2) by (rule subsetD) simp
  qed
  have wide2: "blk p (Suc h) \<subseteq> blk q2 r2" if "Suc h \<le> r2"
  proof (rule dyadic_nested [OF Suc.prems(1) dv(2) that])
    show "p + 2 ^ h \<in> blk p (Suc h)" by simp
    show "p + 2 ^ h \<in> blk q2 r2" using b2(2) by (rule subsetD) simp
  qed
  show ?case
  proof (cases "r1 = h \<and> r2 = h")
    case True
    have "blk q1 h \<subseteq> blk p h" "blk q2 h \<subseteq> blk (p + 2 ^ h) h"
      using True b1(2) b2(2) card_subset_eq [of "blk q1 h" "blk p h"]
        card_subset_eq [of "blk q2 h" "blk (p + 2 ^ h) h"] by auto
    then have "q1 = p" "q2 = p + 2 ^ h"
      using True b1(2) b2(2) blk_subset_antisym by blast+
    then have "(p, h) \<in> free_blocks s z" "(buddy_of p h, h) \<in> free_blocks s z"
      using b1 b2 True upper_half_buddy(2) [OF Suc.prems(1)] by auto
    then have False
      using co Suc.prems(2) unfolding coalesced_def
      by (metis Suc_eq_plus1 less_diff_conv)
    then show ?thesis ..
  next
    case False
    then show ?thesis
      using ge wide1 wide2 b1(1) b2(1) by (metis Suc_leI le_neq_implies_less)
  qed
qed

lemma free_pfns_block: "(p, ord) \<in> free_blocks s z \<Longrightarrow> blk p ord \<subseteq> free_pfns s z"
  by (auto simp: free_pfns_def)

lemma free_blocks_subset:
  assumes wf: "lists_wf c s z" "lists_wf c s' z" and co: "coalesced c s z" "coalesced c s' z"
    and eq: "free_pfns s z = free_pfns s' z"
  shows "free_blocks s z \<subseteq> free_blocks s' z"
proof
  fix b assume "b \<in> free_blocks s z"
  then obtain p ord where b: "b = (p, ord)" "(p, ord) \<in> free_blocks s z"
    by (cases b) auto
  have ok: "2 ^ ord dvd p" "ord < MAX_ORDER c"
    using wf_block(1) [OF wf(1) b(2)] by (auto simp: block_ok_def)
  obtain q r where q: "(q, r) \<in> free_blocks s' z" "blk p ord \<subseteq> blk q r"
    using aligned_free_in_block [OF wf(2) co(2) ok] free_pfns_block [OF b(2)] eq by blast
  have ok': "2 ^ r dvd q" "r < MAX_ORDER c"
    using wf_block(1) [OF wf(2) q(1)] by (auto simp: block_ok_def)
  obtain p' ord' where p': "(p', ord') \<in> free_blocks s z" "blk q r \<subseteq> blk p' ord'"
    using aligned_free_in_block [OF wf(1) co(1) ok'] free_pfns_block [OF q(1)] eq by blast
  have "(p', ord') = (p, ord)"
    using wf_disjoint [OF wf(1) p'(1) b(2)] q(2) p'(2) blk_nonempty [of p ord] by blast
  then have "(q, r) = (p, ord)"
    using q(2) p'(2) blk_subset_antisym by blast
  then show "b \<in> free_blocks s' z"
    using q(1) b(1) by simp
qed

end
