(* ===== verification/Rmqueue.thy ===== *)
theory Rmqueue
  imports Buddy_Alloc
begin

text \<open>
  Taking a page from any migrate type (mm/page\_alloc.c): the fallback table, moving the free
  pages of a pageblock to another type's lists, \<open>\<^verbatim>\<open>__rmqueue_fallback\<close>\<close>, \<open>\<^verbatim>\<open>__rmqueue\<close>\<close> and
  \<open>rmqueue_bulk\<close>. \<open>BUG_ON\<close> halts the machine: an operation that can reach one returns an
  option, and \<open>None\<close> is the halt.
\<close>

section \<open>Fallbacks\<close>

text \<open>
  The table has \<open>MIGRATE_TYPES - 1\<close> columns and its initialiser names three of them, so C fills
  the fourth with 0, which is \<open>MIGRATE_UNMOVABLE\<close>; the row of \<open>MIGRATE_ISOLATE\<close> is all 0.
\<close>

definition fallbacks :: "nat \<Rightarrow> nat list" where
  "fallbacks t =
     (if t = MIGRATE_UNMOVABLE then [MIGRATE_RECLAIMABLE, MIGRATE_MOVABLE, MIGRATE_RESERVE, 0]
      else if t = MIGRATE_RECLAIMABLE then [MIGRATE_UNMOVABLE, MIGRATE_MOVABLE, MIGRATE_RESERVE, 0]
      else if t = MIGRATE_MOVABLE then [MIGRATE_RECLAIMABLE, MIGRATE_UNMOVABLE, MIGRATE_RESERVE, 0]
      else if t = MIGRATE_RESERVE then [MIGRATE_RESERVE, MIGRATE_RESERVE, MIGRATE_RESERVE, 0]
      else [0, 0, 0, 0])"

definition pageblock_nr_pages :: "mmcfg \<Rightarrow> nat" where
  "pageblock_nr_pages c = 2 ^ pageblock_order c"

function move_freepages_loop :: "mmcfg \<Rightarrow> nat \<Rightarrow> nat \<Rightarrow> nat \<Rightarrow> nat \<Rightarrow> nat \<Rightarrow> mm \<Rightarrow> nat \<times> mm" where
  "move_freepages_loop c z migratetype p end_page pages_moved s =
     (if p \<le> end_page then
        if \<not> pfn_valid_within c p
        then move_freepages_loop c z migratetype (p + 1) end_page pages_moved s
        else if \<not> PageBuddy s p
        then move_freepages_loop c z migratetype (p + 1) end_page pages_moved s
        else
          let ord = page_order s p in
          move_freepages_loop c z migratetype (p + 2 ^ ord) end_page (pages_moved + 2 ^ ord)
            (list_add_free z ord migratetype p (list_del_free z p s))
      else (pages_moved, s))"
  by pat_completeness auto
termination
  by (relation "measure (\<lambda>(c, z, t, p, e, m, s). Suc e - p)") (auto simp: skip_block_less)

declare move_freepages_loop.simps [simp del]

definition move_freepages :: "mmcfg \<Rightarrow> nat \<Rightarrow> nat \<Rightarrow> nat \<Rightarrow> nat \<Rightarrow> mm \<Rightarrow> (nat \<times> mm) option" where
  "move_freepages c z start_page end_page migratetype s =
     (if page_zone s start_page \<noteq> page_zone s end_page then None
      else Some (move_freepages_loop c z migratetype start_page end_page 0 s))"

definition move_freepages_block :: "mmcfg \<Rightarrow> nat \<Rightarrow> nat \<Rightarrow> nat \<Rightarrow> mm \<Rightarrow> (nat \<times> mm) option" where
  "move_freepages_block c z p migratetype s =
     (let start_pfn = nat (int p AND NOT (int (pageblock_nr_pages c) - 1));
          end_pfn = start_pfn + pageblock_nr_pages c - 1;
          start_page = (if start_pfn < zone_start_pfn (zones s z) then p else start_pfn)
      in if end_pfn \<ge> zone_start_pfn (zones s z) + spanned_pages (zones s z)
         then Some (0, s)
         else move_freepages c z start_page end_pfn migratetype s)"

definition change_pageblock_range :: "mmcfg \<Rightarrow> nat \<Rightarrow> nat \<Rightarrow> nat \<Rightarrow> mm \<Rightarrow> mm" where
  "change_pageblock_range c pageblock_page start_order migratetype s =
     foldl (\<lambda>s i. set_pageblock_migratetype c (pageblock_page + i * pageblock_nr_pages c) migratetype s)
       s [0..<2 ^ (start_order - pageblock_order c)]"

fun fallback_type :: "mm \<Rightarrow> nat \<Rightarrow> nat \<Rightarrow> nat list \<Rightarrow> nat option" where
  "fallback_type s z cur [] = None"
| "fallback_type s z cur (t # ts) =
     (if t = MIGRATE_RESERVE then fallback_type s z cur ts
      else if fl s z cur t = [] then fallback_type s z cur ts
      else Some t)"

definition claim_block :: "mmcfg \<Rightarrow> nat \<Rightarrow> nat \<Rightarrow> nat \<Rightarrow> nat \<Rightarrow> mm \<Rightarrow> (nat \<times> mm) option" where
  "claim_block c z p cur start_migratetype s =
     (case move_freepages_block c z p start_migratetype s of
        None \<Rightarrow> None
      | Some (pages, s1) \<Rightarrow>
          Some (start_migratetype,
            if pages \<ge> 2 ^ (pageblock_order c - 1) \<or> page_group_by_mobility_disabled s1
            then set_pageblock_migratetype c p start_migratetype s1 else s1))"

definition take_fallback ::
  "mmcfg \<Rightarrow> nat \<Rightarrow> nat \<Rightarrow> nat \<Rightarrow> nat \<Rightarrow> nat \<Rightarrow> mm \<Rightarrow> (nat option \<times> mm) option" where
  "take_fallback c z ord start_migratetype cur t s =
     (let p = hd (fl s z cur t);
          s1 = add_nr_free z cur (-1) s
      in case (if cur \<ge> drop_bit 1 (pageblock_order c) \<or> start_migratetype = MIGRATE_RECLAIMABLE
                  \<or> page_group_by_mobility_disabled s1
               then claim_block c z p cur start_migratetype s1 else Some (t, s1)) of
           None \<Rightarrow> None
         | Some (t', s2) \<Rightarrow>
             let s3 = rmv_page_order p (list_del_free z p s2);
                 s4 = (if cur \<ge> pageblock_order c
                       then change_pageblock_range c p cur start_migratetype s3 else s3)
             in Some (Some p, expand z p ord cur t' s4))"

fun rmqueue_fallback_loop ::
  "mmcfg \<Rightarrow> nat \<Rightarrow> nat \<Rightarrow> nat \<Rightarrow> nat \<Rightarrow> mm \<Rightarrow> (nat option \<times> mm) option" where
  "rmqueue_fallback_loop c z ord start_migratetype 0 s = Some (None, s)"
| "rmqueue_fallback_loop c z ord start_migratetype (Suc cur) s =
     (if cur \<ge> ord then
        (case fallback_type s z cur (fallbacks start_migratetype) of
           None \<Rightarrow> rmqueue_fallback_loop c z ord start_migratetype cur s
         | Some t \<Rightarrow> take_fallback c z ord start_migratetype cur t s)
      else Some (None, s))"

definition uu_rmqueue_fallback ::
  "mmcfg \<Rightarrow> nat \<Rightarrow> nat \<Rightarrow> nat \<Rightarrow> mm \<Rightarrow> (nat option \<times> mm) option" where
  "uu_rmqueue_fallback c z ord start_migratetype s =
     rmqueue_fallback_loop c z ord start_migratetype (MAX_ORDER c) s"

section \<open>\<^verbatim>\<open>__rmqueue\<close> and rmqueue\_bulk\<close>

definition uu_rmqueue :: "mmcfg \<Rightarrow> nat \<Rightarrow> nat \<Rightarrow> nat \<Rightarrow> mm \<Rightarrow> (nat option \<times> mm) option" where
  "uu_rmqueue c z ord migratetype s =
     (case uu_rmqueue_smallest c z ord migratetype s of
        (Some p, s1) \<Rightarrow> Some (Some p, s1)
      | (None, s1) \<Rightarrow>
          if migratetype \<noteq> MIGRATE_RESERVE then
            (case uu_rmqueue_fallback c z ord migratetype s1 of
               None \<Rightarrow> None
             | Some (Some p, s2) \<Rightarrow> Some (Some p, s2)
             | Some (None, s2) \<Rightarrow> Some (uu_rmqueue_smallest c z ord MIGRATE_RESERVE s2))
          else Some (None, s1))"

fun rmqueue_bulk_loop ::
  "mmcfg \<Rightarrow> nat \<Rightarrow> nat \<Rightarrow> nat \<Rightarrow> nat \<Rightarrow> nat list \<Rightarrow> mm \<Rightarrow> (nat list \<times> mm) option" where
  "rmqueue_bulk_loop c z ord migratetype 0 got s = Some (got, s)"
| "rmqueue_bulk_loop c z ord migratetype (Suc n) got s =
     (case uu_rmqueue c z ord migratetype s of
        None \<Rightarrow> None
      | Some (None, s1) \<Rightarrow> Some (got, s1)
      | Some (Some p, s1) \<Rightarrow>
          rmqueue_bulk_loop c z ord migratetype n (got @ [p])
            (upd_page p (\<lambda>g. g\<lparr>pg_private := migratetype\<rparr>) s1))"

text \<open>
  The result is the number of pages taken and the caller's list: each page goes right behind
  (before, when \<open>cold\<close>) the place where the previous one went, starting at the list head.
\<close>

definition rmqueue_bulk ::
  "mmcfg \<Rightarrow> nat \<Rightarrow> nat \<Rightarrow> nat \<Rightarrow> nat list \<Rightarrow> nat \<Rightarrow> bool \<Rightarrow> mm \<Rightarrow> (nat \<times> nat list \<times> mm) option" where
  "rmqueue_bulk c z ord n lst migratetype cold s =
     (case rmqueue_bulk_loop c z ord migratetype n [] s of
        None \<Rightarrow> None
      | Some (got, s1) \<Rightarrow>
          Some (length got, if \<not> cold then got @ lst else lst @ rev got,
            mod_nr_free_pages z (- int (length got * 2 ^ ord)) s1))"

end
