(* ===== verification/Pcp.thy ===== *)
theory Pcp
  imports Rmqueue
begin

text \<open>
  The per-cpu page lists and the entry points above the buddy system (mm/page\_alloc.c):
  draining a cpu's lists (\<open>free_pcppages_bulk\<close>, \<open>drain_zone_pages\<close>, \<open>drain_pages\<close>,
  \<open>drain_all_pages\<close>), freeing a page (\<open>free_hot_cold_page\<close>, \<open>\<^verbatim>\<open>__free_pages\<close>\<close>) and taking one
  (\<open>buffered_rmqueue\<close>). The cpu an operation runs on is an argument. \<open>None\<close> is a call that never
  returns: a \<open>BUG_ON\<close> halt, or the search of \<open>free_pcppages_bulk\<close> for a non-empty list spinning
  because all lists are empty.
\<close>

section \<open>Flags of a request\<close>

text \<open>The bits of \<open>gfp_t\<close> that the allocator tests; their values are fixed outside the repository.\<close>

datatype gfpflag = GFP_COLD | GFP_NOFAIL | GFP_ZERO | GFP_COMP | GFP_HIGH | GFP_WAIT | GFP_NORETRY
  | GFP_REPEAT | GFP_FS | GFP_HARDWALL | GFP_NOMEMALLOC | GFP_THISNODE | GFP_NOWARN | GFP_HIGHMEM

type_synonym gfp_t = "gfpflag set"

section \<open>The lists of a cpu\<close>

definition upd_pcp :: "nat \<Rightarrow> nat \<Rightarrow> (per_cpu_pages \<Rightarrow> per_cpu_pages) \<Rightarrow> mm \<Rightarrow> mm" where
  "upd_pcp z cpu f = upd_zone z (\<lambda>g. g\<lparr>pageset := (pageset g)(cpu := f (pageset g cpu))\<rparr>)"

definition pcp_list :: "mm \<Rightarrow> nat \<Rightarrow> nat \<Rightarrow> nat \<Rightarrow> nat list" where
  "pcp_list s z cpu t = pcp_lists (pageset (zones s z) cpu) t"

definition set_pcp_list :: "nat \<Rightarrow> nat \<Rightarrow> nat \<Rightarrow> nat list \<Rightarrow> mm \<Rightarrow> mm" where
  "set_pcp_list z cpu t xs = upd_pcp z cpu (\<lambda>r. r\<lparr>pcp_lists := (pcp_lists r)(t := xs)\<rparr>)"

definition add_pcp_count :: "nat \<Rightarrow> nat \<Rightarrow> int \<Rightarrow> mm \<Rightarrow> mm" where
  "add_pcp_count z cpu d = upd_pcp z cpu (\<lambda>r. r\<lparr>pcp_count := pcp_count r + d\<rparr>)"

section \<open>Draining\<close>

text \<open>
  The search for a non-empty list: three rounds visit every list, so a search that is still
  running after them spins forever.
\<close>

fun find_list :: "nat \<Rightarrow> (nat \<Rightarrow> nat list) \<Rightarrow> nat \<Rightarrow> nat \<Rightarrow> (nat \<times> nat) option" where
  "find_list 0 ls migratetype batch_free = None"
| "find_list (Suc n) ls migratetype batch_free =
     (let batch_free' = batch_free + 1;
          migratetype' = (if migratetype + 1 = MIGRATE_PCPTYPES then 0 else migratetype + 1)
      in if ls migratetype' = [] then find_list n ls migratetype' batch_free'
         else Some (migratetype', batch_free'))"

definition drain_one :: "mmcfg \<Rightarrow> nat \<Rightarrow> nat \<Rightarrow> nat \<Rightarrow> mm \<Rightarrow> mm" where
  "drain_one c z cpu migratetype s =
     (let p = last (pcp_list s z cpu migratetype);
          s1 = set_pcp_list z cpu migratetype (butlast (pcp_list s z cpu migratetype)) s
      in uu_free_one_page c p z 0 (page_order s1 p) s1)"

text \<open>The inner loop: \<open>do ... while (--count && --batch_free && !list_empty(list))\<close>.\<close>

fun drain_list :: "mmcfg \<Rightarrow> nat \<Rightarrow> nat \<Rightarrow> nat \<Rightarrow> nat \<Rightarrow> nat \<Rightarrow> mm \<Rightarrow> nat \<times> nat \<times> mm" where
  "drain_list c z cpu migratetype 0 batch_free s = (0, batch_free, s)"
| "drain_list c z cpu migratetype (Suc n) batch_free s =
     (let s1 = drain_one c z cpu migratetype s in
      if n = 0 then (n, batch_free, s1)
      else if batch_free - 1 = 0 \<or> pcp_list s1 z cpu migratetype = [] then (n, batch_free - 1, s1)
      else drain_list c z cpu migratetype n (batch_free - 1) s1)"

lemma drain_list_less: "0 < n \<Longrightarrow> fst (drain_list c z cpu t n bf s) < n"
proof (induction c z cpu t n bf s rule: drain_list.induct)
  case (2 c z cpu t n bf s)
  then show ?case
    by (fastforce simp: Let_def)
qed simp

function free_pcppages_loop :: "mmcfg \<Rightarrow> nat \<Rightarrow> nat \<Rightarrow> nat \<Rightarrow> nat \<Rightarrow> nat \<Rightarrow> mm \<Rightarrow> mm option" where
  "free_pcppages_loop c z cpu migratetype batch_free n s =
     (if n = 0 then Some s
      else
        case find_list MIGRATE_PCPTYPES (pcp_list s z cpu) migratetype batch_free of
          None \<Rightarrow> None
        | Some (migratetype', batch_free') \<Rightarrow>
            let r = drain_list c z cpu migratetype' n batch_free' s
            in free_pcppages_loop c z cpu migratetype' (fst (snd r)) (fst r) (snd (snd r)))"
  by pat_completeness auto
termination
  by (relation "measure (\<lambda>(c, z, cpu, t, bf, n, s). n)") (auto simp: drain_list_less)

declare free_pcppages_loop.simps [simp del]

text \<open>A negative count never reaches zero: the lists run empty and the search spins.\<close>

definition free_pcppages_bulk :: "mmcfg \<Rightarrow> nat \<Rightarrow> int \<Rightarrow> nat \<Rightarrow> mm \<Rightarrow> mm option" where
  "free_pcppages_bulk c z n cpu s =
     (let s1 = upd_zone z (\<lambda>g. g\<lparr>all_unreclaimable := False, pages_scanned := 0\<rparr>) s;
          s2 = mod_nr_free_pages z n s1
      in if n < 0 then None else free_pcppages_loop c z cpu 0 0 (nat n) s2)"

definition drain_zone_pages :: "mmcfg \<Rightarrow> nat \<Rightarrow> nat \<Rightarrow> mm \<Rightarrow> mm option" where
  "drain_zone_pages c z cpu s =
     (let pcp = pageset (zones s z) cpu;
          to_drain = (if pcp_count pcp \<ge> pcp_batch pcp then pcp_batch pcp else pcp_count pcp)
      in map_option (add_pcp_count z cpu (- to_drain)) (free_pcppages_bulk c z to_drain cpu s))"

text \<open>\<open>zs\<close> lists the zones in the order of \<open>for_each_zone\<close>; populated ones have present pages.\<close>

fun drain_pages :: "mmcfg \<Rightarrow> nat list \<Rightarrow> nat \<Rightarrow> mm \<Rightarrow> mm option" where
  "drain_pages c [] cpu s = Some s"
| "drain_pages c (z # zs) cpu s =
     (if present_pages (zones s z) = 0 then drain_pages c zs cpu s
      else
        case free_pcppages_bulk c z (pcp_count (pageset (zones s z) cpu)) cpu s of
          None \<Rightarrow> None
        | Some s1 \<Rightarrow> drain_pages c zs cpu (upd_pcp z cpu (\<lambda>r. r\<lparr>pcp_count := 0\<rparr>) s1))"

definition drain_local_pages :: "mmcfg \<Rightarrow> nat list \<Rightarrow> nat \<Rightarrow> mm \<Rightarrow> mm option" where
  "drain_local_pages c zs smp_processor_id s = drain_pages c zs smp_processor_id s"

fun drain_all_pages :: "mmcfg \<Rightarrow> nat list \<Rightarrow> nat list \<Rightarrow> mm \<Rightarrow> mm option" where
  "drain_all_pages c zs [] s = Some s"
| "drain_all_pages c zs (cpu # cpus) s =
     (case drain_local_pages c zs cpu s of None \<Rightarrow> None | Some s1 \<Rightarrow> drain_all_pages c zs cpus s1)"

section \<open>Freeing\<close>

definition pcp_park :: "mmcfg \<Rightarrow> nat \<Rightarrow> nat \<Rightarrow> nat \<Rightarrow> bool \<Rightarrow> nat \<Rightarrow> mm \<Rightarrow> mm option" where
  "pcp_park c z cpu p cold migratetype s =
     (let l = pcp_list s z cpu migratetype;
          s1 = set_pcp_list z cpu migratetype (if cold then l @ [p] else p # l) s;
          s2 = add_pcp_count z cpu 1 s1;
          pcp = pageset (zones s2 z) cpu
      in if pcp_count pcp \<ge> pcp_high pcp
         then map_option (add_pcp_count z cpu (- pcp_batch pcp)) (free_pcppages_bulk c z (pcp_batch pcp) cpu s2)
         else Some s2)"

definition free_hot_cold_page :: "mmcfg \<Rightarrow> nat \<Rightarrow> nat \<Rightarrow> bool \<Rightarrow> mm \<Rightarrow> mm option" where
  "free_hot_cold_page c cpu p cold s =
     (let z = page_zone s p;
          (wasMlocked, s1) = test_clear_mlocked p s;
          s2 = (if PageAnon s1 p then upd_page p (\<lambda>g. g\<lparr>mapping := 0\<rparr>) s1 else s1);
          (bad, s3) = free_pages_check c p s2
      in if bad \<noteq> 0 then Some s3
         else
           let migratetype = get_pageblock_migratetype c s3 p;
               s4 = upd_page p (\<lambda>g. g\<lparr>pg_private := migratetype\<rparr>) s3;
               s5 = (if wasMlocked then free_page_mlock p s4 else s4);
               s6 = s5\<lparr>ev_pgfree := ev_pgfree s5 + 1\<rparr>
           in if migratetype \<ge> MIGRATE_PCPTYPES then
                if migratetype = MIGRATE_ISOLATE then Some (free_one_page c z p 0 migratetype s6)
                else pcp_park c z cpu p cold MIGRATE_MOVABLE s6
              else pcp_park c z cpu p cold migratetype s6)"

definition free_hot_page :: "mmcfg \<Rightarrow> nat \<Rightarrow> nat \<Rightarrow> mm \<Rightarrow> mm option" where
  "free_hot_page c cpu p s = free_hot_cold_page c cpu p False s"

definition uu_free_pages :: "mmcfg \<Rightarrow> nat \<Rightarrow> nat \<Rightarrow> nat \<Rightarrow> mm \<Rightarrow> mm option" where
  "uu_free_pages c cpu p ord s =
     (let (zero, s1) = put_page_testzero p s
      in if zero then
           if ord = 0 then free_hot_page c cpu p s1 else Some (uu_free_pages_ok c p ord s1)
         else Some s1)"

fun uu_pagevec_free :: "mmcfg \<Rightarrow> nat \<Rightarrow> bool \<Rightarrow> nat list \<Rightarrow> mm \<Rightarrow> mm option" where
  "uu_pagevec_free c cpu cold [] s = Some s"
| "uu_pagevec_free c cpu cold (p # ps) s =
     (case uu_pagevec_free c cpu cold ps s of
        None \<Rightarrow> None
      | Some s1 \<Rightarrow> free_hot_cold_page c cpu p cold s1)"

definition split_page :: "nat \<Rightarrow> nat \<Rightarrow> mm \<Rightarrow> mm" where
  "split_page p ord s = foldl (\<lambda>s i. set_page_refcounted (p + i) s) s [1..<2 ^ ord]"

section \<open>Taking\<close>

text \<open>
  One round of \<open>buffered_rmqueue\<close> up to \<open>prep_new_page\<close>: \<open>Some (None, _)\<close> is the label
  \<open>failed\<close>. The batch is an \<open>int\<close> that \<open>rmqueue_bulk\<close> receives as a 32-bit unsigned count.
\<close>

definition rmqueue_pcp :: "mmcfg \<Rightarrow> nat \<Rightarrow> nat \<Rightarrow> bool \<Rightarrow> nat \<Rightarrow> mm \<Rightarrow> (nat option \<times> mm) option" where
  "rmqueue_pcp c cpu z cold migratetype s =
     (case (if pcp_list s z cpu migratetype = [] then
              (case rmqueue_bulk c z 0 (nat (pcp_batch (pageset (zones s z) cpu) mod 2 ^ 32)) [] migratetype cold s of
                 None \<Rightarrow> None
               | Some (n, l, s1) \<Rightarrow> Some (add_pcp_count z cpu (int n) (set_pcp_list z cpu migratetype l s1)))
            else Some s) of
        None \<Rightarrow> None
      | Some s1 \<Rightarrow>
          let l = pcp_list s1 z cpu migratetype in
          if l = [] then Some (None, s1)
          else
            let p = (if cold then last l else hd l);
                l' = (if cold then butlast l else tl l)
            in Some (Some p, add_pcp_count z cpu (-1) (set_pcp_list z cpu migratetype l' s1)))"

definition rmqueue_direct :: "mmcfg \<Rightarrow> nat \<Rightarrow> nat \<Rightarrow> nat \<Rightarrow> mm \<Rightarrow> (nat option \<times> mm) option" where
  "rmqueue_direct c z ord migratetype s =
     (case uu_rmqueue c z ord migratetype s of
        None \<Rightarrow> None
      | Some (None, s1) \<Rightarrow> Some (None, s1)
      | Some (Some p, s1) \<Rightarrow> Some (Some p, mod_nr_free_pages z (- (2 ^ ord)) s1))"

partial_function (option) buffered_rmqueue ::
  "mmcfg \<Rightarrow> nat \<Rightarrow> nat \<Rightarrow> nat \<Rightarrow> gfp_t \<Rightarrow> nat \<Rightarrow> mm \<Rightarrow> (nat option \<times> mm) option" where
  "buffered_rmqueue c cpu z ord gfp_flags migratetype s =
     (case (if ord = 0 then rmqueue_pcp c cpu z (GFP_COLD \<in> gfp_flags) migratetype s
            else rmqueue_direct c z ord migratetype s) of
        None \<Rightarrow> None
      | Some (None, s1) \<Rightarrow> Some (None, s1)
      | Some (Some p, s1) \<Rightarrow>
          let s2 = s1\<lparr>ev_pgalloc := ev_pgalloc s1 + 2 ^ ord\<rparr>;
              (bad, s3) = prep_new_page c p ord (GFP_ZERO \<in> gfp_flags) (GFP_COMP \<in> gfp_flags) s2
          in if bad then buffered_rmqueue c cpu z ord gfp_flags migratetype s3
             else Some (Some p, s3))"

end
