(* ===== verification/Alloc_Path.thy ===== *)
theory Alloc_Path
  imports Pcp
begin

text \<open>
  The allocation path of mm/page\_alloc.c above one zone, for the build without NUMA: the
  watermark test, the scan of the zonelist, and the slow path with its retry loop.

  The zonelist is the list of its zones with their indices. What lies outside the repository
  (cpusets, reclaim, the OOM killer, the scheduler) is the record \<open>alloc_env\<close>: its functions
  take the state and return the state they leave. The mask of GFP bits that are allowed during
  boot is a field too.
\<close>

section \<open>Allocation flags and watermarks\<close>

abbreviation (input) "ALLOC_WMARK_MIN \<equiv> (0x00 :: u32)"
abbreviation (input) "ALLOC_WMARK_LOW \<equiv> (0x01 :: u32)"
abbreviation (input) "ALLOC_WMARK_HIGH \<equiv> (0x02 :: u32)"
abbreviation (input) "ALLOC_NO_WATERMARKS \<equiv> (0x04 :: u32)"
abbreviation (input) "ALLOC_WMARK_MASK \<equiv> (0x03 :: u32)"
abbreviation (input) "ALLOC_HARDER \<equiv> (0x10 :: u32)"
abbreviation (input) "ALLOC_HIGH \<equiv> (0x20 :: u32)"
abbreviation (input) "ALLOC_CPUSET \<equiv> (0x40 :: u32)"

fun watermark_loop :: "zone \<Rightarrow> nat \<Rightarrow> nat \<Rightarrow> int \<Rightarrow> int \<Rightarrow> bool" where
  "watermark_loop z o' 0 free_pages mn = True"
| "watermark_loop z o' (Suc n) free_pages mn =
     (let free_pages' = free_pages - nr_free (area z o') * 2 ^ o';
          mn' = mn div 2
      in if free_pages' \<le> mn' then False else watermark_loop z (o' + 1) n free_pages' mn')"

definition watermark_min :: "nat \<Rightarrow> u32 \<Rightarrow> int" where
  "watermark_min mark alloc_flags =
     (let m0 = int mark;
          m1 = (if alloc_flags AND ALLOC_HIGH \<noteq> 0 then m0 - m0 div 2 else m0)
      in if alloc_flags AND ALLOC_HARDER \<noteq> 0 then m1 - m1 div 4 else m1)"

definition zone_watermark_ok :: "zone \<Rightarrow> nat \<Rightarrow> nat \<Rightarrow> nat \<Rightarrow> u32 \<Rightarrow> bool" where
  "zone_watermark_ok z ord mark classzone_idx alloc_flags =
     (let mn = watermark_min mark alloc_flags;
          free_pages = nr_free_pages z - 2 ^ ord + 1
      in if free_pages \<le> mn + int (lowmem_reserve z classzone_idx) then False
         else watermark_loop z 0 ord free_pages mn)"

section \<open>Scanning the zonelist\<close>

datatype reclaim_result = ZONE_RECLAIM_NOSCAN | ZONE_RECLAIM_FULL | ZONE_RECLAIM_SOME

text \<open>
  What the allocator calls outside this file. \<open>kcached_run\<close> of drop_caches.c only signals a completion; the parameter is what memory looks like after it, with
  whatever the thread that it wakes up (\<open>Drop_Caches\<close>) has done by then. The flags of the task are those at the time of the call.
\<close>

record alloc_env =
  cpuset_zone_allowed_softwall :: "nat \<Rightarrow> gfp_t \<Rightarrow> bool"
  zone_reclaim_mode :: bool
  zone_reclaim :: "nat \<Rightarrow> gfp_t \<Rightarrow> nat \<Rightarrow> mm \<Rightarrow> reclaim_result \<times> mm"
  try_to_free_pages :: "nat \<Rightarrow> gfp_t \<Rightarrow> mm \<Rightarrow> nat \<times> mm"
  try_set_zone_oom :: "mm \<Rightarrow> bool"
  out_of_memory :: "mm \<Rightarrow> mm"
  congestion_wait :: "mm \<Rightarrow> mm"
  wakeup_kswapd :: "nat \<Rightarrow> nat \<Rightarrow> mm \<Rightarrow> mm"
  kcached_run :: "mm \<Rightarrow> mm"
  rt_task :: bool
  in_interrupt :: bool
  PF_MEMALLOC :: bool
  TIF_MEMDIE :: bool
  oom_killer_disabled :: bool
  gfp_allowed_mask :: gfp_t
  gfp_zone :: "gfp_t \<Rightarrow> nat"
  allocflags_to_migratetype :: "gfp_t \<Rightarrow> nat"
  all_zones :: "nat list"
  all_cpus :: "nat list"

type_synonym zonelist = "(nat \<times> nat) list"

text \<open>
  Whether the zone may be tried: \<open>True\<close> is the label \<open>try_this_zone\<close>, \<open>False\<close> the two labels
  that go on to the next zone (they differ only in a NUMA build).
\<close>

definition try_zone :: "alloc_env \<Rightarrow> gfp_t \<Rightarrow> nat \<Rightarrow> nat \<Rightarrow> nat \<Rightarrow> u32 \<Rightarrow> mm \<Rightarrow> bool \<times> mm" where
  "try_zone e gfp_mask ord zn classzone_idx alloc_flags s =
     (if alloc_flags AND ALLOC_CPUSET \<noteq> 0 \<and> \<not> cpuset_zone_allowed_softwall e zn gfp_mask
      then (False, s)
      else if alloc_flags AND ALLOC_NO_WATERMARKS = 0 then
        let mark = watermark (zones s zn) (unat (alloc_flags AND ALLOC_WMARK_MASK))
        in if zone_watermark_ok (zones s zn) ord mark classzone_idx alloc_flags then (True, s)
           else if \<not> zone_reclaim_mode e then (False, s)
           else
             case zone_reclaim e zn gfp_mask ord s of
               (ZONE_RECLAIM_NOSCAN, s1) \<Rightarrow> (False, s1)
             | (ZONE_RECLAIM_FULL, s1) \<Rightarrow> (False, s1)
             | (ZONE_RECLAIM_SOME, s1) \<Rightarrow>
                 (zone_watermark_ok (zones s1 zn) ord mark classzone_idx alloc_flags, s1)
      else (True, s))"

fun scan_zones ::
  "alloc_env \<Rightarrow> mmcfg \<Rightarrow> nat \<Rightarrow> gfp_t \<Rightarrow> nat \<Rightarrow> nat list \<Rightarrow> nat \<Rightarrow> u32 \<Rightarrow> nat \<Rightarrow> mm \<Rightarrow> (nat option \<times> mm) option" where
  "scan_zones e c cpu gfp_mask ord [] classzone_idx alloc_flags migratetype s = Some (None, s)"
| "scan_zones e c cpu gfp_mask ord (zn # zs) classzone_idx alloc_flags migratetype s =
     (case try_zone e gfp_mask ord zn classzone_idx alloc_flags s of
        (False, s1) \<Rightarrow> scan_zones e c cpu gfp_mask ord zs classzone_idx alloc_flags migratetype s1
      | (True, s1) \<Rightarrow>
          (case buffered_rmqueue c cpu zn ord gfp_mask migratetype s1 of
             None \<Rightarrow> None
           | Some (Some p, s2) \<Rightarrow> Some (Some p, s2)
           | Some (None, s2) \<Rightarrow> scan_zones e c cpu gfp_mask ord zs classzone_idx alloc_flags migratetype s2))"

definition for_each_zone_zonelist :: "zonelist \<Rightarrow> nat \<Rightarrow> nat list" where
  "for_each_zone_zonelist zl high_zoneidx = map fst (filter (\<lambda>(zn, i). i \<le> high_zoneidx) zl)"

definition get_page_from_freelist ::
  "alloc_env \<Rightarrow> mmcfg \<Rightarrow> nat \<Rightarrow> gfp_t \<Rightarrow> nat \<Rightarrow> zonelist \<Rightarrow> nat \<Rightarrow> u32 \<Rightarrow> nat \<Rightarrow> nat \<Rightarrow> mm \<Rightarrow> (nat option \<times> mm) option" where
  "get_page_from_freelist e c cpu gfp_mask ord zl high_zoneidx alloc_flags classzone_idx migratetype s =
     scan_zones e c cpu gfp_mask ord (for_each_zone_zonelist zl high_zoneidx) classzone_idx alloc_flags migratetype s"

section \<open>The slow path\<close>

abbreviation (input) "PAGE_ALLOC_COSTLY_ORDER \<equiv> (3::nat)"

definition should_alloc_retry :: "gfp_t \<Rightarrow> nat \<Rightarrow> nat \<Rightarrow> bool" where
  "should_alloc_retry gfp_mask ord pages_reclaimed =
     (if GFP_NORETRY \<in> gfp_mask then False
      else if ord \<le> PAGE_ALLOC_COSTLY_ORDER then True
      else if GFP_REPEAT \<in> gfp_mask \<and> pages_reclaimed < 2 ^ ord then True
      else if GFP_NOFAIL \<in> gfp_mask then True
      else False)"

definition uu_alloc_pages_may_oom ::
  "alloc_env \<Rightarrow> mmcfg \<Rightarrow> nat \<Rightarrow> gfp_t \<Rightarrow> nat \<Rightarrow> zonelist \<Rightarrow> nat \<Rightarrow> nat \<Rightarrow> nat \<Rightarrow> mm \<Rightarrow> (nat option \<times> mm) option" where
  "uu_alloc_pages_may_oom e c cpu gfp_mask ord zl high_zoneidx classzone_idx migratetype s =
     (if \<not> try_set_zone_oom e s then Some (None, s)
      else
        case get_page_from_freelist e c cpu (insert GFP_HARDWALL gfp_mask) ord zl high_zoneidx
               (ALLOC_WMARK_HIGH OR ALLOC_CPUSET) classzone_idx migratetype s of
          None \<Rightarrow> None
        | Some (Some p, s1) \<Rightarrow> Some (Some p, s1)
        | Some (None, s1) \<Rightarrow>
            if ord > PAGE_ALLOC_COSTLY_ORDER \<and> GFP_NOFAIL \<notin> gfp_mask then Some (None, s1)
            else Some (None, out_of_memory e s1))"

definition uu_alloc_pages_direct_reclaim ::
  "alloc_env \<Rightarrow> mmcfg \<Rightarrow> nat \<Rightarrow> gfp_t \<Rightarrow> nat \<Rightarrow> zonelist \<Rightarrow> nat \<Rightarrow> u32 \<Rightarrow> nat \<Rightarrow> nat \<Rightarrow> mm
     \<Rightarrow> (nat option \<times> nat \<times> mm) option" where
  "uu_alloc_pages_direct_reclaim e c cpu gfp_mask ord zl high_zoneidx alloc_flags classzone_idx migratetype s =
     (case try_to_free_pages e ord gfp_mask s of
        (did_some_progress, s1) \<Rightarrow>
          (case (if ord \<noteq> 0 then drain_all_pages c (all_zones e) (all_cpus e) s1 else Some s1) of
             None \<Rightarrow> None
           | Some s2 \<Rightarrow>
               if did_some_progress \<noteq> 0 then
                 map_option (\<lambda>(r, s3). (r, did_some_progress, s3))
                   (get_page_from_freelist e c cpu gfp_mask ord zl high_zoneidx alloc_flags classzone_idx migratetype s2)
               else Some (None, did_some_progress, s2)))"

partial_function (option) uu_alloc_pages_high_priority ::
  "alloc_env \<Rightarrow> mmcfg \<Rightarrow> nat \<Rightarrow> gfp_t \<Rightarrow> nat \<Rightarrow> zonelist \<Rightarrow> nat \<Rightarrow> nat \<Rightarrow> nat \<Rightarrow> mm \<Rightarrow> (nat option \<times> mm) option" where
  "uu_alloc_pages_high_priority e c cpu gfp_mask ord zl high_zoneidx classzone_idx migratetype s =
     (case get_page_from_freelist e c cpu gfp_mask ord zl high_zoneidx ALLOC_NO_WATERMARKS classzone_idx migratetype s of
        None \<Rightarrow> None
      | Some (Some p, s1) \<Rightarrow> Some (Some p, s1)
      | Some (None, s1) \<Rightarrow>
          if GFP_NOFAIL \<in> gfp_mask
          then uu_alloc_pages_high_priority e c cpu gfp_mask ord zl high_zoneidx classzone_idx migratetype
                 (congestion_wait e s1)
          else Some (None, s1))"

definition wake_all_kswapd :: "alloc_env \<Rightarrow> nat \<Rightarrow> zonelist \<Rightarrow> nat \<Rightarrow> mm \<Rightarrow> mm" where
  "wake_all_kswapd e ord zl high_zoneidx s =
     foldl (\<lambda>s zn. wakeup_kswapd e zn ord s) s (for_each_zone_zonelist zl high_zoneidx)"

definition gfp_to_alloc_flags :: "alloc_env \<Rightarrow> gfp_t \<Rightarrow> u32" where
  "gfp_to_alloc_flags e gfp_mask =
     (let f0 = ALLOC_WMARK_MIN OR ALLOC_CPUSET;
          f1 = (if GFP_HIGH \<in> gfp_mask then f0 OR ALLOC_HIGH else f0);
          f2 = (if GFP_WAIT \<notin> gfp_mask then (f1 OR ALLOC_HARDER) AND NOT ALLOC_CPUSET
                else if rt_task e \<and> \<not> in_interrupt e then f1 OR ALLOC_HARDER
                else f1)
      in if GFP_NOMEMALLOC \<notin> gfp_mask \<and> \<not> in_interrupt e \<and> (PF_MEMALLOC e \<or> TIF_MEMDIE e)
         then f2 OR ALLOC_NO_WATERMARKS else f2)"

text \<open>
  The labels of \<open>\<^verbatim>\<open>__alloc_pages_slowpath\<close>\<close>, with what is live at each of them; \<open>slow_step\<close> is the
  code from one label to the next \<open>goto\<close> or return, and \<open>slowpath_at\<close> follows the gotos.
\<close>

datatype slow_label = Restart nat | Rebalance u32 nat | Nopage

datatype slow_exit = Goto slow_label | Return "nat option"

definition slow_restart ::
  "alloc_env \<Rightarrow> mmcfg \<Rightarrow> nat \<Rightarrow> gfp_t \<Rightarrow> nat \<Rightarrow> zonelist \<Rightarrow> nat \<Rightarrow> nat \<Rightarrow> nat \<Rightarrow> nat \<Rightarrow> mm \<Rightarrow> (slow_exit \<times> mm) option" where
  "slow_restart e c cpu gfp_mask ord zl high_zoneidx classzone_idx migratetype pages_reclaimed s =
     (let s1 = wake_all_kswapd e ord zl high_zoneidx s;
          alloc_flags = gfp_to_alloc_flags e gfp_mask
      in case get_page_from_freelist e c cpu gfp_mask ord zl high_zoneidx
                (alloc_flags AND NOT ALLOC_NO_WATERMARKS) classzone_idx migratetype s1 of
           None \<Rightarrow> None
         | Some (Some p, s2) \<Rightarrow> Some (Return (Some p), s2)
         | Some (None, s2) \<Rightarrow> Some (Goto (Rebalance alloc_flags pages_reclaimed), s2))"

definition slow_oom ::
  "alloc_env \<Rightarrow> mmcfg \<Rightarrow> nat \<Rightarrow> gfp_t \<Rightarrow> nat \<Rightarrow> zonelist \<Rightarrow> nat \<Rightarrow> nat \<Rightarrow> nat \<Rightarrow> nat \<Rightarrow> mm \<Rightarrow> (slow_exit \<times> mm) option" where
  "slow_oom e c cpu gfp_mask ord zl high_zoneidx classzone_idx migratetype pages_reclaimed s =
     (if oom_killer_disabled e then Some (Goto Nopage, s)
      else
        case uu_alloc_pages_may_oom e c cpu gfp_mask ord zl high_zoneidx classzone_idx migratetype s of
          None \<Rightarrow> None
        | Some (Some p, s1) \<Rightarrow> Some (Return (Some p), s1)
        | Some (None, s1) \<Rightarrow>
            if ord > PAGE_ALLOC_COSTLY_ORDER \<and> GFP_NOFAIL \<notin> gfp_mask then Some (Goto Nopage, s1)
            else Some (Goto (Restart pages_reclaimed), s1))"

definition slow_reclaim ::
  "alloc_env \<Rightarrow> mmcfg \<Rightarrow> nat \<Rightarrow> gfp_t \<Rightarrow> nat \<Rightarrow> zonelist \<Rightarrow> nat \<Rightarrow> nat \<Rightarrow> nat \<Rightarrow> u32 \<Rightarrow> nat \<Rightarrow> mm \<Rightarrow> (slow_exit \<times> mm) option" where
  "slow_reclaim e c cpu gfp_mask ord zl high_zoneidx classzone_idx migratetype alloc_flags pages_reclaimed s =
     (case uu_alloc_pages_direct_reclaim e c cpu gfp_mask ord zl high_zoneidx alloc_flags classzone_idx migratetype s of
        None \<Rightarrow> None
      | Some (Some p, _, s1) \<Rightarrow> Some (Return (Some p), s1)
      | Some (None, did_some_progress, s1) \<Rightarrow>
          if did_some_progress = 0 \<and> GFP_FS \<in> gfp_mask \<and> GFP_NORETRY \<notin> gfp_mask
          then slow_oom e c cpu gfp_mask ord zl high_zoneidx classzone_idx migratetype pages_reclaimed s1
          else
            let pages_reclaimed' = (pages_reclaimed + did_some_progress) mod 2 ^ 32
            in if should_alloc_retry gfp_mask ord pages_reclaimed'
               then Some (Goto (Rebalance alloc_flags pages_reclaimed'), congestion_wait e s1)
               else Some (Goto Nopage, s1))"

definition slow_rebalance ::
  "alloc_env \<Rightarrow> mmcfg \<Rightarrow> nat \<Rightarrow> gfp_t \<Rightarrow> nat \<Rightarrow> zonelist \<Rightarrow> nat \<Rightarrow> nat \<Rightarrow> nat \<Rightarrow> u32 \<Rightarrow> nat \<Rightarrow> mm \<Rightarrow> (slow_exit \<times> mm) option" where
  "slow_rebalance e c cpu gfp_mask ord zl high_zoneidx classzone_idx migratetype alloc_flags pages_reclaimed s =
     (case (if alloc_flags AND ALLOC_NO_WATERMARKS \<noteq> 0
            then uu_alloc_pages_high_priority e c cpu gfp_mask ord zl high_zoneidx classzone_idx migratetype s
            else Some (None, s)) of
        None \<Rightarrow> None
      | Some (Some p, s1) \<Rightarrow> Some (Return (Some p), s1)
      | Some (None, s1) \<Rightarrow>
          if GFP_WAIT \<notin> gfp_mask then Some (Goto Nopage, s1)
          else if PF_MEMALLOC e then Some (Goto Nopage, s1)
          else if TIF_MEMDIE e \<and> GFP_NOFAIL \<notin> gfp_mask then Some (Goto Nopage, s1)
          else slow_reclaim e c cpu gfp_mask ord zl high_zoneidx classzone_idx migratetype alloc_flags
                 pages_reclaimed s1)"

definition slow_step ::
  "alloc_env \<Rightarrow> mmcfg \<Rightarrow> nat \<Rightarrow> gfp_t \<Rightarrow> nat \<Rightarrow> zonelist \<Rightarrow> nat \<Rightarrow> nat \<Rightarrow> nat \<Rightarrow> slow_label \<Rightarrow> mm \<Rightarrow> (slow_exit \<times> mm) option" where
  "slow_step e c cpu gfp_mask ord zl high_zoneidx classzone_idx migratetype lab s =
     (case lab of
        Restart pages_reclaimed \<Rightarrow>
          slow_restart e c cpu gfp_mask ord zl high_zoneidx classzone_idx migratetype pages_reclaimed s
      | Rebalance alloc_flags pages_reclaimed \<Rightarrow>
          slow_rebalance e c cpu gfp_mask ord zl high_zoneidx classzone_idx migratetype alloc_flags pages_reclaimed s
      | Nopage \<Rightarrow> Some (Return None, kcached_run e s))"

partial_function (option) slowpath_at ::
  "alloc_env \<Rightarrow> mmcfg \<Rightarrow> nat \<Rightarrow> gfp_t \<Rightarrow> nat \<Rightarrow> zonelist \<Rightarrow> nat \<Rightarrow> nat \<Rightarrow> nat \<Rightarrow> slow_label \<Rightarrow> mm \<Rightarrow> (nat option \<times> mm) option" where
  "slowpath_at e c cpu gfp_mask ord zl high_zoneidx classzone_idx migratetype lab s =
     (case slow_step e c cpu gfp_mask ord zl high_zoneidx classzone_idx migratetype lab s of
        None \<Rightarrow> None
      | Some (Return r, s1) \<Rightarrow> Some (r, s1)
      | Some (Goto lab', s1) \<Rightarrow>
          slowpath_at e c cpu gfp_mask ord zl high_zoneidx classzone_idx migratetype lab' s1)"

definition uu_alloc_pages_slowpath ::
  "alloc_env \<Rightarrow> mmcfg \<Rightarrow> nat \<Rightarrow> gfp_t \<Rightarrow> nat \<Rightarrow> zonelist \<Rightarrow> nat \<Rightarrow> nat \<Rightarrow> nat \<Rightarrow> mm \<Rightarrow> (nat option \<times> mm) option" where
  "uu_alloc_pages_slowpath e c cpu gfp_mask ord zl high_zoneidx classzone_idx migratetype s =
     (if ord \<ge> MAX_ORDER c then Some (None, s)
      else slowpath_at e c cpu gfp_mask ord zl high_zoneidx classzone_idx migratetype (Restart 0) s)"

definition uu_alloc_pages_nodemask ::
  "alloc_env \<Rightarrow> mmcfg \<Rightarrow> nat \<Rightarrow> gfp_t \<Rightarrow> nat \<Rightarrow> zonelist \<Rightarrow> mm \<Rightarrow> (nat option \<times> mm) option" where
  "uu_alloc_pages_nodemask e c cpu gfp_mask0 ord zl s =
     (let high_zoneidx = gfp_zone e gfp_mask0;
          migratetype = allocflags_to_migratetype e gfp_mask0;
          gfp_mask = gfp_mask0 \<inter> gfp_allowed_mask e
      in case filter (\<lambda>(zn, i). i \<le> high_zoneidx) zl of
           [] \<Rightarrow> Some (None, s)
         | (_, classzone_idx) # _ \<Rightarrow>
             (case get_page_from_freelist e c cpu (insert GFP_HARDWALL gfp_mask) ord zl high_zoneidx
                     (ALLOC_WMARK_LOW OR ALLOC_CPUSET) classzone_idx migratetype s of
                None \<Rightarrow> None
              | Some (Some p, s1) \<Rightarrow> Some (Some p, s1)
              | Some (None, s1) \<Rightarrow>
                  uu_alloc_pages_slowpath e c cpu gfp_mask ord zl high_zoneidx classzone_idx migratetype s1))"

end
