(* ===== verification/Block_Pool.thy ===== *)
theory Block_Pool
  imports Kd_Prelude
begin

text \<open>
  The contract of an allocator of aligned power-of-two blocks, as its callers see it: a block
  that is taken leaves the free pages, a block that is given back joins them, and what is free
  determines how it is cut into blocks. The lemmas of the locale are what a client gets from
  any allocator with these laws; the history relation is the client: any interleaving of takes
  and gives of blocks it holds.
\<close>

locale block_pool =
  fixes kind :: "nat set"
    and inv :: "'s \<Rightarrow> bool"
    and free :: "'s \<Rightarrow> nat set"
    and blocks :: "'s \<Rightarrow> (nat \<times> nat) set"
    and usable :: "'s \<Rightarrow> nat \<Rightarrow> nat \<Rightarrow> bool"
    and take_blk :: "nat \<Rightarrow> nat \<Rightarrow> 's \<Rightarrow> nat option \<times> 's"
    and give_blk :: "nat \<Rightarrow> nat \<Rightarrow> nat \<Rightarrow> 's \<Rightarrow> 's"
  assumes take_Some: "inv s \<Longrightarrow> t \<in> kind \<Longrightarrow> take_blk t ord s = (Some p, s') \<Longrightarrow>
      inv s' \<and> usable s' p ord \<and> free s = blk p ord \<union> free s' \<and> blk p ord \<inter> free s' = {}"
    and take_None: "inv s \<Longrightarrow> t \<in> kind \<Longrightarrow> take_blk t ord s = (None, s') \<Longrightarrow> s' = s"
    and law_give: "inv s \<Longrightarrow> t \<in> kind \<Longrightarrow> usable s p ord \<Longrightarrow> blk p ord \<inter> free s = {} \<Longrightarrow>
      inv (give_blk t p ord s) \<and> free (give_blk t p ord s) = blk p ord \<union> free s"
    and canonical: "inv s \<Longrightarrow> inv s' \<Longrightarrow> free s = free s' \<Longrightarrow> blocks s = blocks s'"
    and usable_take: "inv s \<Longrightarrow> t \<in> kind \<Longrightarrow> take_blk t r s = (res, s') \<Longrightarrow> usable s' p ord = usable s p ord"
    and usable_give: "inv s \<Longrightarrow> t \<in> kind \<Longrightarrow> usable s q r \<Longrightarrow> blk q r \<inter> free s = {} \<Longrightarrow>
      usable (give_blk t q r s) p ord = usable s p ord"
begin

lemma take_then_give:
  assumes "inv s" and t: "t \<in> kind" "u \<in> kind" and "take_blk t ord s = (Some p, s')"
  shows "inv (give_blk u p ord s') \<and> free (give_blk u p ord s') = free s
    \<and> blocks (give_blk u p ord s') = blocks s"
proof -
  note k = take_Some [OF assms(1) t(1) assms(4)]
  have g: "inv (give_blk u p ord s') \<and> free (give_blk u p ord s') = blk p ord \<union> free s'"
    using k law_give t(2) by blast
  then show ?thesis
    using canonical [of "give_blk u p ord s'" s] assms(1) k by auto
qed

lemma gives_commute:
  assumes s: "inv s" and t: "t \<in> kind" "u \<in> kind" and p: "usable s p m" "blk p m \<inter> free s = {}"
    and q: "usable s q n" "blk q n \<inter> free s = {}" and d: "blk p m \<inter> blk q n = {}"
  shows "blocks (give_blk t p m (give_blk u q n s)) = blocks (give_blk u q n (give_blk t p m s))"
proof -
  note gp = law_give [OF s t(1) p] and gq = law_give [OF s t(2) q]
  have "inv (give_blk t p m (give_blk u q n s))
      \<and> free (give_blk t p m (give_blk u q n s)) = blk p m \<union> (blk q n \<union> free s)"
    using law_give [of "give_blk u q n s" t p m] gq p d t usable_give [OF s t(2) q] by auto
  moreover have "inv (give_blk u q n (give_blk t p m s))
      \<and> free (give_blk u q n (give_blk t p m s)) = blk q n \<union> (blk p m \<union> free s)"
    using law_give [of "give_blk t p m s" u q n] gp q d t usable_give [OF s t(1) p] by auto
  ultimately show ?thesis
    by (intro canonical) auto
qed

text \<open>A client: it holds the blocks it has taken and gives back only blocks it holds.\<close>

inductive history :: "'s \<Rightarrow> 's \<times> (nat \<times> nat) set \<Rightarrow> bool" for s0 where
  start: "history s0 (s0, {})"
| take: "history s0 (s, held) \<Longrightarrow> t \<in> kind \<Longrightarrow> take_blk t ord s = (Some p, s') \<Longrightarrow>
    history s0 (s', insert (p, ord) held)"
| give: "history s0 (s, held) \<Longrightarrow> t \<in> kind \<Longrightarrow> (p, ord) \<in> held \<Longrightarrow>
    history s0 (give_blk t p ord s, held - {(p, ord)})"

lemma history_inv:
  assumes "history s0 (s, held)" and "inv s0"
  shows "inv s \<and> free s0 = free s \<union> (\<Union>(p, ord) \<in> held. blk p ord)
    \<and> (\<forall>(p, ord) \<in> held. usable s p ord \<and> blk p ord \<inter> free s = {})
    \<and> pairwise (\<lambda>(p, m) (q, n). blk p m \<inter> blk q n = {}) held"
  using assms
proof (induction "(s, held)" arbitrary: s held rule: history.induct)
  case (take s held t ord p s')
  note IH = take.hyps(2) [OF take.prems]
  note k = take_Some [OF conjunct1 [OF IH] take.hyps(3,4)]
  have "\<forall>(q, n) \<in> held. usable s' q n \<and> blk q n \<inter> free s' = {} \<and> blk p ord \<inter> blk q n = {}"
    using IH k usable_take [OF conjunct1 [OF IH] take.hyps(3,4)] by blast
  then show ?case
    using IH k unfolding pairwise_insert by (auto simp: Int_commute)
next
  case (give s held t p ord)
  note IH = give.hyps(2) [OF give.prems]
  have p: "usable s p ord" "blk p ord \<inter> free s = {}"
    using IH give.hyps(4) by blast+
  let ?held = "held - {(p, ord)}"
  have h: "(\<Union>(q, n) \<in> held. blk q n) = blk p ord \<union> (\<Union>(q, n) \<in> ?held. blk q n)"
    using give.hyps(4) by blast
  have "\<forall>(q, n) \<in> ?held. blk p ord \<inter> blk q n = {}"
    using IH give.hyps(4) unfolding pairwise_def by blast
  then have "\<forall>(q, n) \<in> ?held. usable (give_blk t p ord s) q n \<and> blk q n \<inter> (blk p ord \<union> free s) = {}"
    using IH usable_give [OF conjunct1 [OF IH] give.hyps(3) p] by blast
  moreover have "pairwise (\<lambda>(p, m) (q, n). blk p m \<inter> blk q n = {}) ?held"
    using IH by (rule pairwise_mono [OF conjunct2 [OF conjunct2 [OF conjunct2]]]) auto
  ultimately show ?case
    using IH law_give [OF conjunct1 [OF IH] give.hyps(3) p] h by auto
qed simp

text \<open>Once everything is given back the pool is cut into the blocks it was cut into before.\<close>

lemma history_drained:
  assumes "history s0 (s, {})" and "inv s0"
  shows "blocks s = blocks s0"
  using history_inv [OF assms] assms(2) by (intro canonical) auto

end

end
