(* ===== verification/Rmqueue_Inv.thy ===== *)
theory Rmqueue_Inv
  imports Rmqueue
begin

text \<open>
  \<open>\<^verbatim>\<open>__rmqueue\<close>\<close> keeps the invariant of the zone whichever path it takes, its \<open>BUG_ON\<close> is never
  reached in a zone whose frames are contiguous, and it returns no page only when no list it
  may use holds a block of sufficient order.
\<close>

section \<open>Moving a block to the list of another type\<close>

lemma lists_wf_cong:
  assumes "\<And>r u. fl s' z r u = fl s z r u" and "\<And>r. nf s' z r = nf s z r"
    and "\<And>q. PageBuddy s' q = PageBuddy s q" and "\<And>q. page_order s' q = page_order s q"
    and "\<And>q. page_zone s' q = page_zone s q"
  shows "lists_wf c s' z = lists_wf c s z"
proof -
  have "free_blocks s' z = free_blocks s z"
    by (simp add: free_blocks_def assms)
  moreover have "block_ok c s' z p r = block_ok c s z p r" for p r
    using assms(5) by (rule block_ok_cong)
  ultimately show ?thesis
    by (simp add: lists_wf_def assms)
qed

lemma retype_block:
  assumes wf: "lists_wf c s z" and b: "(p, ord) \<in> free_blocks s z" and t: "t < MIGRATE_TYPES"
  defines "s' \<equiv> list_add_free z ord t p (list_del_free z p s)"
  shows "lists_wf c s' z" and "free_blocks s' z = free_blocks s z" and "buddy_frame z s s'"
    and "PageBuddy s' = PageBuddy s" and "page_order s' = page_order s"
proof -
  let ?u = "rmv_page_order p (add_nr_free z ord (-1) (list_del_free z p s))"
  let ?l = "add_nr_free z ord 1 (list_add_free z ord t p (set_page_order p ord ?u))"
  have u: "unlinked z p ord s ?u" and l: "linked z p ord t ?u ?l"
    by (rule unlink_merge, rule link_free)
  have on: "PageBuddy s p" "page_order s p = ord" "page_zone s p = z"
    using wf_block [OF wf b] by (auto simp: block_ok_def)
  have "lists_wf c ?l z"
    using l unlinked_wf [OF u wf b] unlinked_in_hand(1) [OF u wf b] t by (rule linked_wf)
  moreover have "lists_wf c s' z = lists_wf c ?l z"
    using on mm_rest_page_zone [of s' s] mm_rest_page_zone [of ?l s]
    by (intro lists_wf_cong) (auto simp: s'_def proj_simps)
  ultimately show "lists_wf c s' z"
    by simp
  have "free_blocks s' z = free_blocks ?l z"
    by (simp add: free_blocks_def s'_def proj_simps)
  also have "\<dots> = free_blocks s z"
    using linked_free_blocks [OF l, of z] unlinked_free_blocks [OF u wf b] b by auto
  finally show "free_blocks s' z = free_blocks s z" .
  show "buddy_frame z s s'"
    by (simp add: buddy_frame_def s'_def proj_simps)
  show "PageBuddy s' = PageBuddy s" "page_order s' = page_order s"
    by (simp_all add: s'_def proj_simps)
qed

lemma move_freepages_loop_ok:
  assumes "lists_wf c s z" and "t < MIGRATE_TYPES" and "\<forall>q \<in> {p..e}. page_zone s q = z"
  shows "lists_wf c (snd (move_freepages_loop c z t p e m s)) z
    \<and> free_blocks (snd (move_freepages_loop c z t p e m s)) z = free_blocks s z
    \<and> buddy_frame z s (snd (move_freepages_loop c z t p e m s))
    \<and> page_order (snd (move_freepages_loop c z t p e m s)) = page_order s"
  using assms
proof (induction c z t p e m s rule: move_freepages_loop.induct)
  case (1 c z t p e m s)
  note wf = "1.prems"(1) and t = "1.prems"(2) and zone = "1.prems"(3)
  show ?case
  proof (cases "p \<le> e \<and> pfn_valid_within c p \<and> PageBuddy s p")
    case True
    let ?o = "page_order s p"
    let ?s = "list_add_free z ?o t p (list_del_free z p s)"
    have b: "(p, ?o) \<in> free_blocks s z"
      using wf_buddy_listed [OF wf] zone True by simp
    note r = retype_block [OF wf b t]
    have eq: "move_freepages_loop c z t p e m s = move_freepages_loop c z t (p + 2 ^ ?o) e (m + 2 ^ ?o) ?s"
      using True by (subst move_freepages_loop.simps) (simp add: Let_def)
    have zone': "\<forall>q \<in> {p + 2 ^ ?o..e}. page_zone ?s q = z"
      using zone buddy_frame_zone [OF r(3)] by simp
    show ?thesis
      unfolding eq using "1.IH"(3) [OF _ _ _ refl r(1) t zone'] True r(2,3,5)
      by (auto dest: buddy_frame_trans)
  next
    case False
    show ?thesis
    proof (cases "p \<le> e")
      case le: True
      then have eq: "move_freepages_loop c z t p e m s = move_freepages_loop c z t (p + 1) e m s"
        using False by (subst move_freepages_loop.simps) auto
      have "\<forall>q \<in> {p + 1..e}. page_zone s q = z"
        using zone by simp
      then show ?thesis
        unfolding eq using "1.IH"(1,2) False le wf t by blast
    next
      case False
      then have "move_freepages_loop c z t p e m s = (m, s)"
        by (subst move_freepages_loop.simps) simp
      then show ?thesis
        using wf by simp
    qed
  qed
qed

definition zone_span :: "mm \<Rightarrow> nat \<Rightarrow> bool" where
  "zone_span s z \<longleftrightarrow> (\<forall>q. page_zone s q = z \<longleftrightarrow>
     zone_start_pfn (zones s z) \<le> q \<and> q < zone_start_pfn (zones s z) + spanned_pages (zones s z))"

lemma zone_span_frame: "buddy_frame z' s s' \<Longrightarrow> zone_span s z \<Longrightarrow> zone_span s' z"
  using mm_rest_zone_field(2,3) [OF buddy_frame_rest, of z' s s' z] buddy_frame_zone [of z' s s']
  by (simp add: zone_span_def)

lemma and_not_mask: "nat (int p AND NOT (2 ^ n - 1)) = p - p mod 2 ^ n"
proof -
  have "int p AND NOT (mask n) = push_bit n (drop_bit n (int p))"
    by (rule bit_eqI) (auto simp: bit_simps)
  also have "\<dots> = int p - take_bit n (int p)"
    using bits_ident [of n "int p"] by linarith
  also have "\<dots> = int (p - p mod 2 ^ n)"
    by (simp add: take_bit_eq_mod of_nat_diff zmod_int)
  finally show ?thesis
    by (simp add: mask_eq_exp_minus_1)
qed

lemma move_freepages_block_ok:
  assumes wf: "lists_wf c s z" and t: "t < MIGRATE_TYPES" and span: "zone_span s z"
    and p: "page_zone s p = z"
  obtains m s' where "move_freepages_block c z p t s = Some (m, s')" and "lists_wf c s' z"
    and "free_blocks s' z = free_blocks s z" and "buddy_frame z s s'" and "page_order s' = page_order s"
proof -
  let ?n = "2 ^ pageblock_order c :: nat" and ?zs = "zone_start_pfn (zones s z)"
  let ?start = "p - p mod ?n"
  let ?last = "?start + ?n - 1"
  let ?sp = "if ?start < ?zs then p else ?start"
  have start: "nat (int p AND NOT (int (pageblock_nr_pages c) - 1)) = ?start"
    using and_not_mask [of p "pageblock_order c"] by (simp add: pageblock_nr_pages_def)
  have pe: "p \<le> ?last"
  proof -
    have arith: "a < n \<Longrightarrow> a \<le> p \<Longrightarrow> p \<le> p - a + n - 1" for a n :: nat
      by arith
    show ?thesis
      by (rule arith) simp_all
  qed
  have zp: "?zs \<le> p"
    using span p by (simp add: zone_span_def)
  show ?thesis
  proof (cases "?last \<ge> ?zs + spanned_pages (zones s z)")
    case True
    then have "move_freepages_block c z p t s = Some (0, s)"
      unfolding move_freepages_block_def Let_def start by (simp add: pageblock_nr_pages_def)
    then show ?thesis
      using that wf by simp
  next
    case False
    have rng: "\<forall>q \<in> {?sp..?last}. page_zone s q = z"
      using False span zp by (auto simp: zone_span_def split: if_splits)
    have "?sp \<le> ?last"
      using pe by (auto split: if_splits)
    then have zz: "page_zone s ?sp = z" "page_zone s ?last = z"
      using rng by (meson atLeastAtMost_iff order_refl)+
    have eq: "move_freepages_block c z p t s = Some (move_freepages_loop c z t ?sp ?last 0 s)"
      using False zz unfolding move_freepages_block_def Let_def start move_freepages_def
      by (simp add: pageblock_nr_pages_def)
    show ?thesis
      using that [of "fst (move_freepages_loop c z t ?sp ?last 0 s)"
          "snd (move_freepages_loop c z t ?sp ?last 0 s)"]
        move_freepages_loop_ok [OF wf t rng, of 0] eq by simp
  qed
qed

section \<open>The order of the counter update does not matter\<close>

lemma add_nr_free_commute:
  "list_del_free z p (add_nr_free z' r d s) = add_nr_free z' r d (list_del_free z p s)"
  "list_add_free z ord t p (add_nr_free z' r d s) = add_nr_free z' r d (list_add_free z ord t p s)"
  "set_pageblock_migratetype c p t (add_nr_free z' r d s)
     = add_nr_free z' r d (set_pageblock_migratetype c p t s)"
  "rmv_page_order p (add_nr_free z' r d s) = add_nr_free z' r d (rmv_page_order p s)"
  by (auto simp: proj_defs set_pageblock_migratetype_def set_pageblock_flags_group_def Let_def
      pfn_to_bitidx_def get_pageblock_bitmap_def rmv_page_order_def fun_eq_iff)

lemma add_nr_free_reads:
  "page_zone (add_nr_free z r d s) = page_zone s"
  "zone_start_pfn (zones (add_nr_free z r d s) z') = zone_start_pfn (zones s z')"
  "spanned_pages (zones (add_nr_free z r d s) z') = spanned_pages (zones s z')"
  "page_group_by_mobility_disabled (add_nr_free z r d s) = page_group_by_mobility_disabled s"
  by (auto simp: proj_defs fun_eq_iff)

lemma move_freepages_loop_add_nr_free:
  "move_freepages_loop c z t p e m (add_nr_free z' r d s) =
     map_prod id (add_nr_free z' r d) (move_freepages_loop c z t p e m s)"
proof (induction c z t p e m s rule: move_freepages_loop.induct)
  case (1 c z t p e m s)
  note unf = move_freepages_loop.simps [of c z t p e m]
  consider "\<not> p \<le> e" | "p \<le> e" "\<not> pfn_valid_within c p \<or> \<not> PageBuddy s p"
    | "p \<le> e" "pfn_valid_within c p" "PageBuddy s p"
    by blast
  then show ?case
  proof cases
    case 2
    then show ?thesis
      using "1.IH"(1,2) by (cases "pfn_valid_within c p") (simp_all add: unf proj_simps)
  next
    case 3
    then show ?thesis
      using "1.IH"(3) [OF 3(1) _ _ refl] by (simp add: unf proj_simps add_nr_free_commute Let_def)
  qed (simp add: unf)
qed

lemma move_freepages_block_add_nr_free:
  "move_freepages_block c z p t (add_nr_free z' r d s) =
     map_option (map_prod id (add_nr_free z' r d)) (move_freepages_block c z p t s)"
  unfolding move_freepages_block_def move_freepages_def Let_def add_nr_free_reads
    move_freepages_loop_add_nr_free
  by (simp only: if_distrib [where f = "map_option _"] option.map map_prod_simp id_apply)

lemma claim_block_add_nr_free:
  "claim_block c z p cur t (add_nr_free z' r d s) =
     map_option (map_prod id (add_nr_free z' r d)) (claim_block c z p cur t s)"
  unfolding claim_block_def move_freepages_block_add_nr_free
proof (cases "move_freepages_block c z p t s")
  case (Some a)
  then show "(case map_option (map_prod id (add_nr_free z' r d)) (move_freepages_block c z p t s) of
        None \<Rightarrow> None
      | Some (pages, s1) \<Rightarrow>
          Some (t, if pages \<ge> 2 ^ (pageblock_order c - 1) \<or> page_group_by_mobility_disabled s1
            then set_pageblock_migratetype c p t s1 else s1)) =
      map_option (map_prod id (add_nr_free z' r d))
        (case move_freepages_block c z p t s of
          None \<Rightarrow> None
        | Some (pages, s1) \<Rightarrow>
            Some (t, if pages \<ge> 2 ^ (pageblock_order c - 1) \<or> page_group_by_mobility_disabled s1
              then set_pageblock_migratetype c p t s1 else s1))"
    by (cases a) (simp add: add_nr_free_reads add_nr_free_commute)
qed simp

section \<open>\<^verbatim>\<open>__rmqueue_fallback\<close>\<close>

lemma claim_block_ok:
  assumes "lists_wf c s z" "t < MIGRATE_TYPES" "zone_span s z" "page_zone s p = z"
  obtains s' where "claim_block c z p cur t s = Some (t, s')" and "lists_wf c s' z"
    and "free_blocks s' z = free_blocks s z" and "buddy_frame z s s'" and "page_order s' = page_order s"
proof -
  obtain m s1 where m: "move_freepages_block c z p t s = Some (m, s1)" "lists_wf c s1 z"
      "free_blocks s1 z = free_blocks s z" "buddy_frame z s s1" "page_order s1 = page_order s"
    using assms by (rule move_freepages_block_ok)
  let ?s = "set_pageblock_migratetype c p t s1"
  have zone: "page_zone ?s q = page_zone s1 q" for q
    by (rule mm_rest_page_zone) (simp add: proj_simps)
  have flags: "PageBuddy ?s q = PageBuddy s1 q" "page_order ?s q = page_order s1 q" for q
    by (simp_all add: PageBuddy_def page_order_def proj_simps)
  have "lists_wf c ?s z = lists_wf c s1 z"
    by (rule lists_wf_cong) (simp_all add: proj_simps zone flags)
  moreover have "free_blocks ?s z = free_blocks s1 z"
    by (simp add: free_blocks_def proj_simps)
  moreover have "buddy_frame z s1 ?s"
    by (simp add: buddy_frame_def proj_simps flags)
  ultimately show ?thesis
    using that [of "if m \<ge> 2 ^ (pageblock_order c - 1) \<or> page_group_by_mobility_disabled s1 then ?s else s1"]
      m buddy_frame_trans [OF m(4)] flags by (simp add: claim_block_def fun_eq_iff)
qed

lemma set_migratetype_taken:
  assumes "unlinked z p ord s s'"
  shows "unlinked z p ord s (set_pageblock_migratetype c q t s')"
  using assms by (simp add: unlinked_def proj_simps PageBuddy_def page_order_def)

lemma change_pageblock_range_taken:
  assumes "unlinked z p ord s s'"
  shows "unlinked z p ord s (change_pageblock_range c q r t s')"
proof -
  have "unlinked z p ord s (foldl (\<lambda>s i. set_pageblock_migratetype c (f i) t s) s' xs)" for f xs
    using assms by (induction xs arbitrary: s') (simp_all add: set_migratetype_taken)
  then show ?thesis
    by (simp add: change_pageblock_range_def)
qed

lemma taken_ok_prefix:
  assumes "taken_ok c z ord s1 p s'" and "free_blocks s1 z = free_blocks s z" and "buddy_frame z s s1"
    and "page_order s1 = page_order s"
  shows "taken_ok c z ord s p s'"
  using assms buddy_frame_trans by (auto simp: taken_ok_def free_pfns_def orders_kept_def)

lemma fallback_type_Some:
  "fallback_type s z cur ts = Some t \<Longrightarrow> t \<in> set ts \<and> fl s z cur t \<noteq> [] \<and> t \<noteq> MIGRATE_RESERVE"
  by (induction ts) (auto split: if_splits)

lemma fallback_type_None:
  "fallback_type s z cur ts = None \<longleftrightarrow> (\<forall>t \<in> set ts. t \<noteq> MIGRATE_RESERVE \<longrightarrow> fl s z cur t = [])"
  by (induction ts) auto

lemma take_fallback_ok:
  assumes wf: "lists_wf c s z" and co: "coalesced c s z" and span: "zone_span s z"
    and st: "start < MIGRATE_TYPES" and ne: "fl s z cur t \<noteq> []" and le: "ord \<le> cur"
  shows "\<exists>p s'. take_fallback c z ord start cur t s = Some (Some p, s') \<and> taken_ok c z ord s p s'"
proof -
  let ?p = "hd (fl s z cur t)"
  have mem: "?p \<in> set (fl s z cur t)"
    using ne by simp
  have b: "(?p, cur) \<in> free_blocks s z" and t: "t < MIGRATE_TYPES" and zone: "page_zone s ?p = z"
    using free_blocksI [OF mem] wf_member(1,2) [OF wf mem] by (auto simp: block_ok_def)
  let ?cond = "cur \<ge> drop_bit 1 (pageblock_order c) \<or> start = MIGRATE_RECLAIMABLE
    \<or> page_group_by_mobility_disabled s"
  obtain t' s2 where c2: "(if ?cond then claim_block c z ?p cur start s else Some (t, s)) = Some (t', s2)"
      and t': "t' < MIGRATE_TYPES" and wf2: "lists_wf c s2 z"
      and fb2: "free_blocks s2 z = free_blocks s z" and fr2: "buddy_frame z s s2"
      and ord2: "page_order s2 = page_order s"
  proof (cases ?cond)
    case True
    obtain s2 where "claim_block c z ?p cur start s = Some (start, s2)" "lists_wf c s2 z"
        "free_blocks s2 z = free_blocks s z" "buddy_frame z s s2" "page_order s2 = page_order s"
      using wf st span zone by (rule claim_block_ok)
    then show ?thesis
      using that [of start s2] True st by simp
  next
    case False
    then show ?thesis
      using that [of t s] wf t by simp
  qed
  have c1: "(if ?cond then claim_block c z ?p cur start (add_nr_free z cur (-1) s)
      else Some (t, add_nr_free z cur (-1) s)) = Some (t', add_nr_free z cur (-1) s2)"
    using c2 by (auto simp: claim_block_add_nr_free split: if_splits)
  let ?s3 = "rmv_page_order ?p (list_del_free z ?p (add_nr_free z cur (-1) s2))"
  let ?s4 = "if cur \<ge> pageblock_order c then change_pageblock_range c ?p cur start ?s3 else ?s3"
  have "unlinked z ?p cur s2 ?s3"
    using unlink_merge by (simp add: add_nr_free_commute)
  then have u: "unlinked z ?p cur s2 ?s4"
    by (simp add: change_pageblock_range_taken)
  have b2: "(?p, cur) \<in> free_blocks s2 z" and co2: "coalesced c s2 z"
    using b fb2 co by (simp_all add: coalesced_def)
  have "taken_ok c z ord s2 ?p (expand z ?p ord cur t' ?s4)"
    using wf2 co2 b2 u le t' by (rule take_block_ok)
  then have "taken_ok c z ord s ?p (expand z ?p ord cur t' ?s4)"
    using fb2 fr2 ord2 by (rule taken_ok_prefix)
  moreover have "take_fallback c z ord start cur t s = Some (Some ?p, expand z ?p ord cur t' ?s4)"
    unfolding take_fallback_def Let_def add_nr_free_reads c1 by simp
  ultimately show ?thesis
    by blast
qed

lemma rmqueue_fallback_loop_ok:
  assumes wf: "lists_wf c s z" and co: "coalesced c s z" and span: "zone_span s z"
    and st: "start < MIGRATE_TYPES"
  shows "(\<exists>p s'. rmqueue_fallback_loop c z ord start n s = Some (Some p, s') \<and> taken_ok c z ord s p s')
    \<or> (rmqueue_fallback_loop c z ord start n s = Some (None, s)
        \<and> (\<forall>cur t. ord \<le> cur \<longrightarrow> cur < n \<longrightarrow> t \<in> set (fallbacks start) \<longrightarrow> t \<noteq> MIGRATE_RESERVE
             \<longrightarrow> fl s z cur t = []))"
proof (induction n)
  case (Suc cur)
  consider "cur < ord" | "ord \<le> cur" "fallback_type s z cur (fallbacks start) = None"
    | t where "ord \<le> cur" "fallback_type s z cur (fallbacks start) = Some t"
    by fastforce
  then show ?case
  proof cases
    case 1
    then show ?thesis
      by simp
  next
    case 2
    then have eq: "rmqueue_fallback_loop c z ord start (Suc cur) s = rmqueue_fallback_loop c z ord start cur s"
      by simp
    show ?thesis
      using Suc 2 unfolding eq fallback_type_None less_Suc_eq by blast
  next
    case (3 t)
    then show ?thesis
      using take_fallback_ok [OF wf co span st] fallback_type_Some [OF 3(2)] by simp
  qed
qed simp

section \<open>\<^verbatim>\<open>__rmqueue\<close>\<close>

lemma rmqueue_smallest_cases:
  assumes "lists_wf c s z" "coalesced c s z" "t < MIGRATE_TYPES"
  shows "(\<exists>p s'. uu_rmqueue_smallest c z ord t s = (Some p, s') \<and> taken_ok c z ord s p s')
    \<or> (uu_rmqueue_smallest c z ord t s = (None, s) \<and> (\<forall>r. ord \<le> r \<longrightarrow> r < MAX_ORDER c \<longrightarrow> fl s z r t = []))"
proof -
  obtain o' s' where r: "uu_rmqueue_smallest c z ord t s = (o', s')"
    by (cases "uu_rmqueue_smallest c z ord t s")
  show ?thesis
    using r rmqueue_smallest_loop_Some [OF assms(1,2) order_refl assms(3), of ord]
      rmqueue_smallest_None_state [of c z ord t ord s s'] rmqueue_smallest_loop_None [of c z ord t ord s]
    by (cases o') (simp_all add: uu_rmqueue_smallest_def)
qed

definition usable_type :: "nat \<Rightarrow> nat \<Rightarrow> bool" where
  "usable_type start t \<longleftrightarrow> t = start \<or> (start \<noteq> MIGRATE_RESERVE \<and> (t \<in> set (fallbacks start) \<or> t = MIGRATE_RESERVE))"

lemma rmqueue_cases:
  assumes wf: "lists_wf c s z" and co: "coalesced c s z" and span: "zone_span s z"
    and t: "t < MIGRATE_TYPES"
  shows "(\<exists>p s'. uu_rmqueue c z ord t s = Some (Some p, s') \<and> taken_ok c z ord s p s')
    \<or> (uu_rmqueue c z ord t s = Some (None, s)
        \<and> (\<forall>r u. ord \<le> r \<longrightarrow> r < MAX_ORDER c \<longrightarrow> usable_type t u \<longrightarrow> fl s z r u = []))"
proof -
  note own = rmqueue_smallest_cases [OF wf co t, of ord]
  note fb = rmqueue_fallback_loop_ok [OF wf co span t, of ord "MAX_ORDER c", folded uu_rmqueue_fallback_def]
  have "MIGRATE_RESERVE < MIGRATE_TYPES"
    by simp
  note rsv = rmqueue_smallest_cases [OF wf co this, of ord]
  consider p s' where "uu_rmqueue_smallest c z ord t s = (Some p, s')" "taken_ok c z ord s p s'"
    | "uu_rmqueue_smallest c z ord t s = (None, s)" "\<forall>r. ord \<le> r \<longrightarrow> r < MAX_ORDER c \<longrightarrow> fl s z r t = []"
    using own by blast
  then show ?thesis
  proof cases
    case 1
    then show ?thesis
      by (simp add: uu_rmqueue_def)
  next
    case 2
    show ?thesis
    proof (cases "t = MIGRATE_RESERVE")
      case True
      then show ?thesis
        using 2 by (simp add: uu_rmqueue_def usable_type_def)
    next
      case False
      then have eq: "uu_rmqueue c z ord t s = (case uu_rmqueue_fallback c z ord t s of
          None \<Rightarrow> None
        | Some (Some p, s2) \<Rightarrow> Some (Some p, s2)
        | Some (None, s2) \<Rightarrow> Some (uu_rmqueue_smallest c z ord MIGRATE_RESERVE s2))"
        using 2(1) by (simp add: uu_rmqueue_def)
      show ?thesis
        using fb
      proof (elim disjE exE conjE)
        fix p s' assume "uu_rmqueue_fallback c z ord t s = Some (Some p, s')" "taken_ok c z ord s p s'"
        then show ?thesis
          by (simp add: eq)
      next
        assume none: "uu_rmqueue_fallback c z ord t s = Some (None, s)"
          "\<forall>r u. ord \<le> r \<longrightarrow> r < MAX_ORDER c \<longrightarrow> u \<in> set (fallbacks t) \<longrightarrow> u \<noteq> MIGRATE_RESERVE \<longrightarrow> fl s z r u = []"
        have "uu_rmqueue c z ord t s = Some (uu_rmqueue_smallest c z ord MIGRATE_RESERVE s)"
          by (simp add: eq none(1))
        then show ?thesis
          using rsv 2(2) none(2) unfolding usable_type_def by fastforce
      qed
    qed
  qed
qed

end
