(* ===== verification/Buddy_Pool.thy ===== *)
theory Buddy_Pool
  imports Block_Pool Rmqueue_Inv
begin

text \<open>
  A zone of the page allocator meets the contract of a block pool, with \<open>\<^verbatim>\<open>__rmqueue\<close>\<close> as the
  take and \<open>\<^verbatim>\<open>__free_one_page\<close>\<close> as the give, and its counters agree with its lists: the sum
  of \<open>nr_free << order\<close> over the orders is the number of free pages.
\<close>

section \<open>The zone as a block pool\<close>

definition pool_inv :: "mmcfg \<Rightarrow> nat \<Rightarrow> mm \<Rightarrow> bool" where
  "pool_inv c z s \<longleftrightarrow> lists_wf c s z \<and> coalesced c s z \<and> zone_span s z
     \<and> (\<forall>q \<in> free_pfns s z. \<not> PageCompound s q)"

definition usable_block :: "mmcfg \<Rightarrow> nat \<Rightarrow> mm \<Rightarrow> nat \<Rightarrow> nat \<Rightarrow> bool" where
  "usable_block c z s p ord \<longleftrightarrow> block_ok c s z p ord \<and> (\<forall>q \<in> blk p ord. \<not> PageCompound s q)"

definition rmqueue_take :: "mmcfg \<Rightarrow> nat \<Rightarrow> nat \<Rightarrow> nat \<Rightarrow> mm \<Rightarrow> nat option \<times> mm" where
  "rmqueue_take c z t ord s = (case uu_rmqueue c z ord t s of Some r \<Rightarrow> r | None \<Rightarrow> (None, s))"

lemma usable_block_frame: "buddy_frame z s s' \<Longrightarrow> usable_block c z s' p ord = usable_block c z s p ord"
  using block_ok_cong [of s' s c z p ord] buddy_frame_zone [of z s s']
    mm_rest_compound [of s' s, OF buddy_frame_rest]
  by (simp add: usable_block_def)

lemma rmqueue_take_cases:
  assumes "pool_inv c z s" and "t < MIGRATE_TYPES" and "rmqueue_take c z t ord s = (r, s')"
  shows "(\<exists>p. r = Some p \<and> taken_ok c z ord s p s')
    \<or> (r = None \<and> s' = s \<and> (\<forall>n v. ord \<le> n \<longrightarrow> n < MAX_ORDER c \<longrightarrow> usable_type t v \<longrightarrow> fl s z n v = []))"
  using rmqueue_cases [of c s z t ord] assms
  by (auto simp: pool_inv_def rmqueue_take_def)

lemma taken_pool:
  assumes "pool_inv c z s" and "taken_ok c z ord s p s'"
  shows "pool_inv c z s'" and "usable_block c z s' p ord"
proof -
  have fr: "buddy_frame z s s'" and f: "free_pfns s z = blk p ord \<union> free_pfns s' z"
    using assms(2) by (simp_all add: taken_ok_def)
  have cmp: "PageCompound s' q = PageCompound s q" for q
    using fr by (rule mm_rest_compound [OF buddy_frame_rest])
  show "pool_inv c z s'"
    using assms f zone_span_frame [OF fr] by (simp add: pool_inv_def taken_ok_def cmp)
  show "usable_block c z s' p ord"
    using assms f by (simp add: pool_inv_def usable_block_def taken_ok_def in_hand_def cmp)
qed

lemma given_pool:
  assumes i: "pool_inv c z s" and u: "u < MIGRATE_TYPES" and b: "usable_block c z s p ord"
    and d: "blk p ord \<inter> free_pfns s z = {}"
  defines "s' \<equiv> uu_free_one_page c p z ord u s"
  shows "pool_inv c z s'" and "free_pfns s' z = blk p ord \<union> free_pfns s z" and "buddy_frame z s s'"
    and "orders_kept (blk p ord \<union> free_pfns s z) s s'"
proof -
  have h: "in_hand c s z p ord" and nc: "\<not> PageCompound s p"
      and wf: "lists_wf c s z" and co: "coalesced c s z"
    using i b d by (auto simp: in_hand_def usable_block_def pool_inv_def)
  note f = free_block_ok [OF wf co h u nc, folded s'_def]
  show "free_pfns s' z = blk p ord \<union> free_pfns s z" and fr: "buddy_frame z s s'"
    and "orders_kept (blk p ord \<union> free_pfns s z) s s'"
    using f by simp_all
  have cmp: "PageCompound s' q = PageCompound s q" for q
    using fr by (rule mm_rest_compound [OF buddy_frame_rest])
  show "pool_inv c z s'"
    using f i b zone_span_frame [OF fr] by (auto simp: pool_inv_def usable_block_def cmp)
qed

interpretation buddy: block_pool "{..<MIGRATE_TYPES}" "pool_inv c z" "\<lambda>s. free_pfns s z" "\<lambda>s. free_blocks s z"
  "usable_block c z" "rmqueue_take c z" "\<lambda>t p ord. uu_free_one_page c p z ord t"
  for c :: mmcfg and z :: nat
proof
  fix s s' t ord p
  assume i: "pool_inv c z s" and t: "t \<in> {..<MIGRATE_TYPES}" and r: "rmqueue_take c z t ord s = (Some p, s')"
  then have k: "taken_ok c z ord s p s'"
    using rmqueue_take_cases by fastforce
  show "pool_inv c z s' \<and> usable_block c z s' p ord
      \<and> free_pfns s z = blk p ord \<union> free_pfns s' z \<and> blk p ord \<inter> free_pfns s' z = {}"
    using taken_pool [OF i k] k by (simp add: taken_ok_def in_hand_def)
next
  show "s' = s" if "pool_inv c z s" "t \<in> {..<MIGRATE_TYPES}" "rmqueue_take c z t ord s = (None, s')" for s t ord s'
    using rmqueue_take_cases [OF that(1) _ that(3)] that(2) by simp
next
  fix s t p ord
  assume "pool_inv c z s" "t \<in> {..<MIGRATE_TYPES}" "usable_block c z s p ord" "blk p ord \<inter> free_pfns s z = {}"
  then show "pool_inv c z (uu_free_one_page c p z ord t s)
      \<and> free_pfns (uu_free_one_page c p z ord t s) z = blk p ord \<union> free_pfns s z"
    using given_pool by simp
next
  show "free_blocks s z = free_blocks s' z"
    if "pool_inv c z s" "pool_inv c z s'" "free_pfns s z = free_pfns s' z" for s s'
    using free_blocks_subset [of c s z s'] free_blocks_subset [of c s' z s] that
    by (simp add: pool_inv_def subset_antisym)
next
  fix s t r res s' p ord
  assume "pool_inv c z s" "t \<in> {..<MIGRATE_TYPES}" "rmqueue_take c z t r s = (res, s')"
  then have "buddy_frame z s s'"
    using rmqueue_take_cases by (fastforce simp: taken_ok_def)
  then show "usable_block c z s' p ord = usable_block c z s p ord"
    by (rule usable_block_frame)
next
  fix s t q r p ord
  assume "pool_inv c z s" "t \<in> {..<MIGRATE_TYPES}" "usable_block c z s q r" "blk q r \<inter> free_pfns s z = {}"
  then have "buddy_frame z s (uu_free_one_page c q z r t s)"
    using given_pool(3) by simp
  then show "usable_block c z (uu_free_one_page c q z r t s) p ord = usable_block c z s p ord"
    by (rule usable_block_frame)
qed

text \<open>Any interleaving of allocations and frees of one zone, of all orders and migrate types.\<close>

inductive zone_history :: "mmcfg \<Rightarrow> nat \<Rightarrow> mm \<Rightarrow> mm \<Rightarrow> (nat \<times> nat) set \<Rightarrow> bool" for c z s0 where
  zh_start: "zone_history c z s0 s0 {}"
| zh_take: "zone_history c z s0 s held \<Longrightarrow> t < MIGRATE_TYPES \<Longrightarrow> uu_rmqueue c z ord t s = Some (Some p, s') \<Longrightarrow>
    zone_history c z s0 s' (insert (p, ord) held)"
| zh_give: "zone_history c z s0 s held \<Longrightarrow> t < MIGRATE_TYPES \<Longrightarrow> (p, ord) \<in> held \<Longrightarrow>
    zone_history c z s0 (uu_free_one_page c p z ord t s) (held - {(p, ord)})"

lemma zone_history_pool: "zone_history c z s0 s held \<Longrightarrow> buddy.history c z s0 (s, held)"
proof (induction rule: zone_history.induct)
  case (zh_take s held t ord p s')
  have "rmqueue_take c z t ord s = (Some p, s')"
    using zh_take.hyps by (simp add: rmqueue_take_def)
  then show ?case
    using buddy.history.take zh_take.IH zh_take.hyps by blast
next
  case (zh_give s held t p ord)
  then show ?case
    using buddy.history.give [of c z s0 s held t p ord] by simp
qed (rule buddy.history.start)

section \<open>The counters count the lists\<close>

lemma finite_free_blocks:
  assumes "lists_wf c s z"
  shows "finite (free_blocks s z)"
proof -
  have "free_blocks s z \<subseteq> (\<Union>ord < MAX_ORDER c. \<Union>t < MIGRATE_TYPES. (\<lambda>p. (p, ord)) ` set (fl s z ord t))"
    using wf_member [OF assms] by (fastforce simp: free_blocks_def block_ok_def)
  then show ?thesis
    by (rule finite_subset) auto
qed

lemma blocks_of_order:
  assumes "lists_wf c s z"
  shows "int (card {p. (p, ord) \<in> free_blocks s z}) = nf s z ord"
proof -
  have "{p. (p, ord) \<in> free_blocks s z} = (\<Union>t<MIGRATE_TYPES. set (fl s z ord t))"
    using wf_member(1) [OF assms] by (auto simp: free_blocks_def)
  then have "card {p. (p, ord) \<in> free_blocks s z} = (\<Sum>t<MIGRATE_TYPES. card (set (fl s z ord t)))"
    using wf_type_unique [OF assms] by (subst card_UN_disjoint [symmetric]) auto
  also have "\<dots> = (\<Sum>t<MIGRATE_TYPES. length (fl s z ord t))"
    using wf_distinct [OF assms] by (simp add: distinct_card)
  finally show ?thesis
    using wf_nf [OF assms, of ord] by simp
qed

lemma card_free_pfns:
  assumes wf: "lists_wf c s z"
  shows "int (card (free_pfns s z)) = (\<Sum>ord<MAX_ORDER c. nf s z ord * 2 ^ ord)"
proof -
  have "card (free_pfns s z) = (\<Sum>(p, ord) \<in> free_blocks s z. 2 ^ ord)"
    unfolding free_pfns_def
  proof (subst card_UN_disjoint)
    show "\<forall>b\<in>free_blocks s z. \<forall>b'\<in>free_blocks s z. b \<noteq> b' \<longrightarrow>
        (case b of (p, ord) \<Rightarrow> blk p ord) \<inter> (case b' of (p, ord) \<Rightarrow> blk p ord) = {}"
      using wf_disjoint [OF wf] by (simp only: split_paired_Ball_Sigma case_prod_unfold) (metis prod.collapse)
  qed (auto simp: case_prod_unfold finite_free_blocks [OF wf])
  also have "free_blocks s z = (\<Union>ord<MAX_ORDER c. (\<lambda>p. (p, ord)) ` {p. (p, ord) \<in> free_blocks s z})"
    using wf_block(1) [OF wf] by (auto simp: block_ok_def)
  also have "(\<Sum>(p, ord) \<in> \<dots>. 2 ^ ord)
      = (\<Sum>ord<MAX_ORDER c. \<Sum>(p, r) \<in> (\<lambda>p. (p, ord)) ` {p. (p, ord) \<in> free_blocks s z}. 2 ^ r)"
  proof (rule sum.UNION_disjoint)
    show "\<forall>ord\<in>{..<MAX_ORDER c}. finite ((\<lambda>p. (p, ord)) ` {p. (p, ord) \<in> free_blocks s z})"
      using finite_free_blocks [OF wf] by (auto intro: finite_subset)
  qed auto
  also have "\<dots> = (\<Sum>ord<MAX_ORDER c. card {p. (p, ord) \<in> free_blocks s z} * 2 ^ ord)"
    by (intro sum.cong refl, subst sum.reindex) (auto simp: inj_on_def)
  finally have "card (free_pfns s z) = (\<Sum>ord<MAX_ORDER c. card {p. (p, ord) \<in> free_blocks s z} * 2 ^ ord)" .
  then show ?thesis
    using blocks_of_order [OF wf] by simp
qed

end
