(* ===== verification/Pcp_Inv.thy ===== *)
theory Pcp_Inv
  imports Pcp Buddy_Pool
begin

text \<open>
  The invariant of a zone with its per-cpu lists, and that draining, parking and taking pages
  keep it: no page is in two places, and pages only move between the free lists, the per-cpu
  lists and the callers.
\<close>

section \<open>The invariant\<close>

definition pcp_pages :: "mm \<Rightarrow> nat \<Rightarrow> nat \<Rightarrow> nat list" where
  "pcp_pages s z cpu = pcp_list s z cpu 0 @ pcp_list s z cpu 1 @ pcp_list s z cpu 2"

definition parked :: "mmcfg \<Rightarrow> mm \<Rightarrow> nat \<Rightarrow> nat \<Rightarrow> bool" where
  "parked c s z p \<longleftrightarrow> usable_block c z s p 0 \<and> page_order s p < MIGRATE_TYPES"

definition pcp_wf :: "mmcfg \<Rightarrow> mm \<Rightarrow> nat \<Rightarrow> bool" where
  "pcp_wf c s z \<longleftrightarrow> (\<forall>cpu. distinct (pcp_pages s z cpu))
     \<and> (\<forall>cpu cpu'. cpu \<noteq> cpu' \<longrightarrow> set (pcp_pages s z cpu) \<inter> set (pcp_pages s z cpu') = {})
     \<and> (\<forall>cpu. \<forall>p \<in> set (pcp_pages s z cpu). parked c s z p \<and> p \<notin> free_pfns s z)"

definition zone_ok :: "mmcfg \<Rightarrow> mm \<Rightarrow> nat \<Rightarrow> bool" where
  "zone_ok c s z \<longleftrightarrow> lists_wf c s z \<and> coalesced c s z \<and> zone_span s z
     \<and> (\<forall>q \<in> free_pfns s z. \<not> PageCompound s q) \<and> pcp_wf c s z"

definition pcp_counted :: "mm \<Rightarrow> nat \<Rightarrow> bool" where
  "pcp_counted s z \<longleftrightarrow> (\<forall>cpu. pcp_count (pageset (zones s z) cpu) = int (length (pcp_pages s z cpu)))"

definition nr_free_counted :: "mm \<Rightarrow> nat \<Rightarrow> bool" where
  "nr_free_counted s z \<longleftrightarrow> nr_free_pages (zones s z) = int (card (free_pfns s z))"

lemma zone_ok_pool: "zone_ok c s z \<Longrightarrow> pool_inv c z s"
  by (simp add: zone_ok_def pool_inv_def)

section \<open>What an operation on one cpu's lists leaves alone\<close>

definition pcp_rest :: "nat \<Rightarrow> nat \<Rightarrow> mm \<Rightarrow> mm" where
  "pcp_rest z cpu s = upd_pcp z cpu (\<lambda>r. r\<lparr>pcp_lists := (\<lambda>_. [])\<rparr>) (mm_rest s)"

lemma pcp_rest_of_rest: "mm_rest s' = mm_rest s \<Longrightarrow> pcp_rest z cpu s' = pcp_rest z cpu s"
  by (simp add: pcp_rest_def)

lemma pcp_rest_set_list [simp]: "pcp_rest z cpu (set_pcp_list z cpu t xs s) = pcp_rest z cpu s"
  by (simp add: pcp_rest_def set_pcp_list_def upd_pcp_def upd_zone_def mm_rest_def zone_rest_def fun_eq_iff)

lemma pcp_rest_reads:
  assumes "pcp_rest z cpu s' = pcp_rest z cpu s"
  shows "page_zone s' q = page_zone s q" and "PageCompound s' q = PageCompound s q"
    and "pcp_count (pageset (zones s' z') cpu') = pcp_count (pageset (zones s z') cpu')"
    and "pcp_high (pageset (zones s' z') cpu') = pcp_high (pageset (zones s z') cpu')"
    and "pcp_batch (pageset (zones s' z') cpu') = pcp_batch (pageset (zones s z') cpu')"
    and "z' \<noteq> z \<or> cpu' \<noteq> cpu \<Longrightarrow> pcp_list s' z' cpu' t = pcp_list s z' cpu' t"
    and "nr_free_pages (zones s' z') = nr_free_pages (zones s z')"
    and "zone_start_pfn (zones s' z') = zone_start_pfn (zones s z')"
    and "spanned_pages (zones s' z') = spanned_pages (zones s z')"
    and "present_pages (zones s' z') = present_pages (zones s z')"
proof -
  have m: "page_rest (mem_map s' q) = page_rest (mem_map s q)"
    using assms [THEN arg_cong [where f = "\<lambda>m. mem_map m q"]]
    by (simp add: pcp_rest_def mm_rest_def upd_pcp_def upd_zone_def)
  show "page_zone s' q = page_zone s q"
    using m [THEN arg_cong [where f = zone_id]] by (simp add: page_rest_def page_zone_def)
  show "PageCompound s' q = PageCompound s q"
    using m [THEN arg_cong [where f = flags]]
    by (simp add: page_rest_def PageCompound_def PageHead_def PageTail_def) blast
  note zz = assms [THEN arg_cong [where f = "\<lambda>m. zones m z'"]]
  have ps: "pageset (zones (pcp_rest z cpu s') z') cpu' = pageset (zones (pcp_rest z cpu s) z') cpu'"
    using zz by simp
  show "pcp_count (pageset (zones s' z') cpu') = pcp_count (pageset (zones s z') cpu')"
    using ps [THEN arg_cong [where f = pcp_count]]
    by (simp add: pcp_rest_def mm_rest_def upd_pcp_def upd_zone_def zone_rest_def split: if_splits)
  show "pcp_high (pageset (zones s' z') cpu') = pcp_high (pageset (zones s z') cpu')"
    using ps [THEN arg_cong [where f = pcp_high]]
    by (simp add: pcp_rest_def mm_rest_def upd_pcp_def upd_zone_def zone_rest_def split: if_splits)
  show "pcp_batch (pageset (zones s' z') cpu') = pcp_batch (pageset (zones s z') cpu')"
    using ps [THEN arg_cong [where f = pcp_batch]]
    by (simp add: pcp_rest_def mm_rest_def upd_pcp_def upd_zone_def zone_rest_def split: if_splits)
  show "pcp_list s' z' cpu' t = pcp_list s z' cpu' t" if "z' \<noteq> z \<or> cpu' \<noteq> cpu"
    using ps that
    by (auto simp: pcp_rest_def mm_rest_def upd_pcp_def upd_zone_def zone_rest_def pcp_list_def split: if_splits)
  show "nr_free_pages (zones s' z') = nr_free_pages (zones s z')"
    "zone_start_pfn (zones s' z') = zone_start_pfn (zones s z')"
    "spanned_pages (zones s' z') = spanned_pages (zones s z')"
    "present_pages (zones s' z') = present_pages (zones s z')"
    using zz [THEN arg_cong [where f = nr_free_pages]] zz [THEN arg_cong [where f = zone_start_pfn]]
      zz [THEN arg_cong [where f = spanned_pages]] zz [THEN arg_cong [where f = present_pages]]
    by (simp_all add: pcp_rest_def mm_rest_def upd_pcp_def upd_zone_def zone_rest_def split: if_splits)
qed

text \<open>An update of a per-cpu record touches no page and no free list.\<close>

lemma upd_pcp_frame [proj_simps]:
  "fl (upd_pcp z cpu f s) = fl s" "nf (upd_pcp z cpu f s) = nf s"
  "mem_map (upd_pcp z cpu f s) = mem_map s"
  "PageBuddy (upd_pcp z cpu f s) = PageBuddy s" "page_order (upd_pcp z cpu f s) = page_order s"
  "page_zone (upd_pcp z cpu f s) = page_zone s" "PageCompound (upd_pcp z cpu f s) = PageCompound s"
  "zone_span (upd_pcp z cpu f s) = zone_span s"
  by (auto simp: upd_pcp_def proj_defs fun_eq_iff PageCompound_def PageHead_def PageTail_def zone_span_def)

lemma upd_pcp_wf [proj_simps]:
  "free_blocks (upd_pcp z cpu f s) = free_blocks s" "free_pfns (upd_pcp z cpu f s) = free_pfns s"
  "lists_wf c (upd_pcp z cpu f s) = lists_wf c s" "coalesced c (upd_pcp z cpu f s) = coalesced c s"
  "block_ok c (upd_pcp z cpu f s) = block_ok c s"
  "usable_block c z' (upd_pcp z cpu f s) = usable_block c z' s"
  "parked c (upd_pcp z cpu f s) = parked c s"
proof -
  show fb: "free_blocks (upd_pcp z cpu f s) = free_blocks s"
    by (simp add: free_blocks_def proj_simps fun_eq_iff)
  show "free_pfns (upd_pcp z cpu f s) = free_pfns s"
    by (simp add: free_pfns_def fb fun_eq_iff)
  show b: "block_ok c (upd_pcp z cpu f s) = block_ok c s"
    by (simp add: block_ok_def proj_simps fun_eq_iff)
  show "lists_wf c (upd_pcp z cpu f s) = lists_wf c s"
    by (simp add: lists_wf_def proj_simps fun_eq_iff b fb)
  show "coalesced c (upd_pcp z cpu f s) = coalesced c s"
    by (simp add: coalesced_def fb fun_eq_iff)
  show u: "usable_block c z' (upd_pcp z cpu f s) = usable_block c z' s" for z'
    by (simp add: usable_block_def b proj_simps fun_eq_iff)
  show "parked c (upd_pcp z cpu f s) = parked c s"
    by (simp add: parked_def u proj_simps fun_eq_iff)
qed

lemma pcp_list_set [simp]:
  "pcp_list (set_pcp_list z cpu t xs s) z' cpu' t' =
     (if z' = z \<and> cpu' = cpu \<and> t' = t then xs else pcp_list s z' cpu' t')"
  by (simp add: pcp_list_def set_pcp_list_def upd_pcp_def upd_zone_def)

lemma pcp_list_add_count [simp]: "pcp_list (add_pcp_count z cpu d s) = pcp_list s"
  by (auto simp: pcp_list_def add_pcp_count_def upd_pcp_def upd_zone_def fun_eq_iff)

lemma pcp_list_rest: "mm_rest s' = mm_rest s \<Longrightarrow> pcp_list s' = pcp_list s"
  using mm_rest_zone_field(4) [of s' s] by (auto simp: pcp_list_def fun_eq_iff)

text \<open>An operation on one zone leaves every other zone untouched.\<close>

definition untouched :: "nat \<Rightarrow> mm \<Rightarrow> mm \<Rightarrow> bool" where
  "untouched z s s' \<longleftrightarrow> fl s' z = fl s z \<and> nf s' z = nf s z \<and> pageset (zones s' z) = pageset (zones s z)
     \<and> zone_start_pfn (zones s' z) = zone_start_pfn (zones s z)
     \<and> spanned_pages (zones s' z) = spanned_pages (zones s z)
     \<and> present_pages (zones s' z) = present_pages (zones s z)
     \<and> nr_free_pages (zones s' z) = nr_free_pages (zones s z)
     \<and> page_zone s' = page_zone s
     \<and> (\<forall>q. page_zone s q = z \<longrightarrow> PageBuddy s' q = PageBuddy s q \<and> page_order s' q = page_order s q
          \<and> PageCompound s' q = PageCompound s q)"

lemma untouched_refl [simp]: "untouched z s s"
  by (simp add: untouched_def)

lemma untouched_trans: "untouched z s s' \<Longrightarrow> untouched z s' s'' \<Longrightarrow> untouched z s s''"
  by (auto simp: untouched_def)

lemma untouched_upd_pcp: "z' \<noteq> z \<Longrightarrow> untouched z' s (upd_pcp z cpu f s)"
  by (auto simp: untouched_def proj_simps) (auto simp: upd_pcp_def upd_zone_def)

lemma untouched_frame: "buddy_frame z s s' \<Longrightarrow> z' \<noteq> z \<Longrightarrow> untouched z' s s'"
proof -
  assume f: "buddy_frame z s s'" and z: "z' \<noteq> z"
  note m = buddy_frame_rest [OF f]
  have "present_pages (zones s' z') = present_pages (zones s z')"
    using mm_rest_zone [OF m, of z', THEN arg_cong [where f = present_pages]] by (simp add: zone_rest_def)
  then show ?thesis
    using f z mm_rest_zone_field [OF m] mm_rest_compound [OF m] mm_rest_page_zone [OF m]
    by (auto simp: untouched_def buddy_frame_def fun_eq_iff)
qed

section \<open>Draining\<close>

lemma pcp_wf_shrink:
  assumes wf: "pcp_wf c s z"
    and dist: "\<And>cpu. distinct (pcp_pages s' z cpu)"
    and sub: "\<And>cpu. set (pcp_pages s' z cpu) \<subseteq> set (pcp_pages s z cpu)"
    and us: "\<And>cpu p. p \<in> set (pcp_pages s' z cpu) \<Longrightarrow> usable_block c z s' p 0 = usable_block c z s p 0"
    and ord: "\<And>cpu p. p \<in> set (pcp_pages s' z cpu) \<Longrightarrow> page_order s' p = page_order s p \<and> p \<notin> free_pfns s' z"
  shows "pcp_wf c s' z"
proof -
  have "set (pcp_pages s' z cpu) \<inter> set (pcp_pages s' z cpu') = {}" if "cpu \<noteq> cpu'" for cpu cpu'
    using wf that sub [of cpu] sub [of cpu'] unfolding pcp_wf_def by blast
  moreover have "parked c s' z p" if "p \<in> set (pcp_pages s' z cpu)" for cpu p
  proof -
    have "parked c s z p"
      using wf that sub [of cpu] unfolding pcp_wf_def by blast
    then show ?thesis
      using ord [OF that] us [OF that] by (simp add: parked_def)
  qed
  ultimately show ?thesis
    using dist ord unfolding pcp_wf_def by blast
qed

lemma pcp_pages_drop:
  assumes "t < MIGRATE_PCPTYPES" and "pcp_list s z cpu t = xs @ [p]" and "distinct (pcp_pages s z cpu)"
    and "\<And>t'. pcp_list s' z cpu t' = (if t' = t then xs else pcp_list s z cpu t')"
  shows "distinct (pcp_pages s' z cpu)" and "set (pcp_pages s' z cpu) = set (pcp_pages s z cpu) - {p}"
    and "length (pcp_pages s z cpu) = Suc (length (pcp_pages s' z cpu))" and "p \<in> set (pcp_pages s z cpu)"
  using assms by (auto simp: pcp_pages_def numeral_3_eq_3 numeral_2_eq_2 less_Suc_eq)

definition drained :: "mmcfg \<Rightarrow> nat \<Rightarrow> nat \<Rightarrow> nat \<Rightarrow> mm \<Rightarrow> mm \<Rightarrow> bool" where
  "drained c z cpu n s s' \<longleftrightarrow> zone_ok c s' z
     \<and> length (pcp_pages s z cpu) = n + length (pcp_pages s' z cpu)
     \<and> set (pcp_pages s' z cpu) \<subseteq> set (pcp_pages s z cpu)
     \<and> free_pfns s' z = free_pfns s z \<union> (set (pcp_pages s z cpu) - set (pcp_pages s' z cpu))
     \<and> pcp_rest z cpu s' = pcp_rest z cpu s \<and> (\<forall>z'. z' \<noteq> z \<longrightarrow> untouched z' s s')"

lemma drained_refl: "zone_ok c s z \<Longrightarrow> drained c z cpu 0 s s"
  by (simp add: drained_def)

lemma drained_trans: "drained c z cpu m s s' \<Longrightarrow> drained c z cpu n s' s'' \<Longrightarrow> drained c z cpu (m + n) s s''"
  unfolding drained_def using untouched_trans by auto

lemma drain_one_ok:
  assumes ok: "zone_ok c s z" and t: "t < MIGRATE_PCPTYPES" and ne: "pcp_list s z cpu t \<noteq> []"
  shows "drained c z cpu 1 s (drain_one c z cpu t s)"
proof -
  obtain xs p where l: "pcp_list s z cpu t = xs @ [p]"
    using ne by (metis append_butlast_last_id)
  let ?s1 = "set_pcp_list z cpu t xs s"
  let ?u = "page_order ?s1 p"
  let ?s2 = "uu_free_one_page c p z 0 ?u ?s1"
  have eq: "drain_one c z cpu t s = ?s2"
    by (simp add: drain_one_def l Let_def)
  have wf: "pcp_wf c s z" and dist: "distinct (pcp_pages s z cpu)"
    using ok by (simp_all add: zone_ok_def pcp_wf_def)
  have s1: "pcp_list ?s1 z cpu t' = (if t' = t then xs else pcp_list s z cpu t')" for t'
    by simp
  have "p \<in> set (pcp_pages s z cpu)"
    by (rule pcp_pages_drop(4) [OF t l dist s1])
  then have pk: "parked c s z p" and pf: "p \<notin> free_pfns s z"
    using wf by (auto simp: pcp_wf_def)
  have pool: "pool_inv c z ?s1" and ut: "?u < MIGRATE_TYPES"
    using ok pk by (simp_all add: zone_ok_def pool_inv_def parked_def set_pcp_list_def proj_simps)
  have us: "usable_block c z ?s1 p 0" and dj: "blk p 0 \<inter> free_pfns ?s1 z = {}"
    using pk pf by (auto simp: parked_def set_pcp_list_def proj_simps)
  note g = given_pool [OF pool ut us dj]
  have lists: "pcp_list ?s2 = pcp_list ?s1"
    by (rule pcp_list_rest [OF buddy_frame_rest [OF g(3)]])
  have l2: "pcp_list ?s2 z cpu t' = (if t' = t then xs else pcp_list s z cpu t')" for t'
    by (simp add: lists)
  note drop = pcp_pages_drop [OF t l dist l2]
  have other: "pcp_pages ?s2 z cpu' = pcp_pages s z cpu'" if "cpu' \<noteq> cpu" for cpu'
    using that by (simp add: pcp_pages_def lists)
  have fp: "free_pfns ?s2 z = insert p (free_pfns s z)"
    using g(2) by (auto simp: set_pcp_list_def proj_simps)
  have wf2: "pcp_wf c ?s2 z"
  proof (rule pcp_wf_shrink [OF wf])
    show "distinct (pcp_pages ?s2 z cpu')" for cpu'
      using drop(1) other wf by (cases "cpu' = cpu") (simp_all add: pcp_wf_def)
    show sub: "set (pcp_pages ?s2 z cpu') \<subseteq> set (pcp_pages s z cpu')" for cpu'
      using drop(2) other by (cases "cpu' = cpu") auto
    show "usable_block c z ?s2 q 0 = usable_block c z s q 0" if "q \<in> set (pcp_pages ?s2 z cpu')" for cpu' q
      using usable_block_frame [OF g(3)] by (simp add: set_pcp_list_def proj_simps)
    fix cpu' q assume q: "q \<in> set (pcp_pages ?s2 z cpu')"
    have "q \<noteq> p"
    proof (cases "cpu' = cpu")
      case True
      then show ?thesis
        using q drop(2) by simp
    next
      case False
      then have "set (pcp_pages s z cpu') \<inter> set (pcp_pages s z cpu) = {}"
        using wf unfolding pcp_wf_def by blast
      then show ?thesis
        using q drop(4) other [OF False] by (simp add: disjoint_iff) metis
    qed
    moreover have "q \<notin> free_pfns s z"
      using q sub wf unfolding pcp_wf_def by blast
    ultimately show "page_order ?s2 q = page_order s q \<and> q \<notin> free_pfns ?s2 z"
      using g(4) fp by (simp add: orders_kept_def set_pcp_list_def proj_simps)
  qed
  have "pcp_rest z cpu ?s2 = pcp_rest z cpu s"
    using pcp_rest_of_rest [OF buddy_frame_rest [OF g(3)], of z cpu] by simp
  moreover have "zone_ok c ?s2 z"
    using g(1) wf2 by (simp add: zone_ok_def pool_inv_def)
  moreover have "free_pfns ?s2 z = free_pfns s z \<union> (set (pcp_pages s z cpu) - set (pcp_pages ?s2 z cpu))"
    using drop(4) unfolding fp drop(2) by (simp add: Diff_Diff_Int)
  moreover have "set (pcp_pages ?s2 z cpu) \<subseteq> set (pcp_pages s z cpu)"
    unfolding drop(2) by (rule Diff_subset)
  moreover have "untouched z' s ?s2" if "z' \<noteq> z" for z'
    using untouched_trans [OF untouched_upd_pcp [OF that] untouched_frame [OF g(3) that, unfolded set_pcp_list_def]]
    by (simp add: set_pcp_list_def)
  ultimately show ?thesis
    unfolding eq drained_def drop(3) by simp
qed

lemma drain_list_ok:
  assumes "zone_ok c s z" and "t < MIGRATE_PCPTYPES" and "pcp_list s z cpu t \<noteq> []" and "0 < n"
  shows "\<exists>m. fst (drain_list c z cpu t n bf s) + m = n \<and> drained c z cpu m s (snd (snd (drain_list c z cpu t n bf s)))"
  using assms
proof (induction c z cpu t n bf s rule: drain_list.induct)
  case (2 c z cpu t n bf s)
  note d = drain_one_ok [OF "2.prems"(1-3)]
  let ?s = "drain_one c z cpu t s"
  have ok: "zone_ok c ?s z"
    using d by (simp add: drained_def)
  show ?case
  proof (cases "n = 0 \<or> bf - 1 = 0 \<or> pcp_list ?s z cpu t = []")
    case True
    then show ?thesis
      using d by (intro exI [of _ 1]) (auto simp: Let_def)
  next
    case False
    then obtain m where "fst (drain_list c z cpu t n (bf - 1) ?s) + m = n"
        "drained c z cpu m ?s (snd (snd (drain_list c z cpu t n (bf - 1) ?s)))"
      using "2.IH" [OF refl _ _ ok "2.prems"(2)] by auto
    then show ?thesis
      using False drained_trans [OF d] by (intro exI [of _ "1 + m"]) (auto simp: Let_def)
  qed
qed simp

lemma find_list_finds:
  assumes "t < 3"
  shows "find_list 3 ls t bf = None \<longleftrightarrow> (\<forall>u<3. ls u = [])"
    and "find_list 3 ls t bf = Some (u, bf') \<Longrightarrow> u < 3 \<and> ls u \<noteq> [] \<and> bf < bf'"
  using assms by (auto simp: numeral_3_eq_3 less_Suc_eq Let_def split: if_splits)

lemma free_pcppages_loop_ok:
  assumes "zone_ok c s z" and "t < MIGRATE_PCPTYPES" and "n \<le> length (pcp_pages s z cpu)"
  shows "\<exists>s'. free_pcppages_loop c z cpu t bf n s = Some s' \<and> drained c z cpu n s s'"
  using assms
proof (induction c z cpu t bf n s rule: free_pcppages_loop.induct)
  case (1 c z cpu t bf n s)
  show ?case
  proof (cases "n = 0")
    case True
    then show ?thesis
      using drained_refl [OF "1.prems"(1)] by (simp add: free_pcppages_loop.simps)
  next
    case False
    obtain u bf' where f: "find_list 3 (pcp_list s z cpu) t bf = Some (u, bf')"
      using find_list_finds(1) [OF "1.prems"(2), of "pcp_list s z cpu" bf] False "1.prems"(3)
      by (cases "find_list 3 (pcp_list s z cpu) t bf") (auto simp: pcp_pages_def numeral_3_eq_3)
    have u: "u < 3" "pcp_list s z cpu u \<noteq> []"
      using find_list_finds(2) [OF "1.prems"(2) f] by simp_all
    let ?r = "drain_list c z cpu u n bf' s"
    obtain m where m: "fst ?r + m = n" and d: "drained c z cpu m s (snd (snd ?r))"
      using drain_list_ok [OF "1.prems"(1) u, of n bf'] False by blast
    have ok: "zone_ok c (snd (snd ?r)) z" and len: "fst ?r \<le> length (pcp_pages (snd (snd ?r)) z cpu)"
      using d m "1.prems"(3) by (simp_all add: drained_def)
    obtain s' where "free_pcppages_loop c z cpu u (fst (snd ?r)) (fst ?r) (snd (snd ?r)) = Some s'"
        "drained c z cpu (fst ?r) (snd (snd ?r)) s'"
      using "1.IH" [OF False f refl refl ok u(1) len] by blast
    moreover have "drained c z cpu n s s'" if "drained c z cpu (fst ?r) (snd (snd ?r)) s'" for s'
      using drained_trans [OF d that] m by (simp add: add.commute)
    ultimately show ?thesis
      using False f by (simp add: free_pcppages_loop.simps [of c z cpu t] Let_def)
  qed
qed

section \<open>Steps that only touch pages in the caller's hand\<close>

definition avail :: "mm \<Rightarrow> nat \<Rightarrow> nat set" where
  "avail s z = free_pfns s z \<union> (\<Union>cpu. set (pcp_pages s z cpu))"

definition same_zone_state :: "nat \<Rightarrow> mm \<Rightarrow> mm \<Rightarrow> bool" where
  "same_zone_state z s s' \<longleftrightarrow> fl s' z = fl s z \<and> nf s' z = nf s z \<and> pcp_list s' z = pcp_list s z
     \<and> zone_start_pfn (zones s' z) = zone_start_pfn (zones s z)
     \<and> spanned_pages (zones s' z) = spanned_pages (zones s z) \<and> page_zone s' = page_zone s
     \<and> (\<forall>q. page_zone s q = z \<longrightarrow> PageBuddy s' q = PageBuddy s q)
     \<and> (\<forall>q \<in> avail s z. page_order s' q = page_order s q \<and> PageCompound s' q = PageCompound s q)"

lemma same_zone_reads:
  assumes "same_zone_state z s s'"
  shows "free_blocks s' z = free_blocks s z" and "free_pfns s' z = free_pfns s z"
    and "pcp_pages s' z cpu = pcp_pages s z cpu" and "avail s' z = avail s z"
proof -
  show fb: "free_blocks s' z = free_blocks s z"
    using assms by (simp add: free_blocks_def same_zone_state_def)
  then show fp: "free_pfns s' z = free_pfns s z"
    by (simp add: free_pfns_def)
  show pp: "pcp_pages s' z cpu = pcp_pages s z cpu" for cpu
    using assms by (simp add: pcp_pages_def same_zone_state_def)
  show "avail s' z = avail s z"
    by (simp add: avail_def fp pp)
qed

lemma same_zone_ok:
  assumes e: "same_zone_state z s s'" and ok: "zone_ok c s z"
  shows "zone_ok c s' z"
proof -
  note r = same_zone_reads [OF e]
  have wf: "lists_wf c s z" and pw: "pcp_wf c s z"
    using ok by (simp_all add: zone_ok_def)
  have z: "page_zone s' q = page_zone s q" for q
    using e by (simp add: same_zone_state_def)
  have bo: "block_ok c s' z p n = block_ok c s z p n" for p n
    using z by (rule block_ok_cong)
  have keep: "page_order s' q = page_order s q" "PageCompound s' q = PageCompound s q" if "q \<in> avail s z" for q
    using e that by (simp_all add: same_zone_state_def)
  have listed: "(q, page_order s q) \<in> free_blocks s z" if "page_zone s q = z" "PageBuddy s q" for q
    using wf_buddy_listed [OF wf that] .
  have order: "page_order s' q = page_order s q" if "page_zone s q = z" "PageBuddy s q" for q
    using keep(1) [of q] free_pfns_block [OF listed [OF that]] by (auto simp: avail_def)
  have buddy: "PageBuddy s' q = PageBuddy s q" if "page_zone s q = z" for q
    using e that by (simp add: same_zone_state_def)
  have mem: "t < MIGRATE_TYPES \<and> block_ok c s' z p n \<and> PageBuddy s' p \<and> page_order s' p = n"
    if "p \<in> set (fl s' z n t)" for p n t
  proof -
    have "p \<in> set (fl s z n t)"
      using that e by (simp add: same_zone_state_def)
    note m = wf_member [OF wf this]
    moreover have "page_zone s p = z"
      using m(2) by (auto simp: block_ok_def)
    ultimately show ?thesis
      using order buddy bo by simp
  qed
  have "lists_wf c s' z"
    unfolding lists_wf_def
  proof (intro conjI allI impI)
    fix p assume "page_zone s' p = z" "PageBuddy s' p"
    then show "(p, page_order s' p) \<in> free_blocks s' z"
      using listed [of p] order [of p] buddy [of p] by (simp add: z r(1))
  next
    show "distinct (fl s' z n t)" for n t
      using wf_distinct [OF wf] e by (simp add: same_zone_state_def)
    show "nf s' z n = (\<Sum>t<5. int (length (fl s' z n t)))" for n
      using wf_nf [OF wf] e by (simp add: same_zone_state_def)
    show "t = t'" if "p \<in> set (fl s' z n t)" "p \<in> set (fl s' z n t')" for n t t' p
      using wf_type_unique [OF wf] that e by (auto simp: same_zone_state_def)
    show "blk p n \<inter> blk q m = {}"
      if "(p, n) \<in> free_blocks s' z" "(q, m) \<in> free_blocks s' z" "(p, n) \<noteq> (q, m)" for p n q m
      using wf_disjoint [OF wf] that by (simp add: r(1))
  qed (use mem in blast)+
  moreover have "coalesced c s' z"
    using ok by (simp add: zone_ok_def coalesced_def r(1))
  moreover have "zone_span s' z"
    using ok e by (simp add: zone_ok_def zone_span_def same_zone_state_def)
  moreover have "\<forall>q \<in> free_pfns s' z. \<not> PageCompound s' q"
    using ok keep(2) by (simp add: zone_ok_def r(2) avail_def)
  moreover have "pcp_wf c s' z"
  proof (rule pcp_wf_shrink [OF pw])
    fix cpu q assume "q \<in> set (pcp_pages s' z cpu)"
    then have q: "q \<in> set (pcp_pages s z cpu)" "q \<in> avail s z"
      by (auto simp: r(3) avail_def)
    then show "page_order s' q = page_order s q \<and> q \<notin> free_pfns s' z"
      using keep(1) pw by (auto simp: r(2) pcp_wf_def)
    have "blk q 0 = {q}"
      by auto
    then show "usable_block c z s' q 0 = usable_block c z s q 0"
      using keep(2) [OF q(2)] by (simp add: usable_block_def bo)
  qed (use pw in \<open>auto simp: r(3) pcp_wf_def\<close>)
  ultimately show ?thesis
    by (simp add: zone_ok_def)
qed

section \<open>free\_pcppages\_bulk and the drains\<close>

definition bulk_freed :: "mmcfg \<Rightarrow> nat \<Rightarrow> nat \<Rightarrow> int \<Rightarrow> mm \<Rightarrow> mm \<Rightarrow> bool" where
  "bulk_freed c z cpu n s s' \<longleftrightarrow> zone_ok c s' z
     \<and> int (length (pcp_pages s z cpu)) = n + int (length (pcp_pages s' z cpu))
     \<and> set (pcp_pages s' z cpu) \<subseteq> set (pcp_pages s z cpu)
     \<and> free_pfns s' z = free_pfns s z \<union> (set (pcp_pages s z cpu) - set (pcp_pages s' z cpu))
     \<and> (\<forall>cpu'. cpu' \<noteq> cpu \<longrightarrow> pcp_pages s' z cpu' = pcp_pages s z cpu')
     \<and> (\<forall>cpu'. pcp_count (pageset (zones s' z) cpu') = pcp_count (pageset (zones s z) cpu'))
     \<and> nr_free_pages (zones s' z) = nr_free_pages (zones s z) + n
     \<and> present_pages (zones s' z) = present_pages (zones s z)
     \<and> (\<forall>z'. z' \<noteq> z \<longrightarrow> untouched z' s s')"

lemma free_pcppages_bulk_ok:
  assumes ok: "zone_ok c s z" and n: "0 \<le> n" "n \<le> int (length (pcp_pages s z cpu))"
  shows "\<exists>s'. free_pcppages_bulk c z n cpu s = Some s' \<and> bulk_freed c z cpu n s s'"
proof -
  let ?s = "mod_nr_free_pages z n (upd_zone z (\<lambda>g. g\<lparr>all_unreclaimable := False, pages_scanned := 0\<rparr>) s)"
  have e: "same_zone_state z s ?s"
    by (auto simp: same_zone_state_def proj_defs fun_eq_iff pcp_list_def PageCompound_def PageHead_def PageTail_def)
  have cnt: "nr_free_pages (zones ?s z) = nr_free_pages (zones s z) + n"
      "pageset (zones ?s z) = pageset (zones s z)" "present_pages (zones ?s z) = present_pages (zones s z)"
    by (simp_all add: proj_defs)
  note r = same_zone_reads [OF e]
  have ok': "zone_ok c ?s z"
    using e ok by (rule same_zone_ok)
  have len: "nat n \<le> length (pcp_pages ?s z cpu)"
    using n by (simp add: r(3))
  obtain s' where s': "free_pcppages_loop c z cpu 0 0 (nat n) ?s = Some s'" "drained c z cpu (nat n) ?s s'"
    using free_pcppages_loop_ok [OF ok' _ len, of 0 0] by auto
  have rest: "pcp_rest z cpu s' = pcp_rest z cpu ?s"
    using s'(2) by (simp add: drained_def)
  note pr = pcp_rest_reads [OF rest]
  have "pcp_pages s' z cpu' = pcp_pages s z cpu'" if "cpu' \<noteq> cpu" for cpu'
    using that r(3) [of cpu'] by (simp add: pcp_pages_def pr(6))
  moreover have "untouched z' s s'" if "z' \<noteq> z" for z'
  proof (rule untouched_trans)
    show "untouched z' s ?s"
      using that by (auto simp: untouched_def proj_defs fun_eq_iff PageCompound_def PageHead_def PageTail_def)
    show "untouched z' ?s s'"
      using s'(2) that by (simp add: drained_def)
  qed
  ultimately have "bulk_freed c z cpu n s s'"
    using s'(2) n cnt pr(3,7,10) [of z] unfolding bulk_freed_def drained_def by (simp add: r)
  then show ?thesis
    using s'(1) n by (simp add: free_pcppages_bulk_def Let_def)
qed

lemma finite_free_pfns: "lists_wf c s z \<Longrightarrow> finite (free_pfns s z)"
  using finite_free_blocks by (auto simp: free_pfns_def)

lemma bulk_freed_counts:
  assumes ok: "zone_ok c s z" and f: "bulk_freed c z cpu n s s'"
  shows "nr_free_counted s' z \<longleftrightarrow> nr_free_counted s z" and "avail s' z = avail s z"
proof -
  have pw: "pcp_wf c s z" "pcp_wf c s' z" and fin: "finite (free_pfns s z)"
    using ok f finite_free_pfns by (auto simp: zone_ok_def bulk_freed_def)
  let ?A = "set (pcp_pages s z cpu)" and ?B = "set (pcp_pages s' z cpu)"
  have sub: "?B \<subseteq> ?A" and fp: "free_pfns s' z = free_pfns s z \<union> (?A - ?B)"
      and len: "int (length (pcp_pages s z cpu)) = n + int (length (pcp_pages s' z cpu))"
    using f by (simp_all add: bulk_freed_def)
  have c: "card ?A = length (pcp_pages s z cpu)" "card ?B = length (pcp_pages s' z cpu)"
    using pw by (simp_all add: pcp_wf_def distinct_card)
  have "free_pfns s z \<inter> (?A - ?B) = {}"
    using pw(1) by (auto simp: pcp_wf_def)
  then have "card (free_pfns s' z) = card (free_pfns s z) + card (?A - ?B)"
    unfolding fp using fin by (simp add: card_Un_disjoint)
  also have "card (?A - ?B) = card ?A - card ?B"
    using sub by (intro card_Diff_subset) auto
  finally have "int (card (free_pfns s' z)) = int (card (free_pfns s z)) + n"
    using len c card_mono [OF _ sub] by simp
  then show "nr_free_counted s' z \<longleftrightarrow> nr_free_counted s z"
    using f by (auto simp: nr_free_counted_def bulk_freed_def)
  have "(\<Union>cpu'. set (pcp_pages s' z cpu')) \<union> ?A = (\<Union>cpu'. set (pcp_pages s z cpu'))"
  proof -
    have "pcp_pages s' z cpu' = pcp_pages s z cpu'" if "cpu' \<noteq> cpu" for cpu'
      using f that by (simp add: bulk_freed_def)
    then have "set (pcp_pages s' z cpu') \<subseteq> set (pcp_pages s z cpu')
        \<and> set (pcp_pages s z cpu') \<subseteq> set (pcp_pages s' z cpu') \<union> ?A" for cpu'
      using sub by (cases "cpu' = cpu") auto
    then show ?thesis
      by blast
  qed
  then show "avail s' z = avail s z"
    using sub unfolding avail_def fp by blast
qed

lemma add_pcp_count_zone [simp]:
  "same_zone_state z s (add_pcp_count z' cpu d s)"
  "nr_free_pages (zones (add_pcp_count z' cpu d s) z) = nr_free_pages (zones s z)"
  "pcp_count (pageset (zones (add_pcp_count z' cpu d s) z) cpu') =
     pcp_count (pageset (zones s z) cpu') + (if z = z' \<and> cpu' = cpu then d else 0)"
  by (auto simp: same_zone_state_def add_pcp_count_def upd_pcp_def pcp_list_def proj_defs fun_eq_iff
      PageCompound_def PageHead_def PageTail_def)

lemma untouched_zone:
  assumes u: "untouched z s s'" and ok: "zone_ok c s z"
  shows "zone_ok c s' z" and "free_pfns s' z = free_pfns s z" and "pcp_pages s' z cpu = pcp_pages s z cpu"
    and "avail s' z = avail s z"
proof -
  have "page_zone s q = z" if "q \<in> avail s z" for q
  proof -
    have "page_zone s q = z" if "(p, n) \<in> free_blocks s z" "q \<in> blk p n" for p n
      using wf_block(1) [of c s z p n] ok that unfolding zone_ok_def block_ok_def by blast
    moreover have "page_zone s q = z" if "q \<in> set (pcp_pages s z cpu)" for cpu
      using ok that by (auto simp: zone_ok_def pcp_wf_def parked_def usable_block_def block_ok_def)
    ultimately show ?thesis
      using that by (auto simp: avail_def free_pfns_def)
  qed
  then have e: "same_zone_state z s s'"
    using u by (simp add: untouched_def same_zone_state_def pcp_list_def fun_eq_iff)
  show "zone_ok c s' z"
    using e ok by (rule same_zone_ok)
  show "free_pfns s' z = free_pfns s z" "pcp_pages s' z cpu = pcp_pages s z cpu" "avail s' z = avail s z"
    by (rule same_zone_reads [OF e])+
qed

end
