(* ===== verification/Pcp_Ops.thy ===== *)
theory Pcp_Ops
  imports Pcp_Inv "HOL-Library.Multiset"
begin

text \<open>
  The operations on the per-cpu lists keep the invariant of the zone with its two counters,
  and conserve its pages: a drain moves pages to the free lists, a free adds the page to the
  available ones, and an allocation takes available pages and always returns.
\<close>

definition zone_inv :: "mmcfg \<Rightarrow> mm \<Rightarrow> nat \<Rightarrow> bool" where
  "zone_inv c s z \<longleftrightarrow> zone_ok c s z \<and> pcp_counted s z \<and> nr_free_counted s z"

lemma untouched_inv:
  assumes "untouched z s s'" and "zone_inv c s z"
  shows "zone_inv c s' z"
proof -
  have ok: "zone_ok c s z"
    using assms(2) by (simp add: zone_inv_def)
  note u = untouched_zone [OF assms(1) ok]
  show ?thesis
    using assms u by (simp add: zone_inv_def pcp_counted_def nr_free_counted_def untouched_def)
qed

lemma same_zone_inv:
  assumes "same_zone_state z s s'" and "zone_inv c s z"
    and "nr_free_pages (zones s' z) = nr_free_pages (zones s z)"
    and "\<And>cpu. pcp_count (pageset (zones s' z) cpu) = pcp_count (pageset (zones s z) cpu)"
  shows "zone_inv c s' z"
  using assms same_zone_ok [of z s s' c] same_zone_reads [of z s s']
  by (simp add: zone_inv_def pcp_counted_def nr_free_counted_def)

section \<open>Drains\<close>

lemma bulk_free_and_count:
  assumes inv: "zone_inv c s z" and n: "0 \<le> n" "n \<le> pcp_count (pageset (zones s z) cpu)"
  shows "\<exists>s'. free_pcppages_bulk c z n cpu s = Some s' \<and> bulk_freed c z cpu n s s'
    \<and> zone_inv c (add_pcp_count z cpu (- n) s') z
    \<and> avail (add_pcp_count z cpu (- n) s') z = avail s z"
proof -
  have ok: "zone_ok c s z" and pc: "pcp_counted s z" and nc: "nr_free_counted s z"
    using inv by (simp_all add: zone_inv_def)
  have le: "n \<le> int (length (pcp_pages s z cpu))"
    using n pc by (simp add: pcp_counted_def)
  obtain s' where s': "free_pcppages_bulk c z n cpu s = Some s'" "bulk_freed c z cpu n s s'"
    using free_pcppages_bulk_ok [OF ok n(1) le] by blast
  let ?t = "add_pcp_count z cpu (- n) s'"
  have e: "same_zone_state z s' ?t"
    by simp
  note r = same_zone_reads [OF e]
  have len: "int (length (pcp_pages s z cpu)) = n + int (length (pcp_pages s' z cpu))"
    using s'(2) by (simp add: bulk_freed_def)
  have "int (length (pcp_pages s' z cpu')) = int (length (pcp_pages s z cpu')) - (if cpu' = cpu then n else 0)" for cpu'
    using s'(2) len by (cases "cpu' = cpu") (simp_all add: bulk_freed_def)
  moreover have "pcp_count (pageset (zones s' z) cpu') = pcp_count (pageset (zones s z) cpu')" for cpu'
    using s'(2) by (simp add: bulk_freed_def)
  ultimately have "pcp_counted ?t z"
    using pc by (auto simp: pcp_counted_def r(3))
  moreover have "zone_ok c ?t z"
    using s'(2) by (intro same_zone_ok [OF e]) (simp add: bulk_freed_def)
  moreover have "nr_free_counted ?t z"
    using nc bulk_freed_counts(1) [OF ok s'(2)] by (simp add: nr_free_counted_def r(2))
  moreover have "avail ?t z = avail s z"
    using r(4) bulk_freed_counts(2) [OF ok s'(2)] by simp
  ultimately show ?thesis
    using s' by (simp add: zone_inv_def)
qed

lemma drain_zone_pages_ok:
  assumes inv: "zone_inv c s z" and b: "0 \<le> pcp_batch (pageset (zones s z) cpu)"
  shows "\<exists>s'. drain_zone_pages c z cpu s = Some s' \<and> zone_inv c s' z \<and> avail s' z = avail s z
    \<and> int (length (pcp_pages s' z cpu)) =
        max 0 (int (length (pcp_pages s z cpu)) - pcp_batch (pageset (zones s z) cpu))"
proof -
  let ?p = "pageset (zones s z) cpu"
  let ?n = "if pcp_count ?p \<ge> pcp_batch ?p then pcp_batch ?p else pcp_count ?p"
  have cnt: "pcp_count ?p = int (length (pcp_pages s z cpu))"
    using inv by (simp add: zone_inv_def pcp_counted_def)
  have n: "0 \<le> ?n" "?n \<le> pcp_count ?p"
    using b cnt by auto
  obtain s' where s': "free_pcppages_bulk c z ?n cpu s = Some s'" "bulk_freed c z cpu ?n s s'"
      "zone_inv c (add_pcp_count z cpu (- ?n) s') z" "avail (add_pcp_count z cpu (- ?n) s') z = avail s z"
    using bulk_free_and_count [OF inv n] by blast
  have "pcp_pages (add_pcp_count z cpu (- ?n) s') z cpu = pcp_pages s' z cpu"
    by (simp add: pcp_pages_def)
  moreover have "int (length (pcp_pages s' z cpu)) = max 0 (pcp_count ?p - pcp_batch ?p)"
    using s'(2) b cnt unfolding bulk_freed_def by (auto simp: max_def)
  ultimately show ?thesis
    using s' cnt by (simp add: drain_zone_pages_def Let_def)
qed

lemma untouched_bulk_set:
  assumes "bulk_freed c z cpu n s s'" and "z' \<noteq> z"
  shows "untouched z' s (upd_pcp z cpu f s')"
  using assms untouched_trans [OF _ untouched_upd_pcp [OF assms(2)]] by (simp add: bulk_freed_def)

definition cpu_drained :: "mmcfg \<Rightarrow> nat \<Rightarrow> mm \<Rightarrow> mm \<Rightarrow> nat \<Rightarrow> bool" where
  "cpu_drained c cpu s s' z \<longleftrightarrow> zone_inv c s' z \<and> avail s' z = avail s z
     \<and> present_pages (zones s' z) = present_pages (zones s z)
     \<and> (present_pages (zones s z) \<noteq> 0 \<longrightarrow> pcp_pages s' z cpu = [])
     \<and> (\<forall>cpu'. cpu' \<noteq> cpu \<longrightarrow> pcp_pages s' z cpu' = pcp_pages s z cpu')"

lemma drain_one_zone:
  assumes inv: "zone_inv c s z"
  shows "\<exists>s'. free_pcppages_bulk c z (pcp_count (pageset (zones s z) cpu)) cpu s = Some s'
    \<and> cpu_drained c cpu s (upd_pcp z cpu (\<lambda>r. r\<lparr>pcp_count := 0\<rparr>) s') z
    \<and> (\<forall>z'. z' \<noteq> z \<longrightarrow> untouched z' s (upd_pcp z cpu (\<lambda>r. r\<lparr>pcp_count := 0\<rparr>) s'))"
proof -
  let ?n = "pcp_count (pageset (zones s z) cpu)"
  have cnt: "?n = int (length (pcp_pages s z cpu))"
    using inv by (simp add: zone_inv_def pcp_counted_def)
  have n: "0 \<le> ?n" "?n \<le> ?n"
    using cnt by simp_all
  obtain s' where s': "free_pcppages_bulk c z ?n cpu s = Some s'" "bulk_freed c z cpu ?n s s'"
      "zone_inv c (add_pcp_count z cpu (- ?n) s') z" "avail (add_pcp_count z cpu (- ?n) s') z = avail s z"
    using bulk_free_and_count [OF inv n] by blast
  let ?t = "upd_pcp z cpu (\<lambda>r. r\<lparr>pcp_count := 0\<rparr>) s'"
  have "pcp_count (pageset (zones s' z) cpu) = ?n"
    using s'(2) by (simp add: bulk_freed_def)
  then have eq: "?t = add_pcp_count z cpu (- ?n) s'"
    by (simp add: add_pcp_count_def upd_pcp_def upd_zone_def)
  have pp: "pcp_pages ?t z cpu' = pcp_pages s' z cpu'" for cpu'
    by (simp add: eq pcp_pages_def)
  have "present_pages (zones ?t z) = present_pages (zones s' z)"
    by (simp add: upd_pcp_def upd_zone_def)
  then have "cpu_drained c cpu s ?t z"
    using s'(2-4) cnt unfolding cpu_drained_def pp by (simp add: eq bulk_freed_def)
  then show ?thesis
    using s'(1) untouched_bulk_set [OF s'(2)] by simp
qed

lemma cpu_drained_untouched:
  assumes "cpu_drained c cpu s s' z" and "untouched z s' s''"
  shows "cpu_drained c cpu s s'' z"
proof -
  have ok: "zone_ok c s' z"
    using assms(1) by (simp add: cpu_drained_def zone_inv_def)
  note u = untouched_zone [OF assms(2) ok]
  show ?thesis
    using assms u untouched_inv [OF assms(2)] by (simp add: cpu_drained_def untouched_def)
qed

lemma untouched_cpu_drained:
  assumes "untouched z s s'" and "cpu_drained c cpu s' s'' z" and "zone_inv c s z"
  shows "cpu_drained c cpu s s'' z"
proof -
  have ok: "zone_ok c s z"
    using assms(3) by (simp add: zone_inv_def)
  note u = untouched_zone [OF assms(1) ok]
  show ?thesis
    using assms u by (simp add: cpu_drained_def untouched_def)
qed

lemma drain_pages_ok:
  assumes "distinct zs" and "\<forall>z \<in> set zs. zone_inv c s z"
  shows "\<exists>s'. drain_pages c zs cpu s = Some s' \<and> (\<forall>z \<in> set zs. cpu_drained c cpu s s' z)
    \<and> (\<forall>z. z \<notin> set zs \<longrightarrow> untouched z s s')"
  using assms
proof (induction zs arbitrary: s)
  case (Cons z zs)
  show ?case
  proof (cases "present_pages (zones s z) = 0")
    case True
    obtain s' where s': "drain_pages c zs cpu s = Some s'" "\<forall>z \<in> set zs. cpu_drained c cpu s s' z"
        "\<forall>z. z \<notin> set zs \<longrightarrow> untouched z s s'"
      using Cons.IH [of s] Cons.prems by auto
    have "cpu_drained c cpu s s z"
      using True Cons.prems(2) by (simp add: cpu_drained_def)
    then have "cpu_drained c cpu s s' z"
      by (rule cpu_drained_untouched) (use s'(3) Cons.prems(1) in simp)
    then show ?thesis
      using s' True by simp
  next
    case False
    obtain s1 where s1: "free_pcppages_bulk c z (pcp_count (pageset (zones s z) cpu)) cpu s = Some s1"
        "cpu_drained c cpu s (upd_pcp z cpu (\<lambda>r. r\<lparr>pcp_count := 0\<rparr>) s1) z"
        "\<forall>z'. z' \<noteq> z \<longrightarrow> untouched z' s (upd_pcp z cpu (\<lambda>r. r\<lparr>pcp_count := 0\<rparr>) s1)"
      using drain_one_zone [of c s z cpu] Cons.prems(2) by auto
    let ?t = "upd_pcp z cpu (\<lambda>r. r\<lparr>pcp_count := 0\<rparr>) s1"
    have ne: "z' \<noteq> z" if "z' \<in> set zs" for z'
      using that Cons.prems(1) by auto
    have "\<forall>z \<in> set zs. zone_inv c ?t z"
      using Cons.prems(2) s1(3) untouched_inv ne by (metis list.set_intros(2))
    then obtain s' where s': "drain_pages c zs cpu ?t = Some s'" "\<forall>z \<in> set zs. cpu_drained c cpu ?t s' z"
        "\<forall>z. z \<notin> set zs \<longrightarrow> untouched z ?t s'"
      using Cons.IH [of ?t] Cons.prems(1) by auto
    have "cpu_drained c cpu s s' z"
      using s1(2) s'(3) Cons.prems(1) cpu_drained_untouched by auto
    moreover have "cpu_drained c cpu s s' z'" if "z' \<in> set zs" for z'
      using untouched_cpu_drained [of z' s ?t c cpu s'] that s'(2) s1(3) ne [OF that] Cons.prems(2) by simp
    moreover have "untouched z' s s'" if "z' \<notin> set (z # zs)" for z'
      using that s1(3) s'(3) untouched_trans [of z' s ?t s'] by simp
    ultimately show ?thesis
      using s'(1) s1(1) False by simp
  qed
qed simp

text \<open>
  After \<open>drain_all_pages\<close> no page of a populated zone is parked on a cpu it visited, and no
  page was lost.
\<close>

lemma drain_all_pages_ok:
  assumes "distinct zs" and "\<forall>z \<in> set zs. zone_inv c s z"
  shows "\<exists>s'. drain_all_pages c zs cpus s = Some s' \<and> (\<forall>z \<in> set zs. zone_inv c s' z
      \<and> avail s' z = avail s z \<and> present_pages (zones s' z) = present_pages (zones s z)
      \<and> (\<forall>cpu. present_pages (zones s z) \<noteq> 0 \<longrightarrow>
            pcp_pages s' z cpu = (if cpu \<in> set cpus then [] else pcp_pages s z cpu)))"
  using assms(2)
proof (induction cpus arbitrary: s)
  case (Cons cpu cpus)
  obtain s1 where s1: "drain_pages c zs cpu s = Some s1" "\<forall>z \<in> set zs. cpu_drained c cpu s s1 z"
    using drain_pages_ok [OF assms(1) Cons.prems] by blast
  then have "\<forall>z \<in> set zs. zone_inv c s1 z"
    by (simp add: cpu_drained_def)
  then obtain s' where s': "drain_all_pages c zs cpus s1 = Some s'"
      "\<forall>z \<in> set zs. zone_inv c s' z \<and> avail s' z = avail s1 z
        \<and> present_pages (zones s' z) = present_pages (zones s1 z)
        \<and> (\<forall>cpu. present_pages (zones s1 z) \<noteq> 0 \<longrightarrow>
              pcp_pages s' z cpu = (if cpu \<in> set cpus then [] else pcp_pages s1 z cpu))"
    using Cons.IH [of s1] by blast
  then show ?case
    using s1 by (simp add: drain_local_pages_def cpu_drained_def)
qed simp

section \<open>Freeing a page\<close>

lemma avail_disjoint:
  assumes "zone_ok c s z" and "q \<in> set (pcp_pages s z cpu)"
  shows "q \<in> avail s z" "q \<notin> free_pfns s z"
  using assms by (auto simp: avail_def zone_ok_def pcp_wf_def)

lemma park_pages:
  assumes inv: "zone_inv c s z" and d: "distinct ps" and p: "set ps \<inter> avail s z = {}" "\<forall>p \<in> set ps. parked c s z p"
    and t: "t < MIGRATE_PCPTYPES" and l: "mset l = mset ps + mset (pcp_list s z cpu t)"
  defines "s' \<equiv> add_pcp_count z cpu (int (length ps)) (set_pcp_list z cpu t l s)"
  shows "zone_inv c s' z" and "avail s' z = set ps \<union> avail s z"
proof -
  have s': "s' = upd_pcp z cpu (\<lambda>r. r\<lparr>pcp_lists := (pcp_lists r)(t := l), pcp_count := pcp_count r + int (length ps)\<rparr>) s"
    by (simp add: s'_def add_pcp_count_def set_pcp_list_def upd_pcp_def upd_zone_def)
  have ok: "zone_ok c s z" and pw: "pcp_wf c s z"
    using inv by (simp_all add: zone_inv_def zone_ok_def)
  have pl: "pcp_list s' z cpu' u = (if cpu' = cpu \<and> u = t then l else pcp_list s z cpu' u)" for cpu' u
    by (simp add: s'_def)
  have ms: "mset (pcp_pages s' z cpu') = mset (if cpu' = cpu then ps @ pcp_pages s z cpu' else pcp_pages s z cpu')" for cpu'
    using t l by (auto simp: pcp_pages_def pl numeral_3_eq_3 numeral_2_eq_2 less_Suc_eq)
  have st: "set (pcp_pages s' z cpu') = (if cpu' = cpu then set ps \<union> set (pcp_pages s z cpu') else set (pcp_pages s z cpu'))" for cpu'
    using arg_cong [OF ms [of cpu'], of set_mset] by simp
  have len: "length (pcp_pages s' z cpu') = length (pcp_pages s z cpu') + (if cpu' = cpu then length ps else 0)" for cpu'
    using arg_cong [OF ms [of cpu'], of size] by simp
  have nin: "set ps \<inter> set (pcp_pages s z cpu') = {}" for cpu'
    using p(1) by (auto simp: avail_def)
  have fp: "free_pfns s' z = free_pfns s z"
    by (simp add: s' proj_simps)
  show "avail s' z = set ps \<union> avail s z"
    by (auto simp: avail_def fp st split: if_splits)
  have "distinct (pcp_pages s' z cpu')" for cpu'
    using mset_eq_imp_distinct_iff [OF ms [of cpu']] pw nin d by (simp add: pcp_wf_def)
  moreover have "set (pcp_pages s' z a) \<inter> set (pcp_pages s' z b) = {}" if "a \<noteq> b" for a b
  proof -
    have "set (pcp_pages s z a) \<inter> set (pcp_pages s z b) = {}"
      using pw that unfolding pcp_wf_def by blast
    then show ?thesis
      using that nin [of a] nin [of b] unfolding st by auto
  qed
  moreover have "parked c s' z q \<and> q \<notin> free_pfns s' z" if "q \<in> set (pcp_pages s' z cpu')" for cpu' q
  proof -
    have "parked c s z q \<and> q \<notin> free_pfns s z"
      using that pw p by (auto simp: st pcp_wf_def avail_def split: if_splits)
    then show ?thesis
      by (simp add: s' proj_simps)
  qed
  ultimately have "pcp_wf c s' z"
    unfolding pcp_wf_def by blast
  then have "zone_ok c s' z"
    using ok by (simp add: zone_ok_def s' proj_simps)
  moreover have "pcp_counted s' z"
    using inv by (auto simp: zone_inv_def pcp_counted_def len) (simp_all add: s' upd_pcp_def upd_zone_def)
  moreover have "nr_free_counted s' z"
    using inv by (simp add: zone_inv_def nr_free_counted_def fp) (simp add: s' upd_pcp_def upd_zone_def)
  ultimately show "zone_inv c s' z"
    by (simp add: zone_inv_def)
qed

lemma park_page:
  assumes "zone_inv c s z" and "p \<notin> avail s z" "parked c s z p" and "t < MIGRATE_PCPTYPES"
    and "mset l = add_mset p (mset (pcp_list s z cpu t))"
  defines "s' \<equiv> add_pcp_count z cpu 1 (set_pcp_list z cpu t l s)"
  shows "zone_inv c s' z" and "avail s' z = insert p (avail s z)"
    and "pcp_batch (pageset (zones s' z) cpu) = pcp_batch (pageset (zones s z) cpu)"
    and "pcp_high (pageset (zones s' z) cpu) = pcp_high (pageset (zones s z) cpu)"
  using park_pages [of c s z "[p]" t l cpu] assms
  by (simp_all add: add_pcp_count_def set_pcp_list_def upd_pcp_def upd_zone_def)

text \<open>Taking a page off a cpu's list.\<close>

lemma unpark_page:
  assumes inv: "zone_inv c s z" and t: "t < MIGRATE_PCPTYPES"
    and l: "mset (pcp_list s z cpu t) = add_mset p (mset l)"
  defines "s' \<equiv> add_pcp_count z cpu (-1) (set_pcp_list z cpu t l s)"
  shows "zone_inv c s' z" and "avail s' z = avail s z - {p}" and "p \<in> avail s z"
    and "usable_block c z s' p 0"
proof -
  have s': "s' = upd_pcp z cpu (\<lambda>r. r\<lparr>pcp_lists := (pcp_lists r)(t := l), pcp_count := pcp_count r - 1\<rparr>) s"
    by (simp add: s'_def add_pcp_count_def set_pcp_list_def upd_pcp_def upd_zone_def)
  have ok: "zone_ok c s z" and pw: "pcp_wf c s z"
    using inv by (simp_all add: zone_inv_def zone_ok_def)
  have pl: "pcp_list s' z cpu' u = (if cpu' = cpu \<and> u = t then l else pcp_list s z cpu' u)" for cpu' u
    by (simp add: s'_def)
  have ms: "mset (pcp_pages s z cpu') = mset (if cpu' = cpu then p # pcp_pages s' z cpu' else pcp_pages s' z cpu')" for cpu'
    using t l by (auto simp: pcp_pages_def pl numeral_3_eq_3 numeral_2_eq_2 less_Suc_eq)
  have dist: "distinct (if cpu' = cpu then p # pcp_pages s' z cpu' else pcp_pages s' z cpu')" for cpu'
    using mset_eq_imp_distinct_iff [OF ms [of cpu']] pw by (simp add: pcp_wf_def)
  have st: "set (pcp_pages s z cpu') = (if cpu' = cpu then insert p (set (pcp_pages s' z cpu')) else set (pcp_pages s' z cpu'))" for cpu'
    using arg_cong [OF ms [of cpu'], of set_mset] by simp
  have len: "length (pcp_pages s z cpu') = length (pcp_pages s' z cpu') + (if cpu' = cpu then 1 else 0)" for cpu'
    using arg_cong [OF ms [of cpu'], of size] by simp
  have fp: "free_pfns s' z = free_pfns s z"
    by (simp add: s' proj_simps)
  have p: "p \<in> set (pcp_pages s z cpu)"
    by (simp add: st)
  show "p \<in> avail s z"
    using p by (auto simp: avail_def)
  have pk: "parked c s z p" "p \<notin> free_pfns s z"
    using pw p by (auto simp: pcp_wf_def)
  show "usable_block c z s' p 0"
    using pk by (simp add: s' proj_simps parked_def)
  have pin: "p \<notin> set (pcp_pages s' z cpu')" for cpu'
  proof (cases "cpu' = cpu")
    case True
    then show ?thesis
      using dist [of cpu] by simp
  next
    case False
    then have "set (pcp_pages s z cpu') \<inter> set (pcp_pages s z cpu) = {}"
      using pw unfolding pcp_wf_def by blast
    then show ?thesis
      using p False st [of cpu'] by (simp add: disjoint_iff) metis
  qed
  have "(\<Union>a. set (pcp_pages s' z a)) = (\<Union>a. set (pcp_pages s z a)) - {p}"
  proof -
    have "set (pcp_pages s' z a) = set (pcp_pages s z a) - {p}" for a
      using pin by (simp add: st)
    then show ?thesis
      by blast
  qed
  then show "avail s' z = avail s z - {p}"
    using pk(2) by (auto simp: avail_def fp)
  have "pcp_wf c s' z"
  proof (rule pcp_wf_shrink [OF pw])
    show "distinct (pcp_pages s' z a)" for a
      using dist [of a] by (simp split: if_splits)
    show sub: "set (pcp_pages s' z a) \<subseteq> set (pcp_pages s z a)" for a
      by (auto simp: st)
    show "usable_block c z s' q 0 = usable_block c z s q 0" if "q \<in> set (pcp_pages s' z a)" for a q
      by (simp add: s' proj_simps)
    show "page_order s' q = page_order s q \<and> q \<notin> free_pfns s' z" if "q \<in> set (pcp_pages s' z a)" for a q
    proof -
      have "q \<notin> free_pfns s z"
        using that sub [of a] pw unfolding pcp_wf_def by blast
      then show ?thesis
        by (simp add: s' proj_simps)
    qed
  qed
  then have "zone_ok c s' z"
    using ok by (simp add: zone_ok_def s' proj_simps)
  moreover have "pcp_counted s' z"
  proof -
    have "pcp_count (pageset (zones s' z) a) = pcp_count (pageset (zones s z) a) - (if a = cpu then 1 else 0)" for a
      by (simp add: s' upd_pcp_def upd_zone_def)
    moreover have "pcp_count (pageset (zones s z) a) = int (length (pcp_pages s z a))" for a
      using inv by (simp add: zone_inv_def pcp_counted_def)
    ultimately show ?thesis
      unfolding pcp_counted_def using len by simp
  qed
  moreover have "nr_free_counted s' z"
    using inv by (simp add: zone_inv_def nr_free_counted_def fp) (simp add: s' upd_pcp_def upd_zone_def)
  ultimately show "zone_inv c s' z"
    by (simp add: zone_inv_def)
qed

lemma pcp_park_ok:
  assumes inv: "zone_inv c s z" and p: "p \<notin> avail s z" "parked c s z p" and t: "t < MIGRATE_PCPTYPES"
    and b: "0 \<le> pcp_batch (pageset (zones s z) cpu)"
      "pcp_batch (pageset (zones s z) cpu) \<le> max 1 (pcp_high (pageset (zones s z) cpu))"
  shows "\<exists>s'. pcp_park c z cpu p cold t s = Some s' \<and> zone_inv c s' z \<and> avail s' z = insert p (avail s z)"
proof -
  let ?l = "if cold then pcp_list s z cpu t @ [p] else p # pcp_list s z cpu t"
  have l: "mset ?l = add_mset p (mset (pcp_list s z cpu t))"
    by simp
  let ?s = "add_pcp_count z cpu 1 (set_pcp_list z cpu t ?l s)"
  note k = park_page [OF inv p t l]
  let ?r = "pageset (zones ?s z) cpu"
  have same: "pcp_high ?r = pcp_high (pageset (zones s z) cpu)" "pcp_batch ?r = pcp_batch (pageset (zones s z) cpu)"
    by (simp_all add: k(3,4))
  show ?thesis
  proof (cases "pcp_count ?r \<ge> pcp_high ?r")
    case True
    have "0 \<le> pcp_count (pageset (zones s z) cpu)"
      using inv by (simp add: zone_inv_def pcp_counted_def)
    then have "1 \<le> pcp_count ?r"
      by (simp add: add_pcp_count_def set_pcp_list_def upd_pcp_def upd_zone_def)
    then have "0 \<le> pcp_batch ?r" "pcp_batch ?r \<le> pcp_count ?r"
      using b same True by simp_all
    from bulk_free_and_count [OF k(1) this] obtain s' where
        "free_pcppages_bulk c z (pcp_batch ?r) cpu ?s = Some s'"
        "zone_inv c (add_pcp_count z cpu (- pcp_batch ?r) s') z"
        "avail (add_pcp_count z cpu (- pcp_batch ?r) s') z = avail ?s z"
      by blast
    then show ?thesis
      using True k(2) by (simp add: pcp_park_def Let_def)
  next
    case False
    then show ?thesis
      using k(1,2) by (simp add: pcp_park_def Let_def)
  qed
qed

lemma same_zone_hand:
  assumes "\<And>q. q \<notin> H \<Longrightarrow> mem_map s' q = mem_map s q" and "H \<inter> avail s z = {}"
    and "\<And>q. q \<in> H \<Longrightarrow> \<not> PageBuddy s q \<and> \<not> PageBuddy s' q \<and> page_zone s' q = page_zone s q"
    and "area (zones s' z) = area (zones s z)" and "pageset (zones s' z) = pageset (zones s z)"
    and "zone_start_pfn (zones s' z) = zone_start_pfn (zones s z)"
    and "spanned_pages (zones s' z) = spanned_pages (zones s z)"
  shows "same_zone_state z s s'"
proof -
  have "page_zone s' q = page_zone s q \<and> PageBuddy s' q = PageBuddy s q" for q
    using assms(1,3) by (cases "q \<in> H") (simp_all add: page_zone_def PageBuddy_def)
  moreover have "page_order s' q = page_order s q \<and> PageCompound s' q = PageCompound s q" if "q \<in> avail s z" for q
  proof -
    have "q \<notin> H"
      using assms(2) that by blast
    then show ?thesis
      using assms(1) [of q] by (simp add: page_order_def PageCompound_def PageHead_def PageTail_def)
  qed
  ultimately show ?thesis
    using assms(4-) by (auto simp: same_zone_state_def fl_def nf_def pcp_list_def fun_eq_iff)
qed

definition freeable :: "mmcfg \<Rightarrow> mm \<Rightarrow> nat \<Rightarrow> bool" where
  "freeable c s p \<longleftrightarrow> mapcount (mem_map s p) = 0 \<and> (mapping (mem_map s p) = 0 \<or> PageAnon s p)
     \<and> pg_count (mem_map s p) = 0 \<and> flags (mem_map s p) \<inter> PAGE_FLAGS_CHECK_AT_FREE c \<subseteq> {PG_mlocked}
     \<and> usable_block c (page_zone s p) s p 0"

text \<open>The page as \<open>free_hot_cold_page\<close> leaves it before it is parked.\<close>

definition cleaned_page :: "mmcfg \<Rightarrow> nat \<Rightarrow> page \<Rightarrow> page" where
  "cleaned_page c t g = g\<lparr>flags := flags g - {PG_mlocked} - PAGE_FLAGS_CHECK_AT_PREP c,
     mapping := 0, pg_private := t\<rparr>"

lemma free_hot_cold_page_eq:
  assumes f: "freeable c s p"
  shows "\<exists>s6. mem_map s6 = (mem_map s)(p := cleaned_page c (get_pageblock_migratetype c s p) (mem_map s p))
    \<and> (\<forall>z. zones s6 z = (zones s z)\<lparr>nr_mlock := nr_mlock (zones s6 z)\<rparr>)
    \<and> free_hot_cold_page c cpu p cold s =
        (if get_pageblock_migratetype c s p = MIGRATE_ISOLATE
         then Some (free_one_page c (page_zone s p) p 0 MIGRATE_ISOLATE s6)
         else pcp_park c (page_zone s p) cpu p cold
           (if get_pageblock_migratetype c s p \<ge> MIGRATE_PCPTYPES then MIGRATE_MOVABLE
            else get_pageblock_migratetype c s p) s6)"
proof -
  let ?t = "get_pageblock_migratetype c s p"
  obtain w s1 where 1: "test_clear_mlocked p s = (w, s1)" "s1 = clear_flag PG_mlocked p s"
    by (simp add: test_clear_mlocked_def)
  define s2 where "s2 = (if PageAnon s1 p then upd_page p (\<lambda>g. g\<lparr>mapping := 0\<rparr>) s1 else s1)"
  have m2: "mem_map s2 = (mem_map s)(p := (mem_map s p)\<lparr>flags := flags (mem_map s p) - {PG_mlocked}, mapping := 0\<rparr>)"
    "zones s2 = zones s" "page_group_by_mobility_disabled s2 = page_group_by_mobility_disabled s"
    using f by (auto simp: s2_def 1(2) freeable_def clear_flag_def upd_page_def PageAnon_def fun_eq_iff)
  define s3 where "s3 = snd (free_pages_check c p s2)"
  have 3: "free_pages_check c p s2 = (0, s3)"
    using f by (auto simp: s3_def free_pages_check_def Let_def m2 freeable_def)
  have m3: "mem_map s3 = (mem_map s)(p := (mem_map s p)\<lparr>flags := flags (mem_map s p) - {PG_mlocked}
        - PAGE_FLAGS_CHECK_AT_PREP c, mapping := 0\<rparr>)"
    "zones s3 = zones s" "page_group_by_mobility_disabled s3 = page_group_by_mobility_disabled s"
    using f unfolding s3_def
    by (auto simp: free_pages_check_def Let_def m2 freeable_def upd_page_def Diff_triv fun_eq_iff)
  have t: "get_pageblock_migratetype c s3 p = ?t"
    by (simp add: get_pageblock_migratetype_def get_pageblock_flags_group_def Let_def m3
        get_pageblock_bitmap_def pfn_to_bitidx_def page_zone_def)
  define s6 where "s6 = (let s4 = upd_page p (\<lambda>g. g\<lparr>pg_private := ?t\<rparr>) s3;
      s5 = (if w then free_page_mlock p s4 else s4) in s5\<lparr>ev_pgfree := ev_pgfree s5 + 1\<rparr>)"
  have "mem_map s6 = (mem_map s)(p := cleaned_page c ?t (mem_map s p))"
    by (auto simp: s6_def Let_def upd_page_def free_page_mlock_def upd_zone_def m3 cleaned_page_def)
  moreover have "zones s6 z = (zones s z)\<lparr>nr_mlock := nr_mlock (zones s6 z)\<rparr>" for z
    by (simp add: s6_def Let_def upd_page_def free_page_mlock_def upd_zone_def m3)
  moreover have "free_hot_cold_page c cpu p cold s =
        (if ?t = MIGRATE_ISOLATE then Some (free_one_page c (page_zone s p) p 0 MIGRATE_ISOLATE s6)
         else pcp_park c (page_zone s p) cpu p cold
           (if ?t \<ge> MIGRATE_PCPTYPES then MIGRATE_MOVABLE else ?t) s6)"
    unfolding free_hot_cold_page_def 1 Let_def case_prod_conv s2_def [symmetric, unfolded 1(2)] 3 t s6_def
    by simp
  ultimately show ?thesis
    by blast
qed

lemma free_one_page_ok:
  assumes inv: "zone_inv c s z" and p: "blk p ord \<inter> avail s z = {}" and u: "usable_block c z s p ord"
    and t: "t < MIGRATE_TYPES"
  shows "zone_inv c (free_one_page c z p ord t s) z"
    and "free_pfns (free_one_page c z p ord t s) z = blk p ord \<union> free_pfns s z"
    and "pcp_pages (free_one_page c z p ord t s) z cpu = pcp_pages s z cpu"
proof -
  let ?s = "mod_nr_free_pages z (2 ^ ord) (upd_zone z (\<lambda>g. g\<lparr>all_unreclaimable := False, pages_scanned := 0\<rparr>) s)"
  let ?t = "free_one_page c z p ord t s"
  have eq: "?t = uu_free_one_page c p z ord t ?s"
    by (simp add: free_one_page_def Let_def)
  have e: "same_zone_state z s ?s"
    by (auto simp: same_zone_state_def proj_defs fun_eq_iff pcp_list_def PageCompound_def PageHead_def PageTail_def)
  note r = same_zone_reads [OF e]
  have ok: "zone_ok c ?s z"
    using e inv by (auto simp: zone_inv_def intro: same_zone_ok)
  have us: "usable_block c z ?s p ord"
    using u by (simp add: usable_block_def block_ok_def PageCompound_def PageHead_def PageTail_def proj_defs)
  have dj: "blk p ord \<inter> free_pfns ?s z = {}"
    using p by (auto simp: r(2) avail_def)
  note g = given_pool [OF zone_ok_pool [OF ok] t us dj, folded eq]
  show fp: "free_pfns ?t z = blk p ord \<union> free_pfns s z"
    using g(2) by (simp add: r(2))
  have pl: "pcp_list ?t = pcp_list ?s"
    by (rule pcp_list_rest [OF buddy_frame_rest [OF g(3)]])
  show pp: "pcp_pages ?t z cpu = pcp_pages s z cpu" for cpu
    using r(3) [of cpu] by (simp add: pcp_pages_def pl)
  have "pcp_wf c ?t z"
  proof (rule pcp_wf_shrink [of c ?s])
    show "pcp_wf c ?s z"
      using ok by (simp add: zone_ok_def)
    fix cpu q assume "q \<in> set (pcp_pages ?t z cpu)"
    then have q: "q \<in> set (pcp_pages s z cpu)"
      by (simp add: pp)
    then have "q \<notin> blk p ord \<union> free_pfns s z"
      using p inv avail_disjoint [of c s z q cpu] unfolding zone_inv_def by blast
    then show "page_order ?t q = page_order ?s q \<and> q \<notin> free_pfns ?t z"
      using g(4) by (simp add: fp orders_kept_def r(2))
    show "usable_block c z ?t q 0 = usable_block c z ?s q 0"
      by (rule usable_block_frame [OF g(3)])
  qed (use ok in \<open>simp_all add: pp r(3) zone_ok_def pcp_wf_def\<close>)
  then have "zone_ok c ?t z"
    using g(1) by (simp add: zone_ok_def pool_inv_def)
  moreover have "pcp_counted ?t z"
    using inv mm_rest_zone_field(4) [OF buddy_frame_rest [OF g(3)], of z]
    by (simp add: zone_inv_def pcp_counted_def pp) (simp add: proj_defs)
  moreover have "nr_free_counted ?t z"
  proof -
    have fin: "finite (free_pfns s z)"
      using inv finite_free_pfns by (auto simp: zone_inv_def zone_ok_def)
    have "blk p ord \<inter> free_pfns s z = {}"
      using dj r(2) by simp
    then have "int (card (free_pfns ?t z)) = 2 ^ ord + int (card (free_pfns s z))"
      unfolding fp using fin by (simp add: card_Un_disjoint del: blk_def)
    then show ?thesis
      using inv mm_rest_zone_field(1) [OF buddy_frame_rest [OF g(3)], of z]
      by (simp add: zone_inv_def nr_free_counted_def) (simp add: proj_defs)
  qed
  ultimately show "zone_inv c ?t z"
    by (simp add: zone_inv_def)
qed

lemma not_buddy_outside:
  assumes "zone_ok c s z" and "page_zone s p = z" and "p \<notin> avail s z"
  shows "\<not> PageBuddy s p"
proof
  assume "PageBuddy s p"
  then have "(p, page_order s p) \<in> free_blocks s z"
    using assms(1,2) wf_buddy_listed [of c s z p] by (simp add: zone_ok_def)
  then have "p \<in> free_pfns s z"
    using free_pfns_block by fastforce
  then show False
    using assms(3) by (simp add: avail_def)
qed

lemma free_hot_cold_page_ok:
  assumes inv: "zone_inv c s (page_zone s p)" and f: "freeable c s p" and p: "p \<notin> avail s (page_zone s p)"
    and t: "get_pageblock_migratetype c s p < MIGRATE_TYPES"
    and b: "0 \<le> pcp_batch (pageset (zones s (page_zone s p)) cpu)"
      "pcp_batch (pageset (zones s (page_zone s p)) cpu) \<le> max 1 (pcp_high (pageset (zones s (page_zone s p)) cpu))"
  shows "\<exists>s'. free_hot_cold_page c cpu p cold s = Some s' \<and> zone_inv c s' (page_zone s p)
    \<and> avail s' (page_zone s p) = insert p (avail s (page_zone s p))"
proof -
  let ?z = "page_zone s p" and ?t = "get_pageblock_migratetype c s p"
  obtain s6 where m: "mem_map s6 = (mem_map s)(p := cleaned_page c ?t (mem_map s p))"
    and zs: "\<forall>z. zones s6 z = (zones s z)\<lparr>nr_mlock := nr_mlock (zones s6 z)\<rparr>"
    and eq: "free_hot_cold_page c cpu p cold s =
        (if ?t = MIGRATE_ISOLATE then Some (free_one_page c ?z p 0 MIGRATE_ISOLATE s6)
         else pcp_park c ?z cpu p cold (if ?t \<ge> MIGRATE_PCPTYPES then MIGRATE_MOVABLE else ?t) s6)"
    using free_hot_cold_page_eq [OF f, of cpu cold] by blast
  have ok: "zone_ok c s ?z"
    using inv by (simp add: zone_inv_def)
  have nb: "\<not> PageBuddy s p"
    using ok p by (intro not_buddy_outside [of c s ?z]) auto
  obtain n where z6: "zones s6 ?z = (zones s ?z)\<lparr>nr_mlock := n\<rparr>"
    using zs by blast
  have zz: "area (zones s6 ?z) = area (zones s ?z)" "pageset (zones s6 ?z) = pageset (zones s ?z)"
      "zone_start_pfn (zones s6 ?z) = zone_start_pfn (zones s ?z)"
      "spanned_pages (zones s6 ?z) = spanned_pages (zones s ?z)"
      "nr_free_pages (zones s6 ?z) = nr_free_pages (zones s ?z)"
    by (simp_all add: z6)
  have e: "same_zone_state ?z s s6"
  proof (rule same_zone_hand [of "{p}"])
    show "\<not> PageBuddy s q \<and> \<not> PageBuddy s6 q \<and> page_zone s6 q = page_zone s q" if "q \<in> {p}" for q
      using that nb by (simp add: m PageBuddy_def page_zone_def cleaned_page_def)
  qed (use p in \<open>simp_all add: m zz(1-4)\<close>)
  have inv6: "zone_inv c s6 ?z"
    by (rule same_zone_inv [OF e inv zz(5)]) (simp add: zz(2))
  have av: "avail s6 ?z = avail s ?z"
    by (rule same_zone_reads(4) [OF e])
  have zone: "page_zone s6 q = page_zone s q" for q
    by (simp add: page_zone_def m cleaned_page_def)
  have us: "usable_block c ?z s6 p 0"
    using f by (simp add: freeable_def usable_block_def block_ok_def zone PageCompound_def
        PageHead_def PageTail_def m cleaned_page_def)
  have pk: "parked c s6 ?z p"
    using us t by (simp add: parked_def page_order_def m cleaned_page_def)
  show ?thesis
  proof (cases "?t = MIGRATE_ISOLATE")
    case True
    have "blk p 0 \<inter> avail s6 ?z = {}"
      using p av by simp
    note g = free_one_page_ok [OF inv6 this us, of MIGRATE_ISOLATE]
    have "avail (free_one_page c ?z p 0 MIGRATE_ISOLATE s6) ?z = insert p (avail s6 ?z)"
      using g(2,3) by (simp add: avail_def)
    then show ?thesis
      using True eq g(1) av by simp
  next
    case False
    have "(if ?t \<ge> MIGRATE_PCPTYPES then MIGRATE_MOVABLE else ?t) < MIGRATE_PCPTYPES"
      by simp
    from pcp_park_ok [OF inv6 _ pk this, of cpu cold] show ?thesis
      using False eq p b av by (simp add: zz)
  qed
qed

section \<open>Taking pages\<close>

lemma taken_zone_ok:
  assumes ok: "zone_ok c s z" and k: "taken_ok c z ord s p s'" and t: "t < MIGRATE_TYPES"
  shows "zone_ok c s' z" and "usable_block c z s' p ord" and "blk p ord \<inter> avail s' z = {}"
    and "avail s z = blk p ord \<union> avail s' z" and "pcp_pages s' z cpu = pcp_pages s z cpu"
proof -
  note tp = taken_pool [OF zone_ok_pool [OF ok] k]
  have fr: "buddy_frame z s s'" and fp: "free_pfns s z = blk p ord \<union> free_pfns s' z"
      and ok': "orders_kept (free_pfns s z) s s'" and dj: "blk p ord \<inter> free_pfns s' z = {}"
    using k unfolding taken_ok_def in_hand_def by blast+
  have pl: "pcp_list s' = pcp_list s"
    by (rule pcp_list_rest [OF buddy_frame_rest [OF fr]])
  show pp: "pcp_pages s' z cpu = pcp_pages s z cpu" for cpu
    by (simp add: pcp_pages_def pl)
  show "usable_block c z s' p ord"
    by (rule tp(2))
  have out: "q \<notin> free_pfns s z" if "q \<in> set (pcp_pages s z cpu)" for q cpu
    using ok that by (auto simp: zone_ok_def pcp_wf_def)
  have "pcp_wf c s' z"
  proof (rule pcp_wf_shrink [of c s])
    show "pcp_wf c s z"
      using ok by (simp add: zone_ok_def)
    fix cpu q assume "q \<in> set (pcp_pages s' z cpu)"
    then have "q \<notin> free_pfns s z"
      using out by (simp add: pp)
    then show "page_order s' q = page_order s q \<and> q \<notin> free_pfns s' z"
      using ok' fp by (simp add: orders_kept_def)
    show "usable_block c z s' q 0 = usable_block c z s q 0"
      by (rule usable_block_frame [OF fr])
  qed (use ok in \<open>simp_all add: pp zone_ok_def pcp_wf_def\<close>)
  then show "zone_ok c s' z"
    using tp(1) by (simp add: zone_ok_def pool_inv_def)
  show "avail s z = blk p ord \<union> avail s' z"
    unfolding avail_def pp fp by blast
  show "blk p ord \<inter> avail s' z = {}"
    using dj out fp unfolding avail_def pp by blast
qed

lemma usable_block_rest: "mm_rest s' = mm_rest s \<Longrightarrow> usable_block c z s' p ord = usable_block c z s p ord"
  using block_ok_cong [of s' s c z p ord] mm_rest_page_zone [of s' s] mm_rest_compound [of s' s]
  by (simp add: usable_block_def)

lemma upd_private:
  fixes t :: nat
  assumes ok: "zone_ok c s z" and p: "p \<notin> avail s z" and z: "page_zone s p = z"
  defines "s' \<equiv> upd_page p (\<lambda>g. g\<lparr>pg_private := t\<rparr>) s"
  shows "same_zone_state z s s'" and "mm_rest s' = mm_rest s" and "page_order s' p = t"
    and "orders_kept {p} s s'" and "PageBuddy s' = PageBuddy s"
proof -
  show "same_zone_state z s s'"
  proof (rule same_zone_hand [of "{p}"])
    show "\<not> PageBuddy s q \<and> \<not> PageBuddy s' q \<and> page_zone s' q = page_zone s q" if "q \<in> {p}" for q
      using that not_buddy_outside [OF ok z p] by (simp add: s'_def proj_defs)
  qed (use p in \<open>simp_all add: s'_def upd_page_def\<close>)
  show "mm_rest s' = mm_rest s" "PageBuddy s' = PageBuddy s"
    by (auto simp: s'_def mm_rest_def upd_page_def page_rest_def PageBuddy_def fun_eq_iff)
  show "page_order s' p = t" "orders_kept {p} s s'"
    by (simp_all add: s'_def proj_defs orders_kept_def)
qed

definition bulk_taken :: "mmcfg \<Rightarrow> nat \<Rightarrow> nat \<Rightarrow> mm \<Rightarrow> nat list \<Rightarrow> mm \<Rightarrow> bool" where
  "bulk_taken c z t s got s' \<longleftrightarrow> zone_ok c s' z \<and> distinct got \<and> free_pfns s z = set got \<union> free_pfns s' z
     \<and> set got \<inter> free_pfns s' z = {} \<and> (\<forall>p \<in> set got. page_order s' p = t \<and> usable_block c z s' p 0)
     \<and> mm_rest s' = mm_rest s \<and> orders_kept (free_pfns s z) s s' \<and> (\<forall>z'. z' \<noteq> z \<longrightarrow> untouched z' s s')"

lemma untouched_upd_page:
  "page_zone s p = z \<Longrightarrow> z' \<noteq> z \<Longrightarrow> zone_id (f (mem_map s p)) = z \<Longrightarrow> untouched z' s (upd_page p f s)"
  by (auto simp: untouched_def proj_defs fun_eq_iff PageCompound_def PageHead_def PageTail_def)

lemma untouched_mod_nr: "z' \<noteq> z \<Longrightarrow> untouched z' s (mod_nr_free_pages z d s)"
  by (auto simp: untouched_def proj_defs fun_eq_iff PageCompound_def PageHead_def PageTail_def)

lemma rmqueue_bulk_loop_ok:
  assumes "zone_ok c s z" and t: "t < MIGRATE_TYPES"
  shows "\<exists>more s'. rmqueue_bulk_loop c z 0 t n got s = Some (got @ more, s') \<and> bulk_taken c z t s more s'
    \<and> length more \<le> n
    \<and> (length more < n \<longrightarrow> (\<forall>r u. r < MAX_ORDER c \<longrightarrow> usable_type t u \<longrightarrow> fl s' z r u = []))"
  using assms(1)
proof (induction n arbitrary: got s)
  case 0
  then show ?case
    by (simp add: bulk_taken_def)
next
  case (Suc n)
  note ok = Suc.prems
  have wf: "lists_wf c s z" "coalesced c s z" "zone_span s z"
    using ok by (simp_all add: zone_ok_def)
  from rmqueue_cases [OF wf t, of 0] show ?case
  proof (elim disjE exE conjE)
    assume none: "uu_rmqueue c z 0 t s = Some (None, s)"
      "\<forall>r u. 0 \<le> r \<longrightarrow> r < MAX_ORDER c \<longrightarrow> usable_type t u \<longrightarrow> fl s z r u = []"
    then show ?thesis
      using ok by (intro exI [of _ "[]"] exI [of _ s]) (simp add: bulk_taken_def)
  next
    fix p s1 assume q: "uu_rmqueue c z 0 t s = Some (Some p, s1)" and k: "taken_ok c z 0 s p s1"
    note tz = taken_zone_ok [OF ok k t]
    let ?s2 = "upd_page p (\<lambda>g. g\<lparr>pg_private := t\<rparr>) s1"
    have p: "p \<notin> avail s1 z" "page_zone s1 p = z"
      using tz(2,3) by (auto simp: usable_block_def block_ok_def)
    note u = upd_private [OF tz(1) p, of t]
    have ok2: "zone_ok c ?s2 z"
      by (rule same_zone_ok [OF u(1) tz(1)])
    obtain more s' where m: "rmqueue_bulk_loop c z 0 t n (got @ [p]) ?s2 = Some ((got @ [p]) @ more, s')"
        "bulk_taken c z t ?s2 more s'" "length more \<le> n"
        "length more < n \<longrightarrow> (\<forall>r u. r < MAX_ORDER c \<longrightarrow> usable_type t u \<longrightarrow> fl s' z r u = [])"
      using Suc.IH [OF ok2, of "got @ [p]"] by blast
    have fp: "free_pfns ?s2 z = free_pfns s1 z" "free_pfns s z = insert p (free_pfns s1 z)"
      using same_zone_reads(2) [OF u(1)] k by (simp_all add: taken_ok_def)
    have pf: "p \<notin> free_pfns s1 z"
      using p(1) by (simp add: avail_def)
    have r2: "mm_rest s' = mm_rest ?s2" and o2: "orders_kept (free_pfns ?s2 z) ?s2 s'"
      using m(2) unfolding bulk_taken_def by blast+
    have "orders_kept (free_pfns s z) s s1" and r1: "mm_rest s1 = mm_rest s"
      using k buddy_frame_rest by (auto simp: taken_ok_def)
    then have os: "orders_kept (free_pfns s z) s s'"
      using u(4) o2 unfolding orders_kept_def fp by simp
    have "page_order s' p = t"
      using o2 u(3) pf by (simp add: orders_kept_def fp(1))
    moreover have "usable_block c z s' p 0"
      using tz(2) usable_block_rest [OF u(2), of c z p 0] usable_block_rest [OF r2, of c z p 0] by simp
    moreover have "untouched z' s s'" if z': "z' \<noteq> z" for z'
    proof -
      have "buddy_frame z s s1"
        using k by (simp add: taken_ok_def)
      then have "untouched z' s s1"
        using z' by (rule untouched_frame)
      moreover have "untouched z' s1 ?s2"
        using p(2) z' by (rule untouched_upd_page) (use p(2) in \<open>simp add: page_zone_def\<close>)
      moreover have "untouched z' ?s2 s'"
        using m(2) z' unfolding bulk_taken_def by blast
      ultimately show ?thesis
        using untouched_trans by blast
    qed
    ultimately have "bulk_taken c z t s (p # more) s'"
      using m(2) pf os r1 u(2) unfolding bulk_taken_def fp by auto
    then show ?thesis
      using q m by (intro exI [of _ "p # more"] exI [of _ s']) simp
  qed
qed

definition type_empty :: "mmcfg \<Rightarrow> mm \<Rightarrow> nat \<Rightarrow> nat \<Rightarrow> nat \<Rightarrow> bool" where
  "type_empty c s z ord t \<longleftrightarrow> (\<forall>r u. ord \<le> r \<longrightarrow> r < MAX_ORDER c \<longrightarrow> usable_type t u \<longrightarrow> fl s z r u = [])"

lemma bulk_taken_inv:
  assumes inv: "zone_inv c s z" and b: "bulk_taken c z t s got s1"
  defines "s2 \<equiv> mod_nr_free_pages z (- int (length got)) s1"
  shows "zone_inv c s2 z" and "set got \<inter> avail s2 z = {}" and "avail s z = set got \<union> avail s2 z"
    and "pcp_list s2 = pcp_list s" and "\<forall>p \<in> set got. page_order s2 p = t \<and> usable_block c z s2 p 0"
    and "fl s2 = fl s1"
proof -
  have m: "mm_rest s1 = mm_rest s" and ok1: "zone_ok c s1 z" and d: "distinct got"
      and fp: "free_pfns s z = set got \<union> free_pfns s1 z" and dj: "set got \<inter> free_pfns s1 z = {}"
    using b unfolding bulk_taken_def by blast+
  have e: "same_zone_state z s1 s2"
    by (auto simp: s2_def same_zone_state_def proj_defs fun_eq_iff pcp_list_def PageCompound_def PageHead_def PageTail_def)
  note r = same_zone_reads [OF e]
  show pl: "pcp_list s2 = pcp_list s"
    using pcp_list_rest [OF m] by (auto simp: s2_def pcp_list_def fun_eq_iff mod_nr_free_pages_def upd_zone_def)
  have pp: "pcp_pages s2 z cpu = pcp_pages s z cpu" for cpu
    by (simp add: pcp_pages_def pl)
  have out: "q \<notin> free_pfns s z" if "q \<in> set (pcp_pages s z cpu)" for q cpu
    using inv that by (auto simp: zone_inv_def zone_ok_def pcp_wf_def)
  show "set got \<inter> avail s2 z = {}"
    using dj out fp unfolding avail_def r(2) pp by blast
  show "avail s z = set got \<union> avail s2 z"
    unfolding avail_def r(2) pp fp by blast
  show "fl s2 = fl s1"
    by (simp add: s2_def proj_simps)
  show "\<forall>p \<in> set got. page_order s2 p = t \<and> usable_block c z s2 p 0"
    using b by (simp add: bulk_taken_def s2_def page_order_def usable_block_def block_ok_def page_zone_def
        PageCompound_def PageHead_def PageTail_def proj_simps)
  have "zone_ok c s2 z"
    using e ok1 by (rule same_zone_ok)
  moreover have "pcp_counted s2 z"
    using inv mm_rest_zone_field(4) [OF m, of z]
    by (simp add: zone_inv_def pcp_counted_def pp) (simp add: s2_def mod_nr_free_pages_def upd_zone_def)
  moreover have "nr_free_counted s2 z"
  proof -
    have "finite (free_pfns s1 z)"
      using ok1 finite_free_pfns by (auto simp: zone_ok_def)
    then have "card (free_pfns s z) = length got + card (free_pfns s1 z)"
      unfolding fp using dj d by (simp add: card_Un_disjoint distinct_card)
    then show ?thesis
      using inv mm_rest_zone_field(1) [OF m, of z]
      by (simp add: zone_inv_def nr_free_counted_def r(2)) (simp add: s2_def proj_simps)
  qed
  ultimately show "zone_inv c s2 z"
    by (simp add: zone_inv_def)
qed

lemma refill_ok:
  assumes inv: "zone_inv c s z" and t: "t < MIGRATE_PCPTYPES" and e: "pcp_list s z cpu t = []"
  shows "\<exists>l s1. rmqueue_bulk c z 0 n [] t cold s = Some (length l, l, s1)
    \<and> zone_inv c (add_pcp_count z cpu (int (length l)) (set_pcp_list z cpu t l s1)) z
    \<and> avail (add_pcp_count z cpu (int (length l)) (set_pcp_list z cpu t l s1)) z = avail s z
    \<and> (l = [] \<longrightarrow> 0 < n \<longrightarrow> type_empty c s1 z 0 t) \<and> (\<forall>z'. z' \<noteq> z \<longrightarrow> untouched z' s s1)"
proof -
  have "zone_ok c s z" "t < MIGRATE_TYPES"
    using inv t by (simp_all add: zone_inv_def)
  then obtain got s' where g: "rmqueue_bulk_loop c z 0 t n [] s = Some (got, s')" "bulk_taken c z t s got s'"
      "length got < n \<longrightarrow> (\<forall>r u. r < MAX_ORDER c \<longrightarrow> usable_type t u \<longrightarrow> fl s' z r u = [])"
    using rmqueue_bulk_loop_ok [of c s z t n "[]"] by auto
  let ?l = "if \<not> cold then got else rev got"
  let ?s = "mod_nr_free_pages z (- int (length got)) s'"
  note b = bulk_taken_inv [OF inv g(2)]
  have d: "distinct got"
    using g(2) by (simp add: bulk_taken_def)
  have pk: "\<forall>p \<in> set got. parked c ?s z p"
    using b(5) t by (simp add: parked_def)
  have ml: "mset ?l = mset got + mset (pcp_list ?s z cpu t)"
    using e by (simp add: b(4))
  note p = park_pages [OF b(1) d b(2) pk t ml]
  have "rmqueue_bulk c z 0 n [] t cold s = Some (length ?l, ?l, ?s)"
    using g(1) by (simp add: rmqueue_bulk_def)
  moreover have "?l = [] \<longrightarrow> 0 < n \<longrightarrow> type_empty c ?s z 0 t"
    using g(3) b(6) by (auto simp: type_empty_def split: if_splits)
  moreover have "untouched z' s ?s" if "z' \<noteq> z" for z'
    using untouched_trans [of z' s s'] untouched_mod_nr [OF that] g(2) that by (simp add: bulk_taken_def)
  moreover have "length ?l = length got"
    by simp
  ultimately show ?thesis
    using p b(3) by (intro exI [of _ ?l] exI [of _ ?s]) (simp only: simp_thms, blast)
qed

text \<open>What one round of \<open>buffered_rmqueue\<close> does before the page is prepared.\<close>

definition round_ok :: "mmcfg \<Rightarrow> nat \<Rightarrow> nat \<Rightarrow> mm \<Rightarrow> nat option \<Rightarrow> mm \<Rightarrow> bool" where
  "round_ok c z ord s r s' \<longleftrightarrow> zone_inv c s' z \<and> (\<forall>z'. z' \<noteq> z \<longrightarrow> untouched z' s s') \<and>
     (case r of
        None \<Rightarrow> avail s' z = avail s z
      | Some p \<Rightarrow> usable_block c z s' p ord \<and> avail s z = blk p ord \<union> avail s' z \<and> blk p ord \<inter> avail s' z = {})"

lemma rmqueue_pcp_ok:
  assumes inv: "zone_inv c s z" and t: "t < MIGRATE_PCPTYPES"
  shows "\<exists>r s'. rmqueue_pcp c cpu z cold t s = Some (r, s') \<and> round_ok c z 0 s r s'"
proof -
  let ?refill = "if pcp_list s z cpu t = [] then
      (case rmqueue_bulk c z 0 (nat (pcp_batch (pageset (zones s z) cpu) mod 2 ^ 32)) [] t cold s of
         None \<Rightarrow> None
       | Some (n, l, s1) \<Rightarrow> Some (add_pcp_count z cpu (int n) (set_pcp_list z cpu t l s1)))
    else Some s"
  have upd: "untouched z' s s' \<Longrightarrow> untouched z' s (add_pcp_count z cpu d (set_pcp_list z cpu t l s'))"
    if "z' \<noteq> z" for z' s s' d l
    unfolding add_pcp_count_def set_pcp_list_def
    using untouched_trans untouched_upd_pcp [OF that] by blast
  have "\<exists>s1. ?refill = Some s1 \<and> zone_inv c s1 z \<and> avail s1 z = avail s z \<and> (\<forall>z'. z' \<noteq> z \<longrightarrow> untouched z' s s1)"
  proof (cases "pcp_list s z cpu t = []")
    case True
    let ?n = "nat (pcp_batch (pageset (zones s z) cpu) mod 2 ^ 32)"
    obtain l s1 where r: "rmqueue_bulk c z 0 ?n [] t cold s = Some (length l, l, s1)"
        "zone_inv c (add_pcp_count z cpu (int (length l)) (set_pcp_list z cpu t l s1)) z"
        "avail (add_pcp_count z cpu (int (length l)) (set_pcp_list z cpu t l s1)) z = avail s z"
        "\<forall>z'. z' \<noteq> z \<longrightarrow> untouched z' s s1"
      using refill_ok [OF inv t True, of ?n cold] by blast
    show ?thesis
      by (intro exI [of _ "add_pcp_count z cpu (int (length l)) (set_pcp_list z cpu t l s1)"])
         (simp only: True r(1-3) upd r(4) if_True option.case prod.case, simp add: upd r(4))
  qed (use inv in simp)
  then obtain s1 where s1: "?refill = Some s1" "zone_inv c s1 z" "avail s1 z = avail s z"
      "\<forall>z'. z' \<noteq> z \<longrightarrow> untouched z' s s1"
    by blast
  let ?l = "pcp_list s1 z cpu t"
  show ?thesis
  proof (cases "?l = []")
    case True
    then show ?thesis
      unfolding rmqueue_pcp_def s1(1) using s1 by (simp add: round_ok_def)
  next
    case False
    let ?p = "if cold then last ?l else hd ?l" and ?l' = "if cold then butlast ?l else tl ?l"
    have m: "mset ?l = add_mset ?p (mset ?l')"
      using arg_cong [OF append_butlast_last_id [OF False], of mset] arg_cong [OF hd_Cons_tl [OF False], of mset]
      by (cases cold) simp_all
    note u = unpark_page [OF s1(2) t m]
    let ?s2 = "add_pcp_count z cpu (-1) (set_pcp_list z cpu t ?l' s1)"
    have "round_ok c z 0 s (Some ?p) ?s2"
      unfolding round_ok_def using u s1(3,4) upd by (simp add: insert_absorb)
    then show ?thesis
      unfolding rmqueue_pcp_def s1(1) Let_def option.case using False
      by (intro exI [of _ "Some ?p"] exI [of _ ?s2] conjI) (simp_all only: if_False refl)
  qed
qed

lemma rmqueue_direct_ok:
  assumes inv: "zone_inv c s z" and t: "t < MIGRATE_TYPES"
  shows "\<exists>r s'. rmqueue_direct c z ord t s = Some (r, s') \<and> round_ok c z ord s r s'
    \<and> (r = None \<longrightarrow> type_empty c s' z ord t)"
proof -
  have ok: "zone_ok c s z" "lists_wf c s z" "coalesced c s z" "zone_span s z"
    using inv by (simp_all add: zone_inv_def zone_ok_def)
  from rmqueue_cases [OF ok(2-4) t, of ord] show ?thesis
  proof (elim disjE exE conjE)
    assume "uu_rmqueue c z ord t s = Some (None, s)"
      "\<forall>r u. ord \<le> r \<longrightarrow> r < MAX_ORDER c \<longrightarrow> usable_type t u \<longrightarrow> fl s z r u = []"
    then show ?thesis
      using inv by (simp add: rmqueue_direct_def round_ok_def type_empty_def)
  next
    fix p s1 assume q: "uu_rmqueue c z ord t s = Some (Some p, s1)" and k: "taken_ok c z ord s p s1"
    note tz = taken_zone_ok [OF ok(1) k t]
    let ?s = "mod_nr_free_pages z (- (2 ^ ord)) s1"
    have e: "same_zone_state z s1 ?s"
      by (auto simp: same_zone_state_def proj_defs fun_eq_iff pcp_list_def PageCompound_def PageHead_def PageTail_def)
    note r = same_zone_reads [OF e]
    have m: "mm_rest s1 = mm_rest s"
      using k buddy_frame_rest by (auto simp: taken_ok_def)
    have fp: "free_pfns s z = blk p ord \<union> free_pfns s1 z" and dj: "blk p ord \<inter> free_pfns s1 z = {}"
      using k unfolding taken_ok_def in_hand_def by blast+
    have "zone_ok c ?s z"
      using e tz(1) by (rule same_zone_ok)
    moreover have "pcp_counted ?s z"
      using inv mm_rest_zone_field(4) [OF m, of z]
      by (simp add: zone_inv_def pcp_counted_def r(3) tz(5)) (simp add: mod_nr_free_pages_def upd_zone_def)
    moreover have "nr_free_counted ?s z"
    proof -
      have "finite (free_pfns s1 z)"
        using tz(1) finite_free_pfns by (auto simp: zone_ok_def)
      then have "card (free_pfns s z) = 2 ^ ord + card (free_pfns s1 z)"
        unfolding fp using card_Un_disjoint [OF finite_blk _ dj] by simp
      then show ?thesis
        using inv mm_rest_zone_field(1) [OF m, of z]
        by (simp add: zone_inv_def nr_free_counted_def r(2)) (simp add: proj_simps)
    qed
    moreover have "usable_block c z ?s p ord"
      using tz(2) by (simp add: usable_block_def block_ok_def page_zone_def PageCompound_def
          PageHead_def PageTail_def proj_simps)
    moreover have "untouched z' s ?s" if "z' \<noteq> z" for z'
    proof -
      have "buddy_frame z s s1"
        using k by (simp add: taken_ok_def)
      then show ?thesis
        using that untouched_frame untouched_mod_nr untouched_trans by blast
    qed
    ultimately show ?thesis
      using q tz(3,4) by (simp add: rmqueue_direct_def round_ok_def zone_inv_def r(4))
  qed
qed

end
