(* ===== verification/Alloc_Ops.thy ===== *)
theory Alloc_Ops
  imports Pcp_Ops
begin

text \<open>
  Preparing a page for its user (\<open>prep_new_page\<close>, \<open>prep_compound_page\<close>) only touches the block
  that was taken, and \<open>buffered_rmqueue\<close> always returns: each round that finds a bad page takes
  it out of the zone for good, so the retry loop cannot run longer than the zone has pages.
\<close>

section \<open>Steps inside the caller's block\<close>

definition hand_only :: "nat set \<Rightarrow> mm \<Rightarrow> mm \<Rightarrow> bool" where
  "hand_only H s s' \<longleftrightarrow> zones s' = zones s \<and> (\<forall>q. q \<notin> H \<longrightarrow> mem_map s' q = mem_map s q)
     \<and> (\<forall>q. zone_id (mem_map s' q) = zone_id (mem_map s q))
     \<and> (\<forall>q. PG_buddy \<in> flags (mem_map s' q) \<longrightarrow> PG_buddy \<in> flags (mem_map s q))"

lemma hand_only_refl [simp]: "hand_only H s s"
  by (simp add: hand_only_def)

lemma hand_only_trans: "hand_only H s s' \<Longrightarrow> hand_only H s' s'' \<Longrightarrow> hand_only H s s''"
  by (simp add: hand_only_def)

lemma hand_only_upd_page:
  "p \<in> H \<Longrightarrow> zone_id (f (mem_map s p)) = zone_id (mem_map s p) \<Longrightarrow>
     (PG_buddy \<in> flags (f (mem_map s p)) \<Longrightarrow> PG_buddy \<in> flags (mem_map s p)) \<Longrightarrow>
     hand_only H s (upd_page p f s)"
  by (auto simp: hand_only_def upd_page_def)

lemma hand_only_foldl:
  assumes "\<And>s i. i \<in> set is \<Longrightarrow> hand_only H s (f s i)"
  shows "hand_only H s (foldl f s is)"
  using assms
proof (induction "is" arbitrary: s)
  case (Cons i "is")
  then show ?case
    using hand_only_trans [of H s "f s i"] by simp
qed simp

lemma hand_only_bad_page: "p \<in> H \<Longrightarrow> hand_only H s (bad_page c p s)"
  by (auto simp: bad_page_def hand_only_def clear_flag_def upd_page_def)

lemma hand_only_zone:
  assumes h: "hand_only H s s'" and inv: "zone_inv c s z" and H: "H \<inter> avail s z = {}" "\<forall>q \<in> H. page_zone s q = z"
  shows "zone_inv c s' z" and "avail s' z = avail s z" and "z' \<noteq> z \<Longrightarrow> untouched z' s s'"
proof -
  have ok: "zone_ok c s z"
    using inv by (simp add: zone_inv_def)
  show "untouched z' s s'" if "z' \<noteq> z"
  proof -
    have "mem_map s' q = mem_map s q" if "page_zone s q = z'" for q
      using h H(2) that \<open>z' \<noteq> z\<close> by (auto simp: hand_only_def)
    then show ?thesis
      using h by (auto simp: untouched_def hand_only_def fl_def nf_def page_zone_def PageBuddy_def page_order_def
          PageCompound_def PageHead_def PageTail_def fun_eq_iff)
  qed
  have e: "same_zone_state z s s'"
  proof (rule same_zone_hand [of H])
    fix q assume "q \<in> H"
    then have "\<not> PageBuddy s q"
      using not_buddy_outside [OF ok, of q] H by blast
    then show "\<not> PageBuddy s q \<and> \<not> PageBuddy s' q \<and> page_zone s' q = page_zone s q"
      using h by (auto simp: hand_only_def PageBuddy_def page_zone_def)
  qed (use h H(1) in \<open>simp_all add: hand_only_def\<close>)
  show "zone_inv c s' z"
    by (rule same_zone_inv [OF e inv]) (use h in \<open>simp_all add: hand_only_def\<close>)
  show "avail s' z = avail s z"
    by (rule same_zone_reads(4) [OF e])
qed

section \<open>prep\_new\_page\<close>

lemma check_new_pages_hand:
  "(\<forall>i \<in> set is. p + i \<in> H) \<Longrightarrow> hand_only H s (snd (check_new_pages c p is s))"
proof (induction "is" arbitrary: s)
  case (Cons i "is")
  have 1: "hand_only H s (snd (check_new_page c (p + i) s))"
    using Cons.prems hand_only_bad_page [of "p + i" H s c] by (simp add: check_new_page_def Let_def)
  show ?case
    using Cons 1 hand_only_trans [OF 1] by (auto simp: Let_def split: prod.splits)
qed simp

lemma prep_compound_hand:
  assumes "ord \<noteq> 0"
  shows "hand_only (blk p ord) s (prep_compound_page p ord s)"
proof -
  have "(1::nat) < 2 ^ ord"
    using assms by (metis one_less_numeral_iff one_less_power bot_nat_0.not_eq_extremum semiring_norm(76))
  then have in1: "p + 1 \<in> blk p ord" "p \<in> blk p ord"
    by auto
  have 1: "hand_only (blk p ord) s (set_compound_page_dtor p Free_compound_page s)" for s
    unfolding set_compound_page_dtor_def using in1 by (intro hand_only_upd_page) simp_all
  have 2: "hand_only (blk p ord) s (set_compound_order p ord s)" for s
    unfolding set_compound_order_def using in1 by (intro hand_only_upd_page) simp_all
  have 3: "hand_only (blk p ord) s (set_flag PG_head p s)" for s
    unfolding set_flag_def using in1 by (intro hand_only_upd_page) simp_all
  have 4: "hand_only (blk p ord) s (prep_compound_tail p s i)" if "i \<in> set [1..<2 ^ ord]" for s i
  proof -
    have i: "p + i \<in> blk p ord"
      using that by auto
    show ?thesis
      unfolding prep_compound_tail_def set_flag_def
      by (rule hand_only_trans; rule hand_only_upd_page [OF i]) simp_all
  qed
  show ?thesis
    unfolding prep_compound_page_def
    by (rule hand_only_trans [OF hand_only_trans [OF hand_only_trans [OF 1 2] 3] hand_only_foldl [OF 4]])
qed

lemma prep_zero_hand: "hand_only (blk p ord) s (prep_zero_page p ord s)"
  unfolding prep_zero_page_def
  by (intro hand_only_foldl hand_only_upd_page) auto

lemma prep_new_page_hand: "hand_only (blk p ord) s (snd (prep_new_page c p ord zr cp s))"
proof -
  have 1: "hand_only (blk p ord) s (snd (check_new_pages c p [0..<2 ^ ord] s))"
    by (rule check_new_pages_hand) auto
  have 2: "hand_only (blk p ord) s (set_page_refcounted p (upd_page p (\<lambda>g. g\<lparr>pg_private := 0\<rparr>) s))" for s
    unfolding set_page_refcounted_def
    by (rule hand_only_trans; rule hand_only_upd_page) simp_all
  obtain bad s1 where c: "check_new_pages c p [0..<2 ^ ord] s = (bad, s1)"
    by fastforce
  let ?s2 = "set_page_refcounted p (upd_page p (\<lambda>g. g\<lparr>pg_private := 0\<rparr>) s1)"
  let ?s3 = "if zr then prep_zero_page p ord ?s2 else ?s2"
  let ?s4 = "if ord \<noteq> 0 \<and> cp then prep_compound_page p ord ?s3 else ?s3"
  have 3: "hand_only (blk p ord) ?s2 ?s3" and 4: "hand_only (blk p ord) ?s3 ?s4"
    using prep_zero_hand prep_compound_hand by simp_all
  have 1: "hand_only (blk p ord) s s1"
    using 1 c by simp
  note 5 = hand_only_trans [OF 1 hand_only_trans [OF 2 hand_only_trans [OF 3 4]]]
  have "snd (prep_new_page c p ord zr cp s) = (if bad then s1 else ?s4)"
    by (simp add: prep_new_page_def c Let_def)
  then show ?thesis
    using 1 5 by simp
qed

lemma pg_count_prep_compound: "pg_count (mem_map (prep_compound_page p ord s) q) = pg_count (mem_map s q)"
proof -
  have "pg_count (mem_map (foldl (prep_compound_tail p) s is) q) = pg_count (mem_map s q)" for s "is"
    by (induction "is" arbitrary: s) (simp_all add: prep_compound_tail_def set_flag_def upd_page_def)
  then show ?thesis
    by (simp add: prep_compound_page_def set_flag_def set_compound_order_def set_compound_page_dtor_def upd_page_def)
qed

lemma pg_count_prep_zero: "pg_count (mem_map (prep_zero_page p ord s) q) = pg_count (mem_map s q)"
proof -
  have "pg_count (mem_map (foldl (\<lambda>s i. upd_page (p + i) (\<lambda>g. g\<lparr>zero_filled := True\<rparr>) s) s is) q)
      = pg_count (mem_map s q)" for s "is"
    by (induction "is" arbitrary: s) (simp_all add: upd_page_def)
  then show ?thesis
    by (simp add: prep_zero_page_def)
qed

lemma prep_new_page_counted:
  "prep_new_page c p ord zr cp s = (False, s') \<Longrightarrow> pg_count (mem_map s' p) = 1"
  by (auto simp: prep_new_page_def Let_def set_page_refcounted_def pg_count_prep_compound pg_count_prep_zero
      proj_simps split: prod.splits if_splits)

section \<open>buffered\_rmqueue returns\<close>

lemma finite_avail:
  assumes "zone_ok c s z"
  shows "finite (avail s z)"
proof -
  have "avail s z \<subseteq> {zone_start_pfn (zones s z)..<zone_start_pfn (zones s z) + spanned_pages (zones s z)}"
  proof
    fix q assume q: "q \<in> avail s z"
    have "page_zone s q = z" if "(p, n) \<in> free_blocks s z" "q \<in> blk p n" for p n
      using wf_block(1) [of c s z p n] assms that unfolding zone_ok_def block_ok_def by blast
    moreover have "page_zone s q = z" if "q \<in> set (pcp_pages s z cpu)" for cpu
      using assms that by (auto simp: zone_ok_def pcp_wf_def parked_def usable_block_def block_ok_def)
    ultimately have "page_zone s q = z"
      using q by (auto simp: avail_def free_pfns_def)
    then show "q \<in> {zone_start_pfn (zones s z)..<zone_start_pfn (zones s z) + spanned_pages (zones s z)}"
      using assms by (simp add: zone_ok_def zone_span_def)
  qed
  then show ?thesis
    by (rule finite_subset) simp
qed

definition alloc_ok :: "mmcfg \<Rightarrow> nat \<Rightarrow> nat \<Rightarrow> mm \<Rightarrow> nat option \<Rightarrow> mm \<Rightarrow> bool" where
  "alloc_ok c z ord s r s' \<longleftrightarrow> zone_inv c s' z \<and> (\<forall>z'. z' \<noteq> z \<longrightarrow> untouched z' s s') \<and> avail s' z \<subseteq> avail s z \<and>
     (\<forall>p. r = Some p \<longrightarrow> 2 ^ ord dvd p \<and> blk p ord \<subseteq> avail s z \<and> blk p ord \<inter> avail s' z = {}
        \<and> pg_count (mem_map s' p) = 1)"

lemma buffered_rmqueue_ok:
  assumes "zone_inv c s z" and t: "t < MIGRATE_PCPTYPES"
  shows "\<exists>r s'. buffered_rmqueue c cpu z ord gf t s = Some (r, s') \<and> alloc_ok c z ord s r s'"
  using assms(1)
proof (induction "card (avail s z)" arbitrary: s rule: less_induct)
  case less
  let ?round = "if ord = 0 then rmqueue_pcp c cpu z (GFP_COLD \<in> gf) t s else rmqueue_direct c z ord t s"
  have "t < MIGRATE_TYPES"
    using t by simp
  then obtain r s1 where r: "?round = Some (r, s1)" "round_ok c z ord s r s1"
    using rmqueue_pcp_ok [OF less.prems t, of cpu "GFP_COLD \<in> gf"] rmqueue_direct_ok [OF less.prems, of t ord]
    by (cases "ord = 0") auto
  note unf = buffered_rmqueue.simps [of c cpu z ord gf t s]
  show ?case
  proof (cases r)
    case None
    then show ?thesis
      using r unfolding unf by (auto simp: alloc_ok_def round_ok_def)
  next
    case (Some p)
    let ?s2 = "s1\<lparr>ev_pgalloc := ev_pgalloc s1 + 2 ^ ord\<rparr>"
    let ?H = "blk p ord"
    have u: "usable_block c z s1 p ord" and av: "avail s z = ?H \<union> avail s1 z" and dj: "?H \<inter> avail s1 z = {}"
        and inv1: "zone_inv c s1 z" and ut: "\<forall>z'. z' \<noteq> z \<longrightarrow> untouched z' s s1"
      using r(2) Some by (simp_all add: round_ok_def)
    have zn: "\<forall>q \<in> ?H. page_zone s1 q = z" and al: "2 ^ ord dvd p"
      using u by (simp_all add: usable_block_def block_ok_def)
    obtain bad s3 where pn: "prep_new_page c p ord (GFP_ZERO \<in> gf) (GFP_COMP \<in> gf) ?s2 = (bad, s3)"
      by fastforce
    have "hand_only ?H s1 ?s2"
      by (simp add: hand_only_def)
    then have h: "hand_only ?H s1 s3"
      using prep_new_page_hand [of p ord ?s2 c "GFP_ZERO \<in> gf" "GFP_COMP \<in> gf"] pn hand_only_trans by fastforce
    note z3 = hand_only_zone [OF h inv1 dj zn]
    have ut3: "\<forall>z'. z' \<noteq> z \<longrightarrow> untouched z' s s3"
      using ut z3(3) untouched_trans by blast
    show ?thesis
    proof (cases bad)
      case False
      have "alloc_ok c z ord s (Some p) s3"
        using z3(1,2) ut3 av dj al prep_new_page_counted [of c p ord _ _ ?s2 s3] pn False
        unfolding alloc_ok_def by auto
      then show ?thesis
        using r(1) Some pn False unfolding unf by (simp add: Let_def)
    next
      case True
      have "finite (avail s z)"
        using finite_avail less.prems by (auto simp: zone_inv_def)
      moreover have "avail s3 z \<subset> avail s z"
        using z3(2) av dj blk_nonempty [of p ord] by blast
      ultimately have "card (avail s3 z) < card (avail s z)"
        by (rule psubset_card_mono)
      from less.hyps [OF this z3(1)] obtain r' s' where
          "buffered_rmqueue c cpu z ord gf t s3 = Some (r', s')" "alloc_ok c z ord s3 r' s'"
        by blast
      moreover from this have "alloc_ok c z ord s r' s'"
        using z3(2) av ut3 untouched_trans unfolding alloc_ok_def by blast
      ultimately show ?thesis
        using r(1) Some pn True unfolding unf by (simp add: Let_def)
    qed
  qed
qed

end
