(* ===== verification/Alloc_Path_Ops.thy ===== *)
theory Alloc_Path_Ops
  imports Alloc_Path Alloc_Ops
begin

text \<open>
  The allocation path: what the watermark test guarantees about the free lists, that the scan of
  the zonelist returns and keeps every zone's invariant, and for which requests the slow path
  returns or cannot fail.
\<close>

section \<open>The watermark test\<close>

text \<open>
  The loop in closed form: with \<open>o\<close> orders passed, the pages in blocks of those orders no longer
  count, and the mark has been halved \<open>o\<close> times.
\<close>

lemma all_pos_Suc: "(\<forall>j. 0 < j \<longrightarrow> j \<le> Suc n \<longrightarrow> P j) \<longleftrightarrow> (\<forall>j \<le> n. P (Suc j))"
  by (metis Suc_le_mono gr0_implies_Suc zero_less_Suc)

lemma all_le_split: "(\<forall>j \<le> n. P j) \<longleftrightarrow> P 0 \<and> (\<forall>j. 0 < j \<longrightarrow> j \<le> n \<longrightarrow> P j)" for n :: nat
  by (metis gr0I le0)

lemma watermark_loop_iff:
  "watermark_loop z k n f m \<longleftrightarrow>
     (\<forall>j. 0 < j \<longrightarrow> j \<le> n \<longrightarrow> m div 2 ^ j < f - (\<Sum>i<j. nr_free (area z (k + i)) * 2 ^ (k + i)))"
proof (induction n arbitrary: k f m)
  case (Suc n)
  let ?a = "nr_free (area z k) * 2 ^ k"
  have shift: "(\<Sum>i<Suc j. nr_free (area z (k + i)) * 2 ^ (k + i))
      = ?a + (\<Sum>i<j. nr_free (area z (k + 1 + i)) * 2 ^ (k + 1 + i))" for j
    by (subst sum.lessThan_Suc_shift) (simp add: algebra_simps)
  have half: "m div 2 ^ Suc j = m div 2 div 2 ^ j" for j
    by (simp add: zdiv_zmult2_eq)
  have "(\<forall>j. 0 < j \<longrightarrow> j \<le> Suc n \<longrightarrow> m div 2 ^ j < f - (\<Sum>i<j. nr_free (area z (k + i)) * 2 ^ (k + i)))
      \<longleftrightarrow> (\<forall>j \<le> n. m div 2 ^ Suc j < f - (\<Sum>i<Suc j. nr_free (area z (k + i)) * 2 ^ (k + i)))"
    by (rule all_pos_Suc)
  also have "\<dots> \<longleftrightarrow> (\<forall>j \<le> n. m div 2 div 2 ^ j < f - ?a - (\<Sum>i<j. nr_free (area z (k + 1 + i)) * 2 ^ (k + 1 + i)))"
    by (simp only: shift half diff_diff_eq)
  also have "\<dots> \<longleftrightarrow> m div 2 < f - ?a \<and>
      (\<forall>j. 0 < j \<longrightarrow> j \<le> n \<longrightarrow> m div 2 div 2 ^ j < f - ?a - (\<Sum>i<j. nr_free (area z (k + 1 + i)) * 2 ^ (k + 1 + i)))"
    by (subst all_le_split) simp
  finally show ?case
    using Suc.IH [of "k + 1" "f - ?a" "m div 2"] by (auto simp: Let_def not_le)
qed simp

lemma watermark_min_nonneg: "0 \<le> watermark_min mark flg"
proof -
  have "0 \<le> m - m div 2" "0 \<le> m - m div 4" if "0 \<le> m" for m :: int
    using that by linarith+
  then show ?thesis
    by (simp add: watermark_min_def Let_def)
qed

lemma watermark_ok_has_block:
  assumes w: "zone_watermark_ok (zones s z) ord mark idx flg" and wf: "lists_wf c s z"
    and nc: "nr_free_counted s z" and lt: "ord < MAX_ORDER c"
  shows "\<exists>r t. ord \<le> r \<and> r < MAX_ORDER c \<and> t < MIGRATE_TYPES \<and> fl s z r t \<noteq> []"
proof -
  let ?m = "watermark_min mark flg" and ?f = "nr_free_pages (zones s z) - 2 ^ ord + 1"
  have first: "?m + int (lowmem_reserve (zones s z) idx) < ?f" and lp: "watermark_loop (zones s z) 0 ord ?f ?m"
    using w by (auto simp: zone_watermark_ok_def Let_def split: if_splits)
  have left: "0 < ?f - (\<Sum>i<ord. nf s z i * 2 ^ i)"
  proof (cases "ord = 0")
    case True
    then show ?thesis
      using first watermark_min_nonneg [of mark flg] by simp
  next
    case False
    have "0 \<le> ?m div 2 ^ ord"
      using watermark_min_nonneg [of mark flg] by (simp add: pos_imp_zdiv_nonneg_iff)
    moreover have "?m div 2 ^ ord < ?f - (\<Sum>i<ord. nr_free (area (zones s z) (0 + i)) * 2 ^ (0 + i))"
      using lp False unfolding watermark_loop_iff by blast
    ultimately show ?thesis
      by (simp add: nf_def)
  qed
  have "nr_free_pages (zones s z) = (\<Sum>i<MAX_ORDER c. nf s z i * 2 ^ i)"
    using nc card_free_pfns [OF wf] by (simp add: nr_free_counted_def)
  also have "{..<MAX_ORDER c} = {..<ord} \<union> {ord..<MAX_ORDER c}"
    using lt by auto
  also have "(\<Sum>i\<in>\<dots>. nf s z i * 2 ^ i) = (\<Sum>i<ord. nf s z i * 2 ^ i) + (\<Sum>i=ord..<MAX_ORDER c. nf s z i * 2 ^ i)"
    by (rule sum.union_disjoint) auto
  finally have eq: "nr_free_pages (zones s z)
      = (\<Sum>i<ord. nf s z i * 2 ^ i) + (\<Sum>i=ord..<MAX_ORDER c. nf s z i * 2 ^ i)" .
  have "(1::int) \<le> 2 ^ ord"
    by simp
  then have "0 < (\<Sum>i=ord..<MAX_ORDER c. nf s z i * 2 ^ i)"
    using left unfolding eq by linarith
  then obtain r where r: "r \<in> {ord..<MAX_ORDER c}" "nf s z r * 2 ^ r \<noteq> 0"
    using sum.neutral [of "{ord..<MAX_ORDER c}" "\<lambda>i. nf s z i * 2 ^ i"] by fastforce
  then have "(\<Sum>t<MIGRATE_TYPES. int (length (fl s z r t))) \<noteq> 0"
    using wf_nf [OF wf, of r] by auto
  then obtain t where "t < MIGRATE_TYPES" "fl s z r t \<noteq> []"
    using sum.neutral [of "{..<MIGRATE_TYPES}" "\<lambda>t. int (length (fl s z r t))"] by fastforce
  then show ?thesis
    using r(1) by auto
qed

lemma usable_type_pcp: "t < MIGRATE_PCPTYPES \<Longrightarrow> u < MIGRATE_ISOLATE \<Longrightarrow> usable_type t u"
  by (auto simp: usable_type_def fallbacks_def)

lemma watermark_ok_alloc:
  assumes inv: "zone_inv c s z" and w: "zone_watermark_ok (zones s z) ord mark idx flg"
    and lt: "ord < MAX_ORDER c" and t: "t < MIGRATE_PCPTYPES" and iso: "\<forall>r. fl s z r MIGRATE_ISOLATE = []"
  shows "\<exists>p s'. uu_rmqueue c z ord t s = Some (Some p, s') \<and> taken_ok c z ord s p s'"
proof -
  have ok: "lists_wf c s z" "coalesced c s z" "zone_span s z" "nr_free_counted s z"
    using inv by (simp_all add: zone_inv_def zone_ok_def)
  obtain r u where b: "ord \<le> r" "r < MAX_ORDER c" "u < MIGRATE_TYPES" "fl s z r u \<noteq> []"
    using watermark_ok_has_block [OF w ok(1,4) lt] by blast
  have "u \<noteq> MIGRATE_ISOLATE"
    using iso b(4) by auto
  then have "u < MIGRATE_ISOLATE"
    using b(3) by linarith
  then have "usable_type t u"
    using t by (simp add: usable_type_pcp)
  then show ?thesis
    using rmqueue_cases [OF ok(1-3), of t ord] b t by auto
qed

section \<open>The scan of the zonelist\<close>

definition inv_all :: "mmcfg \<Rightarrow> nat set \<Rightarrow> mm \<Rightarrow> bool" where
  "inv_all c Z s \<longleftrightarrow> (\<forall>z \<in> Z. zone_inv c s z)"

text \<open>What the allocator relies on: the code outside it leaves well-formed zones behind.\<close>

definition env_keeps :: "alloc_env \<Rightarrow> mmcfg \<Rightarrow> nat set \<Rightarrow> bool" where
  "env_keeps e c Z \<longleftrightarrow> (\<forall>s. inv_all c Z s \<longrightarrow>
     (\<forall>z g n. inv_all c Z (snd (zone_reclaim e z g n s))) \<and> (\<forall>n g. inv_all c Z (snd (try_to_free_pages e n g s)))
     \<and> inv_all c Z (out_of_memory e s) \<and> inv_all c Z (congestion_wait e s)
     \<and> (\<forall>z n. inv_all c Z (wakeup_kswapd e z n s)) \<and> inv_all c Z (kcached_run e s))"

definition page_given :: "mmcfg \<Rightarrow> nat set \<Rightarrow> nat \<Rightarrow> nat option \<Rightarrow> mm \<Rightarrow> bool" where
  "page_given c Z ord r s' \<longleftrightarrow> (\<forall>p. r = Some p \<longrightarrow> 2 ^ ord dvd p \<and> pg_count (mem_map s' p) = 1
     \<and> (\<forall>z \<in> Z. blk p ord \<inter> avail s' z = {}) \<and> (\<exists>z \<in> Z. \<forall>q \<in> blk p ord. page_zone s' q = z))"

lemma avail_zone:
  assumes "zone_ok c s z" and "q \<in> avail s z"
  shows "page_zone s q = z"
proof -
  have "page_zone s q = z" if "(p, n) \<in> free_blocks s z" "q \<in> blk p n" for p n
    using wf_block(1) [of c s z p n] assms that unfolding zone_ok_def block_ok_def by blast
  moreover have "page_zone s q = z" if "q \<in> set (pcp_pages s z cpu)" for cpu
    using assms that by (auto simp: zone_ok_def pcp_wf_def parked_def usable_block_def block_ok_def)
  ultimately show ?thesis
    using assms(2) by (auto simp: avail_def free_pfns_def)
qed

lemma try_zone_keeps:
  assumes "env_keeps e c Z" and "inv_all c Z s"
  shows "inv_all c Z (snd (try_zone e g ord zn idx flg s))"
proof (cases "zone_reclaim e zn g ord s")
  case (Pair r s1)
  then have "inv_all c Z s1"
    using assms unfolding env_keeps_def by (metis snd_conv)
  then show ?thesis
    using assms(2) Pair by (simp add: try_zone_def Let_def split: reclaim_result.splits)
qed

lemma alloc_in_zone:
  assumes inv: "inv_all c Z s" and z: "z \<in> Z" and a: "alloc_ok c z ord s r s'"
  shows "inv_all c Z s' \<and> page_given c Z ord r s'"
proof -
  have inv': "inv_all c Z s'"
    using inv a untouched_inv z unfolding inv_all_def alloc_ok_def by metis
  have sub: "\<forall>p. r = Some p \<longrightarrow> blk p ord \<subseteq> avail s z"
    using a by (simp add: alloc_ok_def)
  have zid: "page_zone s q = z" if "q \<in> avail s z" for q
    using avail_zone [of c s z q] inv z that by (simp add: inv_all_def zone_inv_def)
  have zid': "page_zone s' q = page_zone s q" for q
  proof -
    have "untouched (Suc z) s s'"
      using a by (simp add: alloc_ok_def)
    then show ?thesis
      by (simp add: untouched_def)
  qed
  have "page_given c Z ord r s'"
    unfolding page_given_def
  proof (intro allI impI conjI ballI)
    fix p assume p: "r = Some p"
    then show "2 ^ ord dvd p" "pg_count (mem_map s' p) = 1"
      using a by (simp_all add: alloc_ok_def)
    have b: "page_zone s' q = z" if "q \<in> blk p ord" for q
      using sub p zid zid' that by blast
    then show "\<exists>z\<in>Z. \<forall>q\<in>blk p ord. page_zone s' q = z"
      using z by blast
    fix z' assume z': "z' \<in> Z"
    show "blk p ord \<inter> avail s' z' = {}"
    proof (cases "z' = z")
      case True
      then show ?thesis
        using a p by (simp add: alloc_ok_def)
    next
      case False
      have "page_zone s' q = z'" if "q \<in> avail s' z'" for q
        using avail_zone [of c s' z' q] inv' z' that by (simp add: inv_all_def zone_inv_def)
      then show ?thesis
        using b False by blast
    qed
  qed
  then show ?thesis
    using inv' by simp
qed

lemma scan_zones_ok:
  assumes e: "env_keeps e c Z" and zs: "set zs \<subseteq> Z" and t: "t < MIGRATE_PCPTYPES" and "inv_all c Z s"
  shows "\<exists>r s'. scan_zones e c cpu g ord zs idx flg t s = Some (r, s') \<and> inv_all c Z s' \<and> page_given c Z ord r s'"
  using zs assms(4)
proof (induction zs arbitrary: s)
  case Nil
  then show ?case
    by (simp add: page_given_def)
next
  case (Cons z zs)
  obtain b s1 where tz: "try_zone e g ord z idx flg s = (b, s1)"
    by fastforce
  have inv1: "inv_all c Z s1"
    using try_zone_keeps [OF e Cons.prems(2), of g ord z idx flg] tz by simp
  have z: "z \<in> Z" "zone_inv c s1 z"
    using Cons.prems(1) inv1 by (simp_all add: inv_all_def)
  show ?case
  proof (cases b)
    case False
    then show ?thesis
      using Cons.IH [of s1] Cons.prems(1) inv1 tz by simp
  next
    case True
    obtain r s2 where r: "buffered_rmqueue c cpu z ord g t s1 = Some (r, s2)" "alloc_ok c z ord s1 r s2"
      using buffered_rmqueue_ok [OF z(2) t, of cpu ord g] by blast
    note a = alloc_in_zone [OF inv1 z(1) r(2)]
    show ?thesis
      using Cons.IH [of s2] Cons.prems(1) a True tz r(1) by (cases r) simp_all
  qed
qed

lemma for_each_zone_subset: "set (for_each_zone_zonelist zl h) \<subseteq> fst ` set zl"
  by (auto simp: for_each_zone_zonelist_def)

lemma get_page_from_freelist_ok:
  assumes "env_keeps e c Z" and "fst ` set zl \<subseteq> Z" and "t < MIGRATE_PCPTYPES" and "inv_all c Z s"
  shows "\<exists>r s'. get_page_from_freelist e c cpu g ord zl h flg idx t s = Some (r, s')
    \<and> inv_all c Z s' \<and> page_given c Z ord r s'"
  unfolding get_page_from_freelist_def
  using assms for_each_zone_subset [of zl h] by (intro scan_zones_ok) blast+

section \<open>The slow path\<close>

lemma wake_all_keeps:
  assumes "env_keeps e c Z" and "inv_all c Z s"
  shows "inv_all c Z (wake_all_kswapd e ord zl h s)"
proof -
  have "inv_all c Z (foldl (\<lambda>s zn. wakeup_kswapd e zn ord s) s zs)" for zs
    using assms(2)
  proof (induction zs arbitrary: s)
    case (Cons z zs)
    then show ?case
      using assms(1) by (simp add: env_keeps_def)
  qed simp
  then show ?thesis
    by (simp add: wake_all_kswapd_def)
qed

text \<open>A step of the slow path that gives a page gives a good one, and keeps the invariant.\<close>

definition exit_ok :: "mmcfg \<Rightarrow> nat set \<Rightarrow> nat \<Rightarrow> slow_exit \<times> mm \<Rightarrow> bool" where
  "exit_ok c Z ord x \<longleftrightarrow> inv_all c Z (snd x) \<and> (\<forall>r. fst x = Return r \<longrightarrow> page_given c Z ord r (snd x))"

lemma high_priority_returns:
  assumes "env_keeps e c Z" and "fst ` set zl \<subseteq> Z" and "t < MIGRATE_PCPTYPES" and "inv_all c Z s"
    and "GFP_NOFAIL \<notin> g"
  shows "\<exists>r s'. uu_alloc_pages_high_priority e c cpu g ord zl h idx t s = Some (r, s')
    \<and> inv_all c Z s' \<and> page_given c Z ord r s'"
proof -
  obtain r s' where "get_page_from_freelist e c cpu g ord zl h ALLOC_NO_WATERMARKS idx t s = Some (r, s')"
      "inv_all c Z s'" "page_given c Z ord r s'"
    using get_page_from_freelist_ok [OF assms(1-4)] by blast
  then show ?thesis
    using assms(5) by (subst uu_alloc_pages_high_priority.simps) (cases r; simp)
qed

lemma direct_reclaim_returns:
  assumes e: "env_keeps e c Z" and zl: "fst ` set zl \<subseteq> Z" and t: "t < MIGRATE_PCPTYPES" and inv: "inv_all c Z s"
    and az: "distinct (all_zones e)" "set (all_zones e) = Z"
  shows "\<exists>r n s'. uu_alloc_pages_direct_reclaim e c cpu g ord zl h flg idx t s = Some (r, n, s')
    \<and> inv_all c Z s' \<and> page_given c Z ord r s'"
proof -
  obtain n s1 where f: "try_to_free_pages e ord g s = (n, s1)"
    by fastforce
  have inv1: "inv_all c Z s1"
    using e inv f unfolding env_keeps_def by (metis snd_conv)
  obtain s2 where d: "drain_all_pages c (all_zones e) (all_cpus e) s1 = Some s2" "inv_all c Z s2"
    using drain_all_pages_ok [OF az(1), of c s1 "all_cpus e"] inv1 az(2) unfolding inv_all_def by blast
  obtain s3 where s3: "(if ord \<noteq> 0 then drain_all_pages c (all_zones e) (all_cpus e) s1 else Some s1) = Some s3"
      "inv_all c Z s3"
    using d inv1 by (cases "ord = 0") auto
  obtain r s4 where "get_page_from_freelist e c cpu g ord zl h flg idx t s3 = Some (r, s4)"
      "inv_all c Z s4" "page_given c Z ord r s4"
    using get_page_from_freelist_ok [OF e zl t s3(2)] by blast
  then show ?thesis
    using f s3 by (simp add: uu_alloc_pages_direct_reclaim_def page_given_def)
qed

lemma slow_restart_ok:
  assumes "env_keeps e c Z" and "fst ` set zl \<subseteq> Z" and "t < MIGRATE_PCPTYPES" and "inv_all c Z s"
  shows "\<exists>x. slow_restart e c cpu g ord zl h idx t n s = Some x \<and> exit_ok c Z ord x
    \<and> (\<forall>l. fst x = Goto l \<longrightarrow> l = Rebalance (gfp_to_alloc_flags e g) n)"
proof -
  let ?flg = "gfp_to_alloc_flags e g AND NOT ALLOC_NO_WATERMARKS"
  obtain r s' where r: "get_page_from_freelist e c cpu g ord zl h ?flg idx t (wake_all_kswapd e ord zl h s) = Some (r, s')"
      "inv_all c Z s'" "page_given c Z ord r s'"
    using get_page_from_freelist_ok [OF assms(1-3) wake_all_keeps [OF assms(1,4)]] by blast
  show ?thesis
    by (cases r) (use r in \<open>simp_all add: slow_restart_def exit_ok_def Let_def\<close>)
qed

lemma slow_rebalance_stops:
  assumes e: "env_keeps e c Z" and zl: "fst ` set zl \<subseteq> Z" and t: "t < MIGRATE_PCPTYPES" and inv: "inv_all c Z s"
    and az: "distinct (all_zones e)" "set (all_zones e) = Z"
    and g: "GFP_NOFAIL \<notin> g" "GFP_WAIT \<notin> g \<or> GFP_NORETRY \<in> g"
  shows "\<exists>x. slow_rebalance e c cpu g ord zl h idx t flg n s = Some x \<and> exit_ok c Z ord x
    \<and> (\<forall>l. fst x = Goto l \<longrightarrow> l = Nopage)"
proof -
  let ?hp = "if flg AND ALLOC_NO_WATERMARKS \<noteq> 0 then uu_alloc_pages_high_priority e c cpu g ord zl h idx t s
    else Some (None, s)"
  have "\<exists>r s'. ?hp = Some (r, s') \<and> inv_all c Z s' \<and> page_given c Z ord r s'"
    using high_priority_returns [OF e zl t inv g(1)] inv by (auto simp: page_given_def)
  then obtain r s1 where hp: "?hp = Some (r, s1)" "inv_all c Z s1" "page_given c Z ord r s1"
    by blast
  obtain r' n' s2 where dr: "uu_alloc_pages_direct_reclaim e c cpu g ord zl h flg idx t s1 = Some (r', n', s2)"
      "inv_all c Z s2" "page_given c Z ord r' s2"
    using direct_reclaim_returns [OF e zl t hp(2) az] by blast
  show ?thesis
  proof (cases r)
    case None
    have "\<exists>x. slow_reclaim e c cpu g ord zl h idx t flg n s1 = Some x \<and> exit_ok c Z ord x
        \<and> (\<forall>l. fst x = Goto l \<longrightarrow> l = Nopage)" if "GFP_NORETRY \<in> g"
      by (cases r') (use dr that in \<open>simp_all add: slow_reclaim_def should_alloc_retry_def exit_ok_def Let_def\<close>)
    then show ?thesis
      unfolding slow_rebalance_def hp(1) using None hp(2) g(2) by (auto simp: exit_ok_def)
  next
    case (Some p)
    then show ?thesis
      unfolding slow_rebalance_def hp(1) using hp(2,3) by (simp add: exit_ok_def)
  qed
qed

lemma slowpath_returns:
  assumes e: "env_keeps e c Z" and zl: "fst ` set zl \<subseteq> Z" and t: "t < MIGRATE_PCPTYPES" and inv: "inv_all c Z s"
    and az: "distinct (all_zones e)" "set (all_zones e) = Z"
    and g: "GFP_NOFAIL \<notin> g" "GFP_WAIT \<notin> g \<or> GFP_NORETRY \<in> g"
  shows "\<exists>r s'. uu_alloc_pages_slowpath e c cpu g ord zl h idx t s = Some (r, s')
    \<and> inv_all c Z s' \<and> page_given c Z ord r s'"
proof -
  note unf = slowpath_at.simps [of e c cpu g ord zl h idx t]
  have nopage: "\<exists>r s'. slowpath_at e c cpu g ord zl h idx t Nopage s = Some (r, s')
      \<and> inv_all c Z s' \<and> page_given c Z ord r s'" if "inv_all c Z s" for s
    using e that by (simp add: unf slow_step_def page_given_def env_keeps_def)
  have rebalance: "\<exists>r s'. slowpath_at e c cpu g ord zl h idx t (Rebalance flg n) s = Some (r, s')
      \<and> inv_all c Z s' \<and> page_given c Z ord r s'" if i: "inv_all c Z s" for s flg n
  proof -
    obtain x s' where "slow_rebalance e c cpu g ord zl h idx t flg n s = Some (x, s')" "exit_ok c Z ord (x, s')"
        "\<forall>l. x = Goto l \<longrightarrow> l = Nopage"
      using slow_rebalance_stops [OF e zl t i az g, of cpu ord h idx flg n] by auto
    then show ?thesis
      using nopage [of s'] by (cases x) (simp_all add: unf slow_step_def exit_ok_def)
  qed
  obtain x s' where "slow_restart e c cpu g ord zl h idx t 0 s = Some (x, s')" "exit_ok c Z ord (x, s')"
      "\<forall>l. x = Goto l \<longrightarrow> l = Rebalance (gfp_to_alloc_flags e g) 0"
    using slow_restart_ok [OF e zl t inv, of cpu g ord h idx 0] by auto
  then have "\<exists>r s'. slowpath_at e c cpu g ord zl h idx t (Restart 0) s = Some (r, s')
      \<and> inv_all c Z s' \<and> page_given c Z ord r s'"
    using rebalance [of s'] by (cases x) (simp_all add: unf [of "Restart 0"] slow_step_def exit_ok_def)
  then show ?thesis
    using inv by (simp add: uu_alloc_pages_slowpath_def page_given_def)
qed

text \<open>Small sleeping requests are never refused: the loop only ends with a page.\<close>

lemma slow_step_no_fail:
  assumes "GFP_WAIT \<in> g" and "GFP_NORETRY \<notin> g" and "ord \<le> PAGE_ALLOC_COSTLY_ORDER"
    and "\<not> PF_MEMALLOC e" and "\<not> TIF_MEMDIE e" and "\<not> oom_killer_disabled e" and "lab \<noteq> Nopage"
    and "slow_step e c cpu g ord zl h idx t lab s = Some (x, s')"
  shows "x \<noteq> Return None" and "x \<noteq> Goto Nopage"
  using assms
  by (auto simp: slow_step_def slow_restart_def slow_rebalance_def slow_reclaim_def slow_oom_def
      should_alloc_retry_def Let_def split: slow_label.splits option.splits prod.splits if_splits)

definition patient :: "alloc_env \<Rightarrow> gfp_t \<Rightarrow> nat \<Rightarrow> bool" where
  "patient e g ord \<longleftrightarrow> GFP_WAIT \<in> g \<and> GFP_NORETRY \<notin> g \<and> ord \<le> PAGE_ALLOC_COSTLY_ORDER
     \<and> \<not> PF_MEMALLOC e \<and> \<not> TIF_MEMDIE e \<and> \<not> oom_killer_disabled e"

lemma slowpath_no_fail:
  assumes "slowpath_at e c cpu g ord zl h idx t lab s = Some y"
  shows "patient e g ord \<longrightarrow> lab \<noteq> Nopage \<longrightarrow> fst y \<noteq> None"
  using assms
proof (rule slowpath_at.raw_induct [rotated])
  fix loop e c cpu g ord zl h idx t lab s y
  assume IH: "\<And>e c cpu g ord zl h idx t lab s y. loop e c cpu g ord zl h idx t lab s = Some y \<Longrightarrow>
      patient e g ord \<longrightarrow> lab \<noteq> Nopage \<longrightarrow> fst y \<noteq> None"
    and step: "(case slow_step e c cpu g ord zl h idx t lab s of None \<Rightarrow> None
      | Some (Goto lab', s1) \<Rightarrow> loop e c cpu g ord zl h idx t lab' s1
      | Some (Return r, s1) \<Rightarrow> Some (r, s1)) = Some y"
  show "patient e g ord \<longrightarrow> lab \<noteq> Nopage \<longrightarrow> fst y \<noteq> None"
  proof (intro impI)
    assume p: "patient e g ord" and l: "lab \<noteq> Nopage"
    obtain x s1 where x: "slow_step e c cpu g ord zl h idx t lab s = Some (x, s1)"
      using step by (auto split: option.splits)
    note nf = slow_step_no_fail [OF _ _ _ _ _ _ l x]
    show "fst y \<noteq> None"
    proof (cases x)
      case (Goto lab')
      then show ?thesis
        using step x IH [of e c cpu g ord zl h idx t lab' s1 y] nf(2) p by (simp add: patient_def)
    next
      case (Return r)
      then show ?thesis
        using step x nf(1) p by (auto simp: patient_def)
    qed
  qed
qed

lemma alloc_pages_returns:
  assumes e: "env_keeps e c Z" and zl: "fst ` set zl \<subseteq> Z" and t: "allocflags_to_migratetype e g < MIGRATE_PCPTYPES"
    and inv: "inv_all c Z s" and az: "distinct (all_zones e)" "set (all_zones e) = Z"
    and g: "GFP_NOFAIL \<notin> g" "GFP_WAIT \<notin> g \<or> GFP_NORETRY \<in> g \<inter> gfp_allowed_mask e"
  shows "\<exists>r s'. uu_alloc_pages_nodemask e c cpu g ord zl s = Some (r, s') \<and> inv_all c Z s' \<and> page_given c Z ord r s'"
proof -
  let ?h = "gfp_zone e g" and ?t = "allocflags_to_migratetype e g" and ?g = "g \<inter> gfp_allowed_mask e"
  show ?thesis
  proof (cases "filter (\<lambda>(zn, i). i \<le> ?h) zl")
    case Nil
    then show ?thesis
      using inv by (simp add: uu_alloc_pages_nodemask_def page_given_def)
  next
    case (Cons z zs)
    obtain zn idx where z: "z = (zn, idx)"
      by fastforce
    obtain r s1 where r: "get_page_from_freelist e c cpu (insert GFP_HARDWALL ?g) ord zl ?h
          (ALLOC_WMARK_LOW OR ALLOC_CPUSET) idx ?t s = Some (r, s1)" "inv_all c Z s1" "page_given c Z ord r s1"
      using get_page_from_freelist_ok [OF e zl t inv] by blast
    have "\<exists>r s'. uu_alloc_pages_slowpath e c cpu ?g ord zl ?h idx ?t s1 = Some (r, s')
        \<and> inv_all c Z s' \<and> page_given c Z ord r s'"
      using g by (intro slowpath_returns [OF e zl t r(2) az]) auto
    then show ?thesis
      using r by (cases r) (simp_all add: uu_alloc_pages_nodemask_def Let_def Cons z)
  qed
qed

lemma alloc_pages_no_fail:
  assumes "patient e (g \<inter> gfp_allowed_mask e) ord" and "ord < MAX_ORDER c"
    and "\<exists>z \<in> set zl. snd z \<le> gfp_zone e g"
    and "uu_alloc_pages_nodemask e c cpu g ord zl s = Some (r, s')"
  shows "r \<noteq> None"
  using assms slowpath_no_fail [of e c cpu "g \<inter> gfp_allowed_mask e" ord zl "gfp_zone e g"]
  by (fastforce simp: uu_alloc_pages_nodemask_def uu_alloc_pages_slowpath_def Let_def filter_empty_conv
      split: list.splits option.splits prod.splits)

end
