(* ===== verification/Mm_Example.thy ===== *)
theory Mm_Example
  imports Alloc_Path_Ops
begin

text \<open>
  A small machine on which the properties of the page allocator are exercised: zone 0 spans
  eight frames, the upper four are one free block of order 2 on the movable list, frame 3 is
  parked on the list of cpu 0, and frames 0 to 2 are in use.
\<close>

definition page_empty :: "nat \<Rightarrow> page" where
  "page_empty z = \<lparr>flags = {}, pg_private = 0, pg_count = 0, mapcount = 0, mapping = 0,
     first_page = 0, lru_next_dtor = No_dtor, lru_prev_order = 0, zone_id = z, zero_filled = False\<rparr>"

definition zone_ex :: zone where
  "zone_ex = \<lparr>zone_start_pfn = 0, spanned_pages = 8, present_pages = 8,
     area = (\<lambda>ord. \<lparr>free_list = (\<lambda>t. if ord = 2 \<and> t = 2 then [4] else []),
       nr_free = (if ord = 2 then 1 else 0)\<rparr>),
     nr_free_pages = 4, nr_mlock = 0, pages_scanned = 0, all_unreclaimable = False,
     watermark = (\<lambda>_. 0), lowmem_reserve = (\<lambda>_. 0), pageblock_flags = (\<lambda>_. False),
     pageset = (\<lambda>cpu. \<lparr>pcp_count = (if cpu = 0 then 1 else 0), pcp_high = 6, pcp_batch = 1,
       pcp_lists = (\<lambda>t. if cpu = 0 \<and> t = 2 then [3] else [])\<rparr>)\<rparr>"

definition mm1 :: mm where
  "mm1 = mm0\<lparr>mem_map := (\<lambda>p. if p = 4 then (page_empty 0)\<lparr>flags := {PG_buddy}, pg_private := 2\<rparr>
       else if p = 3 then (page_empty 0)\<lparr>pg_private := 2\<rparr>
       else page_empty (if p < 8 then 0 else 1)),
     zones := (\<lambda>z. zone_ex)\<rparr>"

lemmas mm1_defs = mm1_def mm0_def page_empty_def zone_ex_def cfg0_def

lemma mm1_reads:
  "fl mm1 0 ord t = (if ord = 2 \<and> t = 2 then [4] else [])"
  "nf mm1 0 ord = (if ord = 2 then 1 else 0)"
  "PageBuddy mm1 p \<longleftrightarrow> p = 4" "page_order mm1 p = (if p = 4 \<or> p = 3 then 2 else 0)"
  "page_zone mm1 p = (if p < 8 then 0 else 1)" "\<not> PageCompound mm1 p"
  "pcp_list mm1 z cpu t = (if cpu = 0 \<and> t = 2 then [3] else [])"
  "zone_start_pfn (zones mm1 z) = 0" "spanned_pages (zones mm1 z) = 8" "nr_free_pages (zones mm1 z) = 4"
  "pcp_count (pageset (zones mm1 z) cpu) = (if cpu = 0 then 1 else 0)"
  "pcp_high (pageset (zones mm1 z) cpu) = 6" "pcp_batch (pageset (zones mm1 z) cpu) = 1"
  "present_pages (zones mm1 z) = 8"
  by (auto simp: mm1_defs proj_defs PageCompound_def PageHead_def PageTail_def pcp_list_def)

lemma cfg0_reads [simp]:
  "MAX_ORDER cfg0 = 3" "pageblock_order cfg0 = 2" "pfn_valid_within cfg0 p"
  "PAGE_FLAGS_CHECK_AT_FREE cfg0 = {PG_buddy, PG_reserved, PG_mlocked}"
  "PAGE_FLAGS_CHECK_AT_PREP cfg0 = {PG_buddy, PG_reserved, PG_mlocked}"
  by (simp_all add: cfg0_def)

lemma mm1_free: "free_blocks mm1 0 = {(4, 2)}" "free_pfns mm1 0 = {4..<8}"
  by (auto simp: free_blocks_def free_pfns_def mm1_reads)

lemma mm1_pcp: "pcp_pages mm1 z cpu = (if cpu = 0 then [3] else [])" "avail mm1 0 = {3..<8}"
  by (auto simp: pcp_pages_def mm1_reads avail_def mm1_free)

lemma mm1_lists: "lists_wf cfg0 mm1 0" "coalesced cfg0 mm1 0" "zone_span mm1 0"
proof -
  have "(\<Sum>t<(5::nat). int (length (fl mm1 0 ord t))) = nf mm1 0 ord" for ord
    by (simp add: mm1_reads eval_nat_numeral)
  then show "lists_wf cfg0 mm1 0"
    by (auto simp: lists_wf_def mm1_free mm1_reads block_ok_def split: if_splits)
  show "coalesced cfg0 mm1 0"
    by (simp add: coalesced_def mm1_free)
  show "zone_span mm1 0"
    by (simp add: zone_span_def mm1_reads)
qed

lemma mm1_inv: "zone_inv cfg0 mm1 0"
  using mm1_lists
  by (auto simp: zone_inv_def zone_ok_def pcp_wf_def pcp_counted_def nr_free_counted_def mm1_free mm1_pcp
      mm1_reads parked_def usable_block_def block_ok_def)

lemma mm1_pool: "pool_inv cfg0 0 mm1"
  using mm1_lists by (simp add: pool_inv_def mm1_reads)

lemma mm1_rmqueue:
  assumes "t < MIGRATE_PCPTYPES" and "ord \<le> 2"
  shows "\<exists>p s'. uu_rmqueue cfg0 0 ord t mm1 = Some (Some p, s')"
proof -
  have "\<not> (\<forall>r u. ord \<le> r \<longrightarrow> r < MAX_ORDER cfg0 \<longrightarrow> usable_type t u \<longrightarrow> fl mm1 0 r u = [])"
    using usable_type_pcp [OF assms(1), of 2] assms(2) by (intro notI) (auto dest!: spec [of _ 2] simp: mm1_reads)
  then show ?thesis
    using rmqueue_cases [OF mm1_lists, of t ord] assms(1) by auto
qed

end
