(* ===== verification/Compound.thy ===== *)
theory Compound
  imports Buddy_Inv
begin

text \<open>
  Compound pages and bad-page reports: setting up a compound page and tearing it down again
  leaves every flag as it was and finds nothing bad, every page of it leads to its head, and a
  burst of bad pages prints at most sixty reports.
\<close>

section \<open>The pages of a compound page\<close>

definition tail_made :: "nat \<Rightarrow> page \<Rightarrow> page" where
  "tail_made p g = g\<lparr>flags := insert PG_tail (flags g), first_page := p\<rparr>"

definition tail_cleared :: "page \<Rightarrow> page" where
  "tail_cleared g = g\<lparr>flags := flags g - {PG_tail}\<rparr>"

lemma prep_tails:
  "foldl (prep_compound_tail p) s [Suc 0..<n] =
     s\<lparr>mem_map := (\<lambda>q. if p < q \<and> q < p + n then tail_made p (mem_map s q) else mem_map s q)\<rparr>"
proof (induction n)
  case (Suc n)
  show ?case
  proof (cases "n = 0")
    case False
    then have "[Suc 0..<Suc n] = [Suc 0..<n] @ [n]"
      by simp
    then show ?thesis
      using Suc False
      by (auto simp: prep_compound_tail_def set_flag_def upd_page_def tail_made_def fun_eq_iff less_Suc_eq)
  qed (auto intro!: mm.equality simp: fun_eq_iff)
qed (auto intro!: mm.equality simp: fun_eq_iff)

lemma destroy_tails:
  assumes "\<And>i. 0 < i \<Longrightarrow> i < n \<Longrightarrow> PageTail s (p + i) \<and> first_page (mem_map s (p + i)) = p"
  shows "foldl (destroy_compound_tail c p) (0, s) [Suc 0..<n] =
    (0, s\<lparr>mem_map := (\<lambda>q. if p < q \<and> q < p + n then tail_cleared (mem_map s q) else mem_map s q)\<rparr>)"
  using assms
proof (induction n)
  case (Suc n)
  show ?case
  proof (cases "n = 0")
    case False
    then have eq: "[Suc 0..<Suc n] = [Suc 0..<n] @ [n]"
      by simp
    let ?s = "s\<lparr>mem_map := (\<lambda>q. if p < q \<and> q < p + n then tail_cleared (mem_map s q) else mem_map s q)\<rparr>"
    have "foldl (destroy_compound_tail c p) (0, s) [Suc 0..<n] = (0, ?s)"
      using Suc by simp
    moreover have "PageTail ?s (p + n) \<and> first_page (mem_map ?s (p + n)) = p"
      using Suc.prems [of n] False by (simp add: PageTail_def)
    ultimately have "foldl (destroy_compound_tail c p) (0, s) [Suc 0..<Suc n] = (0, clear_flag PG_tail (p + n) ?s)"
      unfolding eq by (simp add: destroy_compound_tail_def [of c p])
    moreover have "clear_flag PG_tail (p + n) ?s =
        s\<lparr>mem_map := (\<lambda>q. if p < q \<and> q < p + Suc n then tail_cleared (mem_map s q) else mem_map s q)\<rparr>"
      using False by (auto simp: clear_flag_def upd_page_def tail_cleared_def fun_eq_iff intro!: mm.equality)
    ultimately show ?thesis
      by simp
  qed (auto intro!: mm.equality simp: fun_eq_iff)
qed (auto intro!: mm.equality simp: fun_eq_iff)

definition prepped :: "nat \<Rightarrow> nat \<Rightarrow> (nat \<Rightarrow> page) \<Rightarrow> nat \<Rightarrow> page" where
  "prepped p ord m q =
     (let g = (if q = p + 1 then (m q)\<lparr>lru_next_dtor := Free_compound_page, lru_prev_order := ord\<rparr> else m q)
      in if q = p then g\<lparr>flags := insert PG_head (flags g)\<rparr>
         else if q \<in> blk p ord then tail_made p g else g)"

lemma prep_compound_page_map:
  assumes "ord \<noteq> 0"
  shows "mem_map (prep_compound_page p ord s) = prepped p ord (mem_map s)"
  by (auto simp: prep_compound_page_def prep_tails prepped_def set_flag_def set_compound_order_def
      set_compound_page_dtor_def upd_page_def fun_eq_iff Let_def)

lemma prep_compound_page_reads:
  assumes o: "ord \<noteq> 0" and clean: "\<And>q. q \<in> blk p ord \<Longrightarrow> \<not> PageCompound s q"
  shows "compound_order (prep_compound_page p ord s) p = ord"
    and "PageHead (prep_compound_page p ord s) p"
    and "q \<in> blk p ord \<Longrightarrow> compound_head (prep_compound_page p ord s) q = p"
    and "0 < i \<Longrightarrow> i < 2 ^ ord \<Longrightarrow> PageTail (prep_compound_page p ord s) (p + i)
      \<and> first_page (mem_map (prep_compound_page p ord s) (p + i)) = p"
proof -
  note m = prep_compound_page_map [OF o, of p s]
  have "(1::nat) < 2 ^ ord"
    using o by (metis one_less_numeral_iff one_less_power bot_nat_0.not_eq_extremum semiring_norm(76))
  then have "Suc p \<in> blk p ord"
    by auto
  then show "compound_order (prep_compound_page p ord s) p = ord"
    by (simp add: compound_order_def PageHead_def m prepped_def tail_made_def Let_def)
  show "PageHead (prep_compound_page p ord s) p"
    by (simp add: PageHead_def m prepped_def Let_def)
  show "compound_head (prep_compound_page p ord s) q = p" if "q \<in> blk p ord"
    using that clean [of p] by (auto simp: compound_head_def PageTail_def PageCompound_def m prepped_def tail_made_def Let_def)
  show "PageTail (prep_compound_page p ord s) (p + i)
      \<and> first_page (mem_map (prep_compound_page p ord s) (p + i)) = p" if "0 < i" "i < 2 ^ ord"
    using that by (auto simp: PageTail_def m prepped_def tail_made_def Let_def)
qed

lemma compound_roundtrip_lemma:
  assumes o: "ord \<noteq> 0" and clean: "\<And>q. q \<in> blk p ord \<Longrightarrow> \<not> PageCompound s q"
  shows "\<exists>s2. destroy_compound_page c p ord (prep_compound_page p ord s) = (0, s2)
    \<and> (\<forall>q. flags (mem_map s2 q) = flags (mem_map s q))"
proof -
  let ?s1 = "prep_compound_page p ord s"
  let ?s2 = "clear_flag PG_head p ?s1"
  have r: "compound_order ?s1 p = ord" "PageHead ?s1 p"
      "0 < i \<Longrightarrow> i < 2 ^ ord \<Longrightarrow> PageTail ?s1 (p + i) \<and> first_page (mem_map ?s1 (p + i)) = p" for i
    using prep_compound_page_reads(1,2,4) [of ord p s, OF o clean] by blast+
  have m2: "mem_map ?s2 q = (if q = p then (mem_map ?s1 p)\<lparr>flags := flags (mem_map ?s1 p) - {PG_head}\<rparr> else mem_map ?s1 q)" for q
    by (simp add: clear_flag_def upd_page_def)
  have t: "PageTail ?s2 (p + i) \<and> first_page (mem_map ?s2 (p + i)) = p" if "0 < i" "i < 2 ^ ord" for i
    using r(3) [OF that] that by (simp add: PageTail_def m2)
  let ?s3 = "?s2\<lparr>mem_map := (\<lambda>q. if p < q \<and> q < p + 2 ^ ord then tail_cleared (mem_map ?s2 q) else mem_map ?s2 q)\<rparr>"
  have "destroy_compound_page c p ord ?s1 = (0, ?s3)"
    using r(1,2) destroy_tails [of "2 ^ ord" ?s2 p c, OF t] by (simp add: destroy_compound_page_def)
  moreover have "flags (mem_map ?s3 q) = flags (mem_map s q)" for q
  proof -
    have "PG_head \<notin> flags (mem_map s p)"
      using clean [of p] by (simp add: PageCompound_def PageHead_def)
    moreover have "PG_tail \<notin> flags (mem_map s q)" if "p < q" "q < p + 2 ^ ord"
      using clean [of q] that by (simp add: PageCompound_def PageTail_def)
    ultimately show ?thesis
      by (auto simp: m2 prep_compound_page_map [OF o] prepped_def tail_made_def tail_cleared_def Let_def)
  qed
  ultimately show ?thesis
    by blast
qed

section \<open>Bad-page reports\<close>

lemma bad_page_burst_lemma:
  assumes "1 \<le> nr_shown l" and "nr_shown l \<le> 60" and "\<forall>now \<in> set ts. time_before now (resume l)"
  shows "printed (foldl (\<lambda>l now. bad_page_report c now l) l ts) + nr_shown l \<le> printed l + 60
    \<and> printed (foldl (\<lambda>l now. bad_page_report c now l) l ts) = printed l + min (60 - nr_shown l) (length ts)"
  using assms
proof (induction ts arbitrary: l)
  case (Cons now ts)
  let ?l = "bad_page_report c now l"
  show ?case
  proof (cases "nr_shown l = 60")
    case True
    then have "nr_shown ?l = nr_shown l" "printed ?l = printed l" "resume ?l = resume l"
      using Cons.prems by (simp_all add: bad_page_report_def)
    then show ?thesis
      using Cons.IH [of ?l] Cons.prems True by simp
  next
    case False
    then have "nr_shown ?l = nr_shown l + 1" "printed ?l = printed l + 1" "resume ?l = resume l"
      using Cons.prems by (simp_all add: bad_page_report_def Let_def)
    then show ?thesis
      using Cons.IH [of ?l] Cons.prems False by auto
  qed
qed simp

end
