(* ===== verification/Mm_Props.thy ===== *)
theory Mm_Props
  imports Mm_Example Compound
begin

text \<open>
  The properties of the page allocator, from the buddy system up to \<open>\<^verbatim>\<open>__alloc_pages_nodemask\<close>\<close>,
  each with an instance on the example machine.
\<close>

section \<open>The buddy system\<close>

text \<open>
  C1. \<open>\<^verbatim>\<open>__free_one_page\<close>\<close> on a block that is not on the free lists (aligned, of one zone, not
  compound): the lists stay well formed (aligned disjoint blocks, each marked with its order,
  counted by \<open>nr_free\<close>), no two buddies of an order below the top are free afterwards, exactly the
  pages of the block join the free pages, and no other zone changes.
\<close>

theorem free_one_page_coalesces:
  assumes "lists_wf c s z" and "coalesced c s z" and "in_hand c s z p ord"
    and "t < MIGRATE_TYPES" and "\<not> PageCompound s p"
  shows "lists_wf c (uu_free_one_page c p z ord t s) z
    \<and> coalesced c (uu_free_one_page c p z ord t s) z
    \<and> free_pfns (uu_free_one_page c p z ord t s) z = blk p ord \<union> free_pfns s z
    \<and> (\<forall>z' r u. z' \<noteq> z \<longrightarrow> fl (uu_free_one_page c p z ord t s) z' r u = fl s z' r u)"
  using free_block_ok [OF assms] by (simp add: buddy_frame_def)

theorem free_one_page_coalesces_witness:
  "free_pfns (uu_free_one_page cfg0 2 0 0 2 mm1) 0 = {2} \<union> {4..<8}"
  using free_one_page_coalesces [of cfg0 mm1 0 2 0 2] mm1_lists
  by (auto simp: in_hand_def block_ok_def mm1_reads mm1_free)

text \<open>
  C2. \<open>\<^verbatim>\<open>__rmqueue\<close>\<close> never reaches its \<open>BUG_ON\<close>, whatever it has to steal from other migrate
  types: it returns an aligned block of the order asked for, takes exactly its pages from the free
  pages and keeps the lists well formed and coalesced, or it returns no page, changes nothing, and
  every list of sufficient order of every type it may use is empty.
\<close>

theorem rmqueue_takes_or_empty:
  assumes "lists_wf c s z" and "coalesced c s z" and "zone_span s z" and "t < MIGRATE_TYPES"
  shows "(\<exists>p s'. uu_rmqueue c z ord t s = Some (Some p, s') \<and> lists_wf c s' z \<and> coalesced c s' z
      \<and> 2 ^ ord dvd p \<and> blk p ord \<inter> free_pfns s' z = {} \<and> free_pfns s z = blk p ord \<union> free_pfns s' z)
    \<or> (uu_rmqueue c z ord t s = Some (None, s)
      \<and> (\<forall>r u. ord \<le> r \<longrightarrow> r < MAX_ORDER c \<longrightarrow> usable_type t u \<longrightarrow> fl s z r u = []))"
  using rmqueue_cases [OF assms, of ord]
proof (elim disjE exE conjE)
  fix p s' assume "uu_rmqueue c z ord t s = Some (Some p, s')" and "taken_ok c z ord s p s'"
  then show ?thesis
    unfolding taken_ok_def in_hand_def block_ok_def by blast
qed blast

theorem rmqueue_takes_or_empty_witness:
  "\<exists>p s'. uu_rmqueue cfg0 0 1 0 mm1 = Some (Some p, s') \<and> blk p 1 \<subseteq> {4..<8}"
proof -
  obtain p s' where "uu_rmqueue cfg0 0 1 0 mm1 = Some (Some p, s')"
    using mm1_rmqueue [of 0 1] by auto
  then show ?thesis
    using rmqueue_takes_or_empty [OF mm1_lists, of 0 1] by (auto simp: mm1_free)
qed

text \<open>
  C22. Blocks may be freed in any order: two disjoint blocks that are both in hand lead to the same
  decomposition of the zone into free blocks, whichever is freed first.
\<close>

theorem frees_commute:
  assumes "pool_inv c z s" and "t < MIGRATE_TYPES" and "u < MIGRATE_TYPES"
    and "usable_block c z s p m" and "blk p m \<inter> free_pfns s z = {}"
    and "usable_block c z s q n" and "blk q n \<inter> free_pfns s z = {}" and "blk p m \<inter> blk q n = {}"
  shows "free_blocks (uu_free_one_page c p z m t (uu_free_one_page c q z n u s)) z
    = free_blocks (uu_free_one_page c q z n u (uu_free_one_page c p z m t s)) z"
  using buddy.gives_commute [of c z s t u p m q n] assms by simp

theorem frees_commute_witness:
  "free_blocks (uu_free_one_page cfg0 0 0 0 2 (uu_free_one_page cfg0 1 0 0 2 mm1)) 0
    = free_blocks (uu_free_one_page cfg0 1 0 0 2 (uu_free_one_page cfg0 0 0 0 2 mm1)) 0"
  using frees_commute [OF mm1_pool, of 2 2 0 0 1 0]
  by (simp add: usable_block_def block_ok_def mm1_reads mm1_free)

text \<open>
  C6. Every history of allocations and frees of a zone, of any orders and migrate types, in which
  only blocks that were handed out are freed: the blocks in use are aligned, pairwise disjoint and
  disjoint from the free pages, together with the free pages they are the pages the zone started
  with, and when everything has been freed the zone is cut into the blocks it started with.
\<close>

theorem zone_history_safe:
  assumes "zone_history c z s0 s held" and "pool_inv c z s0"
  shows "pool_inv c z s \<and> free_pfns s0 z = free_pfns s z \<union> (\<Union>(p, ord) \<in> held. blk p ord)
    \<and> (\<forall>(p, ord) \<in> held. 2 ^ ord dvd p \<and> blk p ord \<inter> free_pfns s z = {})
    \<and> pairwise (\<lambda>(p, m) (q, n). blk p m \<inter> blk q n = {}) held
    \<and> (held = {} \<longrightarrow> free_blocks s z = free_blocks s0 z)"
proof -
  note h = zone_history_pool [OF assms(1)]
  note i = buddy.history_inv [OF h assms(2)]
  have "\<forall>(p, ord) \<in> held. 2 ^ ord dvd p \<and> blk p ord \<inter> free_pfns s z = {}"
    using i by (auto simp: usable_block_def block_ok_def)
  moreover have "held = {} \<longrightarrow> free_blocks s z = free_blocks s0 z"
    using buddy.history_drained [OF _ assms(2)] h by blast
  ultimately show ?thesis
    using i by blast
qed

theorem zone_history_safe_witness:
  "\<exists>s p. zone_history cfg0 0 mm1 s {(p, 0)} \<and> {4..<8} = free_pfns s 0 \<union> {p}"
proof -
  obtain p s where "uu_rmqueue cfg0 0 0 2 mm1 = Some (Some p, s)"
    using mm1_rmqueue [of 2 0] by auto
  then have h: "zone_history cfg0 0 mm1 s {(p, 0)}"
    using zone_history.zh_take [OF zone_history.zh_start, of 2 cfg0 0 0 mm1 p s] by simp
  then show ?thesis
    using zone_history_safe [OF h mm1_pool] by (auto simp: mm1_free)
qed

text \<open>
  The counters count: in a well-formed zone the number of free pages is the sum over the orders
  of \<open>nr_free << order\<close>, which is what /proc/buddyinfo and the watermark test read.
\<close>

theorem nr_free_counts_pages:
  assumes "lists_wf c s z"
  shows "int (card (free_pfns s z)) = (\<Sum>ord<MAX_ORDER c. nf s z ord * 2 ^ ord)"
  using assms by (rule card_free_pfns)

theorem nr_free_counts_pages_witness:
  "int (card (free_pfns mm1 0)) = 4"
  using nr_free_counts_pages [OF mm1_lists(1)] by (simp add: mm1_reads eval_nat_numeral)

section \<open>Per-cpu lists\<close>

text \<open>
  C26. \<open>free_pcppages_bulk\<close> asked for at most the pages that are parked returns (its search never
  spins), moves exactly that many pages from the cpu's lists to the free lists, loses none, keeps
  the zone's invariant, and leaves \<open>NR_FREE_PAGES\<close> equal to the number of free pages if it was.
\<close>

theorem free_pcppages_bulk_moves:
  assumes "zone_ok c s z" and "0 \<le> n" and "n \<le> int (length (pcp_pages s z cpu))"
  shows "\<exists>s'. free_pcppages_bulk c z n cpu s = Some s' \<and> zone_ok c s' z
    \<and> int (length (pcp_pages s' z cpu)) = int (length (pcp_pages s z cpu)) - n
    \<and> avail s' z = avail s z \<and> (nr_free_counted s' z \<longleftrightarrow> nr_free_counted s z)
    \<and> free_pfns s z \<subseteq> free_pfns s' z"
proof -
  obtain s' where s': "free_pcppages_bulk c z n cpu s = Some s'" "bulk_freed c z cpu n s s'"
    using free_pcppages_bulk_ok [OF assms] by blast
  note b = bulk_freed_counts [OF assms(1) s'(2)]
  have "zone_ok c s' z" "free_pfns s z \<subseteq> free_pfns s' z"
      "int (length (pcp_pages s' z cpu)) = int (length (pcp_pages s z cpu)) - n"
    using s'(2) by (auto simp: bulk_freed_def)
  then show ?thesis
    using s'(1) b by blast
qed

theorem free_pcppages_bulk_moves_witness:
  "\<exists>s'. free_pcppages_bulk cfg0 0 1 0 mm1 = Some s' \<and> pcp_pages s' 0 0 = [] \<and> avail s' 0 = {3..<8}"
  using free_pcppages_bulk_moves [of cfg0 mm1 0 1 0] mm1_inv by (auto simp: zone_inv_def mm1_pcp)

text \<open>
  C27. \<open>drain_all_pages\<close> returns and, in every populated zone, leaves the lists of the cpus it visits
  empty and those of the others alone, with every available page still available and both counters
  (\<open>pcp->count\<close>, \<open>NR_FREE_PAGES\<close>) right.
\<close>

theorem drain_all_pages_empties:
  assumes "distinct zs" and "\<forall>z \<in> set zs. zone_inv c s z"
  shows "\<exists>s'. drain_all_pages c zs cpus s = Some s' \<and> (\<forall>z \<in> set zs. zone_inv c s' z \<and> avail s' z = avail s z
    \<and> (\<forall>cpu. present_pages (zones s z) \<noteq> 0 \<longrightarrow>
          pcp_pages s' z cpu = (if cpu \<in> set cpus then [] else pcp_pages s z cpu)))"
  using drain_all_pages_ok [OF assms, of cpus] by blast

theorem drain_all_pages_empties_witness:
  "\<exists>s'. drain_all_pages cfg0 [0] [0, 1] mm1 = Some s' \<and> pcp_pages s' 0 0 = [] \<and> avail s' 0 = {3..<8}"
  using drain_all_pages_empties [of "[0]" cfg0 mm1 "[0, 1]"] mm1_inv by (auto simp: mm1_reads mm1_pcp)

text \<open>
  \<open>free_hot_cold_page\<close> on a page that passes \<open>free_pages_check\<close> and is nowhere on the lists
  returns, makes exactly this page available (on a cpu list or, for an isolated block or after a
  batch is drained, on the free lists), and keeps the zone's invariant and its counters.
\<close>

theorem free_hot_cold_page_parks:
  assumes "zone_inv c s (page_zone s p)" and "freeable c s p" and "p \<notin> avail s (page_zone s p)"
    and "get_pageblock_migratetype c s p < MIGRATE_TYPES"
    and "0 \<le> pcp_batch (pageset (zones s (page_zone s p)) cpu)"
    and "pcp_batch (pageset (zones s (page_zone s p)) cpu) \<le> max 1 (pcp_high (pageset (zones s (page_zone s p)) cpu))"
  shows "\<exists>s'. free_hot_cold_page c cpu p cold s = Some s' \<and> zone_inv c s' (page_zone s p)
    \<and> avail s' (page_zone s p) = insert p (avail s (page_zone s p))"
  using assms by (rule free_hot_cold_page_ok)

lemma mm1_type: "get_pageblock_migratetype cfg0 mm1 2 = 0"
  by (simp add: get_pageblock_migratetype_def get_pageblock_flags_group_def Let_def get_pageblock_bitmap_def
      get_flags_loop.simps mm1_defs)

theorem free_hot_cold_page_parks_witness:
  "\<exists>s'. free_hot_cold_page cfg0 0 2 False mm1 = Some s' \<and> avail s' 0 = {2..<8}"
proof -
  have "freeable cfg0 mm1 2"
    by (simp add: freeable_def usable_block_def block_ok_def mm1_reads) (simp add: mm1_defs)
  then have "\<exists>s'. free_hot_cold_page cfg0 0 2 False mm1 = Some s' \<and> avail s' 0 = insert 2 {3..<8}"
    using free_hot_cold_page_parks [of cfg0 mm1 2 0 False] mm1_inv by (auto simp: mm1_reads mm1_pcp mm1_type)
  moreover have "insert 2 {3..<8} = {2..<8::nat}"
    by auto
  ultimately show ?thesis
    by simp
qed

section \<open>Allocating\<close>

text \<open>
  C10. \<open>buffered_rmqueue\<close> always returns, although it retries for as long as \<open>prep_new_page\<close>
  rejects what it finds, and keeps the zone's invariant; a page it returns heads an aligned block
  of pages that were available, no longer are, and it has reference count one.
\<close>

theorem buffered_rmqueue_returns:
  assumes "zone_inv c s z" and "t < MIGRATE_PCPTYPES"
  shows "\<exists>r s'. buffered_rmqueue c cpu z ord gfp_flags t s = Some (r, s') \<and> zone_inv c s' z
    \<and> (\<forall>p. r = Some p \<longrightarrow> 2 ^ ord dvd p \<and> blk p ord \<subseteq> avail s z \<and> blk p ord \<inter> avail s' z = {}
         \<and> pg_count (mem_map s' p) = 1)"
  using buffered_rmqueue_ok [OF assms, of cpu ord gfp_flags] unfolding alloc_ok_def by blast

theorem buffered_rmqueue_returns_witness:
  "\<exists>r s'. buffered_rmqueue cfg0 1 0 0 {GFP_COLD} 0 mm1 = Some (r, s') \<and> zone_inv cfg0 s' 0"
  using buffered_rmqueue_returns [OF mm1_inv, of 0 1 0 "{GFP_COLD}"] by auto

text \<open>
  C12. \<open>zone_watermark_ok\<close> means what it promises: when it accepts a request in a zone whose counters
  are right and that has no isolated free pages, \<open>\<^verbatim>\<open>__rmqueue\<close>\<close> finds a block of that order.
\<close>

theorem watermark_ok_finds_block:
  assumes "zone_inv c s z" and "zone_watermark_ok (zones s z) ord mark classzone_idx alloc_flags"
    and "ord < MAX_ORDER c" and "t < MIGRATE_PCPTYPES" and "\<forall>r. fl s z r MIGRATE_ISOLATE = []"
  shows "\<exists>p s'. uu_rmqueue c z ord t s = Some (Some p, s') \<and> blk p ord \<subseteq> free_pfns s z"
  using watermark_ok_alloc [OF assms] unfolding taken_ok_def by blast

theorem watermark_ok_finds_block_witness:
  "zone_watermark_ok (zones mm1 0) 1 1 0 0 \<and> (\<exists>p s'. uu_rmqueue cfg0 0 1 0 mm1 = Some (Some p, s'))"
proof -
  have "zone_watermark_ok (zones mm1 0) 1 1 0 0"
    by (simp add: zone_watermark_ok_def watermark_min_def Let_def mm1_defs)
  then show ?thesis
    using watermark_ok_finds_block [OF mm1_inv, of 1 1 0 0 0] by (auto simp: mm1_reads)
qed

text \<open>
  C9. \<open>\<^verbatim>\<open>__alloc_pages_nodemask\<close>\<close> returns for every request that does not ask for success at any
  price and either may not sleep or asks not to retry, provided the code around the allocator
  (reclaim, the OOM killer, kswapd, cpusets) leaves well-formed zones behind: all zones are then
  well formed, and a page it returns heads an aligned block of one zone, of which no page is on any
  list, with reference count one.
\<close>

theorem alloc_pages_terminates:
  assumes "env_keeps e c Z" and "fst ` set zl \<subseteq> Z" and "allocflags_to_migratetype e gfp_mask < MIGRATE_PCPTYPES"
    and "inv_all c Z s" and "distinct (all_zones e)" and "set (all_zones e) = Z"
    and "GFP_NOFAIL \<notin> gfp_mask" and "GFP_WAIT \<notin> gfp_mask \<or> GFP_NORETRY \<in> gfp_mask \<inter> gfp_allowed_mask e"
  shows "\<exists>r s'. uu_alloc_pages_nodemask e c cpu gfp_mask ord zl s = Some (r, s')
    \<and> inv_all c Z s' \<and> page_given c Z ord r s'"
  using assms by (rule alloc_pages_returns)

definition env0 :: alloc_env where
  "env0 = \<lparr>cpuset_zone_allowed_softwall = (\<lambda>_ _. True), zone_reclaim_mode = False,
     zone_reclaim = (\<lambda>_ _ _ s. (ZONE_RECLAIM_FULL, s)), try_to_free_pages = (\<lambda>_ _ s. (0, s)),
     try_set_zone_oom = (\<lambda>_. True), out_of_memory = id, congestion_wait = id, wakeup_kswapd = (\<lambda>_ _. id),
     kcached_run = id, rt_task = False, in_interrupt = False, PF_MEMALLOC = False, TIF_MEMDIE = False,
     oom_killer_disabled = False, gfp_allowed_mask = UNIV, gfp_zone = (\<lambda>_. 1),
     allocflags_to_migratetype = (\<lambda>_. 0), all_zones = [0], all_cpus = [0]\<rparr>"

theorem alloc_pages_terminates_witness:
  "\<exists>r s'. uu_alloc_pages_nodemask env0 cfg0 0 {GFP_HIGH} 1 [(0, 0)] mm1 = Some (r, s') \<and> inv_all cfg0 {0} s'"
proof -
  have "env_keeps env0 cfg0 {0}"
    by (simp add: env_keeps_def env0_def)
  moreover have "inv_all cfg0 {0} mm1"
    using mm1_inv by (simp add: inv_all_def)
  ultimately show ?thesis
    using alloc_pages_terminates [of env0 cfg0 "{0}" "[(0, 0)]" "{GFP_HIGH}" mm1 0 1]
    by (auto simp: env0_def)
qed

text \<open>
  C11. Requests of up to \<open>PAGE_ALLOC_COSTLY_ORDER\<close> that may sleep and do not forbid retries are never
  refused: whenever \<open>\<^verbatim>\<open>__alloc_pages_nodemask\<close>\<close> returns to a task that is neither reclaiming nor
  being killed, with the OOM killer enabled and a zone to allocate from, it returns a page.
\<close>

theorem small_alloc_never_fails:
  assumes "patient e (gfp_mask \<inter> gfp_allowed_mask e) ord" and "ord < MAX_ORDER c"
    and "\<exists>z \<in> set zl. snd z \<le> gfp_zone e gfp_mask"
    and "uu_alloc_pages_nodemask e c cpu gfp_mask ord zl s = Some (r, s')"
  shows "r \<noteq> None"
  using assms by (rule alloc_pages_no_fail)

definition env1 :: alloc_env where
  "env1 = env0\<lparr>allocflags_to_migratetype := (\<lambda>_. MIGRATE_MOVABLE)\<rparr>"

lemma mm1_small_alloc:
  "\<exists>s'. uu_alloc_pages_nodemask env1 cfg0 0 {GFP_WAIT} 0 [(0, 0)] mm1 = Some (Some 3, s')"
proof -
  let ?s1 = "add_pcp_count 0 0 (-1) (set_pcp_list 0 0 2 [] mm1)"
  let ?g = "{GFP_HARDWALL, GFP_WAIT}"
  have tz: "try_zone env1 ?g 0 0 0 (0x01 OR 0x40) mm1 = (True, mm1)"
    by (simp add: try_zone_def env1_def env0_def zone_watermark_ok_def watermark_min_def Let_def mm1_defs)
  have q: "rmqueue_pcp cfg0 0 0 (GFP_COLD \<in> ?g) 2 mm1 = Some (Some 3, ?s1)"
    by (simp add: rmqueue_pcp_def mm1_reads)
  have "mem_map ?s1 3 = (page_empty 0)\<lparr>pg_private := 2\<rparr>"
    by (simp add: add_pcp_count_def set_pcp_list_def proj_simps) (simp add: mm1_def)
  then have "\<exists>s3. prep_new_page cfg0 3 0 (GFP_ZERO \<in> ?g) (GFP_COMP \<in> ?g) (?s1\<lparr>ev_pgalloc := ev_pgalloc ?s1 + 2 ^ 0\<rparr>) = (False, s3)"
    by (simp add: prep_new_page_def check_new_page_def Let_def page_empty_def)
  then have "\<exists>s3. buffered_rmqueue cfg0 0 0 0 ?g 2 mm1 = Some (Some 3, s3)"
    using q by (subst buffered_rmqueue.simps) (auto simp: Let_def)
  then show ?thesis
    using tz by (auto simp: uu_alloc_pages_nodemask_def get_page_from_freelist_def for_each_zone_zonelist_def
        env1_def env0_def Let_def)
qed

theorem small_alloc_never_fails_witness:
  "\<exists>r s'. uu_alloc_pages_nodemask env1 cfg0 0 {GFP_WAIT} 0 [(0, 0)] mm1 = Some (r, s') \<and> r \<noteq> None"
proof -
  obtain r s' where r: "uu_alloc_pages_nodemask env1 cfg0 0 {GFP_WAIT} 0 [(0, 0)] mm1 = Some (r, s')"
    using mm1_small_alloc by blast
  have "r \<noteq> None"
    by (rule small_alloc_never_fails [OF _ _ _ r]) (simp_all add: patient_def env1_def env0_def)
  with r show ?thesis
    by blast
qed

section \<open>Compound and bad pages\<close>

text \<open>
  Setting up a compound page makes every page of the block lead to its head and records the
  order there; tearing it down finds nothing bad and puts every flag back.
\<close>

theorem compound_page_roundtrip:
  assumes "ord \<noteq> 0" and "\<And>q. q \<in> blk p ord \<Longrightarrow> \<not> PageCompound s q"
  shows "(\<forall>q \<in> blk p ord. compound_head (prep_compound_page p ord s) q = p)
    \<and> compound_order (prep_compound_page p ord s) p = ord
    \<and> (\<exists>s2. destroy_compound_page c p ord (prep_compound_page p ord s) = (0, s2)
         \<and> (\<forall>q. flags (mem_map s2 q) = flags (mem_map s q)))"
  using compound_roundtrip_lemma [OF assms] prep_compound_page_reads(1,3) [OF assms] by blast

theorem compound_page_roundtrip_witness:
  "compound_head (prep_compound_page 4 2 mm1) 6 = 4
   \<and> (\<exists>s2. destroy_compound_page cfg0 4 2 (prep_compound_page 4 2 mm1) = (0, s2))"
  using compound_page_roundtrip [of 2 4 mm1 cfg0] by (auto simp: mm1_reads)

text \<open>
  A burst of bad pages is reported at most sixty times: once a burst has started, the calls of
  \<open>bad_page\<close> before the minute is over print exactly until sixty reports are out, and no more.
\<close>

theorem bad_page_burst:
  assumes "1 \<le> nr_shown l" and "nr_shown l \<le> 60" and "\<forall>now \<in> set ts. time_before now (resume l)"
  shows "printed (foldl (\<lambda>l now. bad_page_report c now l) l ts)
    = printed l + min (60 - nr_shown l) (length ts)"
  using bad_page_burst_lemma [OF assms] by simp

theorem bad_page_burst_witness:
  "printed (foldl (\<lambda>l now. bad_page_report cfg0 now l)
     \<lparr>resume = 6000, nr_shown = 59, nr_unshown = 0, printed = 59\<rparr> [10, 20, 30]) = 60"
  using bad_page_burst [of "\<lparr>resume = 6000, nr_shown = 59, nr_unshown = 0, printed = 59\<rparr>" "[10, 20, 30]" cfg0]
  by (simp add: time_before_def)

end
