(* ===== verification/Drop_Caches.thy ===== *)
theory Drop_Caches
  imports Kd_Prelude "HOL-Library.Word" "HOL-Library.Sublist"
begin

text \<open>
  Dropping the page cache (fs/drop_caches.c): the walk over super blocks and inodes, the shrinking of the slab caches, the
  sysctl and the thread \<open>kcached\<close> that the page allocator wakes up when an allocation fails.
\<close>

section \<open>Inodes of a super block\<close>

text \<open>
  \<open>i_busy\<close> tells whether one of the bits \<open>I_FREEING\<close>, \<open>I_CLEAR\<close>, \<open>I_WILL_FREE\<close> and \<open>I_NEW\<close> is set. The parameter \<open>inval\<close> gives the pages
  that \<open>invalidate_mapping_pages\<close> leaves of an inode's mapping (dirty, locked or mapped ones). Nobody else works on the inodes while
  the walk has given up the lock.
\<close>

record inode =
  i_busy :: bool
  i_nrpages :: nat
  i_count :: int

definition iget :: "nat \<Rightarrow> inode list \<Rightarrow> inode list" where
  "iget i xs = xs[i := (xs ! i)\<lparr>i_count := i_count (xs ! i) + 1\<rparr>]"

fun iput :: "nat option \<Rightarrow> inode list \<Rightarrow> inode list" where
  "iput None xs = xs"
| "iput (Some i) xs = xs[i := (xs ! i)\<lparr>i_count := i_count (xs ! i) - 1\<rparr>]"

definition invalidate_at :: "(inode \<Rightarrow> nat) \<Rightarrow> nat \<Rightarrow> inode list \<Rightarrow> inode list" where
  "invalidate_at inval i xs = xs[i := (xs ! i)\<lparr>i_nrpages := inval (xs ! i)\<rparr>]"

text \<open>The loop, with the positions that are still to come. The inode before is put only after the next one was taken.\<close>

fun drop_inodes :: "(inode \<Rightarrow> nat) \<Rightarrow> nat option \<Rightarrow> nat list \<Rightarrow> inode list \<Rightarrow> inode list" where
  "drop_inodes inval toput [] xs = iput toput xs"
| "drop_inodes inval toput (i # is) xs =
     (if i_busy (xs ! i) then drop_inodes inval toput is xs
      else if i_nrpages (xs ! i) = 0 then drop_inodes inval toput is xs
      else drop_inodes inval (Some i) is (iput toput (invalidate_at inval i (iget i xs))))"

definition drop_pagecache_sb :: "(inode \<Rightarrow> nat) \<Rightarrow> inode list \<Rightarrow> inode list" where
  "drop_pagecache_sb inval xs = drop_inodes inval None [0..<length xs] xs"

section \<open>Super blocks\<close>

record super_block =
  s_count :: int
  s_root :: bool
  s_inodes :: "inode list"

text \<open>One super block, pinned by its count during the walk.\<close>

definition drop_one_super :: "(inode \<Rightarrow> nat) \<Rightarrow> super_block \<Rightarrow> super_block" where
  "drop_one_super inval sb =
     (let sb1 = sb\<lparr>s_count := s_count sb + 1\<rparr>;
          sb2 = (if s_root sb1 then sb1\<lparr>s_inodes := drop_pagecache_sb inval (s_inodes sb1)\<rparr> else sb1)
      in sb2\<lparr>s_count := s_count sb2 - 1\<rparr>)"

text \<open>
  The list of super blocks from position \<open>pos\<close> on, at the \<open>k\<close>-th visit. \<open>dies k\<close> tells whether that super block was taken off the list
  meanwhile: then \<open>__put_super_and_need_restart\<close> has the walk start again.
\<close>

function drop_supers :: "(inode \<Rightarrow> nat) \<Rightarrow> (nat \<Rightarrow> bool) \<Rightarrow> nat \<Rightarrow> nat \<Rightarrow> super_block list \<Rightarrow> super_block list" where
  "drop_supers inval dies k pos sbs =
     (if pos < length sbs then
        if dies k then drop_supers inval dies (k + 1) 0 (take pos sbs @ drop (pos + 1) sbs)
        else drop_supers inval dies (k + 1) (pos + 1) (sbs[pos := drop_one_super inval (sbs ! pos)])
      else sbs)"
  by pat_completeness auto
termination
  by (relation "measures [\<lambda>(inval, dies, k, pos, sbs). length sbs, \<lambda>(inval, dies, k, pos, sbs). length sbs - pos]") auto

declare drop_supers.simps [simp del]

definition drop_pagecache :: "(inode \<Rightarrow> nat) \<Rightarrow> (nat \<Rightarrow> bool) \<Rightarrow> super_block list \<Rightarrow> super_block list" where
  "drop_pagecache inval dies = drop_supers inval dies 0 0"

section \<open>Slab caches\<close>

text \<open>\<open>shrink\<close> is \<open>shrink_slab(1000, GFP_KERNEL, 1000)\<close>: the number of objects it freed and the caches after it.\<close>

partial_function (option) drop_slab :: "('s \<Rightarrow> int \<times> 's) \<Rightarrow> 's \<Rightarrow> 's option" where
  "drop_slab shrink s = (case shrink s of (nr_objects, s') \<Rightarrow> if nr_objects > 10 then drop_slab shrink s' else Some s')"

section \<open>The sysctl and the thread\<close>

text \<open>
  The completion that wakes the thread up counts the calls of \<open>kcached_run\<close> that have not been served, in an unsigned integer.
\<close>

record 's kcached =
  kc_done :: "32 word"
  kc_drop_caches :: int
  kc_supers :: "super_block list"
  kc_slab :: 's

text \<open>\<open>proc\<close> is what \<open>proc_dointvec_minmax\<close> makes of the variable.\<close>

definition drop_caches_sysctl_handler ::
  "(inode \<Rightarrow> nat) \<Rightarrow> (nat \<Rightarrow> bool) \<Rightarrow> ('s \<Rightarrow> int \<times> 's) \<Rightarrow> (int \<Rightarrow> int) \<Rightarrow> bool \<Rightarrow> 's kcached \<Rightarrow> (int \<times> 's kcached) option" where
  "drop_caches_sysctl_handler inval dies shrink proc is_write kc =
     (let kc1 = kc\<lparr>kc_drop_caches := proc (kc_drop_caches kc)\<rparr>;
          kc2 = (if is_write \<and> bit (kc_drop_caches kc1) 0 then kc1\<lparr>kc_supers := drop_pagecache inval dies (kc_supers kc1)\<rparr> else kc1)
      in if is_write \<and> bit (kc_drop_caches kc2) 1
         then map_option (\<lambda>s. (0, kc2\<lparr>kc_slab := s\<rparr>)) (drop_slab shrink (kc_slab kc2))
         else Some (0, kc2))"

definition kcached_run :: "'s kcached \<Rightarrow> int \<times> 's kcached" where
  "kcached_run kc = (0, kc\<lparr>kc_done := kc_done kc + 1\<rparr>)"

text \<open>
  What a round of \<open>kcached_mng\<close> comes to: the thread sleeps until the completion is signalled, the shrinking of the caches goes on
  for ever, or the round is done. \<open>sync\<close> is \<open>sys_sync\<close>.
\<close>

datatype 'a outcome = Sleeps | Runs_on | Round_done 'a

definition kcached_round ::
  "(super_block list \<Rightarrow> super_block list) \<Rightarrow> (inode \<Rightarrow> nat) \<Rightarrow> (nat \<Rightarrow> bool) \<Rightarrow> ('s \<Rightarrow> int \<times> 's) \<Rightarrow> 's kcached \<Rightarrow> 's kcached outcome" where
  "kcached_round sync inval dies shrink kc =
     (if kc_done kc = 0 then Sleeps
      else
        let kc1 = kc\<lparr>kc_done := kc_done kc - 1, kc_supers := drop_pagecache inval dies (sync (kc_supers kc))\<rparr>
        in (case drop_slab shrink (kc_slab kc1) of None \<Rightarrow> Runs_on | Some s \<Rightarrow> Round_done (kc1\<lparr>kc_slab := s\<rparr>)))"

definition kcached_init :: "int option \<Rightarrow> 's kcached \<Rightarrow> int \<times> 's kcached" where
  "kcached_init thread_error kc = (case thread_error of None \<Rightarrow> 0 | Some err \<Rightarrow> err, kc\<lparr>kc_done := 0\<rparr>)"

section \<open>The walk over inodes\<close>

text \<open>The reference: every inode that is not busy and has pages is invalidated once, while it is pinned.\<close>

definition drop_inode :: "(inode \<Rightarrow> nat) \<Rightarrow> inode \<Rightarrow> inode" where
  "drop_inode inval x =
     (if i_busy x \<or> i_nrpages x = 0 then x else x\<lparr>i_nrpages := inval (x\<lparr>i_count := i_count x + 1\<rparr>)\<rparr>)"

lemma length_iput [simp]: "length (iput toput xs) = length xs"
  by (cases toput) simp_all

text \<open>The loop with an inode in hand: putting it first gives the same.\<close>

lemma drop_inodes_map:
  assumes "k \<le> length xs" and "\<forall>j. toput = Some j \<longrightarrow> j < k"
  shows "drop_inodes inval toput [k..<length xs] xs = take k (iput toput xs) @ map (drop_inode inval) (drop k xs)"
  using assms
proof (induction "length xs - k" arbitrary: k toput xs)
  case 0
  then show ?case
    by simp
next
  case (Suc n)
  then have k: "k < length xs"
    by simp
  then have upt: "[k..<length xs] = k # [Suc k..<length xs]"
    by (simp add: upt_conv_Cons)
  have drop: "drop k xs = xs ! k # drop (Suc k) xs"
    using k by (simp add: Cons_nth_drop_Suc)
  show ?case
  proof (cases "i_busy (xs ! k) \<or> i_nrpages (xs ! k) = 0")
    case True
    have keep: "iput toput xs ! k = xs ! k"
      using Suc.prems(2) by (cases toput) auto
    have "drop_inodes inval toput [Suc k..<length xs] xs = take (Suc k) (iput toput xs) @ map (drop_inode inval) (drop (Suc k) xs)"
      using Suc.hyps(2) k Suc.prems by (intro Suc.hyps(1)) auto
    then show ?thesis
      using True k keep by (auto simp: upt drop take_Suc_conv_app_nth drop_inode_def)
  next
    case False
    define ys where "ys = iput toput (invalidate_at inval k (iget k xs))"
    have len: "length ys = length xs"
      by (simp add: ys_def invalidate_at_def iget_def)
    have "drop_inodes inval toput [k..<length xs] xs = drop_inodes inval (Some k) [Suc k..<length ys] ys"
      using False by (simp add: upt ys_def invalidate_at_def iget_def)
    also have "\<dots> = take (Suc k) (iput (Some k) ys) @ map (drop_inode inval) (drop (Suc k) ys)"
      using Suc.hyps(2) k len by (intro Suc.hyps(1)) auto
    also have "drop (Suc k) ys = drop (Suc k) xs"
      using Suc.prems(2) by (cases toput) (auto simp: ys_def invalidate_at_def iget_def)
    also have "take (Suc k) (iput (Some k) ys) = take k (iput toput xs) @ [drop_inode inval (xs ! k)]"
    proof -
      have "take k ys = take k (iput toput xs)"
        using Suc.prems(2) by (cases toput) (auto simp: ys_def invalidate_at_def iget_def take_update_swap list_update_beyond)
      moreover have "ys ! k = (xs ! k)\<lparr>i_count := i_count (xs ! k) + 1, i_nrpages := inval ((xs ! k)\<lparr>i_count := i_count (xs ! k) + 1\<rparr>)\<rparr>"
        using Suc.prems(2) k by (cases toput) (auto simp: ys_def invalidate_at_def iget_def)
      ultimately show ?thesis
        using False k len by (simp add: take_Suc_conv_app_nth drop_inode_def)
    qed
    finally show ?thesis
      by (simp add: drop)
  qed
qed

lemma drop_pagecache_sb_map: "drop_pagecache_sb inval xs = map (drop_inode inval) xs"
  using drop_inodes_map [of 0 xs None inval] by (simp add: drop_pagecache_sb_def)

section \<open>The walk over super blocks\<close>

text \<open>What the walk must leave as it was, and a super block without pages that could be dropped.\<close>

definition sb_refs :: "super_block \<Rightarrow> int \<times> bool \<times> (bool \<times> int) list" where
  "sb_refs sb = (s_count sb, s_root sb, map (\<lambda>x. (i_busy x, i_count x)) (s_inodes sb))"

definition sb_swept :: "super_block \<Rightarrow> bool" where
  "sb_swept sb \<longleftrightarrow> (s_root sb \<longrightarrow> (\<forall>x \<in> set (s_inodes sb). i_busy x \<or> i_nrpages x = 0))"

lemma drop_one_refs: "sb_refs (drop_one_super inval sb) = sb_refs sb"
  by (simp add: drop_one_super_def sb_refs_def drop_pagecache_sb_map Let_def drop_inode_def)

lemma drop_one_swept: "\<forall>x. inval x = 0 \<Longrightarrow> sb_swept (drop_one_super inval sb)"
  by (auto simp: drop_one_super_def sb_swept_def drop_pagecache_sb_map drop_inode_def Let_def)

lemma drop_supers_refs: "subseq (map sb_refs (drop_supers inval dies k pos sbs)) (map sb_refs sbs)"
proof (induction inval dies k pos sbs rule: drop_supers.induct)
  case (1 inval dies k pos sbs)
  have gone: "subseq (map sb_refs (take pos sbs @ drop (pos + 1) sbs)) (map sb_refs sbs)" if "pos < length sbs"
  proof -
    have "map sb_refs sbs = map sb_refs (take pos sbs) @ sb_refs (sbs ! pos) # map sb_refs (drop (pos + 1) sbs)"
      using arg_cong [OF id_take_nth_drop [OF that], of "map sb_refs"] by simp
    then show ?thesis
      by (simp add: list_emb_append_mono list_emb_Cons)
  qed
  have same: "map sb_refs (sbs[pos := drop_one_super inval (sbs ! pos)]) = map sb_refs sbs" if "pos < length sbs"
    using that list_update_id [of "map sb_refs sbs" pos] by (simp add: map_update drop_one_refs)
  show ?case
    using 1 gone same subseq_order.trans by (subst drop_supers.simps) auto
qed

lemma drop_supers_swept:
  "\<forall>x. inval x = 0 \<Longrightarrow> \<forall>i < pos. i < length sbs \<longrightarrow> sb_swept (sbs ! i)
   \<Longrightarrow> sb \<in> set (drop_supers inval dies k pos sbs) \<Longrightarrow> sb_swept sb"
proof (induction inval dies k pos sbs rule: drop_supers.induct)
  case (1 inval dies k pos sbs)
  show ?case
  proof (cases "pos < length sbs")
    case False
    then show ?thesis
      using "1.prems" by (subst (asm) drop_supers.simps) (auto simp: in_set_conv_nth)
  next
    case True
    have "\<forall>i < pos + 1. i < length sbs \<longrightarrow> sb_swept (sbs[pos := drop_one_super inval (sbs ! pos)] ! i)"
      using "1.prems"(1,2) True drop_one_swept by (simp add: nth_list_update less_Suc_eq)
    then show ?thesis
      using "1.IH"(1) [OF True _ "1.prems"(1)] "1.IH"(2) [OF True _ "1.prems"(1)] "1.prems"(3) True
      by (cases "dies k") (simp_all add: drop_supers.simps [of inval dies k pos sbs])
  qed
qed

section \<open>The round of the thread\<close>

lemma drop_slab_ends:
  assumes "\<forall>s. int (objs (snd (shrink s))) + fst (shrink s) \<le> int (objs s)"
  shows "\<exists>s'. drop_slab shrink s = Some s'"
proof (induction "objs s" arbitrary: s rule: less_induct)
  case less
  show ?case
  proof (cases "fst (shrink s) > 10")
    case True
    then have "objs (snd (shrink s)) < objs s"
      using assms [rule_format, of s] by linarith
    then show ?thesis
      using less [of "snd (shrink s)"] True by (simp add: drop_slab.simps [of shrink s] split_beta)
  next
    case False
    then show ?thesis
      by (simp add: drop_slab.simps [of shrink s] split_beta)
  qed
qed

text \<open>
  C18. A wake-up of the thread \<open>kcached\<close> does its work and ends, when \<open>shrink_slab\<close> reports no more than it freed: the
  completion loses one count; the walk over the super blocks ends even when some of them go away and it starts
  again; no super block is added, and every one that is left has the reference counts it had, its own and those of its inodes; and if invalidation
  leaves nothing behind, no mounted super block has an inode with pages but those being set up or freed.
\<close>

theorem kcached_round_ends:
  assumes "kc_done kc \<noteq> 0" and "\<forall>s. int (objs (snd (shrink s))) + fst (shrink s) \<le> int (objs s)"
  shows "\<exists>kc'. kcached_round sync inval dies shrink kc = Round_done kc' \<and> kc_done kc' = kc_done kc - 1
    \<and> subseq (map sb_refs (kc_supers kc')) (map sb_refs (sync (kc_supers kc)))
    \<and> ((\<forall>x. inval x = 0) \<longrightarrow> (\<forall>sb \<in> set (kc_supers kc'). s_root sb \<longrightarrow> (\<forall>x \<in> set (s_inodes sb). i_busy x \<or> i_nrpages x = 0)))"
proof -
  obtain s' where "drop_slab shrink (kc_slab kc) = Some s'"
    using drop_slab_ends [OF assms(2)] by blast
  then have "kcached_round sync inval dies shrink kc =
      Round_done (kc\<lparr>kc_done := kc_done kc - 1, kc_supers := drop_pagecache inval dies (sync (kc_supers kc)), kc_slab := s'\<rparr>)"
    using assms(1) by (simp add: kcached_round_def)
  then show ?thesis
    using drop_supers_refs drop_supers_swept [of inval 0]
    by (simp add: drop_pagecache_def sb_swept_def)
qed

text \<open>Two super blocks, the first of which is unmounted during the walk, and fifty objects to shrink.\<close>

definition example_supers :: "super_block list" where
  "example_supers =
     [\<lparr>s_count = 1, s_root = True, s_inodes = []\<rparr>,
      \<lparr>s_count = 1, s_root = True, s_inodes = [\<lparr>i_busy = False, i_nrpages = 3, i_count = 0\<rparr>, \<lparr>i_busy = True, i_nrpages = 2, i_count = 1\<rparr>]\<rparr>]"

theorem kcached_round_ends_witness:
  "\<exists>kc'. kcached_round id (\<lambda>_. 0) (\<lambda>k. k = 0) (\<lambda>n :: nat. (int n, 0))
      \<lparr>kc_done = 1, kc_drop_caches = 0, kc_supers = example_supers, kc_slab = 50\<rparr> = Round_done kc'
    \<and> kc_done kc' = 0 \<and> subseq (map sb_refs (kc_supers kc')) (map sb_refs example_supers)"
  using kcached_round_ends [of "\<lparr>kc_done = 1, kc_drop_caches = 0, kc_supers = example_supers, kc_slab = 50\<rparr>" "\<lambda>n. n"
      "\<lambda>n :: nat. (int n, 0)" id "\<lambda>_. 0" "\<lambda>k. k = 0"]
  by auto

end
