(* ===== verification/Node_Map.thy ===== *)
theory Node_Map
  imports Kd_Prelude
begin

text \<open>
  The early map of physical memory (mm/page\_alloc.c, CONFIG\_ARCH\_POPULATES\_NODE\_MAP): the active
  regions an architecture registers at boot, the queries on them, and the sizes of the zones
  computed from them.

  \<open>early_node_map\<close> is a list whose length is \<open>nr_nodemap_entries\<close>. The capacity of the array, the
  number of nodes (whose value stands for any node) and the bounds of the zones, which the
  architecture sets, are arguments. Frame numbers are natural numbers; \<open>-1UL\<close> is \<open>2 ^ 32 - 1\<close>.
\<close>

section \<open>Regions\<close>

record region =
  rg_nid :: nat
  rg_start :: nat
  rg_end :: nat

abbreviation (input) "ULONG_MAX \<equiv> (4294967295 :: nat)"

text \<open>Subtraction of \<open>unsigned long\<close> values wraps where the code does not guard it.\<close>

definition ulong_sub :: "nat \<Rightarrow> nat \<Rightarrow> nat" where
  "ulong_sub a b = (a + 2 ^ 32 - b) mod 2 ^ 32"

lemma ulong_sub_le:
  assumes "b \<le> a" and "a < 2 ^ 32"
  shows "ulong_sub a b = a - b"
proof -
  have "ulong_sub a b = (a - b + 2 ^ 32) mod 2 ^ 32"
    unfolding ulong_sub_def by (simp only: Nat.add_diff_assoc2 [OF assms(1)])
  also have "\<dots> = (a - b) mod 2 ^ 32"
    by (rule mod_add_self2)
  also have "\<dots> = a - b"
    using assms(2) by (intro mod_less) (rule le_less_trans [OF diff_le_self])
  finally show ?thesis .
qed

definition nid_matches :: "nat \<Rightarrow> nat \<Rightarrow> region \<Rightarrow> bool" where
  "nid_matches max_numnodes nid g \<longleftrightarrow> nid = max_numnodes \<or> rg_nid g = nid"

fun next_region_from :: "nat \<Rightarrow> region list \<Rightarrow> nat \<Rightarrow> nat \<Rightarrow> int" where
  "next_region_from max_numnodes [] i nid = -1"
| "next_region_from max_numnodes (g # gs) i nid =
     (if nid_matches max_numnodes nid g then int i else next_region_from max_numnodes gs (i + 1) nid)"

definition first_active_region_index_in_nid :: "nat \<Rightarrow> region list \<Rightarrow> nat \<Rightarrow> int" where
  "first_active_region_index_in_nid max_numnodes m nid = next_region_from max_numnodes m 0 nid"

definition next_active_region_index_in_nid :: "nat \<Rightarrow> region list \<Rightarrow> int \<Rightarrow> nat \<Rightarrow> int" where
  "next_active_region_index_in_nid max_numnodes m index nid =
     next_region_from max_numnodes (drop (nat (index + 1)) m) (nat (index + 1)) nid"

fun uu_early_pfn_to_nid :: "region list \<Rightarrow> nat \<Rightarrow> int" where
  "uu_early_pfn_to_nid [] pfn = -1"
| "uu_early_pfn_to_nid (g # gs) pfn =
     (if rg_start g \<le> pfn \<and> pfn < rg_end g then int (rg_nid g) else uu_early_pfn_to_nid gs pfn)"

definition early_pfn_to_nid :: "region list \<Rightarrow> nat \<Rightarrow> int" where
  "early_pfn_to_nid m pfn =
     (let nid = uu_early_pfn_to_nid m pfn in if nid \<ge> 0 then nid else 0)"

definition early_pfn_in_nid :: "region list \<Rightarrow> nat \<Rightarrow> nat \<Rightarrow> bool" where
  "early_pfn_in_nid m pfn node =
     (let nid = uu_early_pfn_to_nid m pfn in if nid \<ge> 0 \<and> nid \<noteq> int node then False else True)"

text \<open>
  The macro \<open>for_each_active_range_index_in_nid\<close> visits the matching regions in order; a loop
  that does not change the map is a fold over them.
\<close>

definition regions_in_nid :: "nat \<Rightarrow> region list \<Rightarrow> nat \<Rightarrow> region list" where
  "regions_in_nid max_numnodes m nid = filter (nid_matches max_numnodes nid) m"

definition get_pfn_range_for_nid :: "nat \<Rightarrow> region list \<Rightarrow> nat \<Rightarrow> nat \<times> nat" where
  "get_pfn_range_for_nid max_numnodes m nid =
     (let (s, e) = foldl (\<lambda>(s, e) g. (min s (rg_start g), max e (rg_end g))) (ULONG_MAX, 0)
                     (regions_in_nid max_numnodes m nid)
      in (if s = ULONG_MAX then 0 else s, e))"

definition find_min_pfn_for_node :: "nat \<Rightarrow> region list \<Rightarrow> nat \<Rightarrow> nat" where
  "find_min_pfn_for_node max_numnodes m nid =
     (let mn = foldl (\<lambda>mn g. min mn (rg_start g)) ULONG_MAX (regions_in_nid max_numnodes m nid)
      in if mn = ULONG_MAX then 0 else mn)"

definition find_min_pfn_with_active_regions :: "nat \<Rightarrow> region list \<Rightarrow> nat" where
  "find_min_pfn_with_active_regions max_numnodes m = find_min_pfn_for_node max_numnodes m max_numnodes"

definition early_calculate_totalpages :: "region list \<Rightarrow> nat \<times> nat set" where
  "early_calculate_totalpages m =
     foldl (\<lambda>(totalpages, N_HIGH_MEMORY) g.
         let pages = rg_end g - rg_start g
         in (totalpages + pages, if pages \<noteq> 0 then insert (rg_nid g) N_HIGH_MEMORY else N_HIGH_MEMORY))
       (0, {}) m"

definition cmp_node_active_region :: "region \<Rightarrow> region \<Rightarrow> int" where
  "cmp_node_active_region a b =
     (if rg_start a > rg_start b then 1 else if rg_start a < rg_start b then -1 else 0)"

section \<open>Registering and removing ranges\<close>

text \<open>The merge loop: \<open>None\<close> when no region takes the new range in.\<close>

fun merge_active_range :: "nat \<Rightarrow> nat \<Rightarrow> nat \<Rightarrow> region list \<Rightarrow> region list option" where
  "merge_active_range nid start_pfn end_pfn [] = None"
| "merge_active_range nid start_pfn end_pfn (g # gs) =
     (if rg_nid g \<noteq> nid then map_option (Cons g) (merge_active_range nid start_pfn end_pfn gs)
      else if start_pfn \<ge> rg_start g \<and> end_pfn \<le> rg_end g then Some (g # gs)
      else if start_pfn \<le> rg_end g \<and> end_pfn > rg_end g then Some (g\<lparr>rg_end := end_pfn\<rparr> # gs)
      else if start_pfn < rg_end g \<and> end_pfn \<ge> rg_start g then Some (g\<lparr>rg_start := start_pfn\<rparr> # gs)
      else map_option (Cons g) (merge_active_range nid start_pfn end_pfn gs))"

definition add_active_range :: "nat \<Rightarrow> nat \<Rightarrow> nat \<Rightarrow> nat \<Rightarrow> region list \<Rightarrow> region list" where
  "add_active_range max_active_regions nid start_pfn end_pfn m =
     (case merge_active_range nid start_pfn end_pfn m of
        Some m' \<Rightarrow> m'
      | None \<Rightarrow>
          if length m \<ge> max_active_regions then m
          else m @ [\<lparr>rg_nid = nid, rg_start = start_pfn, rg_end = end_pfn\<rparr>])"

lemma length_merge: "merge_active_range nid s e m = Some m' \<Longrightarrow> length m' = length m"
  by (induction m arbitrary: m') (auto split: if_splits)

lemma length_add_active_range: "length (add_active_range k nid s e m) \<le> max (length m) k"
  by (auto simp: add_active_range_def dest: length_merge split: option.splits)

text \<open>The shrinking loop; a region that is split may append its upper part to the map it walks.\<close>

definition shrink_region :: "nat \<Rightarrow> nat \<Rightarrow> nat \<Rightarrow> nat \<Rightarrow> nat \<Rightarrow> region list \<Rightarrow> bool \<times> region list" where
  "shrink_region max_active_regions nid start_pfn end_pfn i m =
     (let g = m ! i in
      if rg_start g \<ge> start_pfn \<and> rg_end g \<le> end_pfn
      then (True, m[i := g\<lparr>rg_start := 0, rg_end := 0\<rparr>])
      else if rg_start g < start_pfn \<and> rg_end g > start_pfn then
        let m1 = m[i := g\<lparr>rg_end := start_pfn\<rparr>]
        in (False, if rg_end g > end_pfn
                   then add_active_range max_active_regions nid end_pfn (rg_end g) m1 else m1)
      else if rg_start g \<ge> start_pfn \<and> rg_end g > end_pfn \<and> rg_start g < end_pfn
      then (False, m[i := g\<lparr>rg_start := end_pfn\<rparr>])
      else (False, m))"

lemma length_shrink_region: "length (snd (shrink_region k nid s e i m)) \<le> max (length m) k"
  using length_add_active_range [of k nid e _ "m[i := _]"] by (auto simp: shrink_region_def Let_def)

function shrink_loop ::
  "nat \<Rightarrow> nat \<Rightarrow> nat \<Rightarrow> nat \<Rightarrow> nat \<Rightarrow> nat \<Rightarrow> bool \<Rightarrow> region list \<Rightarrow> bool \<times> region list" where
  "shrink_loop max_numnodes max_active_regions nid start_pfn end_pfn i removed m =
     (if i < length m then
        if nid_matches max_numnodes nid (m ! i) then
          let r = shrink_region max_active_regions nid start_pfn end_pfn i m
          in shrink_loop max_numnodes max_active_regions nid start_pfn end_pfn (i + 1) (removed \<or> fst r) (snd r)
        else shrink_loop max_numnodes max_active_regions nid start_pfn end_pfn (i + 1) removed m
      else (removed, m))"
  by pat_completeness auto
termination
proof (relation "measure (\<lambda>(mn, k, nid, s, e, i, r, m). max (length m) k - i)", goal_cases)
  case (2 mn k nid s e i removed m r)
  then show ?case
    using length_shrink_region [of k nid s e i m] by (auto simp: max_def split: if_splits)
qed auto

declare shrink_loop.simps [simp del]

text \<open>Removing blank entries: the loop stops before entry 0.\<close>

fun remove_blank :: "nat \<Rightarrow> nat \<Rightarrow> region list \<Rightarrow> region list" where
  "remove_blank nid 0 m = m"
| "remove_blank nid (Suc i) m =
     remove_blank nid i
       (if rg_nid (m ! Suc i) \<noteq> nid then m
        else if rg_end (m ! Suc i) \<noteq> 0 then m
        else take (Suc i) m @ drop (Suc (Suc i)) m)"

definition remove_active_range :: "nat \<Rightarrow> nat \<Rightarrow> nat \<Rightarrow> nat \<Rightarrow> nat \<Rightarrow> region list \<Rightarrow> region list" where
  "remove_active_range max_numnodes max_active_regions nid start_pfn end_pfn m =
     (let (removed, m1) = shrink_loop max_numnodes max_active_regions nid start_pfn end_pfn 0 False m
      in if \<not> removed then m1 else remove_blank nid (length m1 - 1) m1)"

definition remove_all_active_ranges :: "region list \<Rightarrow> region list" where
  "remove_all_active_ranges m = []"

section \<open>Holes\<close>

text \<open>\<open>None\<close> is the \<open>BUG_ON\<close> for regions that are not in order.\<close>

fun absent_loop :: "nat \<Rightarrow> nat \<Rightarrow> region list \<Rightarrow> nat \<Rightarrow> nat \<Rightarrow> (nat \<times> nat) option" where
  "absent_loop rs re [] prev_end hole = Some (prev_end, hole)"
| "absent_loop rs re (g # gs) prev_end hole =
     (if prev_end \<ge> re then Some (prev_end, hole)
      else
        let start = min (rg_start g) re;
            prev_end' = max prev_end rs
        in if start > rs then
             if prev_end' > start then None
             else absent_loop rs re gs (rg_end g) (hole + (start - prev_end'))
           else absent_loop rs re gs (rg_end g) hole)"

definition uu_absent_pages_in_range :: "nat \<Rightarrow> region list \<Rightarrow> nat \<Rightarrow> nat \<Rightarrow> nat \<Rightarrow> nat option" where
  "uu_absent_pages_in_range max_numnodes m nid rs re =
     (case regions_in_nid max_numnodes m nid of
        [] \<Rightarrow> Some 0
      | g # gs \<Rightarrow>
          let prev_end = min (rg_start g) re;
              hole = (if rg_start g > rs then ulong_sub prev_end rs else 0)
          in map_option (\<lambda>(prev_end', hole').
                 if re > prev_end' then (hole' + ulong_sub re (max rs prev_end')) mod 2 ^ 32 else hole')
               (absent_loop rs re (g # gs) prev_end hole))"

definition absent_pages_in_range :: "nat \<Rightarrow> region list \<Rightarrow> nat \<Rightarrow> nat \<Rightarrow> nat option" where
  "absent_pages_in_range max_numnodes m start_pfn end_pfn =
     uu_absent_pages_in_range max_numnodes m max_numnodes start_pfn end_pfn"

section \<open>Sizes of the zones\<close>

record zone_bounds =
  zb_max_nr_zones :: nat
  zb_zone_movable :: nat
  zb_movable_zone :: nat
  arch_zone_lowest_possible_pfn :: "nat \<Rightarrow> nat"
  arch_zone_highest_possible_pfn :: "nat \<Rightarrow> nat"
  zone_movable_pfn :: "nat \<Rightarrow> nat"

text \<open>The search ends at -1 when no zone has a range: the code's \<open>VM_BUG_ON\<close>.\<close>

fun usable_zone_below :: "zone_bounds \<Rightarrow> nat \<Rightarrow> int" where
  "usable_zone_below b 0 = -1"
| "usable_zone_below b (Suc i) =
     (if i = zb_zone_movable b then usable_zone_below b i
      else if arch_zone_highest_possible_pfn b i > arch_zone_lowest_possible_pfn b i then int i
      else usable_zone_below b i)"

definition find_usable_zone_for_movable :: "zone_bounds \<Rightarrow> int" where
  "find_usable_zone_for_movable b = usable_zone_below b (zb_max_nr_zones b)"

definition adjust_zone_range_for_zone_movable ::
  "zone_bounds \<Rightarrow> nat \<Rightarrow> nat \<Rightarrow> nat \<Rightarrow> nat \<Rightarrow> nat \<times> nat \<Rightarrow> nat \<times> nat" where
  "adjust_zone_range_for_zone_movable b nid zone_type node_start_pfn node_end_pfn = (\<lambda>(zs, ze).
     if zone_movable_pfn b nid \<noteq> 0 then
       if zone_type = zb_zone_movable b then
         (zone_movable_pfn b nid, min node_end_pfn (arch_zone_highest_possible_pfn b (zb_movable_zone b)))
       else if zs < zone_movable_pfn b nid \<and> ze > zone_movable_pfn b nid then (zs, zone_movable_pfn b nid)
       else if zs \<ge> zone_movable_pfn b nid then (ze, ze)
       else (zs, ze)
     else (zs, ze))"

definition zone_spanned_pages_in_node :: "zone_bounds \<Rightarrow> nat \<Rightarrow> region list \<Rightarrow> nat \<Rightarrow> nat \<Rightarrow> nat" where
  "zone_spanned_pages_in_node b max_numnodes m nid zone_type =
     (let (ns, ne) = get_pfn_range_for_nid max_numnodes m nid;
          (zs, ze) = adjust_zone_range_for_zone_movable b nid zone_type ns ne
            (arch_zone_lowest_possible_pfn b zone_type, arch_zone_highest_possible_pfn b zone_type)
      in if ze < ns \<or> zs > ne then 0
         else ulong_sub (min ze ne) (max zs ns))"

definition zone_absent_pages_in_node :: "zone_bounds \<Rightarrow> nat \<Rightarrow> region list \<Rightarrow> nat \<Rightarrow> nat \<Rightarrow> nat option" where
  "zone_absent_pages_in_node b max_numnodes m nid zone_type =
     (let (ns, ne) = get_pfn_range_for_nid max_numnodes m nid;
          (zs, ze) = adjust_zone_range_for_zone_movable b nid zone_type ns ne
            (max (arch_zone_lowest_possible_pfn b zone_type) ns, min (arch_zone_highest_possible_pfn b zone_type) ne)
      in uu_absent_pages_in_range max_numnodes m nid zs ze)"

section \<open>What the map covers\<close>

definition cover :: "region list \<Rightarrow> nat set" where
  "cover gs = (\<Union>g \<in> set gs. {rg_start g..<rg_end g})"

lemma cover_simps [simp]:
  "cover [] = {}" "cover (g # gs) = {rg_start g..<rg_end g} \<union> cover gs" "cover (gs @ hs) = cover gs \<union> cover hs"
  by (auto simp: cover_def)

fun in_order :: "nat \<Rightarrow> region list \<Rightarrow> bool" where
  "in_order prev [] = True"
| "in_order prev (g # gs) = (prev \<le> rg_start g \<and> rg_start g \<le> rg_end g \<and> in_order (rg_end g) gs)"

lemma in_order_cover: "in_order prev gs \<Longrightarrow> x \<in> cover gs \<Longrightarrow> prev \<le> x"
  by (induction gs arbitrary: prev) fastforce+

lemma absent_step:
  assumes "in_order (rg_end g) gs" and "prev \<le> rg_start g" "rg_start g \<le> rg_end g" and "prev < re" "rs < re"
  shows "card ({max rs prev..<re} - cover (g # gs)) =
    (if min (rg_start g) re > rs then min (rg_start g) re - max prev rs else 0)
      + card ({max rs (rg_end g)..<re} - cover gs)"
proof -
  let ?a = "{max rs prev..<min (rg_start g) re}" and ?b = "{max rs (rg_end g)..<re} - cover gs"
  have "{max rs prev..<re} - cover (g # gs) = ?a \<union> ?b"
    using assms in_order_cover [OF assms(1)] by (auto simp: min_def max_def split: if_splits)
       (metis dual_order.trans leD le_less_linear nat_less_le)+
  moreover have "?a \<inter> ?b = {}"
    using assms by auto
  ultimately have "card ({max rs prev..<re} - cover (g # gs)) = card ?a + card ?b"
    by (simp add: card_Un_disjoint)
  moreover have "card ?a = (if min (rg_start g) re > rs then min (rg_start g) re - max prev rs else 0)"
    using assms(5) by (auto simp: max.commute)
  ultimately show ?thesis
    by simp
qed

end
