(* ===== verification/Node_Map_Props.thy ===== *)
theory Node_Map_Props
  imports Node_Map
begin

text \<open>
  What the early memory map means: the holes counted in a range are its frames that no region of
  the node covers, the present pages of a zone are the frames of the node inside the bounds of the
  zone, and registering a range adds its frames to the node, save in the one case the merge misses.
\<close>

section \<open>Counting holes\<close>

lemma absent_loop_ok:
  assumes "in_order prev gs" and "rs < re"
  shows "\<exists>p h. absent_loop rs re gs prev hole = Some (p, h)
    \<and> h + (if re > p then re - max rs p else 0) = hole + card ({max rs prev..<re} - cover gs)"
  using assms(1)
proof (induction gs arbitrary: prev hole)
  case Nil
  then show ?case using assms(2) by auto
next
  case (Cons g gs)
  show ?case
  proof (cases "prev \<ge> re")
    case True
    then show ?thesis by simp
  next
    case False
    let ?h = "if min (rg_start g) re > rs then min (rg_start g) re - max prev rs else 0"
    from Cons.prems have o: "in_order (rg_end g) gs" "prev \<le> rg_start g" "rg_start g \<le> rg_end g"
      by simp_all
    have "absent_loop rs re (g # gs) prev hole = absent_loop rs re gs (rg_end g) (hole + ?h)"
      using False o(2) assms(2) by (auto simp: Let_def)
    moreover obtain p h where "absent_loop rs re gs (rg_end g) (hole + ?h) = Some (p, h)"
      "h + (if re > p then re - max rs p else 0) = hole + ?h + card ({max rs (rg_end g)..<re} - cover gs)"
      using Cons.IH [OF o(1)] by blast
    ultimately show ?thesis
      using absent_step [OF o, of re rs] False assms(2) by auto
  qed
qed

lemma card_hole_le: "card ({rs..<re :: nat} - A) \<le> re - rs"
  using card_mono [of "{rs..<re}" "{rs..<re} - A"] by simp

lemma hole_before:
  assumes "in_order 0 (g # gs)" and "rs < re"
  shows "card ({rs..<re} - cover (g # gs)) =
    (if rg_start g > rs then min (rg_start g) re - rs else 0)
      + card ({max rs (min (rg_start g) re)..<re} - cover (g # gs))"
proof -
  let ?p = "min (rg_start g) re"
  have below: "x \<notin> cover (g # gs)" if "x < ?p" for x
    using in_order_cover [of "rg_start g" "g # gs" x] assms(1) that by auto
  have "{rs..<re} - cover (g # gs) = {rs..<?p} \<union> ({max rs ?p..<re} - cover (g # gs))"
    using below assms(2) by (auto simp del: cover_simps)
  moreover have "{rs..<?p} \<inter> ({max rs ?p..<re} - cover (g # gs)) = {}"
    by auto
  ultimately have "card ({rs..<re} - cover (g # gs)) = card {rs..<?p} + card ({max rs ?p..<re} - cover (g # gs))"
    by (simp add: card_Un_disjoint del: cover_simps)
  then show ?thesis
    by auto
qed

lemma absent_pages_exact:
  assumes "in_order 0 (regions_in_nid mn m nid)" and "regions_in_nid mn m nid \<noteq> []"
    and "rs < re" and "re < 2 ^ 32"
  shows "uu_absent_pages_in_range mn m nid rs re = Some (card ({rs..<re} - cover (regions_in_nid mn m nid)))"
proof -
  obtain g gs where G: "regions_in_nid mn m nid = g # gs"
    using assms(2) by (cases "regions_in_nid mn m nid") auto
  let ?p = "min (rg_start g) re"
  let ?hole = "if rg_start g > rs then ulong_sub ?p rs else 0"
  have hole: "?hole = (if rg_start g > rs then ?p - rs else 0)"
    using assms(3,4) ulong_sub_le [of rs ?p] by auto
  have ord: "in_order 0 (g # gs)"
    using assms(1) G by simp
  then have "in_order ?p (g # gs)"
    by simp
  from absent_loop_ok [OF this assms(3)] obtain p h where
    L: "absent_loop rs re (g # gs) ?p ?hole = Some (p, h)"
      "h + (if re > p then re - max rs p else 0) = ?hole + card ({max rs ?p..<re} - cover (g # gs))"
    by blast
  have tot: "h + (if re > p then re - max rs p else 0) = card ({rs..<re} - cover (g # gs))"
    unfolding L(2) hole hole_before [OF ord assms(3)] by simp
  have small: "card ({rs..<re} - cover (g # gs)) < 2 ^ 32"
    using card_hole_le [of rs re "cover (g # gs)"] assms(4) by linarith
  have "(h + ulong_sub re (max rs p)) mod 2 ^ 32 = h + (re - max rs p)" if "re > p"
    using that assms(3,4) tot small ulong_sub_le [of "max rs p" re] by (simp del: cover_simps)
  then have "(if re > p then (h + ulong_sub re (max rs p)) mod 2 ^ 32 else h) = card ({rs..<re} - cover (g # gs))"
    using tot by (auto simp del: cover_simps)
  then show ?thesis
    unfolding uu_absent_pages_in_range_def G
    by (simp only: list.case Let_def L(1) option.map prod.case)
qed

section \<open>The pages of a zone\<close>

lemma range_fold:
  "foldl (\<lambda>(s, e) g. (min s (rg_start g), max e (rg_end g))) (a, b) gs =
     (foldl (\<lambda>s g. min s (rg_start g)) a gs, foldl (\<lambda>e g. max e (rg_end g)) b gs)"
  by (induction gs arbitrary: a b) auto

lemma min_fold_in_order:
  "in_order prev gs \<Longrightarrow> a \<le> prev \<Longrightarrow> foldl (\<lambda>s g. min s (rg_start g)) a gs = a"
  by (induction gs arbitrary: prev) (auto simp: min_def)

lemma max_fold_ge: "b \<le> foldl (\<lambda>e g. max e (rg_end g)) b gs"
  by (induction gs rule: rev_induct) auto

lemma max_fold_cover:
  "x \<in> cover gs \<Longrightarrow> x < foldl (\<lambda>e g. max e (rg_end g)) b gs"
proof (induction gs arbitrary: b)
  case (Cons g gs)
  then show ?case
    using max_fold_ge [of "max b (rg_end g)" gs] by (cases "x \<in> cover gs") auto
qed simp

lemma max_fold_bound:
  "\<forall>g \<in> set gs. rg_end g \<le> n \<Longrightarrow> b \<le> n \<Longrightarrow> foldl (\<lambda>e g. max e (rg_end g)) b gs \<le> n"
  by (induction gs arbitrary: b) auto

lemma node_range:
  assumes "in_order 0 (regions_in_nid mn m nid)" and "regions_in_nid mn m nid = g # gs"
    and "\<forall>g \<in> set (regions_in_nid mn m nid). rg_end g < ULONG_MAX"
    and "get_pfn_range_for_nid mn m nid = (s, e)"
  shows "s = rg_start g" and "e < ULONG_MAX" and "cover (regions_in_nid mn m nid) \<subseteq> {s..<e}" and "rg_end g \<le> e"
proof -
  have g: "rg_start g \<le> rg_end g" "rg_end g < ULONG_MAX" "in_order (rg_end g) gs"
    using assms(1-3) by auto
  have mn: "foldl (\<lambda>s g. min s (rg_start g)) ULONG_MAX (g # gs) = rg_start g"
    using g min_fold_in_order [OF g(3), of "rg_start g"] by simp
  have e: "e = foldl (\<lambda>e g. max e (rg_end g)) 0 (g # gs)" and s: "s = rg_start g"
    using assms(4) g mn unfolding get_pfn_range_for_nid_def assms(2) range_fold Let_def by auto
  show "s = rg_start g" by (rule s)
  have "e \<le> ULONG_MAX - 1"
    unfolding e using assms(2,3) by (intro max_fold_bound) fastforce+
  then show "e < ULONG_MAX" by simp
  have lo: "in_order s (regions_in_nid mn m nid)"
    using assms(1,2) s by simp
  show "cover (regions_in_nid mn m nid) \<subseteq> {s..<e}"
    using in_order_cover [OF lo] max_fold_cover [of _ "g # gs" 0] unfolding assms(2) e
    by (intro subsetI) (simp only: atLeastLessThan_iff)
  show "rg_end g \<le> e"
    unfolding e using max_fold_ge [of "rg_end g" gs] by simp
qed

lemma card_window:
  assumes "A \<subseteq> {zs..<ze}" and "zs \<le> ze"
  shows "ze - zs = card ({zs..<ze :: nat} - A) + card A"
proof -
  have "finite A" using assms(1) finite_subset by blast
  then have "card ({zs..<ze} - A) = ze - zs - card A"
    using card_Diff_subset [of A "{zs..<ze}"] assms(1) by simp
  moreover have "card A \<le> ze - zs"
    using card_mono [OF _ assms(1)] by simp
  ultimately show ?thesis by simp
qed

lemma minus_window: "{zs..<ze :: nat} - A = {zs..<ze} - (A \<inter> {zs..<ze})"
  by blast

lemma zone_pages_count:
  assumes "in_order 0 (regions_in_nid mn m nid)" and "regions_in_nid mn m nid \<noteq> []"
    and "\<forall>g \<in> set (regions_in_nid mn m nid). rg_end g < ULONG_MAX"
    and "zone_movable_pfn b nid = 0"
    and "arch_zone_lowest_possible_pfn b t \<le> arch_zone_highest_possible_pfn b t"
    and "arch_zone_highest_possible_pfn b t < 2 ^ 32"
    and overlap: "max (arch_zone_lowest_possible_pfn b t) (fst (get_pfn_range_for_nid mn m nid))
           < min (arch_zone_highest_possible_pfn b t) (snd (get_pfn_range_for_nid mn m nid))"
  shows "\<exists>absent. zone_absent_pages_in_node b mn m nid t = Some absent
    \<and> zone_spanned_pages_in_node b mn m nid t
        = absent + card (cover (regions_in_nid mn m nid)
            \<inter> {arch_zone_lowest_possible_pfn b t..<arch_zone_highest_possible_pfn b t})"
proof -
  obtain g gs where G: "regions_in_nid mn m nid = g # gs"
    using assms(2) by (cases "regions_in_nid mn m nid") auto
  obtain ns ne where R: "get_pfn_range_for_nid mn m nid = (ns, ne)"
    by fastforce
  note N = node_range [OF assms(1) G assms(3) R]
  let ?lo = "arch_zone_lowest_possible_pfn b t" and ?hi = "arch_zone_highest_possible_pfn b t"
  let ?C = "cover (regions_in_nid mn m nid)"
  let ?zs = "max ?lo ns" and ?ze = "min ?hi ne"
  have w: "?zs < ?ze" "?ze < 2 ^ 32"
    using overlap R assms(6) by auto
  have "zone_absent_pages_in_node b mn m nid t = uu_absent_pages_in_range mn m nid ?zs ?ze"
    unfolding zone_absent_pages_in_node_def R Let_def adjust_zone_range_for_zone_movable_def
    using assms(4) by simp
  then have A: "zone_absent_pages_in_node b mn m nid t = Some (card ({?zs..<?ze} - ?C))"
    using absent_pages_exact [OF assms(1,2) w] by simp
  have "zone_spanned_pages_in_node b mn m nid t = ulong_sub ?ze ?zs"
    unfolding zone_spanned_pages_in_node_def R Let_def adjust_zone_range_for_zone_movable_def
    using assms(4) w by auto
  then have S: "zone_spanned_pages_in_node b mn m nid t = ?ze - ?zs"
    using ulong_sub_le [of ?zs ?ze] w by simp
  have "?C \<inter> {?zs..<?ze} = ?C \<inter> {?lo..<?hi}"
    using N(3) by auto
  then have "?ze - ?zs = card ({?zs..<?ze} - ?C) + card (?C \<inter> {?lo..<?hi})"
    using card_window [OF Int_lower2 less_imp_le [OF w(1)], of ?C] minus_window [of ?zs ?ze ?C]
    by (simp only:)
  then show ?thesis
    using A S by simp
qed

section \<open>Registering a range\<close>

lemma regions_simps [simp]:
  "regions_in_nid mn [] nid = []"
  "regions_in_nid mn (g # gs) nid = (if nid_matches mn nid g then g # regions_in_nid mn gs nid else regions_in_nid mn gs nid)"
  "regions_in_nid mn (gs @ hs) nid = regions_in_nid mn gs nid @ regions_in_nid mn hs nid"
  by (simp_all add: regions_in_nid_def)

lemma merge_active_range_cover:
  assumes "merge_active_range nid s e m = Some m'" and "n \<noteq> mn"
    and "\<forall>g \<in> set m. rg_nid g = nid \<longrightarrow> \<not> (s < rg_start g \<and> rg_end g < e)"
    and "s \<le> e"
  shows "cover (regions_in_nid mn m' n) = cover (regions_in_nid mn m n) \<union> (if n = nid then {s..<e} else {})"
  using assms
proof (induction m arbitrary: m')
  case (Cons g gs)
  show ?case
  proof (cases "rg_nid g = nid")
    case False
    then obtain gs' where "merge_active_range nid s e gs = Some gs'" "m' = g # gs'"
      using Cons.prems(1) by auto
    then show ?thesis
      using Cons.IH Cons.prems False by auto
  next
    case True
    consider "s \<ge> rg_start g" "e \<le> rg_end g" "m' = g # gs"
      | "rg_start g \<le> s" "s \<le> rg_end g" "rg_end g < e" "m' = g\<lparr>rg_end := e\<rparr> # gs"
      | "s < rg_start g" "e \<le> rg_end g" "rg_start g \<le> e" "m' = g\<lparr>rg_start := s\<rparr> # gs"
      | gs' where "merge_active_range nid s e gs = Some gs'" "m' = g # gs'"
      using Cons.prems(1,3,4) True by (fastforce split: if_splits)
    then show ?thesis
    proof cases
      case 4
      then show ?thesis
        using Cons.IH [OF 4(1)] Cons.prems True by auto
    qed (use True Cons.prems(2,4) in \<open>auto simp: nid_matches_def\<close>)
  qed
qed simp

lemma merge_loses:
  assumes "merge_active_range nid s e m = Some m'" and "m = m1 @ g # m2" and "rg_nid g = nid"
    and "s < rg_start g" "rg_start g \<le> rg_end g" "rg_end g < e"
    and "\<forall>h \<in> set m1. rg_nid h \<noteq> nid"
  shows "m' = m1 @ g\<lparr>rg_end := e\<rparr> # m2"
  using assms by (induction m1 arbitrary: m m') auto

section \<open>Properties\<close>

text \<open>
  C25. The pages a zone is given at boot are the pages of the node inside the zone: for a node whose
  regions are sorted and do not overlap (\<open>sort_node_map\<close> sorts them; that they do not overlap is up to the ranges the
  architecture registers), with no movable zone requested and a zone
  whose bounds meet the range of the node, \<open>zone_absent_pages_in_node\<close> does not reach its
  \<open>BUG_ON\<close>, and \<open>zone_spanned_pages_in_node\<close> is the holes it returns plus exactly the number of frames of
  the regions of the node between the lowest and the highest frame of the zone.
\<close>

theorem zone_pages_exact:
  assumes "in_order 0 (regions_in_nid mn m nid)" and "regions_in_nid mn m nid \<noteq> []"
    and "\<forall>g \<in> set (regions_in_nid mn m nid). rg_end g < 4294967295"
    and "zone_movable_pfn b nid = 0"
    and "arch_zone_lowest_possible_pfn b t \<le> arch_zone_highest_possible_pfn b t"
    and "arch_zone_highest_possible_pfn b t < 2 ^ 32"
    and "max (arch_zone_lowest_possible_pfn b t) (fst (get_pfn_range_for_nid mn m nid))
           < min (arch_zone_highest_possible_pfn b t) (snd (get_pfn_range_for_nid mn m nid))"
  shows "\<exists>absent. zone_absent_pages_in_node b mn m nid t = Some absent
    \<and> zone_spanned_pages_in_node b mn m nid t
        = absent + card (cover (regions_in_nid mn m nid)
            \<inter> {arch_zone_lowest_possible_pfn b t..<arch_zone_highest_possible_pfn b t})"
  using assms by (rule zone_pages_count)

definition bounds_ex :: zone_bounds where
  "bounds_ex = \<lparr>zb_max_nr_zones = 3, zb_zone_movable = 2, zb_movable_zone = 1,
     arch_zone_lowest_possible_pfn = (\<lambda>z. 16 * z), arch_zone_highest_possible_pfn = (\<lambda>z. 16 * (z + 1)),
     zone_movable_pfn = (\<lambda>n. 0)\<rparr>"

definition map_ex :: "region list" where
  "map_ex = [\<lparr>rg_nid = 0, rg_start = 4, rg_end = 10\<rparr>, \<lparr>rg_nid = 1, rg_start = 40, rg_end = 50\<rparr>,
     \<lparr>rg_nid = 0, rg_start = 14, rg_end = 24\<rparr>]"

lemmas node_ex_simps = map_ex_def bounds_ex_def nid_matches_def get_pfn_range_for_nid_def Let_def

theorem zone_pages_exact_witness:
  "\<exists>absent. zone_absent_pages_in_node bounds_ex 2 map_ex 0 0 = Some absent
    \<and> zone_spanned_pages_in_node bounds_ex 2 map_ex 0 0
        = absent + card (cover (regions_in_nid 2 map_ex 0) \<inter> {0..<16})"
  using zone_pages_exact [of 2 map_ex 0 bounds_ex 0] by (simp add: node_ex_simps)

text \<open>
  C28. \<open>add_active_range\<close> adds the frames of the range to its node and leaves every other node
  as it was: when some region of the node takes the range in, or the table has room, and no region
  of the node lies strictly inside the new range, the regions of the node afterwards cover exactly
  what they covered before and the range.
\<close>

theorem add_active_range_covers:
  assumes "s \<le> e" and "n < mn" and "nid < mn"
    and "length m < k \<or> merge_active_range nid s e m \<noteq> None"
    and "\<forall>g \<in> set m. rg_nid g = nid \<longrightarrow> \<not> (s < rg_start g \<and> rg_end g < e)"
  shows "cover (regions_in_nid mn (add_active_range k nid s e m) n) =
    cover (regions_in_nid mn m n) \<union> (if n = nid then {s..<e} else {})"
proof (cases "merge_active_range nid s e m")
  case None
  then show ?thesis
    using assms by (auto simp: add_active_range_def nid_matches_def)
next
  case (Some m')
  then show ?thesis
    using merge_active_range_cover [OF Some, of n mn] assms by (simp add: add_active_range_def)
qed

theorem add_active_range_covers_witness:
  "cover (regions_in_nid 2 (add_active_range 8 0 8 12 map_ex) 0) =
    cover (regions_in_nid 2 map_ex 0) \<union> {8..<12}"
  using add_active_range_covers [of 8 12 0 2 0 map_ex 8] by (simp add: node_ex_simps)

text \<open>
  A range that joins two regions extends only the first of them: the regions then overlap, are still sorted by their start, and a zone
  that spans them runs into the \<open>BUG_ON\<close> of \<open>zone_absent_pages_in_node\<close>.
\<close>

theorem joined_regions_overlap:
  assumes "s \<le> b" and "b < e" and "a \<le> c" and "c < e" and "rs < c" and "e < re" and "nid < mn"
    and m_def: "m = add_active_range k nid s e [\<lparr>rg_nid = nid, rg_start = a, rg_end = b\<rparr>, \<lparr>rg_nid = nid, rg_start = c, rg_end = d\<rparr>]"
  shows "m = [\<lparr>rg_nid = nid, rg_start = a, rg_end = e\<rparr>, \<lparr>rg_nid = nid, rg_start = c, rg_end = d\<rparr>]
    \<and> uu_absent_pages_in_range mn m nid rs re = None"
proof -
  have m: "m = [\<lparr>rg_nid = nid, rg_start = a, rg_end = e\<rparr>, \<lparr>rg_nid = nid, rg_start = c, rg_end = d\<rparr>]"
    using assms(1,2) by (simp add: m_def add_active_range_def)
  then have "uu_absent_pages_in_range mn m nid rs re = None"
    using assms(3-7) by (simp add: uu_absent_pages_in_range_def nid_matches_def Let_def)
  with m show ?thesis ..
qed

theorem joined_regions_overlap_witness:
  "uu_absent_pages_in_range 1 (add_active_range 8 0 5 25
      [\<lparr>rg_nid = 0, rg_start = 0, rg_end = 10\<rparr>, \<lparr>rg_nid = 0, rg_start = 20, rg_end = 30\<rparr>]) 0 0 30 = None"
proof -
  let ?m = "add_active_range 8 0 5 25
      [\<lparr>rg_nid = 0, rg_start = 0, rg_end = 10\<rparr>, \<lparr>rg_nid = 0, rg_start = 20, rg_end = 30\<rparr>]"
  show "uu_absent_pages_in_range 1 ?m 0 0 30 = None"
    by (rule joined_regions_overlap [of 5 10 25 0 20, THEN conjunct2]) simp_all
qed

text \<open>
  The case the merge misses: when the first region of the node lies strictly inside the new
  range, \<open>add_active_range\<close> only moves the end of that region. The frames between the start of the
  range and the start of the region are not registered unless another region already has them.
\<close>

theorem add_active_range_loses:
  assumes "rg_nid g = nid" and "s < rg_start g" "rg_start g \<le> rg_end g" "rg_end g < e"
    and "\<forall>h \<in> set m1. rg_nid h \<noteq> nid" and "nid < mn"
  shows "cover (regions_in_nid mn (add_active_range k nid s e (m1 @ g # m2)) nid) =
    {rg_start g..<e} \<union> cover (regions_in_nid mn m2 nid)"
proof -
  have "\<exists>m'. merge_active_range nid s e (m1 @ g # m2) = Some m'"
    using assms by (induction m1) auto
  then obtain m' where m': "merge_active_range nid s e (m1 @ g # m2) = Some m'"
    by blast
  have "regions_in_nid mn m1 nid = []"
    using assms(5,6) by (auto simp: regions_in_nid_def nid_matches_def filter_empty_conv)
  then show ?thesis
    using merge_loses [OF m' refl assms(1-5)] m' assms(1,6)
    by (simp add: add_active_range_def nid_matches_def)
qed

theorem add_active_range_loses_witness:
  "cover (regions_in_nid 2 (add_active_range 8 0 5 30 [\<lparr>rg_nid = 0, rg_start = 10, rg_end = 20\<rparr>]) 0) = {10..<30}"
  using add_active_range_loses [of "\<lparr>rg_nid = 0, rg_start = 10, rg_end = 20\<rparr>" 0 5 30 "[]" 2 8 "[]"]
  by simp

end
