(* ===== verification/Movable_Zone.thy ===== *)
theory Movable_Zone
  imports Node_Map
begin

text \<open>
  The start of \<open>ZONE_MOVABLE\<close> in every node (mm/page\_alloc.c): how \<open>kernelcore=\<close> and \<open>movablecore=\<close> are spread over the nodes, and
  the bounds of the zones that go with it.
\<close>

section \<open>The command line\<close>

text \<open>\<open>coremem\<close> is the value of \<open>memparse\<close>, a 64-bit number; \<open>None\<close> stands for a missing argument. Pages have 4096 bytes.\<close>

definition cmdline_parse_core :: "nat option \<Rightarrow> nat \<Rightarrow> int \<times> nat" where
  "cmdline_parse_core coremem core =
     (case coremem of None \<Rightarrow> (-22, core) | Some v \<Rightarrow> (0, (v div 4096) mod 2 ^ 32))"

definition roundup_ulong :: "nat \<Rightarrow> nat \<Rightarrow> nat" where
  "roundup_ulong x y = ((x + (y - 1)) mod 2 ^ 32 div y * y) mod 2 ^ 32"

text \<open>The kernel's share that follows from both options; the subtraction wraps when more is asked for than there is.\<close>

definition kernelcore_wanted :: "nat \<Rightarrow> nat \<Rightarrow> nat \<Rightarrow> nat \<Rightarrow> nat" where
  "kernelcore_wanted max_order_nr totalpages required_movablecore required_kernelcore =
     (if required_movablecore \<noteq> 0
      then max required_kernelcore (ulong_sub totalpages (roundup_ulong required_movablecore max_order_nr))
      else required_kernelcore)"

section \<open>Spreading over nodes\<close>

text \<open>
  The loop over the ranges of a node: what the node still has to give, what is still required of all, and the start of the
  movable zone so far. \<open>us\<close> is \<open>usable_startpfn\<close>. The flag tells that the loop is left.
\<close>

definition movable_range :: "nat \<Rightarrow> region \<Rightarrow> nat \<Rightarrow> nat \<Rightarrow> nat \<Rightarrow> bool \<times> nat \<times> nat \<times> nat" where
  "movable_range us g remaining required mz =
     (let s = max (rg_start g) mz; e = rg_end g
      in if s \<ge> e then (False, remaining, required, mz)
         else
           let kernel_pages = (if s < us then min e us - s else 0);
               remaining1 = remaining - min kernel_pages remaining;
               required1 = required - min kernel_pages required
           in if s < us \<and> e \<le> us then (False, remaining1, required1, e)
              else
                let s1 = max s us;
                    size_pages = (if e - s1 > remaining1 then remaining1 else e - s1)
                in (remaining1 - size_pages = 0, remaining1 - size_pages, required1 - min required1 size_pages, s1 + size_pages))"

fun movable_ranges :: "nat \<Rightarrow> region list \<Rightarrow> nat \<times> nat \<times> nat \<Rightarrow> nat \<times> nat \<times> nat" where
  "movable_ranges us [] st = st"
| "movable_ranges us (g # gs) st =
     (let r = movable_range us g (fst st) (fst (snd st)) (snd (snd st))
      in if fst r then snd r else movable_ranges us gs (snd r))"

text \<open>One pass over the nodes with memory; \<open>core_node\<close> is the share of a node.\<close>

fun movable_pass :: "nat \<Rightarrow> (nat \<Rightarrow> region list) \<Rightarrow> nat \<Rightarrow> nat list \<Rightarrow> nat \<Rightarrow> nat \<times> (nat \<Rightarrow> nat) \<Rightarrow> nat \<times> (nat \<Rightarrow> nat)" where
  "movable_pass us ranges usable_nodes [] core_node st = st"
| "movable_pass us ranges usable_nodes (nid # nids) core_node (required, mz) =
     (let core_node' = (if required < core_node then required div usable_nodes else core_node)
      in (case movable_ranges us (ranges nid) (core_node', required, mz nid) of
            (_, required', mz') \<Rightarrow> movable_pass us ranges usable_nodes nids core_node' (required', mz(nid := mz'))))"

text \<open>The passes, each with one usable node less than the one before.\<close>

fun movable_passes :: "nat \<Rightarrow> (nat \<Rightarrow> region list) \<Rightarrow> nat list \<Rightarrow> nat \<Rightarrow> nat \<times> (nat \<Rightarrow> nat) \<Rightarrow> nat \<times> (nat \<Rightarrow> nat)" where
  "movable_passes us ranges nids 0 st = st"
| "movable_passes us ranges nids (Suc n) st =
     (let st' = movable_pass us ranges (Suc n) nids (fst st div Suc n) st
      in if n \<noteq> 0 \<and> fst st' > n then movable_passes us ranges nids n st' else st')"

text \<open>
  The whole function: \<open>None\<close> is the division by the number of nodes when there is none, and the \<open>VM_BUG_ON\<close> when there is no usable
  zone. \<open>high\<close> has the nodes that are marked already; the marks made here are taken back.
\<close>

definition find_zone_movable_pfns_for_nodes ::
  "nat \<Rightarrow> nat \<Rightarrow> nat set \<Rightarrow> region list \<Rightarrow> nat \<Rightarrow> nat \<Rightarrow> zone_bounds \<Rightarrow> zone_bounds option" where
  "find_zone_movable_pfns_for_nodes max_numnodes max_order_nr high m required_movablecore required_kernelcore b =
     (let (totalpages, nodes) = early_calculate_totalpages m;
          nids = filter (\<lambda>nid. nid \<in> high \<union> nodes) [0..<max_numnodes];
          required = kernelcore_wanted max_order_nr totalpages required_movablecore required_kernelcore;
          zone = find_usable_zone_for_movable b
      in if required = 0 then Some b
         else if zone < 0 \<or> nids = [] then None
         else
           let us = arch_zone_lowest_possible_pfn b (nat zone);
               mz = snd (movable_passes us (regions_in_nid max_numnodes m) nids (length nids) (required, zone_movable_pfn b))
           in Some (b\<lparr>zb_movable_zone := nat zone,
                      zone_movable_pfn := (\<lambda>nid. if nid < max_numnodes then roundup_ulong (mz nid) max_order_nr else mz nid)\<rparr>))"

section \<open>Bounds of the zones\<close>

text \<open>The two arrays that \<open>free_area_init_nodes\<close> fills in: a zone starts where the one before ends, the movable zone has no bounds.\<close>

fun zone_highest :: "(nat \<Rightarrow> nat) \<Rightarrow> nat \<Rightarrow> nat \<Rightarrow> nat" where
  "zone_highest max_zone_pfn zone_movable 0 = max_zone_pfn 0"
| "zone_highest max_zone_pfn zone_movable (Suc i) =
     (if Suc i = zone_movable then 0 else max (max_zone_pfn (Suc i)) (zone_highest max_zone_pfn zone_movable i))"

fun zone_lowest :: "nat \<Rightarrow> (nat \<Rightarrow> nat) \<Rightarrow> nat \<Rightarrow> nat \<Rightarrow> nat" where
  "zone_lowest min_pfn max_zone_pfn zone_movable 0 = min_pfn"
| "zone_lowest min_pfn max_zone_pfn zone_movable (Suc i) =
     (if Suc i = zone_movable then 0 else zone_highest max_zone_pfn zone_movable i)"

text \<open>\<open>srt\<close> is the kernel's \<open>sort\<close> by \<open>cmp_node_active_region\<close>. The result is the sorted map and the bounds that the nodes are set up with.\<close>

definition free_area_bounds ::
  "(region list \<Rightarrow> region list) \<Rightarrow> nat \<Rightarrow> nat \<Rightarrow> nat set \<Rightarrow> (nat \<Rightarrow> nat) \<Rightarrow> nat \<Rightarrow> nat \<Rightarrow> region list \<Rightarrow> zone_bounds \<Rightarrow>
   (region list \<times> zone_bounds) option" where
  "free_area_bounds srt max_numnodes max_order_nr high max_zone_pfn movablecore kernelcore m b =
     (let m' = srt m;
          lowest = find_min_pfn_with_active_regions max_numnodes m';
          b1 = b\<lparr>arch_zone_lowest_possible_pfn :=
                   (\<lambda>i. if i < zb_max_nr_zones b then zone_lowest lowest max_zone_pfn (zb_zone_movable b) i else 0),
                 arch_zone_highest_possible_pfn :=
                   (\<lambda>i. if i < zb_max_nr_zones b then zone_highest max_zone_pfn (zb_zone_movable b) i else 0),
                 zone_movable_pfn := (\<lambda>_. 0)\<rparr>
      in map_option (Pair m') (find_zone_movable_pfns_for_nodes max_numnodes max_order_nr high m' movablecore kernelcore b1))"

section \<open>What a pass takes off the requirement\<close>

lemma minus_min: "a - min b a = a - b" "a - min a b = a - (b :: nat)"
  by (simp_all add: min_def)

text \<open>The three ways through the body of the loop; \<open>s1\<close> is where the part of the range begins that the movable zone could have.\<close>

lemma movable_range_cases:
  obtains "rg_end g \<le> max (rg_start g) mz" and "movable_range us g remaining required mz = (False, remaining, required, mz)"
  | (below) s where "s = max (rg_start g) mz" and "s < rg_end g"
      and "movable_range us g remaining required mz = (False, remaining - (rg_end g - s), required - (rg_end g - s), rg_end g)"
  | (part) s s1 sz where "s = max (rg_start g) mz" and "s \<le> s1" and "s1 < rg_end g"
      and "sz = min (rg_end g - s1) (remaining - (s1 - s))"
      and "movable_range us g remaining required mz =
        (remaining - (s1 - s) - sz = 0, remaining - (s1 - s) - sz, required - (s1 - s) - sz, s1 + sz)"
proof -
  define s where "s = max (rg_start g) mz"
  let ?e = "rg_end g"
  consider (1) "?e \<le> s" | (2) "s < ?e" "?e \<le> us" | (3) "s < ?e" "us < ?e"
    by linarith
  then show ?thesis
  proof cases
    case 1
    then show ?thesis
      using that(1) by (simp add: movable_range_def s_def)
  next
    case 2
    then have "movable_range us g remaining required mz = (False, remaining - (?e - s), required - (?e - s), ?e)"
      unfolding movable_range_def s_def [symmetric] Let_def minus_min by (simp add: min_def)
    then show ?thesis
      using that(2) [OF s_def] 2 by simp
  next
    case 3
    define s1 where "s1 = max s us"
    have kp: "(if s < us then min ?e us - s else 0) = s1 - s" and no: "(s < us \<and> ?e \<le> us) = False" "(?e \<le> s) = False"
      using 3 by (auto simp: s1_def)
    have size: "(if x < ?e - s1 then x else ?e - s1) = min (?e - s1) x" for x
      by (simp add: min_def)
    have "movable_range us g remaining required mz =
        (let sz = min (?e - s1) (remaining - (s1 - s))
         in (remaining - (s1 - s) - sz = 0, remaining - (s1 - s) - sz, required - (s1 - s) - sz, s1 + sz))"
      unfolding movable_range_def s_def [symmetric] Let_def kp no if_False s1_def [symmetric] size minus_min by (rule refl)
    then show ?thesis
      using that(3) [OF s_def, of s1] 3 by (simp add: Let_def s1_def)
  qed
qed

text \<open>
  What one range does: the start of the movable zone moves up within the range, and what is taken off the
  requirement is no more than the pages it passes.
\<close>

lemma movable_range_account:
  assumes "movable_range us g remaining required mz = (stop, remaining', required', mz')"
  shows "mz \<le> mz'" and "required' \<le> required" and "required - required' \<le> card ({rg_start g..<rg_end g} \<inter> {mz..<mz'})"
    and "mz' \<le> max mz (rg_end g)"
proof -
  define s where "s = max (rg_start g) mz"
  have within: "required - required' \<le> card ({rg_start g..<rg_end g} \<inter> {mz..<mz'})"
    if "mz' \<le> rg_end g" "required - required' \<le> mz' - s"
  proof -
    have "{rg_start g..<rg_end g} \<inter> {mz..<mz'} = {s..<mz'}"
      using that(1) by (auto simp: s_def)
    then show ?thesis
      using that(2) by simp
  qed
  have "mz \<le> mz' \<and> required' \<le> required \<and> mz' \<le> max mz (rg_end g)
    \<and> (mz' = mz \<and> required' = required \<or> mz' \<le> rg_end g \<and> required - required' \<le> mz' - s)"
  proof (rule movable_range_cases [of g mz us remaining required], goal_cases)
    case (3 s' s1 sz)
    then have r: "mz' = s1 + sz" "required' = required - (s1 - s) - sz" "mz \<le> s" "s \<le> s1" "s1 + sz \<le> rg_end g"
      using assms by (auto simp: s_def)
    then have "mz \<le> mz'" "required' \<le> required" "mz' \<le> rg_end g"
      by linarith+
    moreover have "required - required' \<le> mz' - s"
      using r(1,2,4) by linarith
    ultimately show ?case
      by simp
  qed (use assms in \<open>auto simp: s_def\<close>)
  then show "mz \<le> mz'" "required' \<le> required" "mz' \<le> max mz (rg_end g)"
      "required - required' \<le> card ({rg_start g..<rg_end g} \<inter> {mz..<mz'})"
    using within by auto
qed

lemma movable_range_exhausts:
  assumes "movable_range us g r r mz = (stop, remaining', required', mz')"
  shows "remaining' = required' \<and> (stop \<longrightarrow> required' = 0) \<and> (\<not> stop \<longrightarrow> {rg_start g..<rg_end g} \<subseteq> {..<mz'})"
proof (rule movable_range_cases [of g mz us r r], goal_cases)
  case (3 s s1 sz)
  then have eq: "stop \<longleftrightarrow> r - (s1 - s) - sz = 0" "remaining' = r - (s1 - s) - sz" "required' = r - (s1 - s) - sz" "mz' = s1 + sz"
    using assms by auto
  moreover have "r - (s1 - s) - sz = 0 \<or> mz' = rg_end g"
    using 3(3,4) eq(4) by (cases "rg_end g - s1 \<le> r - (s1 - s)") (simp_all add: min_def)
  ultimately show ?case
    by auto
qed (use assms in auto)

lemma finite_cover: "finite (cover G)"
  by (simp add: cover_def)

lemma card_cover_split:
  assumes "a \<le> b" and "b \<le> (c :: nat)"
  shows "card (cover G \<inter> {a..<c}) = card (cover G \<inter> {a..<b}) + card (cover G \<inter> {b..<c})"
proof -
  have "cover G \<inter> {a..<c} = (cover G \<inter> {a..<b}) \<union> (cover G \<inter> {b..<c})"
    using assms by auto
  then show ?thesis
    by (simp add: card_Un_disjoint finite_cover disjoint_iff)
qed

lemma movable_ranges_account:
  assumes "movable_ranges us gs (remaining, required, mz) = (remaining', required', mz')" and "set gs \<subseteq> set G"
  shows "mz \<le> mz' \<and> required' \<le> required \<and> required - required' \<le> card (cover G \<inter> {mz..<mz'})
    \<and> (\<forall>top. mz \<le> top \<and> (\<forall>g \<in> set gs. rg_end g \<le> top) \<longrightarrow> mz' \<le> top)"
  using assms
proof (induction gs arbitrary: remaining required mz)
  case (Cons g gs)
  obtain stop rem1 req1 mz1 where r: "movable_range us g remaining required mz = (stop, rem1, req1, mz1)"
    by (metis prod_cases4)
  note one = movable_range_account [OF r]
  have "{rg_start g..<rg_end g} \<inter> {mz..<mz1} \<subseteq> cover G \<inter> {mz..<mz1}"
    using Cons.prems(2) by (auto simp: cover_def)
  then have first: "required - req1 \<le> card (cover G \<inter> {mz..<mz1})"
    using one(3) card_mono [of "cover G \<inter> {mz..<mz1}"] finite_cover by (meson finite_Int le_trans)
  show ?case
  proof (cases stop)
    case True
    then show ?thesis
      using Cons.prems(1) r one first by (auto simp: max_def split: if_splits)
  next
    case False
    then have rest: "movable_ranges us gs (rem1, req1, mz1) = (remaining', required', mz')"
      using Cons.prems(1) r by simp
    have "mz1 \<le> mz' \<and> required' \<le> req1 \<and> req1 - required' \<le> card (cover G \<inter> {mz1..<mz'})
      \<and> (\<forall>top. mz1 \<le> top \<and> (\<forall>g \<in> set gs. rg_end g \<le> top) \<longrightarrow> mz' \<le> top)"
      using Cons.IH [OF rest] Cons.prems(2) by simp
    then show ?thesis
      using one first card_cover_split [of mz mz1 mz' G] by (auto simp: max_def split: if_splits)
  qed
qed auto

lemma movable_ranges_exhausts:
  assumes "movable_ranges us gs (r, r, mz) = (remaining', required', mz')"
  shows "required' = 0 \<or> cover gs \<subseteq> {..<mz'}"
  using assms
proof (induction gs arbitrary: r mz)
  case (Cons g gs)
  obtain stop rem1 req1 mz1 where one: "movable_range us g r r mz = (stop, rem1, req1, mz1)"
    by (metis prod_cases4)
  show ?case
  proof (cases stop)
    case True
    then show ?thesis
      using Cons.prems one movable_range_exhausts [OF one] by simp
  next
    case False
    then have rest: "movable_ranges us gs (req1, req1, mz1) = (remaining', required', mz')"
      using Cons.prems one movable_range_exhausts [OF one] by simp
    have "mz1 \<le> mz'"
      using movable_ranges_account [OF rest, of gs] by simp
    then show ?thesis
      using Cons.IH [OF rest] movable_range_exhausts [OF one] False by auto
  qed
qed simp

section \<open>All nodes\<close>

text \<open>The pages of some nodes that lie below the start of the movable zone.\<close>

definition kernel_share :: "(nat \<Rightarrow> region list) \<Rightarrow> nat set \<Rightarrow> (nat \<Rightarrow> nat) \<Rightarrow> nat" where
  "kernel_share ranges nodes mz = (\<Sum>nid \<in> nodes. card (cover (ranges nid) \<inter> {..<mz nid}))"

lemma kernel_share_update:
  assumes "finite nodes" and "nid \<in> nodes" and "mz nid \<le> mz'" and "k \<le> card (cover (ranges nid) \<inter> {mz nid..<mz'})"
  shows "kernel_share ranges nodes mz + k \<le> kernel_share ranges nodes (mz(nid := mz'))"
proof -
  have "card (cover (ranges nid) \<inter> {..<mz'}) = card (cover (ranges nid) \<inter> {..<mz nid}) + card (cover (ranges nid) \<inter> {mz nid..<mz'})"
    using card_cover_split [of 0 "mz nid" mz' "ranges nid"] assms(3) by (simp add: atLeast0LessThan)
  then show ?thesis
    using assms(4) by (simp add: kernel_share_def sum.remove [OF assms(1,2)])
qed

lemma movable_pass_account:
  assumes "movable_pass us ranges n nids core (required, mz) = (required', mz')" and "finite nodes" and "set nids \<subseteq> nodes"
    and "\<forall>nid g. g \<in> set (ranges nid) \<longrightarrow> rg_end g \<le> lim" and "\<forall>nid. mz nid \<le> lim"
  shows "required' \<le> required \<and> kernel_share ranges nodes mz + (required - required') \<le> kernel_share ranges nodes mz'
    \<and> (\<forall>nid. mz nid \<le> mz' nid \<and> mz' nid \<le> lim)"
  using assms
proof (induction nids arbitrary: core required mz)
  case (Cons nid nids)
  define core' where "core' = (if required < core then required div n else core)"
  obtain rem1 req1 mz1 where r: "movable_ranges us (ranges nid) (core', required, mz nid) = (rem1, req1, mz1)"
    by (metis prod_cases3)
  have one: "mz nid \<le> mz1" "req1 \<le> required" "required - req1 \<le> card (cover (ranges nid) \<inter> {mz nid..<mz1})" "mz1 \<le> lim"
    using movable_ranges_account [OF r order_refl] Cons.prems(4,5) by blast+
  have first: "kernel_share ranges nodes mz + (required - req1) \<le> kernel_share ranges nodes (mz(nid := mz1))"
    using Cons.prems(2,3) one by (intro kernel_share_update) auto
  have rest: "movable_pass us ranges n nids core' (req1, mz(nid := mz1)) = (required', mz')"
    using Cons.prems(1) r by (simp add: core'_def [symmetric] Let_def)
  have top: "\<forall>i. (mz(nid := mz1)) i \<le> lim"
    using Cons.prems(5) one(4) by simp
  have sub: "set nids \<subseteq> nodes"
    using Cons.prems(3) by simp
  have ih: "required' \<le> req1" "kernel_share ranges nodes (mz(nid := mz1)) + (req1 - required') \<le> kernel_share ranges nodes mz'"
      "\<forall>i. (mz(nid := mz1)) i \<le> mz' i \<and> mz' i \<le> lim"
    using Cons.IH [OF rest Cons.prems(2) sub Cons.prems(4) top] by blast+
  have "\<forall>i. mz i \<le> mz' i"
    using ih(3) one(1) by (metis fun_upd_apply le_trans)
  then show ?case
    using ih one(2) first by auto
qed simp

text \<open>The last pass, with one usable node, gives every node all that is left.\<close>

lemma movable_pass_exhausts:
  assumes "movable_pass us ranges 1 nids core (required, mz) = (required', mz')" and "required \<le> core" and "distinct nids"
    and "\<forall>nid g. g \<in> set (ranges nid) \<longrightarrow> rg_end g \<le> lim" and "\<forall>nid. mz nid \<le> lim"
  shows "required' = 0 \<or> (\<forall>nid \<in> set nids. cover (ranges nid) \<subseteq> {..<mz' nid})"
  using assms
proof (induction nids arbitrary: core required mz)
  case (Cons nid nids)
  have core: "(if required < core then required div 1 else core) = required"
    using Cons.prems(2) by simp
  obtain rem1 req1 mz1 where r: "movable_ranges us (ranges nid) (required, required, mz nid) = (rem1, req1, mz1)"
    by (metis prod_cases3)
  have one: "req1 \<le> required" "mz1 \<le> lim" "req1 = 0 \<or> cover (ranges nid) \<subseteq> {..<mz1}"
    using movable_ranges_account [OF r order_refl] movable_ranges_exhausts [OF r] Cons.prems(4,5) by blast+
  have rest: "movable_pass us ranges 1 nids required (req1, mz(nid := mz1)) = (required', mz')"
    using Cons.prems(1) unfolding movable_pass.simps Let_def core r by simp
  have top: "\<forall>i. (mz(nid := mz1)) i \<le> lim"
    using Cons.prems(5) one(2) by simp
  have "required' \<le> req1" "(mz(nid := mz1)) nid \<le> mz' nid"
    using movable_pass_account [OF rest finite_set order_refl Cons.prems(4) top] by blast+
  moreover have "required' = 0 \<or> (\<forall>nid \<in> set nids. cover (ranges nid) \<subseteq> {..<mz' nid})"
    using Cons.IH [OF rest one(1) _ Cons.prems(4) top] Cons.prems(3) by simp
  ultimately show ?case
    using one(3) by auto
qed simp

lemma movable_passes_spread:
  assumes "movable_passes us ranges nids n (required, mz) = (required', mz')" and "n \<noteq> 0" and "distinct nids"
    and "\<forall>nid g. g \<in> set (ranges nid) \<longrightarrow> rg_end g \<le> lim" and "\<forall>nid. mz nid \<le> lim"
  shows "kernel_share ranges (set nids) mz + required \<le> kernel_share ranges (set nids) mz' + required'
    \<and> (required' < n \<or> (\<forall>nid \<in> set nids. cover (ranges nid) \<subseteq> {..<mz' nid})) \<and> (\<forall>nid. mz' nid \<le> lim)"
  using assms
proof (induction n arbitrary: required mz)
  case (Suc n)
  obtain req1 mz1 where p: "movable_pass us ranges (Suc n) nids (required div Suc n) (required, mz) = (req1, mz1)"
    by fastforce
  note acc = movable_pass_account [OF p finite_set order_refl Suc.prems(4,5)]
  show ?case
  proof (cases "n \<noteq> 0 \<and> req1 > n")
    case True
    then have rest: "movable_passes us ranges nids n (req1, mz1) = (required', mz')"
      using Suc.prems(1) p by (simp add: Let_def)
    show ?thesis
      using Suc.IH [OF rest _ Suc.prems(3,4)] True acc by auto
  next
    case False
    then have eq: "required' = req1" "mz' = mz1"
      using Suc.prems(1) p by (auto simp: Let_def)
    have "required' < Suc n \<or> (\<forall>nid \<in> set nids. cover (ranges nid) \<subseteq> {..<mz' nid})"
    proof (cases n)
      case 0
      then show ?thesis
        using movable_pass_exhausts [of us ranges nids "required div 1" required mz req1 mz1 lim] p Suc.prems(3-5) eq by auto
    next
      case (Suc k)
      then show ?thesis
        using False eq by simp
    qed
    then show ?thesis
      using acc eq by auto
  qed
qed simp

section \<open>The movable zone\<close>

lemma roundup_ulong_bounds:
  assumes "0 < y" and "x + y \<le> 2 ^ 32"
  shows "x \<le> roundup_ulong x y" and "y dvd roundup_ulong x y"
proof -
  define k where "k = x + (y - 1)"
  have "k < 2 ^ 32"
    using assms unfolding k_def by linarith
  then have "k div y * y < 2 ^ 32"
    by (rule le_less_trans [OF div_times_less_eq_dividend])
  then have eq: "roundup_ulong x y = k div y * y"
    using \<open>k < 2 ^ 32\<close> unfolding roundup_ulong_def k_def [symmetric] by (simp only: mod_less)
  then show "y dvd roundup_ulong x y"
    by simp
  have "k mod y < y" "k = k div y * y + k mod y"
    using assms(1) by simp_all
  then show "x \<le> roundup_ulong x y"
    unfolding eq using assms(1) k_def by linarith
qed

lemma kernel_share_mono: "\<forall>nid \<in> nodes. mz nid \<le> mz' nid \<Longrightarrow> kernel_share ranges nodes mz \<le> kernel_share ranges nodes mz'"
  unfolding kernel_share_def by (intro sum_mono card_mono) (simp add: finite_cover, fastforce)

text \<open>
  C39. The memory that \<open>kernelcore=\<close> or \<open>movablecore=\<close> sets aside for the kernel is there: below the starts of the movable zone in all
  nodes together there are at least as many pages as required, up to one page less than there are nodes, unless all memory is
  below them; and every start is a multiple of the largest block, so that no block straddles it.
\<close>

theorem kernelcore_honoured:
  fixes m :: "region list"
  assumes "find_zone_movable_pfns_for_nodes max_numnodes max_order_nr high m movablecore kernelcore b = Some b'"
    and "\<forall>nid. zone_movable_pfn b nid = 0" and "0 < max_order_nr" and "\<forall>g \<in> set m. rg_end g + max_order_nr \<le> 2 ^ 32" and "max_order_nr \<le> 2 ^ 32"
  defines "nodes \<equiv> {nid. nid < max_numnodes \<and> nid \<in> high \<union> snd (early_calculate_totalpages m)}"
  shows "(kernelcore_wanted max_order_nr (fst (early_calculate_totalpages m)) movablecore kernelcore
        \<le> (\<Sum>nid \<in> nodes. card (cover (regions_in_nid max_numnodes m nid) \<inter> {..<zone_movable_pfn b' nid})) + (card nodes - 1)
      \<or> (\<forall>nid \<in> nodes. cover (regions_in_nid max_numnodes m nid) \<subseteq> {..<zone_movable_pfn b' nid}))
    \<and> (\<forall>nid < max_numnodes. max_order_nr dvd zone_movable_pfn b' nid)"
proof -
  define nids where "nids = filter (\<lambda>nid. nid \<in> high \<union> snd (early_calculate_totalpages m)) [0..<max_numnodes]"
  have nids: "set nids = nodes" "distinct nids" "card nodes = length nids"
    by (auto simp: nids_def nodes_def) (auto simp: nids_def nodes_def simp flip: distinct_card intro!: arg_cong [where f = card])
  let ?req = "kernelcore_wanted max_order_nr (fst (early_calculate_totalpages m)) movablecore kernelcore"
  let ?ranges = "regions_in_nid max_numnodes m"
  show ?thesis
  proof (cases "?req = 0")
    case True
    then have "b' = b"
      using assms(1) by (simp add: find_zone_movable_pfns_for_nodes_def split_beta Let_def)
    then show ?thesis
      using True assms(2) by simp
  next
    case False
    define us where "us = arch_zone_lowest_possible_pfn b (nat (find_usable_zone_for_movable b))"
    obtain req' mz where p: "movable_passes us ?ranges nids (length nids) (?req, zone_movable_pfn b) = (req', mz)"
      by fastforce
    have b': "zone_movable_pfn b' nid = (if nid < max_numnodes then roundup_ulong (mz nid) max_order_nr else mz nid)"
        and ne: "nids \<noteq> []" for nid
      using assms(1) False
      unfolding find_zone_movable_pfns_for_nodes_def split_beta Let_def nids_def [symmetric] us_def [symmetric] p snd_conv
      by (auto split: if_splits)
    define lim where "lim = 2 ^ 32 - max_order_nr"
    have lim: "\<forall>nid g. g \<in> set (?ranges nid) \<longrightarrow> rg_end g \<le> lim" "\<forall>nid. zone_movable_pfn b nid \<le> lim"
      using assms(2,4) by (auto simp: lim_def regions_in_nid_def)
    have spread: "kernel_share ?ranges nodes (zone_movable_pfn b) + ?req \<le> kernel_share ?ranges nodes mz + req'"
        "req' < length nids \<or> (\<forall>nid \<in> nodes. cover (?ranges nid) \<subseteq> {..<mz nid})" "\<forall>nid. mz nid \<le> lim"
      using movable_passes_spread [OF p _ nids(2) lim] ne nids(1) by auto
    have round: "mz nid \<le> roundup_ulong (mz nid) max_order_nr" "max_order_nr dvd roundup_ulong (mz nid) max_order_nr" for nid
      using roundup_ulong_bounds [OF assms(3)] spread(3) assms(5) by (auto simp: lim_def le_diff_conv2)
    then have up: "\<forall>nid \<in> nodes. mz nid \<le> zone_movable_pfn b' nid"
      by (simp add: b')
    have "?req \<le> kernel_share ?ranges nodes (zone_movable_pfn b') + (card nodes - 1)" if "req' < length nids"
      using spread(1) kernel_share_mono [OF up, of ?ranges] that nids(3) by linarith
    moreover have "\<forall>nid \<in> nodes. cover (?ranges nid) \<subseteq> {..<zone_movable_pfn b' nid}" if "\<forall>nid \<in> nodes. cover (?ranges nid) \<subseteq> {..<mz nid}"
      using that up by (meson lessThan_subset_iff subset_trans)
    moreover have "\<forall>nid < max_numnodes. max_order_nr dvd zone_movable_pfn b' nid"
      using round(2) by (simp add: b')
    ultimately show ?thesis
      using spread(2) unfolding kernel_share_def by blast
  qed
qed

text \<open>Two nodes of 40 and 60 pages, blocks of at most 4 pages and 50 pages for the kernel.\<close>

definition example_map :: "region list" where
  "example_map = [\<lparr>rg_nid = 0, rg_start = 0, rg_end = 40\<rparr>, \<lparr>rg_nid = 1, rg_start = 40, rg_end = 100\<rparr>]"

definition example_bounds :: zone_bounds where
  "example_bounds = \<lparr>zb_max_nr_zones = 2, zb_zone_movable = 1, zb_movable_zone = 0, arch_zone_lowest_possible_pfn = (\<lambda>_. 0),
     arch_zone_highest_possible_pfn = (\<lambda>i. if i = 0 then 100 else 0), zone_movable_pfn = (\<lambda>_. 0)\<rparr>"

theorem kernelcore_honoured_witness:
  "\<exists>b'. find_zone_movable_pfns_for_nodes 2 4 {} example_map 0 50 example_bounds = Some b' \<and> 4 dvd zone_movable_pfn b' 0"
proof -
  have two: "find_usable_zone_for_movable example_bounds = 0"
    by (simp add: find_usable_zone_for_movable_def example_bounds_def numeral_2_eq_2)
  have "filter (\<lambda>nid. nid \<in> {} \<union> snd (early_calculate_totalpages example_map)) [0..<2] \<noteq> []"
    by (auto simp: early_calculate_totalpages_def example_map_def filter_empty_conv)
  then obtain b' where b': "find_zone_movable_pfns_for_nodes 2 4 {} example_map 0 50 example_bounds = Some b'"
    using two by (auto simp: find_zone_movable_pfns_for_nodes_def split_beta Let_def kernelcore_wanted_def)
  show ?thesis
    using kernelcore_honoured [OF b'] b' by (auto simp: example_bounds_def example_map_def)
qed

text \<open>Asking for more movable memory than there is wraps around: the kernel's share becomes nearly all there could be.\<close>

lemma movablecore_wraps: "kernelcore_wanted 1024 1000 2048 0 = 2 ^ 32 - 1048"
  by (simp add: kernelcore_wanted_def ulong_sub_def roundup_ulong_def)

end
