(* ===== verification/Zone_Setup.thy ===== *)
theory Zone_Setup
  imports Alloc_Path
begin

text \<open>
  Setting up the zones (mm/page\_alloc.c), for the build without NUMA: zonelists, wait tables,
  per-cpu batch sizes, watermarks and the reserves, the migrate reserve, the size of the pageblock
  bitmap, and the size of the large hash tables.

  The zones of a node are numbered by \<open>enum zone_type\<close>. The record \<open>setup_cfg\<close> holds what the headers
  and libraries outside the repository provide: constants, which zones are highmem, which frames
  have a page, and the arithmetic helpers of the kernel's library.
\<close>

section \<open>Configuration and state\<close>

record setup_cfg =
  PAGE_SHIFT :: nat
  MAX_NR_ZONES :: nat
  SWAP_CLUSTER_MAX :: nat
  is_highmem :: "nat \<Rightarrow> bool"
  pfn_valid :: "nat \<Rightarrow> bool"
  ffz :: "u32 \<Rightarrow> nat"
  rounddown_pow_of_two :: "nat \<Rightarrow> nat"
  roundup_pow_of_two :: "nat \<Rightarrow> nat"
  ilog2 :: "nat \<Rightarrow> nat"
  int_sqrt :: "nat \<Rightarrow> nat"

record vmstate =
  vm_mm :: mm
  totalreserve_pages :: nat
  min_free_kbytes :: nat
  sysctl_lowmem_reserve_ratio :: "nat \<Rightarrow> int"
  inactive_ratio :: "nat \<Rightarrow> nat"

definition PAGE_SIZE :: "setup_cfg \<Rightarrow> nat" where
  "PAGE_SIZE k = 2 ^ PAGE_SHIFT k"

definition vm_zone :: "vmstate \<Rightarrow> nat \<Rightarrow> zone" where
  "vm_zone v z = zones (vm_mm v) z"

definition upd_vm_zone :: "nat \<Rightarrow> (zone \<Rightarrow> zone) \<Rightarrow> vmstate \<Rightarrow> vmstate" where
  "upd_vm_zone z f v = v\<lparr>vm_mm := upd_zone z f (vm_mm v)\<rparr>"

lemma vm_zone_upd [simp]: "vm_zone (upd_vm_zone z f v) z' = (if z' = z then f (vm_zone v z) else vm_zone v z')"
  by (simp add: vm_zone_def upd_vm_zone_def upd_zone_def)

section \<open>Zonelists\<close>

text \<open>
  A zoneref is the node and the type of its zone. \<open>populated\<close> is \<open>populated_zone\<close> of a zone of a node;
  \<open>check_highest_zone\<close> does nothing without NUMA. The list ends where the code writes the
  \<open>NULL\<close> zone.
\<close>

fun build_zonelists_node :: "(nat \<Rightarrow> nat \<Rightarrow> bool) \<Rightarrow> nat \<Rightarrow> nat \<Rightarrow> (nat \<times> nat) list \<Rightarrow> (nat \<times> nat) list" where
  "build_zonelists_node populated node 0 zl = (if populated node 0 then zl @ [(node, 0)] else zl)"
| "build_zonelists_node populated node (Suc t) zl =
     build_zonelists_node populated node t (if populated node (Suc t) then zl @ [(node, Suc t)] else zl)"

definition build_zonelists ::
  "(nat \<Rightarrow> nat \<Rightarrow> bool) \<Rightarrow> (nat \<Rightarrow> bool) \<Rightarrow> nat \<Rightarrow> nat \<Rightarrow> nat \<Rightarrow> (nat \<times> nat) list" where
  "build_zonelists populated node_online max_numnodes max_nr_zones local_node =
     (let add = (\<lambda>zl node. if \<not> node_online node then zl
                           else build_zonelists_node populated node (max_nr_zones - 1) zl);
          zl0 = build_zonelists_node populated local_node (max_nr_zones - 1) [];
          zl1 = foldl add zl0 [local_node + 1..<max_numnodes]
      in foldl add zl1 [0..<local_node])"

definition nr_free_zone_pages :: "(nat \<times> nat) list \<Rightarrow> (nat \<times> nat \<Rightarrow> zone) \<Rightarrow> nat \<Rightarrow> nat" where
  "nr_free_zone_pages zonelist zone_of offset =
     foldl (\<lambda>sum zr.
         let size = present_pages (zone_of zr);
             high = watermark (zone_of zr) 2
         in if size > high then (sum + (size - high)) mod 2 ^ 32 else sum)
       0 (filter (\<lambda>zr. snd zr \<le> offset) zonelist)"

definition mobility_disabled :: "mmcfg \<Rightarrow> nat \<Rightarrow> bool" where
  "mobility_disabled c vm_total_pages \<longleftrightarrow> vm_total_pages < pageblock_nr_pages c * MIGRATE_TYPES"

section \<open>Wait tables\<close>

text \<open>The loop doubles \<open>size\<close>, which starts at one; \<open>i\<close> counts the doublings.\<close>

function wait_size_loop :: "nat \<Rightarrow> nat \<Rightarrow> nat" where
  "wait_size_loop pages i = (if 2 ^ i < pages then wait_size_loop pages (i + 1) else 2 ^ i)"
  by pat_completeness auto
termination
proof (relation "measure (\<lambda>(pages, i). pages - i)", goal_cases)
  case (2 pages i)
  then show ?case
    using less_trans [OF less_exp [of i], of pages] by (simp add: diff_less_mono2)
qed simp

declare wait_size_loop.simps [simp del]

definition wait_table_hash_nr_entries :: "nat \<Rightarrow> nat" where
  "wait_table_hash_nr_entries pages = max (min (wait_size_loop (pages div 256) 0) 4096) 4"

definition wait_table_bits :: "setup_cfg \<Rightarrow> nat \<Rightarrow> nat" where
  "wait_table_bits k n = ffz k (NOT (of_nat n))"

section \<open>Per-cpu page sets\<close>

text \<open>\<open>batch\<close> is an int, compared with an unsigned long after multiplication by the page size.\<close>

definition zone_batchsize :: "setup_cfg \<Rightarrow> zone \<Rightarrow> nat" where
  "zone_batchsize k g =
     (let b0 = present_pages g div 1024;
          b1 = (if (b0 * PAGE_SIZE k) mod 2 ^ 32 > 512 * 1024 then 512 * 1024 div PAGE_SIZE k else b0);
          b2 = b1 div 4;
          b3 = (if b2 < 1 then 1 else b2)
      in rounddown_pow_of_two k (b3 + b3 div 2) - 1)"

definition setup_pageset :: "nat \<Rightarrow> per_cpu_pages" where
  "setup_pageset batch = \<lparr>pcp_count = 0, pcp_high = int (6 * batch), pcp_batch = int (max 1 (1 * batch)),
     pcp_lists = (\<lambda>_. [])\<rparr>"

definition setup_pagelist_highmark :: "setup_cfg \<Rightarrow> nat \<Rightarrow> per_cpu_pages \<Rightarrow> per_cpu_pages" where
  "setup_pagelist_highmark k high p =
     p\<lparr>pcp_high := int high,
       pcp_batch := (if high div 4 > PAGE_SHIFT k * 8 then int (PAGE_SHIFT k * 8) else int (max 1 (high div 4)))\<rparr>"

fun pcp_update_loop :: "mmcfg \<Rightarrow> nat \<Rightarrow> nat \<Rightarrow> nat list \<Rightarrow> mm \<Rightarrow> mm option" where
  "pcp_update_loop c z batch [] s = Some s"
| "pcp_update_loop c z batch (cpu # cpus) s =
     (case free_pcppages_bulk c z (pcp_count (pageset (zones s z) cpu)) cpu s of
        None \<Rightarrow> None
      | Some s1 \<Rightarrow> pcp_update_loop c z batch cpus (upd_pcp z cpu (\<lambda>_. setup_pageset batch) s1))"

definition uu_zone_pcp_update :: "setup_cfg \<Rightarrow> mmcfg \<Rightarrow> nat \<Rightarrow> nat list \<Rightarrow> mm \<Rightarrow> mm option" where
  "uu_zone_pcp_update k c z cpus s = pcp_update_loop c z (zone_batchsize k (zones s z)) cpus s"

definition zone_pcp_init :: "setup_cfg \<Rightarrow> nat list \<Rightarrow> zone \<Rightarrow> zone" where
  "zone_pcp_init k cpus g =
     g\<lparr>pageset := foldl (\<lambda>ps cpu. ps(cpu := setup_pageset (zone_batchsize k g))) (pageset g) cpus\<rparr>"

text \<open>
  The sysctl handler after \<open>proc_dointvec_minmax\<close>, whose result \<open>ret\<close> is an argument: it does
  nothing on a read or an invalid value. A fraction of 0 faults; \<open>proc_dointvec_minmax\<close> keeps it at 8 or more.
\<close>

definition percpu_pagelist_fraction_sysctl_handler ::
  "setup_cfg \<Rightarrow> bool \<Rightarrow> int \<Rightarrow> nat \<Rightarrow> nat list \<Rightarrow> nat list \<Rightarrow> mm \<Rightarrow> (int \<times> mm) option" where
  "percpu_pagelist_fraction_sysctl_handler k write ret fraction zs cpus s =
     (if \<not> write \<or> ret = -22 then Some (ret, s)
      else if fraction = 0 \<and> (\<exists>z \<in> set zs. present_pages (zones s z) \<noteq> 0) \<and> cpus \<noteq> [] then None
      else Some (0, foldl (\<lambda>s z.
          if present_pages (zones s z) = 0 then s
          else foldl (\<lambda>s cpu. upd_pcp z cpu
                 (setup_pagelist_highmark k (present_pages (zones s z) div fraction)) s) s cpus) s zs))"

section \<open>Reserves and watermarks\<close>

definition zone_reserve :: "nat \<Rightarrow> nat \<Rightarrow> zone \<Rightarrow> nat" where
  "zone_reserve n i g =
     (let mx = foldl (\<lambda>mx j. if lowmem_reserve g j > mx then lowmem_reserve g j else mx) 0 [i..<n];
          mx' = mx + watermark g 2
      in if mx' > present_pages g then present_pages g else mx')"

definition calculate_totalreserve_pages :: "setup_cfg \<Rightarrow> vmstate \<Rightarrow> vmstate" where
  "calculate_totalreserve_pages k v =
     v\<lparr>totalreserve_pages :=
         foldl (\<lambda>r i. r + zone_reserve (MAX_NR_ZONES k) i (vm_zone v i)) 0 [0..<MAX_NR_ZONES k]\<rparr>"

text \<open>The inner loop walks down from zone \<open>j\<close>, adding up the present pages above the lower zone.\<close>

fun lowmem_reserve_loop :: "nat \<Rightarrow> nat \<Rightarrow> nat \<Rightarrow> vmstate \<Rightarrow> vmstate" where
  "lowmem_reserve_loop j 0 present v = v"
| "lowmem_reserve_loop j (Suc idx) present v =
     (let v1 = (if sysctl_lowmem_reserve_ratio v idx < 1
                then v\<lparr>sysctl_lowmem_reserve_ratio := (sysctl_lowmem_reserve_ratio v)(idx := 1)\<rparr> else v);
          v2 = upd_vm_zone idx (\<lambda>g. g\<lparr>lowmem_reserve := (lowmem_reserve g)
                 (j := present div nat (sysctl_lowmem_reserve_ratio v1 idx))\<rparr>) v1
      in lowmem_reserve_loop j idx (present + present_pages (vm_zone v2 idx)) v2)"

definition lowmem_reserve_zone :: "nat \<Rightarrow> vmstate \<Rightarrow> vmstate" where
  "lowmem_reserve_zone j v =
     lowmem_reserve_loop j j (present_pages (vm_zone v j))
       (upd_vm_zone j (\<lambda>g. g\<lparr>lowmem_reserve := (lowmem_reserve g)(j := 0)\<rparr>) v)"

definition setup_per_zone_lowmem_reserve :: "setup_cfg \<Rightarrow> vmstate \<Rightarrow> vmstate" where
  "setup_per_zone_lowmem_reserve k v =
     calculate_totalreserve_pages k (foldl (\<lambda>v j. lowmem_reserve_zone j v) v [0..<MAX_NR_ZONES k])"

text \<open>One step of the reserve loop, for the block at \<open>pfn\<close>: the state and what is left to reserve.\<close>

definition reserve_step :: "setup_cfg \<Rightarrow> mmcfg \<Rightarrow> nat \<Rightarrow> nat \<Rightarrow> int \<times> mm \<Rightarrow> (int \<times> mm) option" where
  "reserve_step k c z pfn = (\<lambda>(reserve, s).
     if \<not> pfn_valid k pfn then Some (reserve, s)
     else if PG_reserved \<in> flags (mem_map s pfn) then Some (reserve, s)
     else
       let t = get_pageblock_migratetype c s pfn in
       if reserve > 0 \<and> t = MIGRATE_RESERVE then Some (reserve - 1, s)
       else if reserve > 0 \<and> t = MIGRATE_MOVABLE then
         (case move_freepages_block c z pfn MIGRATE_RESERVE (set_pageblock_migratetype c pfn MIGRATE_RESERVE s) of
            None \<Rightarrow> None | Some (_, s') \<Rightarrow> Some (reserve - 1, s'))
       else if t = MIGRATE_RESERVE then
         (case move_freepages_block c z pfn MIGRATE_MOVABLE (set_pageblock_migratetype c pfn MIGRATE_MOVABLE s) of
            None \<Rightarrow> None | Some (_, s') \<Rightarrow> Some (reserve, s'))
       else Some (reserve, s))"

function reserve_loop :: "setup_cfg \<Rightarrow> mmcfg \<Rightarrow> nat \<Rightarrow> nat \<Rightarrow> nat \<Rightarrow> int \<times> mm \<Rightarrow> (int \<times> mm) option" where
  "reserve_loop k c z pfn end_pfn rs =
     (if pfn < end_pfn then
        (case reserve_step k c z pfn rs of
           None \<Rightarrow> None
         | Some rs' \<Rightarrow> reserve_loop k c z (pfn + pageblock_nr_pages c) end_pfn rs')
      else Some rs)"
  by pat_completeness auto
termination
  by (relation "measure (\<lambda>(k, c, z, p, e, rs). e - p)") (auto simp: pageblock_nr_pages_def diff_less_mono2)

declare reserve_loop.simps [simp del]

definition roundup :: "nat \<Rightarrow> nat \<Rightarrow> nat" where
  "roundup x y = (x + (y - 1)) div y * y"

definition setup_zone_migrate_reserve :: "setup_cfg \<Rightarrow> mmcfg \<Rightarrow> nat \<Rightarrow> mm \<Rightarrow> mm option" where
  "setup_zone_migrate_reserve k c z s =
     (let g = zones s z;
          start_pfn = zone_start_pfn g;
          end_pfn = start_pfn + spanned_pages g;
          reserve = drop_bit (pageblock_order c) (roundup (watermark g 0) (pageblock_nr_pages c));
          reserve' = min 2 (int reserve)
      in map_option snd (reserve_loop k c z start_pfn end_pfn (reserve', s)))"

definition zone_wmarks :: "setup_cfg \<Rightarrow> nat \<Rightarrow> nat \<Rightarrow> nat \<Rightarrow> zone \<Rightarrow> zone" where
  "zone_wmarks k pages_min lowmem_pages z g =
     (let tmp = pages_min * present_pages g div lowmem_pages;
          m0 = present_pages g div 1024;
          m1 = (if m0 < SWAP_CLUSTER_MAX k then SWAP_CLUSTER_MAX k else m0);
          min_pages = (if m1 > 128 then 128 else m1);
          wmin = (if is_highmem k z then min_pages else tmp mod 2 ^ 32)
      in g\<lparr>watermark := (watermark g)(0 := wmin, 1 := (wmin + drop_bit 2 tmp) mod 2 ^ 32,
             2 := (wmin + drop_bit 1 tmp) mod 2 ^ 32)\<rparr>)"

fun wmarks_loop :: "setup_cfg \<Rightarrow> mmcfg \<Rightarrow> nat \<Rightarrow> nat \<Rightarrow> nat list \<Rightarrow> mm \<Rightarrow> mm option" where
  "wmarks_loop k c pages_min lowmem_pages [] s = Some s"
| "wmarks_loop k c pages_min lowmem_pages (z # zs) s =
     (case setup_zone_migrate_reserve k c z (upd_zone z (zone_wmarks k pages_min lowmem_pages z) s) of
        None \<Rightarrow> None
      | Some s' \<Rightarrow> wmarks_loop k c pages_min lowmem_pages zs s')"

text \<open>\<open>None\<close> is a fault: the division by \<open>lowmem_pages\<close> when no zone of low memory has pages, or a \<open>BUG_ON\<close>.\<close>

definition setup_per_zone_wmarks :: "setup_cfg \<Rightarrow> mmcfg \<Rightarrow> vmstate \<Rightarrow> vmstate option" where
  "setup_per_zone_wmarks k c v =
     (let pages_min = drop_bit (PAGE_SHIFT k - 10) (min_free_kbytes v);
          zs = [0..<MAX_NR_ZONES k];
          lowmem_pages = foldl (\<lambda>n z. if \<not> is_highmem k z then n + present_pages (vm_zone v z) else n) 0 zs
      in if lowmem_pages = 0 \<and> zs \<noteq> [] then None
         else map_option (\<lambda>s. calculate_totalreserve_pages k (v\<lparr>vm_mm := s\<rparr>))
                (wmarks_loop k c pages_min lowmem_pages zs (vm_mm v)))"

definition calculate_zone_inactive_ratio :: "setup_cfg \<Rightarrow> zone \<Rightarrow> nat" where
  "calculate_zone_inactive_ratio k g =
     (let gb = drop_bit (30 - PAGE_SHIFT k) (present_pages g)
      in if gb \<noteq> 0 then int_sqrt k (10 * gb) else 1)"

definition setup_per_zone_inactive_ratio :: "setup_cfg \<Rightarrow> vmstate \<Rightarrow> vmstate" where
  "setup_per_zone_inactive_ratio k v =
     foldl (\<lambda>v z. v\<lparr>inactive_ratio := (inactive_ratio v)(z := calculate_zone_inactive_ratio k (vm_zone v z))\<rparr>)
       v [0..<MAX_NR_ZONES k]"

definition init_per_zone_wmark_min :: "setup_cfg \<Rightarrow> mmcfg \<Rightarrow> nat \<Rightarrow> vmstate \<Rightarrow> vmstate option" where
  "init_per_zone_wmark_min k c nr_free_buffer_pages v =
     (let lowmem_kbytes = (nr_free_buffer_pages * drop_bit 10 (PAGE_SIZE k)) mod 2 ^ 32;
          m0 = int_sqrt k ((lowmem_kbytes * 16) mod 2 ^ 32);
          m1 = (if m0 < 128 then 128 else m0);
          m2 = (if m1 > 65536 then 65536 else m1)
      in map_option (\<lambda>v. setup_per_zone_inactive_ratio k (setup_per_zone_lowmem_reserve k v))
           (setup_per_zone_wmarks k c (v\<lparr>min_free_kbytes := m2\<rparr>)))"

section \<open>Sizes of tables\<close>

definition usemap_size :: "mmcfg \<Rightarrow> nat \<Rightarrow> nat" where
  "usemap_size c zonesize =
     (let u0 = roundup zonesize (pageblock_nr_pages c);
          u1 = drop_bit (pageblock_order c) u0;
          u2 = u1 * NR_PAGEBLOCK_BITS;
          u3 = roundup u2 (8 * 4)
      in u3 div 8)"

text \<open>
  \<open>alloc n\<close> tells whether the allocator the flags select returns a table of \<open>n\<close> bytes. The result
  is the logarithm of the number of entries, the panic, or the loop's shift by a counter that
  was decremented below 0.
\<close>

datatype hash_result = Table nat | Panic | Shift_overflow | Bug_on

fun hash_loop :: "setup_cfg \<Rightarrow> (nat \<Rightarrow> bool) \<Rightarrow> nat \<Rightarrow> nat \<Rightarrow> hash_result" where
  "hash_loop k alloc bucketsize 0 =
     (if alloc bucketsize then Table 0 else if bucketsize > PAGE_SIZE k then Shift_overflow else Panic)"
| "hash_loop k alloc bucketsize (Suc q) =
     (if alloc (push_bit (Suc q) bucketsize) then Table (Suc q)
      else if push_bit (Suc q) bucketsize > PAGE_SIZE k \<and> q \<noteq> 0 then hash_loop k alloc bucketsize q
      else Panic)"

definition hash_entries_of_memory :: "setup_cfg \<Rightarrow> nat \<Rightarrow> nat \<Rightarrow> nat" where
  "hash_entries_of_memory k nr_kernel_pages scale =
     (let mb = 20 - PAGE_SHIFT k;
          n0 = (nr_kernel_pages + (2 ^ mb - 1)) mod 2 ^ 32;
          n1 = push_bit mb (drop_bit mb n0)
      in if scale > PAGE_SHIFT k then drop_bit (scale - PAGE_SHIFT k) n1
         else push_bit (PAGE_SHIFT k - scale) n1 mod 2 ^ 32)"

text \<open>\<open>small\<close> is the flag \<open>HASH_SMALL\<close>, \<open>shift\<close> the value of \<open>*_hash_shift\<close> it reads.\<close>

definition alloc_large_system_hash ::
  "setup_cfg \<Rightarrow> (nat \<Rightarrow> bool) \<Rightarrow> nat \<Rightarrow> nat \<Rightarrow> nat \<Rightarrow> nat \<Rightarrow> nat \<Rightarrow> bool \<Rightarrow> nat \<Rightarrow> nat \<Rightarrow> hash_result" where
  "alloc_large_system_hash k alloc nr_kernel_pages nr_all_pages bucketsize numentries scale small shift limit =
     (let n0 = (if numentries = 0 then hash_entries_of_memory k nr_kernel_pages scale else numentries);
          n1 = (if numentries = 0 then
                  if small then if drop_bit shift n0 = 0 then push_bit shift 1 mod 2 ^ 32 else n0
                  else if (n0 * bucketsize) mod 2 ^ 32 < PAGE_SIZE k then PAGE_SIZE k div bucketsize else n0
                else n0)
      in if numentries = 0 \<and> small \<and> drop_bit shift n0 = 0 \<and> n1 = 0 then Bug_on
         else
           let n2 = roundup_pow_of_two k n1;
               mx = (if limit = 0 then drop_bit 4 (push_bit (PAGE_SHIFT k) nr_all_pages) div bucketsize else limit);
               n3 = (if n2 > mx then mx else n2)
           in hash_loop k alloc bucketsize (ilog2 k n3))"

end
