(* ===== verification/Zone_Init.thy ===== *)
theory Zone_Init
  imports Zone_Setup Node_Map
begin

text \<open>
  Initialising the zones and handing pages over (mm/page\_alloc.c): the page array, the free lists
  and counters of every zone of a node, the release of boot memory, isolating and unisolating
  a pageblock, taking isolated pages offline, and allocations of an exact number of pages.
\<close>

section \<open>The page array and the free lists\<close>

text \<open>
  \<open>early\<close> tells whether the context is \<open>MEMMAP_EARLY\<close>; \<open>in_nid\<close> is \<open>early_pfn_in_nid\<close> for the node.
  \<open>init_page_count\<close> sets the count to one and \<open>reset_page_mapcount\<close> makes \<open>page_mapcount\<close> zero.
\<close>

definition memmap_init_page :: "mmcfg \<Rightarrow> nat \<Rightarrow> nat \<Rightarrow> mm \<Rightarrow> mm" where
  "memmap_init_page c z pfn s =
     (let s1 = upd_page pfn (\<lambda>g. g\<lparr>zone_id := z, pg_count := 1, mapcount := 0,
                 flags := insert PG_reserved (flags g)\<rparr>) s
      in if zone_start_pfn (zones s1 z) \<le> pfn \<and> pfn < zone_start_pfn (zones s1 z) + spanned_pages (zones s1 z)
            \<and> pfn AND (pageblock_nr_pages c - 1) = 0
         then set_pageblock_migratetype c pfn MIGRATE_MOVABLE s1 else s1)"

definition memmap_init_zone ::
  "setup_cfg \<Rightarrow> mmcfg \<Rightarrow> (nat \<Rightarrow> bool) \<Rightarrow> bool \<Rightarrow> nat \<Rightarrow> nat \<Rightarrow> nat \<Rightarrow> mm \<Rightarrow> mm" where
  "memmap_init_zone k c in_nid early n z start_pfn s =
     foldl (\<lambda>s pfn. if early \<and> (\<not> pfn_valid k pfn \<or> \<not> in_nid pfn) then s else memmap_init_page c z pfn s)
       s [start_pfn..<start_pfn + n]"

definition zone_init_free_lists :: "mmcfg \<Rightarrow> zone \<Rightarrow> zone" where
  "zone_init_free_lists c g =
     g\<lparr>area := (\<lambda>ord. if ord < MAX_ORDER c
        then (area g ord)\<lparr>free_list := (\<lambda>t. if t < MIGRATE_TYPES then [] else free_list (area g ord) t), nr_free := 0\<rparr>
        else area g ord)\<rparr>"

text \<open>The wait table of a zone is allocated outside: \<open>have_table\<close> tells whether that worked.\<close>

record wait_table =
  wt_entries :: nat
  wt_bits :: nat

definition zone_wait_table_init :: "setup_cfg \<Rightarrow> bool \<Rightarrow> nat \<Rightarrow> int \<times> wait_table" where
  "zone_wait_table_init k have_table zone_size_pages =
     (let n = wait_table_hash_nr_entries zone_size_pages
      in (if have_table then 0 else -12, \<lparr>wt_entries = n, wt_bits = wait_table_bits k n\<rparr>))"

definition init_currently_empty_zone :: "setup_cfg \<Rightarrow> mmcfg \<Rightarrow> bool \<Rightarrow> nat \<Rightarrow> nat \<Rightarrow> zone \<Rightarrow> int \<times> zone" where
  "init_currently_empty_zone k c have_table start_pfn n g =
     (let ret = fst (zone_wait_table_init k have_table n)
      in if ret \<noteq> 0 then (ret, g)
         else (0, zone_init_free_lists c (g\<lparr>zone_start_pfn := start_pfn\<rparr>)))"

section \<open>The zones of a node\<close>

record node_env =
  ne_spanned :: "nat \<Rightarrow> nat"
  ne_absent :: "nat \<Rightarrow> nat"
  ne_in_nid :: "nat \<Rightarrow> bool"
  ne_cpus :: "nat list"
  dma_reserve :: nat
  sizeof_page :: nat
  ne_have_table :: bool
  ne_bitmap :: "nat \<Rightarrow> nat \<Rightarrow> bool"

definition node_totalpages :: "setup_cfg \<Rightarrow> node_env \<Rightarrow> nat \<times> nat" where
  "node_totalpages k e =
     (let totalpages = foldl (\<lambda>n i. n + ne_spanned e i) 0 [0..<MAX_NR_ZONES k]
      in (totalpages, foldl (\<lambda>n i. ulong_sub n (ne_absent e i)) totalpages [0..<MAX_NR_ZONES k]))"

definition zone_realsize :: "setup_cfg \<Rightarrow> node_env \<Rightarrow> nat \<Rightarrow> nat" where
  "zone_realsize k e j =
     (let n = ne_spanned e j;
          r0 = ulong_sub n (ne_absent e j);
          memmap_pages = (n * sizeof_page e + (PAGE_SIZE k - 1)) div PAGE_SIZE k;
          r1 = (if r0 \<ge> memmap_pages then r0 - memmap_pages else r0)
      in if j = 0 \<and> r1 > dma_reserve e then r1 - dma_reserve e else r1)"

text \<open>
  One zone of the loop: the start of the next zone, the running counts \<open>nr_kernel_pages\<close> and
  \<open>nr_all_pages\<close> and the state; \<open>None\<close> is the \<open>BUG_ON\<close>. \<open>ne_bitmap\<close> is the content of the fresh bitmap.
\<close>

record init_state =
  is_start :: nat
  nr_kernel_pages :: nat
  nr_all_pages :: nat
  is_mm :: mm

definition init_zone_fields :: "setup_cfg \<Rightarrow> node_env \<Rightarrow> nat \<Rightarrow> zone \<Rightarrow> zone" where
  "init_zone_fields k e j g =
     zone_pcp_init k (ne_cpus e) (g\<lparr>spanned_pages := ne_spanned e j, present_pages := zone_realsize k e j\<rparr>)
       \<lparr>nr_free_pages := 0, nr_mlock := 0\<rparr>"

definition free_area_init_zone :: "setup_cfg \<Rightarrow> mmcfg \<Rightarrow> node_env \<Rightarrow> nat \<Rightarrow> init_state \<Rightarrow> init_state option" where
  "free_area_init_zone k c e j st =
     (let n = ne_spanned e j;
          realsize = zone_realsize k e j;
          st1 = st\<lparr>nr_kernel_pages := (if \<not> is_highmem k j then nr_kernel_pages st + realsize else nr_kernel_pages st),
                   nr_all_pages := nr_all_pages st + realsize,
                   is_mm := upd_zone j (init_zone_fields k e j) (is_mm st)\<rparr>
      in if n = 0 then Some st1
         else
           let g = (zones (is_mm st1) j)\<lparr>pageblock_flags := ne_bitmap e j\<rparr>;
               (ret, g') = init_currently_empty_zone k c (ne_have_table e) (is_start st1) n g
           in if ret \<noteq> 0 then None
              else Some (st1\<lparr>is_mm := memmap_init_zone k c (ne_in_nid e) True n j (is_start st1)
                                        (upd_zone j (\<lambda>_. g') (is_mm st1)),
                             is_start := is_start st1 + n\<rparr>))"

fun free_area_init_loop :: "setup_cfg \<Rightarrow> mmcfg \<Rightarrow> node_env \<Rightarrow> nat list \<Rightarrow> init_state \<Rightarrow> init_state option" where
  "free_area_init_loop k c e [] st = Some st"
| "free_area_init_loop k c e (j # js) st =
     (case free_area_init_zone k c e j st of None \<Rightarrow> None | Some st' \<Rightarrow> free_area_init_loop k c e js st')"

definition free_area_init_core :: "setup_cfg \<Rightarrow> mmcfg \<Rightarrow> node_env \<Rightarrow> init_state \<Rightarrow> init_state option" where
  "free_area_init_core k c e st = free_area_init_loop k c e [0..<MAX_NR_ZONES k] st"

section \<open>Boot memory and exact allocations\<close>

definition clear_reserved :: "nat \<Rightarrow> mm \<Rightarrow> mm" where
  "clear_reserved p = upd_page p (\<lambda>g. g\<lparr>flags := flags g - {PG_reserved}, pg_count := 0\<rparr>)"

definition uu_free_pages_bootmem :: "mmcfg \<Rightarrow> nat \<Rightarrow> nat \<Rightarrow> nat \<Rightarrow> mm \<Rightarrow> mm option" where
  "uu_free_pages_bootmem c cpu p ord s =
     (if ord = 0 then uu_free_pages c cpu p 0 (set_page_refcounted p (clear_reserved p s))
      else uu_free_pages c cpu p ord
             (set_page_refcounted p (foldl (\<lambda>s loop. clear_reserved (p + loop) s) s [0..<32])))"

text \<open>The calls of \<open>free_bootmem_node\<close>: node, first frame and number of frames.\<close>

definition free_bootmem_with_active_regions :: "nat \<Rightarrow> region list \<Rightarrow> nat \<Rightarrow> nat \<Rightarrow> (nat \<times> nat \<times> nat) list" where
  "free_bootmem_with_active_regions max_numnodes m nid max_low_pfn =
     map (\<lambda>g. (rg_nid g, rg_start g, min (rg_end g) max_low_pfn - rg_start g))
       (filter (\<lambda>g. rg_start g < max_low_pfn) (regions_in_nid max_numnodes m nid))"

fun work_loop :: "(nat \<Rightarrow> nat \<Rightarrow> 'd \<Rightarrow> int \<times> 'd) \<Rightarrow> region list \<Rightarrow> 'd \<Rightarrow> 'd" where
  "work_loop work_fn [] d = d"
| "work_loop work_fn (g # gs) d =
     (let (ret, d') = work_fn (rg_start g) (rg_end g) d
      in if ret \<noteq> 0 then d' else work_loop work_fn gs d')"

definition work_with_active_regions ::
  "nat \<Rightarrow> region list \<Rightarrow> nat \<Rightarrow> (nat \<Rightarrow> nat \<Rightarrow> 'd \<Rightarrow> int \<times> 'd) \<Rightarrow> 'd \<Rightarrow> 'd" where
  "work_with_active_regions max_numnodes m nid work_fn d = work_loop work_fn (regions_in_nid max_numnodes m nid) d"

fun free_each :: "mmcfg \<Rightarrow> nat \<Rightarrow> nat list \<Rightarrow> mm \<Rightarrow> mm option" where
  "free_each c cpu [] s = Some s"
| "free_each c cpu (p # ps) s =
     (case uu_free_pages c cpu p 0 s of None \<Rightarrow> None | Some s' \<Rightarrow> free_each c cpu ps s')"

text \<open>
  \<open>alloc\<close> is \<open>\<^verbatim>\<open>__get_free_pages\<close>\<close>, \<open>ord\<close> is \<open>get_order(size)\<close> and \<open>n\<close> is \<open>PAGE_ALIGN(size)\<close> in pages; addresses
  are counted in pages.
\<close>

definition alloc_pages_exact ::
  "mmcfg \<Rightarrow> nat \<Rightarrow> (nat \<Rightarrow> mm \<Rightarrow> (nat option \<times> mm) option) \<Rightarrow> nat \<Rightarrow> nat \<Rightarrow> mm \<Rightarrow> (nat option \<times> mm) option" where
  "alloc_pages_exact c cpu alloc ord n s =
     (case alloc ord s of
        None \<Rightarrow> None
      | Some (None, s1) \<Rightarrow> Some (None, s1)
      | Some (Some p, s1) \<Rightarrow>
          map_option (\<lambda>s2. (Some p, s2)) (free_each c cpu [p + n..<p + 2 ^ ord] (split_page p ord s1)))"

definition free_pages_exact :: "mmcfg \<Rightarrow> nat \<Rightarrow> nat \<Rightarrow> nat \<Rightarrow> mm \<Rightarrow> mm option" where
  "free_pages_exact c cpu p n s = free_each c cpu [p..<p + n] s"

section \<open>Isolation\<close>

definition set_migratetype_isolate ::
  "mmcfg \<Rightarrow> nat \<Rightarrow> nat list \<Rightarrow> nat list \<Rightarrow> nat \<Rightarrow> mm \<Rightarrow> (int \<times> mm) option" where
  "set_migratetype_isolate c zone_movable zs cpus p s =
     (let z = page_zone s p
      in if get_pageblock_migratetype c s p \<noteq> MIGRATE_MOVABLE \<and> z \<noteq> zone_movable then Some (-16, s)
         else
           case move_freepages_block c z p MIGRATE_ISOLATE (set_pageblock_migratetype c p MIGRATE_ISOLATE s) of
             None \<Rightarrow> None
           | Some (_, s1) \<Rightarrow> map_option (\<lambda>s2. (0, s2)) (drain_all_pages c zs cpus s1))"

definition unset_migratetype_isolate :: "mmcfg \<Rightarrow> nat \<Rightarrow> mm \<Rightarrow> mm option" where
  "unset_migratetype_isolate c p s =
     (let z = page_zone s p
      in if get_pageblock_migratetype c s p \<noteq> MIGRATE_ISOLATE then Some s
         else map_option snd
           (move_freepages_block c z p MIGRATE_MOVABLE (set_pageblock_migratetype c p MIGRATE_MOVABLE s)))"

text \<open>Taking the pages of a range off the free lists for good; \<open>None\<close> is a \<open>BUG_ON\<close>.\<close>

definition offline_block :: "nat \<Rightarrow> nat \<Rightarrow> mm \<Rightarrow> mm" where
  "offline_block z p s =
     (let ord = page_order s p;
          s1 = rmv_page_order p (list_del_free z p s);
          s2 = mod_nr_free_pages z (- (2 ^ ord)) (add_nr_free z ord (-1) s1)
      in foldl (\<lambda>s i. set_flag PG_reserved (p + i) s) s2 [0..<2 ^ ord])"

function offline_loop :: "setup_cfg \<Rightarrow> nat \<Rightarrow> nat \<Rightarrow> nat \<Rightarrow> mm \<Rightarrow> mm option" where
  "offline_loop k z pfn end_pfn s =
     (if pfn < end_pfn then
        if \<not> pfn_valid k pfn then offline_loop k z (pfn + 1) end_pfn s
        else if page_count s pfn \<noteq> 0 \<or> \<not> PageBuddy s pfn then None
        else offline_loop k z (pfn + 2 ^ page_order s pfn) end_pfn (offline_block z pfn s)
      else Some s)"
  by pat_completeness auto
termination
  by (relation "measure (\<lambda>(k, z, p, e, s). e - p)") (auto simp: diff_less_mono2)

declare offline_loop.simps [simp del]

definition uu_offline_isolated_pages :: "setup_cfg \<Rightarrow> nat \<Rightarrow> nat \<Rightarrow> mm \<Rightarrow> mm option" where
  "uu_offline_isolated_pages k start_pfn end_pfn s =
     (case filter (pfn_valid k) [start_pfn..<end_pfn] of
        [] \<Rightarrow> Some s
      | first # _ \<Rightarrow> offline_loop k (page_zone s first) start_pfn end_pfn s)"

end
