(* ===== verification/Zone_Setup_Props.thy ===== *)
theory Zone_Setup_Props
  imports Zone_Init Alloc_Path_Ops
begin

text \<open>
  What the setup of the zones guarantees: sizes of wait tables, per-cpu batches, bitmaps and
  reserves, and the contents of the zonelists.
\<close>

section \<open>Wait tables\<close>

lemma wait_size_power: "\<exists>i. wait_size_loop pages j = 2 ^ i"
  by (induction pages j rule: wait_size_loop.induct) (subst wait_size_loop.simps, auto)

lemma wait_size_enough: "pages \<le> wait_size_loop pages j"
  by (induction pages j rule: wait_size_loop.induct) (subst wait_size_loop.simps, auto)

lemma wait_size_tight: "wait_size_loop pages j = 2 ^ j \<or> wait_size_loop pages j < 2 * pages"
proof (induction pages j rule: wait_size_loop.induct)
  case (1 pages j)
  then show ?case
    by (subst (1 2) wait_size_loop.simps) (auto simp: not_less)
qed

lemma clamp_power:
  assumes "n = 2 ^ i"
  shows "\<exists>j. max (min n 4096) 4 = (2 ^ j :: nat) \<and> 2 \<le> j \<and> j \<le> 12"
proof -
  consider "i \<le> 2" | "2 < i" "i < 12" | "12 \<le> i" by linarith
  then show ?thesis
  proof cases
    case 1
    then have "n \<le> 2 ^ 2" unfolding assms by (intro power_increasing) auto
    then show ?thesis by (intro exI [of _ 2]) auto
  next
    case 2
    then have "(2::nat) ^ 2 \<le> n" "n \<le> 2 ^ 12"
      using assms power_increasing [of 2 i "2::nat"] power_increasing [of i 12 "2::nat"] by auto
    then show ?thesis using assms 2 by (intro exI [of _ i]) auto
  next
    case 3
    then have "(2::nat) ^ 12 \<le> n" unfolding assms by (intro power_increasing) auto
    then show ?thesis by (intro exI [of _ 12]) auto
  qed
qed

lemma ffz_of_power:
  fixes f :: "u32 \<Rightarrow> nat"
  assumes law: "\<And>w. w \<noteq> - 1 \<Longrightarrow> f w < 32 \<and> \<not> bit w (f w) \<and> (\<forall>i < f w. bit w i)" and "j < 32"
  shows "f (NOT (of_nat (2 ^ j))) = j"
proof -
  let ?w = "NOT (of_nat (2 ^ j)) :: u32"
  have b: "bit ?w i \<longleftrightarrow> i \<noteq> j" if "i < 32" for i
    using that by (auto simp: bit_not_iff bit_exp_iff)
  have "?w \<noteq> - 1"
    using b [OF assms(2)] assms(2) by (auto simp: bit_eq_iff bit_not_iff bit_exp_iff)
  from law [OF this] show ?thesis
    using b assms(2) by blast
qed

section \<open>Batches\<close>

lemma rounddown_half:
  fixes r :: "nat \<Rightarrow> nat"
  assumes law: "\<And>n. 0 < n \<Longrightarrow> \<exists>i. r n = 2 ^ i \<and> 2 ^ i \<le> n \<and> n < 2 ^ Suc i" and "1 \<le> b" "b \<le> 32"
  shows "(\<exists>i. r (b + b div 2) = 2 ^ i) \<and> r (b + b div 2) \<le> 32"
proof -
  obtain i where i: "r (b + b div 2) = 2 ^ i" "2 ^ i \<le> b + b div 2"
    using law [of "b + b div 2"] assms(2) by auto
  have "2 ^ i < (2::nat) ^ 6"
    using i(2) assms(3) by (intro le_less_trans [OF i(2)]) simp
  then have "i \<le> 5"
    using power_less_imp_less_exp [of "2::nat" i 6] by simp
  then have "(2::nat) ^ i \<le> 2 ^ 5"
    by (intro power_increasing) auto
  then show ?thesis
    using i(1) by auto
qed

section \<open>The pageblock bitmap\<close>

lemma roundup_ge: "0 < y \<Longrightarrow> x \<le> roundup x y"
proof -
  assume "0 < y"
  have "x + (y - 1) < ((x + (y - 1)) div y) * y + y"
    using \<open>0 < y\<close> by (metis dividend_less_div_times mult.commute add.commute)
  then show ?thesis
    using \<open>0 < y\<close> by (simp add: roundup_def)
qed

lemma roundup_dvd: "y dvd roundup x y"
  by (simp add: roundup_def)

lemma usemap_bits:
  "drop_bit (pageblock_order c) (roundup n (pageblock_nr_pages c)) * NR_PAGEBLOCK_BITS \<le> 8 * usemap_size c n"
proof -
  let ?b = "drop_bit (pageblock_order c) (roundup n (pageblock_nr_pages c)) * NR_PAGEBLOCK_BITS"
  have "32 dvd roundup ?b 32"
    by (rule roundup_dvd)
  then have "8 * (roundup ?b 32 div 8) = roundup ?b 32"
    by auto
  then show ?thesis
    using roundup_ge [of 32 ?b] by (simp add: usemap_size_def Let_def)
qed

lemma bitidx_bound:
  assumes "q < n"
  shows "drop_bit r q * 3 + 3 \<le> drop_bit r (roundup n (2 ^ r)) * (3::nat)"
proof -
  obtain m where m: "roundup n (2 ^ r) = m * 2 ^ r"
    using roundup_dvd [of "2 ^ r" n] by (auto simp: dvd_def mult.commute)
  then have "q < m * 2 ^ r"
    using assms roundup_ge [of "2 ^ r" n] by simp
  then have "q div 2 ^ r < m"
    by (simp add: less_mult_imp_div_less)
  then show ?thesis
    by (simp add: drop_bit_eq_div m)
qed

section \<open>Reserves of low memory\<close>

definition ratio :: "vmstate \<Rightarrow> nat \<Rightarrow> nat" where
  "ratio v idx = nat (max 1 (sysctl_lowmem_reserve_ratio v idx))"

lemma lowmem_loop_reads:
  "present_pages (vm_zone (lowmem_reserve_loop j i p v) z) = present_pages (vm_zone v z)"
  "ratio (lowmem_reserve_loop j i p v) = ratio v"
  by (induction j i p v rule: lowmem_reserve_loop.induct) (auto simp: Let_def upd_vm_zone_def vm_zone_def upd_zone_def ratio_def)

lemma lowmem_loop_reserve:
  "lowmem_reserve (vm_zone (lowmem_reserve_loop j i p v) z) t =
     (if t = j \<and> z < i then (p + (\<Sum>y\<in>{z<..<i}. present_pages (vm_zone v y))) div ratio v z
      else lowmem_reserve (vm_zone v z) t)"
proof (induction j i p v rule: lowmem_reserve_loop.induct)
  case (2 j i p v)
  let ?v1 = "if sysctl_lowmem_reserve_ratio v i < 1
    then v\<lparr>sysctl_lowmem_reserve_ratio := (sysctl_lowmem_reserve_ratio v)(i := 1)\<rparr> else v"
  let ?v2 = "upd_vm_zone i (\<lambda>g. g\<lparr>lowmem_reserve := (lowmem_reserve g)
    (j := p div nat (sysctl_lowmem_reserve_ratio ?v1 i))\<rparr>) ?v1"
  have r: "ratio ?v2 = ratio v" "nat (sysctl_lowmem_reserve_ratio ?v1 i) = ratio v i"
    by (auto simp: ratio_def upd_vm_zone_def)
  have v1: "vm_zone ?v1 y = vm_zone v y" for y
    by (simp add: vm_zone_def)
  have p2: "present_pages (vm_zone ?v2 y) = present_pages (vm_zone v y)" for y
    by (simp add: v1)
  have "lowmem_reserve_loop j (Suc i) p v = lowmem_reserve_loop j i (p + present_pages (vm_zone ?v2 i)) ?v2"
    by (simp add: Let_def)
  then have "lowmem_reserve (vm_zone (lowmem_reserve_loop j (Suc i) p v) z) t =
      (if t = j \<and> z < i then (p + present_pages (vm_zone v i) + (\<Sum>y\<in>{z<..<i}. present_pages (vm_zone v y))) div ratio v z
       else lowmem_reserve (vm_zone ?v2 z) t)"
    using "2" [OF refl refl] by (simp only: p2 r(1))
  moreover have "{z<..<Suc i} = (if z < i then insert i {z<..<i} else {})"
    by auto
  ultimately show ?case
    using r(2) by (auto simp: v1 add_ac)
qed simp

lemma lowmem_zone_reads:
  "present_pages (vm_zone (lowmem_reserve_zone j v) z) = present_pages (vm_zone v z)"
  "ratio (lowmem_reserve_zone j v) = ratio v"
  by (simp_all add: lowmem_reserve_zone_def lowmem_loop_reads) (simp add: ratio_def upd_vm_zone_def fun_eq_iff)

lemma lowmem_zone_reserve:
  "lowmem_reserve (vm_zone (lowmem_reserve_zone j v) z) t =
     (if t = j \<and> z \<le> j then (\<Sum>y\<in>{z<..j}. present_pages (vm_zone v y)) div ratio v z
      else lowmem_reserve (vm_zone v z) t)"
proof -
  let ?v = "upd_vm_zone j (\<lambda>g. g\<lparr>lowmem_reserve := (lowmem_reserve g)(j := 0)\<rparr>) v"
  have "ratio ?v = ratio v"
    by (simp add: ratio_def upd_vm_zone_def fun_eq_iff)
  moreover have "present_pages (vm_zone ?v y) = present_pages (vm_zone v y)" for y
    by simp
  moreover have "{z<..j} = insert j {z<..<j}" if "z < j"
    using that by auto
  ultimately show ?thesis
    by (auto simp: lowmem_reserve_zone_def lowmem_loop_reserve)
qed

lemma lowmem_fold:
  "present_pages (vm_zone (foldl (\<lambda>v j. lowmem_reserve_zone j v) v js) z) = present_pages (vm_zone v z)"
  "ratio (foldl (\<lambda>v j. lowmem_reserve_zone j v) v js) = ratio v"
  by (induction js arbitrary: v) (simp_all add: lowmem_zone_reads)

lemma lowmem_fold_reserve:
  "lowmem_reserve (vm_zone (foldl (\<lambda>v j. lowmem_reserve_zone j v) v js) z) t =
     (if t \<in> set js \<and> z \<le> t then (\<Sum>y\<in>{z<..t}. present_pages (vm_zone v y)) div ratio v z
      else lowmem_reserve (vm_zone v z) t)"
  by (induction js rule: rev_induct) (auto simp: lowmem_zone_reserve lowmem_fold)

section \<open>Zonelists\<close>

definition node_refs :: "(nat \<Rightarrow> nat \<Rightarrow> bool) \<Rightarrow> nat \<Rightarrow> nat \<Rightarrow> (nat \<times> nat) list" where
  "node_refs populated node t = map (Pair node) (filter (populated node) (rev [0..<Suc t]))"

lemma build_node: "build_zonelists_node populated node t zl = zl @ node_refs populated node t"
  by (induction populated node t zl rule: build_zonelists_node.induct) (auto simp: node_refs_def)

lemma build_fold:
  "foldl (\<lambda>zl node. if \<not> on node then zl else build_zonelists_node populated node t zl) zl ns =
     zl @ concat (map (\<lambda>n. node_refs populated n t) (filter on ns))"
  by (induction ns arbitrary: zl) (auto simp: build_node)

lemma build_zonelists_eq:
  "build_zonelists populated on mn mz loc =
     concat (map (\<lambda>n. node_refs populated n (mz - 1)) (loc # filter on ([loc + 1..<mn] @ [0..<loc])))"
  by (simp add: build_zonelists_def Let_def build_fold build_node del: upt_Suc)

lemma set_node_refs: "set (node_refs populated n t) = {(n, i) |i. i \<le> t \<and> populated n i}"
  by (auto simp: node_refs_def image_iff le_less)

lemma distinct_node_refs: "distinct (node_refs populated n t)"
  by (auto simp: node_refs_def distinct_map inj_on_def)

lemma distinct_refs: "distinct ns \<Longrightarrow> distinct (concat (map (\<lambda>n. node_refs populated n t) ns))"
  by (induction ns) (auto simp: distinct_node_refs set_node_refs)

end
