(* ===== verification/Zone_Props.thy ===== *)
theory Zone_Props
  imports Zone_Setup_Props Mm_Example "HOL-Library.Log_Nat"
begin

text \<open>
  The properties of the setup of the zones, with an instance of the kernel's arithmetic helpers on
  which their hypotheses hold.
\<close>

section \<open>An instance of the configuration\<close>

definition setup0 :: setup_cfg where
  "setup0 = \<lparr>PAGE_SHIFT = 12, MAX_NR_ZONES = 2, SWAP_CLUSTER_MAX = 32, is_highmem = (\<lambda>z. z = 1),
     pfn_valid = (\<lambda>_. True), ffz = (\<lambda>w. length (takeWhile (bit w) [0..<32])),
     rounddown_pow_of_two = (\<lambda>n. 2 ^ (floorlog 2 n - 1)), roundup_pow_of_two = (\<lambda>n. 2 ^ floorlog 2 (n - 1)),
     ilog2 = (\<lambda>n. floorlog 2 n - 1), int_sqrt = (\<lambda>n. nat \<lfloor>sqrt (real n)\<rfloor>)\<rparr>"

definition ffz_law :: "(u32 \<Rightarrow> nat) \<Rightarrow> bool" where
  "ffz_law f \<longleftrightarrow> (\<forall>w. w \<noteq> - 1 \<longrightarrow> f w < 32 \<and> \<not> bit w (f w) \<and> (\<forall>i < f w. bit w i))"

definition rounddown_law :: "(nat \<Rightarrow> nat) \<Rightarrow> bool" where
  "rounddown_law f \<longleftrightarrow> (\<forall>n > 0. \<exists>i. f n = 2 ^ i \<and> 2 ^ i \<le> n \<and> n < 2 ^ Suc i)"

lemma setup0_ffz: "ffz_law (ffz setup0)"
  unfolding ffz_law_def
proof (intro allI impI)
  fix w :: u32 assume "w \<noteq> - 1"
  then obtain j where j: "j < 32" "\<not> bit w j"
    by (auto simp: bit_eq_iff)
  let ?n = "length (takeWhile (bit w) [0..<32])"
  have "?n \<noteq> 32"
  proof
    assume "?n = 32"
    then have "takeWhile (bit w) [0..<32] = [0..<32]"
      using takeWhile_eq_take [of "bit w" "[0..<32]"] by simp
    then show False
      using j by (simp only: takeWhile_eq_all_conv set_upt atLeastLessThan_iff) auto
  qed
  then have n: "?n < 32"
    using length_takeWhile_le [of "bit w" "[0..<32]"] by simp
  moreover have "\<not> bit w ?n"
    using nth_length_takeWhile [of "bit w" "[0..<32]"] n by simp
  moreover have "bit w i" if "i < ?n" for i
    using that n takeWhile_nth [of i "bit w" "[0..<32]"] set_takeWhileD [OF nth_mem [OF that]] by simp
  ultimately show "ffz setup0 w < 32 \<and> \<not> bit w (ffz setup0 w) \<and> (\<forall>i < ffz setup0 w. bit w i)"
    by (simp add: setup0_def)
qed

lemma setup0_rounddown: "rounddown_law (rounddown_pow_of_two setup0)"
  unfolding rounddown_law_def
proof (intro allI impI)
  fix n :: nat assume "0 < n"
  then have "2 ^ (floorlog 2 n - 1) \<le> n" "n < 2 ^ floorlog 2 n" "0 < floorlog 2 n"
    using floorlog_bounds [of n 2] by (auto simp: floorlog_def)
  then show "\<exists>i. rounddown_pow_of_two setup0 n = 2 ^ i \<and> 2 ^ i \<le> n \<and> n < 2 ^ Suc i"
    by (intro exI [of _ "floorlog 2 n - 1"]) (simp add: setup0_def)
qed

section \<open>Properties\<close>

text \<open>
  The wait table of a zone has a power of two of entries between 4 and 4096, one for every 256
  pages as long as that is within the bound and less than two, and \<open>wait_table_bits\<close> is its logarithm, so that
  the hash, which keeps that many bits, indexes inside the table.
\<close>

theorem wait_table_sized:
  assumes "ffz_law (ffz k)"
  shows "2 ^ wait_table_bits k (wait_table_hash_nr_entries pages) = wait_table_hash_nr_entries pages
    \<and> wait_table_hash_nr_entries pages \<in> {4..4096}
    \<and> (pages div 256 \<le> 4096 \<longrightarrow> pages div 256 \<le> wait_table_hash_nr_entries pages
         \<and> (4 < wait_table_hash_nr_entries pages \<longrightarrow> wait_table_hash_nr_entries pages < 2 * (pages div 256)))"
proof -
  let ?n = "wait_table_hash_nr_entries pages" and ?w = "wait_size_loop (pages div 256) 0"
  obtain i where "?w = 2 ^ i"
    using wait_size_power by blast
  then obtain j where j: "?n = 2 ^ j" "2 \<le> j" "j \<le> 12"
    using clamp_power [of ?w i] by (auto simp: wait_table_hash_nr_entries_def)
  have "wait_table_bits k ?n = j"
    unfolding wait_table_bits_def j(1) using assms j(3) by (intro ffz_of_power) (auto simp: ffz_law_def)
  then show ?thesis
    using j(1) wait_size_enough [of "pages div 256" 0] wait_size_tight [of "pages div 256" 0]
    by (auto simp: wait_table_hash_nr_entries_def)
qed

theorem wait_table_sized_witness:
  "2 ^ wait_table_bits setup0 (wait_table_hash_nr_entries 1000) = wait_table_hash_nr_entries 1000"
  using wait_table_sized [OF setup0_ffz, of 1000] by simp

text \<open>
  The per-cpu lists start in a usable shape: on a machine with 4 KB pages and up to \<open>2 ^ 20\<close> of them, the
  batch of a zone is one less than a power of two and at most 31, and both \<open>setup_pageset\<close> with it
  and \<open>setup_pagelist_highmark\<close> with any limit leave a batch of at least one that never exceeds
  the high mark unless both are at their minimum, which is what freeing to the lists relies on.
\<close>

theorem pagesets_usable:
  assumes "rounddown_law (rounddown_pow_of_two k)" and "PAGE_SHIFT k = 12" and "present_pages g \<le> 2 ^ 20"
  shows "(\<exists>i. zone_batchsize k g + 1 = 2 ^ i) \<and> zone_batchsize k g \<le> 31
    \<and> 1 \<le> pcp_batch (setup_pageset (zone_batchsize k g))
    \<and> pcp_batch (setup_pageset (zone_batchsize k g)) \<le> max 1 (pcp_high (setup_pageset (zone_batchsize k g)))
    \<and> 1 \<le> pcp_batch (setup_pagelist_highmark k high p)
    \<and> pcp_batch (setup_pagelist_highmark k high p) \<le> max 1 (pcp_high (setup_pagelist_highmark k high p))"
proof -
  let ?d = "present_pages g div 1024"
  let ?b = "(if (?d * 4096) mod 2 ^ 32 > 512 * 1024 then 128 else ?d) div 4"
  let ?e = "if ?b < 1 then 1 else ?b"
  have "?d \<le> 2 ^ 20 div 1024"
    using assms(3) by (rule div_le_mono)
  then have "?d \<le> 1024"
    by (rule ord_le_eq_trans) simp
  then have "(?d * 4096) mod 2 ^ 32 = ?d * 4096"
    by (intro mod_less) simp
  then have "?b \<le> 128 div 4"
    using div_le_mono [of ?d 128 4] by auto
  then have "?b \<le> 32"
    by simp
  then have b3: "1 \<le> ?e \<and> ?e \<le> 32"
    by simp
  have eq: "zone_batchsize k g = rounddown_pow_of_two k (?e + ?e div 2) - 1"
    using assms(2) by (simp add: zone_batchsize_def PAGE_SIZE_def Let_def)
  have law: "\<exists>i. rounddown_pow_of_two k n = 2 ^ i \<and> 2 ^ i \<le> n \<and> n < 2 ^ Suc i" if "0 < n" for n
    using assms(1) that by (simp add: rounddown_law_def)
  have pow: "\<exists>i. r = 2 ^ i \<Longrightarrow> r \<le> 32 \<Longrightarrow> (\<exists>i. r - 1 + 1 = 2 ^ i) \<and> r - 1 \<le> 31" for r :: nat
    by auto
  have "(\<exists>i. zone_batchsize k g + 1 = 2 ^ i) \<and> zone_batchsize k g \<le> 31"
    unfolding eq using rounddown_half [OF law conjunct1 [OF b3] conjunct2 [OF b3]] by (intro pow) blast+
  then show ?thesis
    using assms(2) by (auto simp: setup_pageset_def setup_pagelist_highmark_def)
qed

theorem pagesets_usable_witness:
  "zone_batchsize setup0 zone_ex \<le> 31"
  using pagesets_usable [OF setup0_rounddown, of zone_ex] by (simp add: setup0_def zone_ex_def)

text \<open>
  The pageblock bitmap of a zone is large enough: the three bits that \<open>set_pageblock_flags_group\<close> and
  \<open>get_pageblock_flags_group\<close> touch for any frame of the zone lie inside the \<open>usemap_size\<close>
  bytes that \<open>setup_usemap\<close> allocates, even when the zone starts in the middle of a block.
\<close>

theorem usemap_covers_zone:
  assumes "zone_start_pfn (zones s z) \<le> pfn"
    and "pfn < zone_start_pfn (zones s z) + spanned_pages (zones s z)"
  shows "pfn_to_bitidx c s z pfn + 3 \<le> 8 * usemap_size c (spanned_pages (zones s z))"
proof -
  have "pfn - zone_start_pfn (zones s z) < spanned_pages (zones s z)"
    using assms by linarith
  from bitidx_bound [OF this, of "pageblock_order c"] show ?thesis
    using usemap_bits [of c "spanned_pages (zones s z)"]
    by (simp add: pfn_to_bitidx_def pageblock_nr_pages_def)
qed

theorem usemap_covers_zone_witness:
  "pfn_to_bitidx cfg0 mm1 0 7 + 3 \<le> 8 * usemap_size cfg0 8"
  using usemap_covers_zone [of mm1 0 7 cfg0] by (simp add: mm1_reads)

text \<open>
  \<open>setup_per_zone_lowmem_reserve\<close> computes the documented protection: what an allocation that
  could have used zone \<open>j\<close> must leave in a lower zone \<open>i\<close> is the number of present pages of the zones above
  \<open>i\<close> up to \<open>j\<close>, divided by the ratio of zone \<open>i\<close> (at least one); a zone reserves nothing from itself.
\<close>

theorem lowmem_reserve_formula:
  assumes "i \<le> j" and "j < MAX_NR_ZONES k"
  shows "lowmem_reserve (vm_zone (setup_per_zone_lowmem_reserve k v) i) j =
    (\<Sum>y\<in>{i<..j}. present_pages (vm_zone v y)) div nat (max 1 (sysctl_lowmem_reserve_ratio v i))"
proof -
  have "vm_zone (calculate_totalreserve_pages k w) = vm_zone w" for w
    by (simp add: calculate_totalreserve_pages_def vm_zone_def fun_eq_iff)
  then show ?thesis
    using assms by (simp add: setup_per_zone_lowmem_reserve_def lowmem_fold_reserve ratio_def)
qed

definition vm0 :: vmstate where
  "vm0 = \<lparr>vm_mm = mm1, totalreserve_pages = 0, min_free_kbytes = 128,
     sysctl_lowmem_reserve_ratio = (\<lambda>_. 4), inactive_ratio = (\<lambda>_. 1)\<rparr>"

theorem lowmem_reserve_formula_witness:
  "lowmem_reserve (vm_zone (setup_per_zone_lowmem_reserve setup0 vm0) 0) 1 = 2"
proof -
  have "{0<..1} = {1 :: nat}"
    by auto
  then show ?thesis
    using lowmem_reserve_formula [of 0 1 setup0 vm0]
    by (simp add: setup0_def vm0_def vm_zone_def mm1_reads del: One_nat_def)
qed

text \<open>
  C29. The zonelist of a node holds every populated zone of the node itself and of every other online
  node exactly once; the zones of the local node come first, those of nodes \<open>local + 1\<close>,
  \<open>local + 2\<close>, \<dots> and then \<open>0\<close>, \<open>1\<close>, \<dots> follow, and those of a node go from the highest type to the lowest.
\<close>

theorem zonelist_complete:
  assumes "0 < mz" and "local < mn"
  shows "distinct (build_zonelists populated online mn mz local)
    \<and> set (build_zonelists populated online mn mz local) =
        {(n, t). (n = local \<or> n < mn \<and> online n) \<and> t < mz \<and> populated n t}
    \<and> sorted_wrt (\<lambda>(n, t) (n', t'). (n = n' \<longrightarrow> t > t')
          \<and> (n \<noteq> n' \<longrightarrow> (n + mn - local) mod mn < (n' + mn - local) mod mn))
        (build_zonelists populated online mn mz local)"
proof -
  let ?ns = "local # filter online ([local + 1..<mn] @ [0..<local])"
  let ?R = "\<lambda>(n, t) (n', t'). (n = n' \<longrightarrow> t > t') \<and> (n \<noteq> n' \<longrightarrow> (n + mn - local) mod mn < (n' + mn - local) mod (mn::nat))"
  let ?lt = "\<lambda>n n'. (n + mn - local) mod mn < (n' + mn - local) mod mn"
  have dist: "distinct ?ns"
    by auto
  have key: "(n + mn - local) mod mn = (if local \<le> n then n - local else n + mn - local)" if "n < mn" for n
    using that assms(2) by (auto simp: le_mod_geq)
  have "sorted_wrt ?lt [local + 1..<mn]" "sorted_wrt ?lt [0..<local]"
    using sorted_wrt_mono_rel [OF _ sorted_wrt_upt, of "local + 1" mn ?lt]
      sorted_wrt_mono_rel [OF _ sorted_wrt_upt, of 0 local ?lt] assms(2) by (simp_all add: key)
  then have low: "sorted_wrt ?lt ([local] @ [local + 1..<mn] @ [0..<local])"
    unfolding sorted_wrt_append using assms(2) by (auto simp: key)
  then have ns: "sorted_wrt ?lt ?ns"
    using sorted_wrt_filter [of ?lt "[local + 1..<mn] @ [0..<local]" online]
    by (simp only: append_Cons append_Nil sorted_wrt.simps set_filter Ball_def mem_Collect_eq) blast
  have refs: "sorted_wrt ?R (node_refs populated n t)" for n t
    by (auto simp: node_refs_def sorted_wrt_map sorted_wrt_rev intro!: sorted_wrt_filter sorted_wrt_upt)
  have "sorted_wrt ?R (concat (map (\<lambda>n. node_refs populated n (mz - 1)) ns))" if "sorted_wrt ?lt ns" for ns
    using that by (induction ns) (auto simp: sorted_wrt_append refs set_node_refs)
  then have "sorted_wrt ?R (build_zonelists populated online mn mz local)"
    unfolding build_zonelists_eq using ns by blast
  moreover have "distinct (build_zonelists populated online mn mz local)"
    unfolding build_zonelists_eq by (rule distinct_refs [OF dist])
  moreover have t: "t \<le> mz - 1 \<longleftrightarrow> t < mz" for t
    using assms(1) by auto
  have "set (build_zonelists populated online mn mz local) =
      (\<Union>n\<in>set ?ns. {(n, t) |t. t < mz \<and> populated n t})"
    unfolding build_zonelists_eq set_concat set_map image_image set_node_refs t ..
  moreover have "set ?ns = {n. n = local \<or> n < mn \<and> online n}"
    using assms(2) by auto
  ultimately show ?thesis
    by auto
qed

theorem zonelist_complete_witness:
  "distinct (build_zonelists (\<lambda>n t. t \<noteq> 1) (\<lambda>n. n \<noteq> 2) 3 3 1)"
  using zonelist_complete [of 3 1 3 "\<lambda>n t. t \<noteq> 1" "\<lambda>n. n \<noteq> 2"] by simp

end
