(* ===== verification/Lzma.thy ===== *)
theory Lzma
  imports Kd_Prelude
begin

text \<open>
  The LZMA decoder of the boot loader (arch/arm/boot/compressed/decompress.c): the range decoder,
  the writer with its dictionary, the two kinds of packets and the main loop.

  32-bit unsigned values are natural numbers below \<open>2 ^ 32\<close>, with the wrap-around written out
  where the code can reach it. The array of probabilities is a list, and an access outside it is the
  error \<open>Bad_prob\<close>. The memory below the output buffer, which the decoder can read, is a parameter. \<open>error\<close>
  prints its message and never returns: the run ends there with that error. \<open>fill\<close> is the list of the
  buffers its calls deliver, empty for \<open>nofill\<close>; \<open>flush\<close>, when there is one, tells whether it wrote all
  it was given.
\<close>

section \<open>State\<close>

datatype lz_error = Unexpected_EOF | Bad_header | Corrupt | Bad_prob nat

record rc =
  rc_buffer :: "u8 list"
  rc_ptr :: nat
  rc_more :: "u8 list list"
  rc_code :: nat
  rc_range :: nat
  rc_bound :: nat

record lzma_header =
  h_pos :: nat
  dict_size :: nat
  dst_size :: nat

text \<open>
  \<open>wr_below n k\<close> is the byte \<open>k\<close> before the start of the output buffer at the time when \<open>n\<close> bytes are in the buffer; nothing is said of it, and
  there is at most one read between two writes.
\<close>

record writer =
  wr_buffer :: "nat \<Rightarrow> u8"
  wr_below :: "nat \<Rightarrow> nat \<Rightarrow> u8"
  previous_byte :: u8
  buffer_pos :: nat
  global_pos :: nat
  wr_flush :: "(u8 list \<Rightarrow> bool) option"
  wr_flushed :: "u8 list"

record cstate =
  cs_state :: nat
  rep0 :: nat
  rep1 :: nat
  rep2 :: nat
  rep3 :: nat

record lz =
  lz_rc :: rc
  lz_p :: "nat list"
  lz_wr :: writer
  lz_cst :: cstate
  lz_header :: lzma_header

text \<open>A computation returns an error or a value with the new state.\<close>

type_synonym 'a lzm = "lz \<Rightarrow> lz_error + 'a \<times> lz"

definition lz_return :: "'a \<Rightarrow> 'a lzm" where
  "lz_return x s = Inr (x, s)"

definition lz_bind :: "'a lzm \<Rightarrow> ('a \<Rightarrow> 'b lzm) \<Rightarrow> 'b lzm" where
  "lz_bind m f s = (case m s of Inl e \<Rightarrow> Inl e | Inr (x, s') \<Rightarrow> f x s')"

definition lz_get :: "(lz \<Rightarrow> 'a) \<Rightarrow> 'a lzm" where
  "lz_get f s = Inr (f s, s)"

definition lz_upd :: "(lz \<Rightarrow> lz) \<Rightarrow> unit lzm" where
  "lz_upd f s = Inr ((), f s)"

definition upd_rc :: "(rc \<Rightarrow> rc) \<Rightarrow> unit lzm" where
  "upd_rc f = lz_upd (\<lambda>s. s\<lparr>lz_rc := f (lz_rc s)\<rparr>)"

definition upd_wr :: "(writer \<Rightarrow> writer) \<Rightarrow> unit lzm" where
  "upd_wr f = lz_upd (\<lambda>s. s\<lparr>lz_wr := f (lz_wr s)\<rparr>)"

definition upd_cst :: "(cstate \<Rightarrow> cstate) \<Rightarrow> unit lzm" where
  "upd_cst f = lz_upd (\<lambda>s. s\<lparr>lz_cst := f (lz_cst s)\<rparr>)"

section \<open>The range decoder\<close>

abbreviation (input) "RC_TOP_BITS \<equiv> (24::nat)"
abbreviation (input) "RC_MOVE_BITS \<equiv> (5::nat)"
abbreviation (input) "RC_MODEL_TOTAL_BITS \<equiv> (11::nat)"

definition read_int :: "u8 list \<Rightarrow> nat" where
  "read_int bytes = foldl (\<lambda>ret b. (push_bit 8 ret OR unat b) mod 2 ^ 64) 0 (rev bytes)"

definition rc_read :: "unit lzm" where
  "rc_read s =
     (case rc_more (lz_rc s) of
        [] \<Rightarrow> Inl Unexpected_EOF
      | b # bs \<Rightarrow> if b = [] then Inl Unexpected_EOF
                  else Inr ((), s\<lparr>lz_rc := (lz_rc s)\<lparr>rc_buffer := b, rc_ptr := 0, rc_more := bs\<rparr>\<rparr>))"

definition rc_init :: "u8 list \<Rightarrow> u8 list list \<Rightarrow> rc" where
  "rc_init buffer fill =
     \<lparr>rc_buffer = buffer, rc_ptr = 0, rc_more = fill, rc_code = 0, rc_range = 0xFFFFFFFF, rc_bound = 0\<rparr>"

text \<open>\<open>if (rc->ptr >= rc->buffer_end) rc_read(rc)\<close> and \<open>*rc->ptr++\<close>.\<close>

definition rc_byte :: "u8 lzm" where
  "rc_byte =
     lz_bind (\<lambda>s. if rc_ptr (lz_rc s) \<ge> length (rc_buffer (lz_rc s)) then rc_read s else Inr ((), s)) (\<lambda>_.
     lz_bind (lz_get (\<lambda>s. rc_buffer (lz_rc s) ! rc_ptr (lz_rc s))) (\<lambda>b.
     lz_bind (upd_rc (\<lambda>r. r\<lparr>rc_ptr := rc_ptr r + 1\<rparr>)) (\<lambda>_. lz_return b)))"

definition rc_shift_code :: "unit lzm" where
  "rc_shift_code =
     lz_bind rc_byte (\<lambda>b. upd_rc (\<lambda>r. r\<lparr>rc_code := (rc_code r * 2 ^ 8) mod 2 ^ 32 OR unat b\<rparr>))"

fun rc_init_code :: "nat \<Rightarrow> unit lzm" where
  "rc_init_code 0 = lz_return ()"
| "rc_init_code (Suc i) = lz_bind rc_shift_code (\<lambda>_. rc_init_code i)"

definition rc_do_normalize :: "unit lzm" where
  "rc_do_normalize =
     lz_bind rc_byte (\<lambda>b. upd_rc (\<lambda>r. r\<lparr>rc_range := (rc_range r * 2 ^ 8) mod 2 ^ 32,
        rc_code := (rc_code r * 2 ^ 8) mod 2 ^ 32 OR unat b\<rparr>))"

definition rc_normalize :: "unit lzm" where
  "rc_normalize s = (if rc_range (lz_rc s) < 2 ^ RC_TOP_BITS then rc_do_normalize s else Inr ((), s))"

definition get_prob :: "nat \<Rightarrow> nat lzm" where
  "get_prob i s = (if i < length (lz_p s) then Inr (lz_p s ! i, s) else Inl (Bad_prob i))"

definition upd_prob :: "nat \<Rightarrow> (nat \<Rightarrow> nat) \<Rightarrow> unit lzm" where
  "upd_prob i f s =
     (if i < length (lz_p s) then Inr ((), s\<lparr>lz_p := (lz_p s)[i := f (lz_p s ! i)]\<rparr>) else Inl (Bad_prob i))"

definition rc_is_bit_0_helper :: "nat \<Rightarrow> nat lzm" where
  "rc_is_bit_0_helper i =
     lz_bind rc_normalize (\<lambda>_.
     lz_bind (get_prob i) (\<lambda>p.
     lz_bind (upd_rc (\<lambda>r. r\<lparr>rc_bound := (p * drop_bit RC_MODEL_TOTAL_BITS (rc_range r)) mod 2 ^ 32\<rparr>)) (\<lambda>_.
     lz_get (\<lambda>s. rc_bound (lz_rc s)))))"

definition rc_is_bit_0 :: "nat \<Rightarrow> bool lzm" where
  "rc_is_bit_0 i = lz_bind (rc_is_bit_0_helper i) (\<lambda>t. lz_get (\<lambda>s. rc_code (lz_rc s) < t))"

definition rc_update_bit_0 :: "nat \<Rightarrow> unit lzm" where
  "rc_update_bit_0 i =
     lz_bind (upd_rc (\<lambda>r. r\<lparr>rc_range := rc_bound r\<rparr>)) (\<lambda>_.
     upd_prob i (\<lambda>p. p + drop_bit RC_MOVE_BITS (2 ^ RC_MODEL_TOTAL_BITS - p)))"

definition rc_update_bit_1 :: "nat \<Rightarrow> unit lzm" where
  "rc_update_bit_1 i =
     lz_bind (upd_rc (\<lambda>r. r\<lparr>rc_range := (rc_range r + 2 ^ 32 - rc_bound r) mod 2 ^ 32,
        rc_code := (rc_code r + 2 ^ 32 - rc_bound r) mod 2 ^ 32\<rparr>)) (\<lambda>_.
     upd_prob i (\<lambda>p. p - drop_bit RC_MOVE_BITS p))"

text \<open>The decisions of the decoder all have this shape: test a bit, update for its value, go on.\<close>

definition rc_bit :: "nat \<Rightarrow> bool lzm" where
  "rc_bit i =
     lz_bind (rc_is_bit_0 i) (\<lambda>z.
     if z then lz_bind (rc_update_bit_0 i) (\<lambda>_. lz_return False)
     else lz_bind (rc_update_bit_1 i) (\<lambda>_. lz_return True))"

definition rc_get_bit :: "nat \<Rightarrow> nat \<Rightarrow> (bool \<times> nat) lzm" where
  "rc_get_bit i symbol = lz_bind (rc_bit i) (\<lambda>b. lz_return (b, symbol * 2 + of_bool b))"

definition rc_direct_bit :: "nat lzm" where
  "rc_direct_bit =
     lz_bind rc_normalize (\<lambda>_.
     lz_bind (upd_rc (\<lambda>r. r\<lparr>rc_range := drop_bit 1 (rc_range r)\<rparr>)) (\<lambda>_.
     lz_bind (lz_get lz_rc) (\<lambda>r.
     if rc_code r \<ge> rc_range r
     then lz_bind (upd_rc (\<lambda>r. r\<lparr>rc_code := rc_code r - rc_range r\<rparr>)) (\<lambda>_. lz_return 1)
     else lz_return 0)))"

fun rc_tree_loop :: "nat \<Rightarrow> nat \<Rightarrow> nat \<Rightarrow> nat lzm" where
  "rc_tree_loop p 0 symbol = lz_return symbol"
| "rc_tree_loop p (Suc i) symbol = lz_bind (rc_get_bit (p + symbol) symbol) (\<lambda>(_, sym). rc_tree_loop p i sym)"

definition rc_bit_tree_decode :: "nat \<Rightarrow> nat \<Rightarrow> nat lzm" where
  "rc_bit_tree_decode p num_levels =
     lz_bind (rc_tree_loop p num_levels 1) (\<lambda>symbol. lz_return (symbol - 2 ^ num_levels))"

section \<open>The writer\<close>

definition get_pos :: "writer \<Rightarrow> nat" where
  "get_pos wr = (global_pos wr + buffer_pos wr) mod 2 ^ 32"

text \<open>
  The two loops of \<open>peek_old_byte\<close>; \<open>dict\<close> is never 0, since the header is adjusted. Without \<open>flush\<close> the position may be negative, and the byte
  read is then one below the buffer.
\<close>

function peek_offs :: "nat \<Rightarrow> nat \<Rightarrow> nat" where
  "peek_offs dict offs = (if dict \<noteq> 0 \<and> offs > dict then peek_offs dict (offs - dict) else offs)"
  by pat_completeness auto
termination
  by (relation "measure snd") auto

function peek_pos :: "nat \<Rightarrow> nat \<Rightarrow> nat" where
  "peek_pos dict pos =
     (if dict \<noteq> 0 \<and> pos \<ge> dict then
        if pos + dict \<ge> 2 ^ 32 then (pos + dict) mod 2 ^ 32 else peek_pos dict (pos + dict)
      else pos)"
  by pat_completeness auto
termination
  by (relation "measure (\<lambda>(d, p). 2 ^ 32 - p)") auto

declare peek_offs.simps [simp del] peek_pos.simps [simp del]

definition peek_old_byte :: "nat \<Rightarrow> u8 lzm" where
  "peek_old_byte offs s =
     (let wr = lz_wr s; dict = dict_size (lz_header s) in
      case wr_flush wr of
        None \<Rightarrow>
          let pos = int (buffer_pos wr) - int (peek_offs dict offs)
          in Inr (if pos < 0 then wr_below wr (buffer_pos wr) (nat (- pos)) else wr_buffer wr (nat pos), s)
      | Some _ \<Rightarrow>
          let pos = peek_pos dict ((buffer_pos wr + 2 ^ 32 - offs) mod 2 ^ 32)
          in Inr (wr_buffer wr pos, s))"

text \<open>The result tells whether the byte was written (0) or the flush failed (-1).\<close>

definition write_byte :: "u8 \<Rightarrow> int lzm" where
  "write_byte byte s =
     (let wr = lz_wr s; dict = dict_size (lz_header s);
          wr1 = wr\<lparr>wr_buffer := (wr_buffer wr)(buffer_pos wr := byte), previous_byte := byte,
                   buffer_pos := buffer_pos wr + 1\<rparr>
      in case wr_flush wr1 of
           None \<Rightarrow> Inr (0, s\<lparr>lz_wr := wr1\<rparr>)
         | Some flush \<Rightarrow>
             if buffer_pos wr1 = dict then
               let chunk = map (wr_buffer wr1) [0..<dict]
               in Inr (if flush chunk then 0 else -1,
                       s\<lparr>lz_wr := wr1\<lparr>buffer_pos := 0, global_pos := global_pos wr1 + dict,
                                        wr_flushed := wr_flushed wr1 @ chunk\<rparr>\<rparr>)
             else Inr (0, s\<lparr>lz_wr := wr1\<rparr>))"

definition copy_byte :: "nat \<Rightarrow> int lzm" where
  "copy_byte offs = lz_bind (peek_old_byte offs) write_byte"

text \<open>\<open>copy_bytes rep n\<close> runs the loop with \<open>n + 1\<close> bytes left, as the loop tests at its end.\<close>

fun copy_bytes :: "nat \<Rightarrow> nat \<Rightarrow> int lzm" where
  "copy_bytes rep 0 = lz_bind (copy_byte rep) (\<lambda>r. if r \<noteq> 0 then lz_return (-1) else lz_return 0)"
| "copy_bytes rep (Suc n) =
     lz_bind (copy_byte rep) (\<lambda>r.
       if r \<noteq> 0 then lz_return (-1)
       else lz_bind (lz_get (\<lambda>s. buffer_pos (lz_wr s) < dst_size (lz_header s))) (\<lambda>more.
         if more then copy_bytes rep n else lz_return (int (Suc n))))"

section \<open>Packets\<close>

abbreviation (input) "LZMA_LIT_SIZE \<equiv> (768::nat)"
abbreviation (input) "LZMA_BASE_SIZE \<equiv> (1846::nat)"
abbreviation (input) "LZMA_NUM_POS_BITS_MAX \<equiv> (4::nat)"
abbreviation (input) "LZMA_NUM_LIT_STATES \<equiv> (7::nat)"
abbreviation (input) "LZMA_IS_MATCH \<equiv> (0::nat)"
abbreviation (input) "LZMA_IS_REP \<equiv> (192::nat)"
abbreviation (input) "LZMA_IS_REP_G0 \<equiv> (204::nat)"
abbreviation (input) "LZMA_IS_REP_G1 \<equiv> (216::nat)"
abbreviation (input) "LZMA_IS_REP_G2 \<equiv> (228::nat)"
abbreviation (input) "LZMA_IS_REP_0_LONG \<equiv> (240::nat)"
abbreviation (input) "LZMA_POS_SLOT \<equiv> (432::nat)"
abbreviation (input) "LZMA_SPEC_POS \<equiv> (688::nat)"
abbreviation (input) "LZMA_ALIGN \<equiv> (802::nat)"
abbreviation (input) "LZMA_LEN_CODER \<equiv> (818::nat)"
abbreviation (input) "LZMA_REP_LEN_CODER \<equiv> (1332::nat)"
abbreviation (input) "LZMA_LITERAL \<equiv> (1846::nat)"

text \<open>
  The literal loops double \<open>mi\<close> from 1 until it reaches \<open>0x100\<close>; their fuel of 8 steps is the number of
  doublings, so it never runs out before the test ends the loop.
\<close>

fun match_loop :: "nat \<Rightarrow> nat \<Rightarrow> nat \<Rightarrow> nat \<Rightarrow> nat lzm" where
  "match_loop prob 0 match_byte mi = lz_return mi"
| "match_loop prob (Suc n) match_byte mi =
     (let mb = match_byte * 2; bt = mb AND 0x100 in
      lz_bind (rc_get_bit (prob + 0x100 + bt + mi) mi) (\<lambda>(b, mi').
        if b \<noteq> (bt \<noteq> 0) then lz_return mi'
        else if mi' < 0x100 then match_loop prob n mb mi' else lz_return mi'))"

fun lit_loop :: "nat \<Rightarrow> nat \<Rightarrow> nat \<Rightarrow> nat lzm" where
  "lit_loop prob 0 mi = lz_return mi"
| "lit_loop prob (Suc n) mi =
     (if mi < 0x100 then lz_bind (rc_get_bit (prob + mi) mi) (\<lambda>(_, mi'). lit_loop prob n mi')
      else lz_return mi)"

definition literal_state :: "nat \<Rightarrow> nat" where
  "literal_state st = (if st < 4 then 0 else if st < 10 then st - 3 else st - 6)"

definition process_bit0 :: "nat \<Rightarrow> nat \<Rightarrow> nat \<Rightarrow> int lzm" where
  "process_bit0 prob lc literal_pos_mask =
     lz_bind (rc_update_bit_0 prob) (\<lambda>_.
     lz_bind (lz_get (\<lambda>s. LZMA_LITERAL + LZMA_LIT_SIZE *
         (push_bit lc (get_pos (lz_wr s) AND literal_pos_mask)
          + drop_bit (8 - lc) (unat (previous_byte (lz_wr s)))))) (\<lambda>lit.
     lz_bind (lz_get lz_cst) (\<lambda>cst.
     lz_bind (if cs_state cst \<ge> LZMA_NUM_LIT_STATES
              then lz_bind (peek_old_byte (rep0 cst)) (\<lambda>b. match_loop lit 8 (unat b) 1)
              else lz_return 1) (\<lambda>mi.
     lz_bind (lit_loop lit 8 mi) (\<lambda>mi'.
     lz_bind (upd_cst (\<lambda>c. c\<lparr>cs_state := literal_state (cs_state c)\<rparr>)) (\<lambda>_.
     write_byte (word_of_nat mi')))))))"

text \<open>Shifting and choosing the last distances; \<open>None\<close> is the packet that repeats one byte.\<close>

definition rep_choice :: "unit lzm" where
  "rep_choice =
     lz_bind (lz_get (\<lambda>s. cs_state (lz_cst s))) (\<lambda>st.
     lz_bind (rc_bit (LZMA_IS_REP_G1 + st)) (\<lambda>b1.
     if \<not> b1 then upd_cst (\<lambda>c. c\<lparr>rep1 := rep0 c, rep0 := rep1 c\<rparr>)
     else lz_bind (rc_bit (LZMA_IS_REP_G2 + st)) (\<lambda>b2.
       if \<not> b2 then upd_cst (\<lambda>c. c\<lparr>rep2 := rep1 c, rep1 := rep0 c, rep0 := rep2 c\<rparr>)
       else upd_cst (\<lambda>c. c\<lparr>rep3 := rep2 c, rep2 := rep1 c, rep1 := rep0 c, rep0 := rep3 c\<rparr>))))"

definition rep_packet :: "nat \<Rightarrow> nat option lzm" where
  "rep_packet pos_state =
     lz_bind (lz_get (\<lambda>s. cs_state (lz_cst s))) (\<lambda>st.
     let long = lz_bind (upd_cst (\<lambda>c. c\<lparr>cs_state := (if cs_state c < LZMA_NUM_LIT_STATES then 8 else 11)\<rparr>))
                  (\<lambda>_. lz_return (Some LZMA_REP_LEN_CODER))
     in lz_bind (rc_bit (LZMA_IS_REP_G0 + st)) (\<lambda>g0.
        if g0 then lz_bind rep_choice (\<lambda>_. long)
        else lz_bind (rc_bit (LZMA_IS_REP_0_LONG + push_bit LZMA_NUM_POS_BITS_MAX st + pos_state)) (\<lambda>l.
          if l then long
          else lz_bind (upd_cst (\<lambda>c. c\<lparr>cs_state := (if cs_state c < LZMA_NUM_LIT_STATES then 9 else 11)\<rparr>))
            (\<lambda>_. lz_return None))))"

definition match_kind :: "nat \<Rightarrow> nat option lzm" where
  "match_kind pos_state =
     lz_bind (lz_get (\<lambda>s. cs_state (lz_cst s))) (\<lambda>st.
     lz_bind (rc_bit (LZMA_IS_REP + st)) (\<lambda>is_rep.
     if is_rep then rep_packet pos_state
     else lz_bind (upd_cst (\<lambda>c. c\<lparr>rep3 := rep2 c, rep2 := rep1 c, rep1 := rep0 c,
             cs_state := (if cs_state c < LZMA_NUM_LIT_STATES then 0 else 3)\<rparr>))
       (\<lambda>_. lz_return (Some LZMA_LEN_CODER))))"

definition match_len :: "nat \<Rightarrow> nat \<Rightarrow> nat lzm" where
  "match_len prob pos_state =
     lz_bind (rc_bit prob) (\<lambda>c1.
     if \<not> c1 then rc_bit_tree_decode (prob + 2 + push_bit 3 pos_state) 3
     else lz_bind (rc_bit (prob + 1)) (\<lambda>c2.
       if \<not> c2 then lz_bind (rc_bit_tree_decode (prob + 130 + push_bit 3 pos_state) 3) (\<lambda>n. lz_return (n + 8))
       else lz_bind (rc_bit_tree_decode (prob + 258) 8) (\<lambda>n. lz_return (n + 16))))"

fun direct_loop :: "nat \<Rightarrow> nat \<Rightarrow> nat lzm" where
  "direct_loop 0 rep = lz_return rep"
| "direct_loop (Suc n) rep = lz_bind rc_direct_bit (\<lambda>b. direct_loop n ((rep * 2) mod 2 ^ 32 OR b))"

fun dist_loop :: "nat \<Rightarrow> nat \<Rightarrow> nat \<Rightarrow> nat \<Rightarrow> nat \<Rightarrow> nat lzm" where
  "dist_loop prob 0 i mi rep = lz_return rep"
| "dist_loop prob (Suc n) i mi rep =
     lz_bind (rc_get_bit (prob + mi) mi) (\<lambda>(b, mi').
       dist_loop prob n (i * 2) mi' (if b then rep OR i else rep))"

text \<open>The distance before its increment.\<close>

definition match_distance :: "nat \<Rightarrow> nat lzm" where
  "match_distance len =
     lz_bind (rc_bit_tree_decode (LZMA_POS_SLOT + push_bit 6 (if len < 4 then len else 3)) 6) (\<lambda>pos_slot.
     if pos_slot \<ge> 4 then
       let num_bits = drop_bit 1 pos_slot - 1;
           rep = 2 OR (pos_slot AND 1)
       in if pos_slot < 14
          then let rep' = push_bit num_bits rep
               in dist_loop (LZMA_SPEC_POS + rep' - pos_slot - 1) num_bits 1 1 rep'
          else lz_bind (direct_loop (num_bits - 4) rep) (\<lambda>rep'.
                 dist_loop LZMA_ALIGN 4 1 1 (push_bit 4 rep' mod 2 ^ 32))
     else lz_return pos_slot)"

text \<open>\<open>Some r\<close> makes \<open>process_bit1\<close> return \<open>r\<close>; \<open>None\<close> goes on to the copy.\<close>

definition new_match :: "nat \<Rightarrow> int option lzm" where
  "new_match len =
     lz_bind (lz_get (\<lambda>s. cs_state (lz_cst s))) (\<lambda>st.
     if st < 4 then
       lz_bind (upd_cst (\<lambda>c. c\<lparr>cs_state := cs_state c + LZMA_NUM_LIT_STATES\<rparr>)) (\<lambda>_.
       lz_bind (match_distance len) (\<lambda>rep.
       lz_bind (upd_cst (\<lambda>c. c\<lparr>rep0 := (rep + 1) mod 2 ^ 32\<rparr>)) (\<lambda>_.
       lz_get (\<lambda>s.
         let r = rep0 (lz_cst s) in
         if r = 0 then Some 0
         else if r > dict_size (lz_header s) \<or> r > get_pos (lz_wr s) then Some (-1)
         else None))))
     else lz_return None)"

definition process_bit1 :: "nat \<Rightarrow> nat \<Rightarrow> int lzm" where
  "process_bit1 pos_state prob =
     lz_bind (rc_update_bit_1 prob) (\<lambda>_.
     lz_bind (match_kind pos_state) (\<lambda>k.
     lz_bind (lz_get (\<lambda>s. rep0 (lz_cst s))) (\<lambda>r.
     case k of
       None \<Rightarrow> copy_byte r
     | Some coder \<Rightarrow>
         lz_bind (match_len coder pos_state) (\<lambda>len.
         lz_bind (new_match len) (\<lambda>out.
         case out of
           Some ret \<Rightarrow> lz_return ret
         | None \<Rightarrow> lz_bind (lz_get (\<lambda>s. rep0 (lz_cst s))) (\<lambda>r'. copy_bytes r' (len + 1)))))))"

section \<open>The main loop\<close>

text \<open>One round: the result tells whether the end marker was read.\<close>

definition unlzma_round :: "nat \<Rightarrow> nat \<Rightarrow> nat \<Rightarrow> bool lzm" where
  "unlzma_round lc pos_state_mask literal_pos_mask =
     lz_bind (lz_get (\<lambda>s. get_pos (lz_wr s) AND pos_state_mask)) (\<lambda>pos_state.
     lz_bind (lz_get (\<lambda>s. LZMA_IS_MATCH + push_bit LZMA_NUM_POS_BITS_MAX (cs_state (lz_cst s)) + pos_state)) (\<lambda>prob.
     lz_bind (rc_is_bit_0 prob) (\<lambda>z.
     if z then
       lz_bind (process_bit0 prob lc literal_pos_mask) (\<lambda>r.
       if r \<noteq> 0 then (\<lambda>s. Inl Corrupt) else lz_return False)
     else
       lz_bind (process_bit1 pos_state prob) (\<lambda>r.
       if r \<noteq> 0 then (\<lambda>s. Inl Corrupt) else lz_get (\<lambda>s. rep0 (lz_cst s) = 0)))))"

text \<open>\<open>None\<close> would be a run of the loop that never ends.\<close>

partial_function (option) unlzma_loop :: "nat \<Rightarrow> nat \<Rightarrow> nat \<Rightarrow> lz \<Rightarrow> (lz_error + lz) option" where
  "unlzma_loop lc pmask lmask s =
     (if get_pos (lz_wr s) < dst_size (lz_header s) then
        (case unlzma_round lc pmask lmask s of
           Inl e \<Rightarrow> Some (Inl e)
         | Inr (fin, s') \<Rightarrow> if fin then Some (Inr s') else unlzma_loop lc pmask lmask s')
      else Some (Inr s))"

section \<open>The whole decoder\<close>

text \<open>\<open>while (x >= d) q++, x -= d\<close>, with \<open>d\<close> 9 or 5.\<close>

function split_digit :: "nat \<Rightarrow> nat \<Rightarrow> nat \<Rightarrow> nat \<times> nat" where
  "split_digit d q x = (if d \<noteq> 0 \<and> x \<ge> d then split_digit d (q + 1) (x - d) else (q, x))"
  by pat_completeness auto
termination
  by (relation "measure (\<lambda>(d, q, x). x)") auto

declare split_digit.simps [simp del]

fun read_header :: "nat \<Rightarrow> u8 list lzm" where
  "read_header 0 = lz_return []"
| "read_header (Suc n) = lz_bind rc_byte (\<lambda>b. lz_bind (read_header n) (\<lambda>bs. lz_return (b # bs)))"

definition lz_start ::
  "u8 list \<Rightarrow> u8 list list \<Rightarrow> (u8 list \<Rightarrow> bool) option \<Rightarrow> (nat \<Rightarrow> u8) \<Rightarrow> (nat \<Rightarrow> nat \<Rightarrow> u8) \<Rightarrow> lz" where
  "lz_start buf fill flush output below =
     \<lparr>lz_rc = rc_init buf fill, lz_p = [],
      lz_wr = \<lparr>wr_buffer = output, wr_below = below, previous_byte = 0, buffer_pos = 0, global_pos = 0, wr_flush = flush, wr_flushed = []\<rparr>,
      lz_cst = \<lparr>cs_state = 0, rep0 = 1, rep1 = 1, rep2 = 1, rep3 = 1\<rparr>,
      lz_header = \<lparr>h_pos = 0, dict_size = 0, dst_size = 0\<rparr>\<rparr>"

definition set_header :: "u8 list \<Rightarrow> lz \<Rightarrow> lz" where
  "set_header h s =
     (let d = read_int (take 4 (drop 1 h))
      in s\<lparr>lz_header := \<lparr>h_pos = unat (h ! 0), dict_size = (if d = 0 then 1 else d),
                          dst_size = read_int (take 8 (drop 5 h))\<rparr>\<rparr>)"

text \<open>
  The decoder with an output buffer and the memory below it: \<open>have_probs\<close> tells whether \<open>large_malloc\<close> returned the array of
  probabilities. The result is the error it halts with, or the return value and the final state.
\<close>

definition unlzma ::
  "u8 list \<Rightarrow> u8 list list \<Rightarrow> (u8 list \<Rightarrow> bool) option \<Rightarrow> (nat \<Rightarrow> u8) \<Rightarrow> (nat \<Rightarrow> nat \<Rightarrow> u8) \<Rightarrow> bool
     \<Rightarrow> (lz_error + int \<times> lz) option" where
  "unlzma buf fill flush output below have_probs =
     (case read_header 13 (lz_start buf fill flush output below) of
        Inl e \<Rightarrow> Some (Inl e)
      | Inr (h, s) \<Rightarrow>
          if unat (h ! 0) \<ge> 9 * 5 * 5 then Some (Inl Bad_header)
          else
            let (mi, lc) = split_digit 9 0 (unat (h ! 0));
                (pb, lp) = split_digit 5 0 mi;
                s1 = set_header h s
            in if \<not> have_probs then Some (Inr (-1, s1))
               else
                 case rc_init_code 5 (s1\<lparr>lz_p := replicate (LZMA_LITERAL + push_bit (lc + lp) LZMA_LIT_SIZE) 1024\<rparr>) of
                   Inl e \<Rightarrow> Some (Inl e)
                 | Inr (_, s2) \<Rightarrow>
                     (case unlzma_loop lc (2 ^ pb - 1) (2 ^ lp - 1) s2 of
                        None \<Rightarrow> None
                      | Some (Inl e) \<Rightarrow> Some (Inl e)
                      | Some (Inr s3) \<Rightarrow>
                          Some (Inr (0, s3\<lparr>lz_wr := (lz_wr s3)\<lparr>wr_flushed :=
                            (case wr_flush (lz_wr s3) of None \<Rightarrow> []
                             | Some _ \<Rightarrow> wr_flushed (lz_wr s3) @ map (wr_buffer (lz_wr s3)) [0..<buffer_pos (lz_wr s3)])\<rparr>\<rparr>))))"

definition decompress ::
  "u8 list \<Rightarrow> u8 list list \<Rightarrow> (u8 list \<Rightarrow> bool) option \<Rightarrow> (nat \<Rightarrow> u8) \<Rightarrow> (nat \<Rightarrow> nat \<Rightarrow> u8) \<Rightarrow> bool
     \<Rightarrow> (lz_error + int \<times> lz) option" where
  "decompress buf fill flush output below have_probs = unlzma (take (length buf - 4) buf) fill flush output below have_probs"

definition do_decompress :: "u8 list \<Rightarrow> (nat \<Rightarrow> u8) \<Rightarrow> (nat \<Rightarrow> nat \<Rightarrow> u8) \<Rightarrow> bool \<Rightarrow> (lz_error + int \<times> lz) option" where
  "do_decompress input output below have_probs = decompress input [] None output below have_probs"

end
