(* ===== verification/Lzma_Inv.thy ===== *)
theory Lzma_Inv
  imports Lzma
begin

text \<open>
  The invariant of the LZMA decoder and a weakest precondition for its computations. A computation may
  end with an error, but never with \<open>Bad_prob\<close>. The measure of a state is what is left of the
  input, with the range of the decoder below it: every decoded bit makes it smaller.
\<close>

section \<open>Weakest preconditions\<close>

definition lz_wp :: "'a lzm \<Rightarrow> ('a \<Rightarrow> lz \<Rightarrow> bool) \<Rightarrow> lz \<Rightarrow> bool" where
  "lz_wp m Q s \<longleftrightarrow> (case m s of Inl e \<Rightarrow> \<forall>i. e \<noteq> Bad_prob i | Inr (x, s') \<Rightarrow> Q x s')"

lemma wp_bind [simp]: "lz_wp (lz_bind m f) Q = lz_wp m (\<lambda>x. lz_wp (f x) Q)"
  by (auto simp: lz_wp_def lz_bind_def fun_eq_iff split: sum.splits)

lemma wp_return [simp]: "lz_wp (lz_return x) Q = Q x"
  by (simp add: lz_wp_def lz_return_def fun_eq_iff)

lemma wp_get [simp]: "lz_wp (lz_get f) Q = (\<lambda>s. Q (f s) s)"
  by (simp add: lz_wp_def lz_get_def fun_eq_iff)

lemma wp_upd [simp]:
  "lz_wp (upd_rc h) Q = (\<lambda>s. Q () (s\<lparr>lz_rc := h (lz_rc s)\<rparr>))"
  "lz_wp (upd_cst k) Q = (\<lambda>s. Q () (s\<lparr>lz_cst := k (lz_cst s)\<rparr>))"
  by (simp_all add: lz_wp_def lz_upd_def upd_rc_def upd_cst_def fun_eq_iff)

lemmas wp_prims = wp_return wp_get wp_upd

lemma wp_if [simp]: "lz_wp (if b then m else n) Q s = (if b then lz_wp m Q s else lz_wp n Q s)"
  by simp

lemma wp_ifI: "(b \<Longrightarrow> lz_wp m Q s) \<Longrightarrow> (\<not> b \<Longrightarrow> lz_wp n Q s) \<Longrightarrow> lz_wp (if b then m else n) Q s"
  by simp

lemma wp_mono: "lz_wp m Q s \<Longrightarrow> (\<And>x s'. Q x s' \<Longrightarrow> R x s') \<Longrightarrow> lz_wp m R s"
  by (auto simp: lz_wp_def split: sum.splits)

lemma wp_Inr: "lz_wp m Q s \<Longrightarrow> m s = Inr (x, s') \<Longrightarrow> Q x s'"
  by (simp add: lz_wp_def)

lemma wp_Inl: "lz_wp m Q s \<Longrightarrow> m s = Inl e \<Longrightarrow> e \<noteq> Bad_prob i"
  by (simp add: lz_wp_def)

section \<open>The range decoder\<close>

definition lz_left :: "lz \<Rightarrow> nat" where
  "lz_left s = length (drop (rc_ptr (lz_rc s)) (rc_buffer (lz_rc s))) + sum_list (map length (rc_more (lz_rc s)))"

definition lz_measure :: "lz \<Rightarrow> nat" where
  "lz_measure s = 2 ^ 32 * lz_left s + rc_range (lz_rc s)"

definition rc_inv :: "lz \<Rightarrow> bool" where
  "rc_inv s \<longleftrightarrow> (\<forall>p \<in> set (lz_p s). 31 \<le> p \<and> p \<le> 2017)
     \<and> 2 ^ 16 \<le> rc_range (lz_rc s) \<and> rc_range (lz_rc s) < 2 ^ 32"

text \<open>What a read of the decoder leaves alone.\<close>

definition rc_frame :: "lz \<Rightarrow> lz \<Rightarrow> bool" where
  "rc_frame s s' \<longleftrightarrow> lz_wr s' = lz_wr s \<and> lz_cst s' = lz_cst s \<and> lz_header s' = lz_header s
     \<and> length (lz_p s') = length (lz_p s)"

definition rc_step :: "lz \<Rightarrow> lz \<Rightarrow> bool" where
  "rc_step s s' \<longleftrightarrow> rc_frame s s' \<and> rc_inv s' \<and> lz_measure s' < lz_measure s"

lemma rc_frame_refl: "rc_frame s s"
  by (simp add: rc_frame_def)

lemma rc_frame_trans: "rc_frame s t \<Longrightarrow> rc_frame t u \<Longrightarrow> rc_frame s u"
  by (simp add: rc_frame_def)

lemma rc_step_trans: "rc_step s t \<Longrightarrow> rc_step t u \<Longrightarrow> rc_step s u"
  by (auto simp: rc_step_def intro: rc_frame_trans)

lemma wp_rc_byte:
  assumes "\<And>b s'. rc_frame s s' \<Longrightarrow> lz_p s' = lz_p s \<Longrightarrow> rc_range (lz_rc s') = rc_range (lz_rc s)
      \<Longrightarrow> rc_code (lz_rc s') = rc_code (lz_rc s) \<Longrightarrow> lz_left s = Suc (lz_left s') \<Longrightarrow> Q b s'"
  shows "lz_wp rc_byte Q s"
proof (cases "rc_ptr (lz_rc s) \<ge> length (rc_buffer (lz_rc s))")
  case True
  then show ?thesis
    by (auto simp: rc_byte_def lz_wp_def lz_bind_def rc_read_def lz_get_def upd_rc_def lz_upd_def lz_return_def
        rc_frame_def lz_left_def split: list.splits intro!: assms)
next
  case False
  then show ?thesis
    by (auto simp: rc_byte_def lz_wp_def lz_bind_def lz_get_def upd_rc_def lz_upd_def lz_return_def
        rc_frame_def lz_left_def intro!: assms)
qed

definition normalized :: "lz \<Rightarrow> lz \<Rightarrow> bool" where
  "normalized s s' \<longleftrightarrow> rc_frame s s' \<and> lz_p s' = lz_p s \<and> 2 ^ 24 \<le> rc_range (lz_rc s') \<and> rc_range (lz_rc s') < 2 ^ 32
     \<and> lz_measure s' \<le> lz_measure s"

lemma wp_normalize:
  assumes "rc_inv s" and Q: "\<And>s'. normalized s s' \<Longrightarrow> Q () s'"
  shows "lz_wp rc_normalize Q s"
proof (cases "rc_range (lz_rc s) < 2 ^ 24")
  case True
  have *: "Q () (s'\<lparr>lz_rc := (lz_rc s')\<lparr>rc_range := (rc_range (lz_rc s') * 2 ^ 8) mod 2 ^ 32, rc_code := k\<rparr>\<rparr>)"
    if s': "rc_frame s s'" "lz_p s' = lz_p s" "rc_range (lz_rc s') = rc_range (lz_rc s)" "lz_left s = Suc (lz_left s')"
    for s' k
  proof (rule Q)
    let ?r = "rc_range (lz_rc s)"
    have m: "(?r * 2 ^ 8) mod 2 ^ 32 = ?r * 2 ^ 8"
      using True by (intro mod_less) simp
    have b: "2 ^ 24 \<le> ?r * 2 ^ 8" "?r * 2 ^ 8 < 2 ^ 32"
      using True assms(1) by (auto simp: rc_inv_def)
    have "2 ^ 32 * lz_left s = 2 ^ 32 * lz_left s' + 2 ^ 32"
      unfolding s'(4) by (simp only: mult_Suc_right add.commute)
    then show "normalized s (s'\<lparr>lz_rc := (lz_rc s')\<lparr>rc_range := (rc_range (lz_rc s') * 2 ^ 8) mod 2 ^ 32, rc_code := k\<rparr>\<rparr>)"
      using s' b(1) b(2) by (simp add: normalized_def rc_frame_def lz_measure_def lz_left_def m)
  qed
  have "lz_wp rc_do_normalize Q s"
    unfolding rc_do_normalize_def wp_bind by (rule wp_rc_byte) (unfold wp_prims, rule *, assumption+)
  then show ?thesis
    using True by (simp add: lz_wp_def rc_normalize_def)
next
  case False
  then have "normalized s s"
    using assms(1) by (simp add: normalized_def rc_frame_refl rc_inv_def)
  then show ?thesis
    using False Q by (simp add: lz_wp_def rc_normalize_def)
qed

definition tested :: "nat \<Rightarrow> lz \<Rightarrow> lz \<Rightarrow> bool" where
  "tested i s s' \<longleftrightarrow> normalized s s' \<and> rc_bound (lz_rc s') = lz_p s ! i * (rc_range (lz_rc s') div 2 ^ 11)"

lemma bound_no_wrap:
  assumes "p \<le> 2017" and "r < 2 ^ 32"
  shows "(p * (r div 2 ^ 11)) mod 2 ^ 32 = p * (r div (2 ^ 11 :: nat))"
proof (rule mod_less)
  have "p * (r div 2 ^ 11) \<le> 2 ^ 11 * (r div 2 ^ 11)"
    using assms(1) by (intro mult_right_mono) auto
  also have "\<dots> \<le> r"
    by (rule times_div_less_eq_dividend)
  finally show "p * (r div 2 ^ 11) < 2 ^ 32"
    using assms(2) by simp
qed

lemma wp_is_bit_0:
  assumes "rc_inv s" and "i < length (lz_p s)"
    and Q: "\<And>z s'. tested i s s' \<Longrightarrow> Q z s'"
  shows "lz_wp (rc_is_bit_0 i) Q s"
  unfolding rc_is_bit_0_def rc_is_bit_0_helper_def wp_bind
proof (rule wp_normalize [OF assms(1)])
  fix t assume t: "normalized s t"
  let ?b = "lz_p s ! i * drop_bit 11 (rc_range (lz_rc t))"
  have p: "lz_p s ! i \<le> 2017" and r: "rc_range (lz_rc t) < 2 ^ 32"
    using assms(1,2) t by (auto simp: rc_inv_def normalized_def)
  have "tested i s (t\<lparr>lz_rc := (lz_rc t)\<lparr>rc_bound := ?b mod 2 ^ 32\<rparr>\<rparr>)"
    using t bound_no_wrap [OF p r]
    by (simp add: tested_def normalized_def rc_frame_def lz_measure_def lz_left_def drop_bit_eq_div)
  then have "Q z (t\<lparr>lz_rc := (lz_rc t)\<lparr>rc_bound := ?b mod 2 ^ 32\<rparr>\<rparr>)" for z
    by (rule Q)
  moreover have "lz_p t = lz_p s"
    using t by (simp add: normalized_def)
  ultimately show "lz_wp (get_prob i) (\<lambda>p. lz_wp (upd_rc (\<lambda>r. r\<lparr>rc_bound := p * drop_bit 11 (rc_range r) mod 2 ^ 32\<rparr>))
      (\<lambda>x. lz_wp (lz_get (\<lambda>s. rc_bound (lz_rc s))) (\<lambda>x. lz_wp (lz_get (\<lambda>s. rc_code (lz_rc s) < x)) Q))) t"
    using assms(2) unfolding wp_prims by (simp add: lz_wp_def get_prob_def)
qed

lemma prob_moves:
  assumes "31 \<le> p" "p \<le> (2017::nat)"
  shows "31 \<le> p + drop_bit 5 (2 ^ 11 - p)" "p + drop_bit 5 (2 ^ 11 - p) \<le> 2017"
    and "31 \<le> p - drop_bit 5 p" "p - drop_bit 5 p \<le> 2017"
  using assms by (simp_all add: drop_bit_eq_div)

lemma split_range:
  fixes r p :: nat
  assumes "2 ^ 24 \<le> r" and "31 \<le> p" "p \<le> 2017"
  defines "b \<equiv> p * (r div 2 ^ 11)"
  shows "2 ^ 16 \<le> b" and "b + 2 ^ 16 \<le> r"
proof -
  have d: "2 ^ 13 \<le> r div 2 ^ 11"
    using div_le_mono [OF assms(1), of "2 ^ 11"] by simp
  have "31 * 2 ^ 13 \<le> b"
    unfolding b_def using assms(2) d by (rule mult_le_mono)
  then show "2 ^ 16 \<le> b"
    by simp
  have "b + 31 * (r div 2 ^ 11) \<le> 2 ^ 11 * (r div 2 ^ 11)"
    unfolding b_def using assms(3) by (simp flip: distrib_right add: mult_right_mono)
  also have "\<dots> \<le> r"
    by (rule times_div_less_eq_dividend)
  finally show "b + 2 ^ 16 \<le> r"
    using d by simp
qed

lemma rc_inv_update:
  assumes "rc_inv s" and "i < length (lz_p s)" and "31 \<le> f (lz_p s ! i)" "f (lz_p s ! i) \<le> 2017"
    and "lz_p t = lz_p s" and "2 ^ 16 \<le> rc_range (lz_rc t)" "rc_range (lz_rc t) < 2 ^ 32"
  shows "rc_inv (t\<lparr>lz_p := (lz_p t)[i := f (lz_p t ! i)]\<rparr>)"
  using assms by (auto simp: rc_inv_def dest!: set_update_subset_insert [THEN subsetD])

lemma wp_upd_prob:
  "i < length (lz_p s) \<Longrightarrow> lz_wp (upd_prob i f) Q s = Q () (s\<lparr>lz_p := (lz_p s)[i := f (lz_p s ! i)]\<rparr>)"
  by (simp add: lz_wp_def upd_prob_def)

lemma wp_update_bit_0:
  assumes "rc_inv s" and "i < length (lz_p s)" and t: "tested i s t"
    and Q: "\<And>s'. rc_step s s' \<Longrightarrow> Q () s'"
  shows "lz_wp (rc_update_bit_0 i) Q t"
proof -
  let ?p = "lz_p s ! i" and ?t = "t\<lparr>lz_rc := (lz_rc t)\<lparr>rc_range := rc_bound (lz_rc t)\<rparr>\<rparr>"
  have p: "31 \<le> ?p" "?p \<le> 2017"
    using assms(1,2) by (auto simp: rc_inv_def)
  have n: "normalized s t" "rc_bound (lz_rc t) = ?p * (rc_range (lz_rc t) div 2 ^ 11)"
    using t by (auto simp: tested_def)
  have r: "2 ^ 24 \<le> rc_range (lz_rc t)" "rc_range (lz_rc t) < 2 ^ 32" "lz_p t = lz_p s" "lz_measure t \<le> lz_measure s"
      "rc_frame s t"
    using n(1) by (auto simp: normalized_def)
  note b = split_range [OF r(1) p]
  have b': "2 ^ 16 \<le> rc_bound (lz_rc t)" "rc_bound (lz_rc t) < rc_range (lz_rc t)"
    using b unfolding n(2) by simp_all
  have "rc_inv (?t\<lparr>lz_p := (lz_p ?t)[i := (\<lambda>p. p + drop_bit 5 (2 ^ 11 - p)) (lz_p ?t ! i)]\<rparr>)"
    by (rule rc_inv_update [OF assms(1,2)]) (use prob_moves [OF p] b' r in simp_all)
  then have "rc_step s (?t\<lparr>lz_p := (lz_p t)[i := lz_p t ! i + drop_bit 5 (2 ^ 11 - lz_p t ! i)]\<rparr>)"
    using r b'(2) by (simp add: rc_step_def rc_frame_def lz_measure_def lz_left_def)
  from Q [OF this] show ?thesis
    unfolding rc_update_bit_0_def using assms(2) r(3) by (simp add: wp_upd_prob)
qed

lemma wp_update_bit_1:
  assumes "rc_inv s" and "i < length (lz_p s)" and t: "tested i s t"
    and Q: "\<And>s'. rc_step s s' \<Longrightarrow> Q () s'"
  shows "lz_wp (rc_update_bit_1 i) Q t"
proof -
  let ?p = "lz_p s ! i"
  let ?r = "(rc_range (lz_rc t) + 2 ^ 32 - rc_bound (lz_rc t)) mod 2 ^ 32"
  let ?c = "(rc_code (lz_rc t) + 2 ^ 32 - rc_bound (lz_rc t)) mod 2 ^ 32"
  let ?t = "t\<lparr>lz_rc := (lz_rc t)\<lparr>rc_range := ?r, rc_code := ?c\<rparr>\<rparr>"
  have p: "31 \<le> ?p" "?p \<le> 2017"
    using assms(1,2) by (auto simp: rc_inv_def)
  have n: "normalized s t" "rc_bound (lz_rc t) = ?p * (rc_range (lz_rc t) div 2 ^ 11)"
    using t by (auto simp: tested_def)
  have r: "2 ^ 24 \<le> rc_range (lz_rc t)" "rc_range (lz_rc t) < 2 ^ 32" "lz_p t = lz_p s" "lz_measure t \<le> lz_measure s"
      "rc_frame s t"
    using n(1) by (auto simp: normalized_def)
  note b = split_range [OF r(1) p]
  have b': "2 ^ 16 \<le> rc_bound (lz_rc t)" "rc_bound (lz_rc t) + 2 ^ 16 \<le> rc_range (lz_rc t)"
    using b unfolding n(2) by simp_all
  have "?r = (rc_range (lz_rc t) - rc_bound (lz_rc t) + 2 ^ 32) mod 2 ^ 32"
    using b'(2) by (intro arg_cong [where f = "\<lambda>x. x mod 2 ^ 32"]) simp
  also have "\<dots> = (rc_range (lz_rc t) - rc_bound (lz_rc t)) mod 2 ^ 32"
    by (rule mod_add_self2)
  also have "\<dots> = rc_range (lz_rc t) - rc_bound (lz_rc t)"
    using r(2) by (intro mod_less) linarith
  finally have r': "?r = rc_range (lz_rc t) - rc_bound (lz_rc t)" .
  have rr: "2 ^ 16 \<le> ?r" "?r < rc_range (lz_rc t)"
    unfolding r' using b' by simp_all
  have "rc_inv (?t\<lparr>lz_p := (lz_p ?t)[i := (\<lambda>p. p - drop_bit 5 p) (lz_p ?t ! i)]\<rparr>)"
    by (rule rc_inv_update [OF assms(1,2)]) (use prob_moves [OF p] rr r in simp_all)
  then have "rc_step s (?t\<lparr>lz_p := (lz_p t)[i := lz_p t ! i - drop_bit 5 (lz_p t ! i)]\<rparr>)"
    using r(3-5) rr(2) by (simp add: rc_step_def rc_frame_def lz_measure_def lz_left_def)
  from Q [OF this] show ?thesis
    unfolding rc_update_bit_1_def using assms(2) r(3) by (simp add: wp_upd_prob)
qed

lemma wp_rc_bit:
  assumes "rc_inv s" and "i < length (lz_p s)" and Q: "\<And>b s'. rc_step s s' \<Longrightarrow> Q b s'"
  shows "lz_wp (rc_bit i) Q s"
  unfolding rc_bit_def wp_bind
proof (rule wp_is_bit_0 [OF assms(1,2)])
  fix z t assume t: "tested i s t"
  have "lz_wp (rc_update_bit_0 i) (\<lambda>_. Q False) t" "lz_wp (rc_update_bit_1 i) (\<lambda>_. Q True) t"
    by (rule wp_update_bit_0 [OF assms(1,2) t] wp_update_bit_1 [OF assms(1,2) t], rule Q, assumption)+
  then show "lz_wp (if z then lz_bind (rc_update_bit_0 i) (\<lambda>_. lz_return False)
      else lz_bind (rc_update_bit_1 i) (\<lambda>_. lz_return True)) Q t"
    by simp
qed

lemma wp_get_bit:
  assumes "rc_inv s" and "i < length (lz_p s)"
    and "\<And>b s'. rc_step s s' \<Longrightarrow> Q (b, symbol * 2 + of_bool b) s'"
  shows "lz_wp (rc_get_bit i symbol) Q s"
  unfolding rc_get_bit_def wp_bind wp_return using assms(1,2) by (rule wp_rc_bit) (rule assms(3))

lemma wp_get_bit_case:
  assumes "rc_inv s" and "i < length (lz_p s)"
    and "\<And>b s'. rc_step s s' \<Longrightarrow> R b (symbol * 2 + of_bool b) s'"
  shows "lz_wp (rc_get_bit i symbol) (\<lambda>(b, m). R b m) s"
  using assms(1,2) by (rule wp_get_bit) (simp add: assms(3))

lemma wp_direct_bit:
  assumes "rc_inv s" and Q: "\<And>b s'. b < 2 \<Longrightarrow> rc_step s s' \<Longrightarrow> Q b s'"
  shows "lz_wp rc_direct_bit Q s"
  unfolding rc_direct_bit_def wp_bind
proof (rule wp_normalize [OF assms(1)])
  fix t assume t: "normalized s t"
  have r: "2 ^ 24 \<le> rc_range (lz_rc t)" "rc_range (lz_rc t) < 2 ^ 32"
    using t by (auto simp: normalized_def)
  then have h: "2 ^ 16 \<le> rc_range (lz_rc t) div 2" "rc_range (lz_rc t) div 2 < rc_range (lz_rc t)"
    by (auto intro: order_trans [OF _ div_le_mono [OF r(1), of 2]])
  have "rc_step s (t\<lparr>lz_rc := (lz_rc t)\<lparr>rc_range := d, rc_code := k\<rparr>\<rparr>)"
    if "2 ^ 16 \<le> d" "d < rc_range (lz_rc t)" for d k
    using t that r(2) assms(1)
    by (simp add: rc_step_def normalized_def rc_frame_def rc_inv_def lz_measure_def lz_left_def)
  note this = this [OF h]
  from Q [OF _ this] Q [OF _ this [of "rc_code (lz_rc t)"]]
  show "lz_wp (upd_rc (\<lambda>r. r\<lparr>rc_range := drop_bit 1 (rc_range r)\<rparr>)) (\<lambda>_. lz_wp (lz_get lz_rc) (\<lambda>r.
      lz_wp (if rc_range r \<le> rc_code r
        then lz_bind (upd_rc (\<lambda>r. r\<lparr>rc_code := rc_code r - rc_range r\<rparr>)) (\<lambda>_. lz_return 1)
        else lz_return 0) Q)) t"
    by (simp add: drop_bit_eq_div)
qed

section \<open>Loops of the range decoder\<close>

definition rc_weak :: "lz \<Rightarrow> lz \<Rightarrow> bool" where
  "rc_weak s s' \<longleftrightarrow> rc_frame s s' \<and> rc_inv s' \<and> lz_measure s' \<le> lz_measure s"

lemma rc_weak_refl: "rc_inv s \<Longrightarrow> rc_weak s s"
  by (simp add: rc_weak_def rc_frame_refl)

lemma rc_weak_inv: "rc_weak s s' \<Longrightarrow> rc_inv s'" and rc_step_inv: "rc_step s s' \<Longrightarrow> rc_inv s'"
  by (simp_all add: rc_weak_def rc_step_def)

lemma rc_step_weak: "rc_step s s' \<Longrightarrow> rc_weak s s'"
  by (simp add: rc_step_def rc_weak_def)

lemma rc_step_then: "rc_step s t \<Longrightarrow> rc_weak t u \<Longrightarrow> rc_step s u"
  by (auto simp: rc_step_def rc_weak_def intro: rc_frame_trans)

lemma rc_weak_trans: "rc_weak s t \<Longrightarrow> rc_weak t u \<Longrightarrow> rc_weak s u"
  by (auto simp: rc_weak_def intro: rc_frame_trans)

lemma rc_frame_reads:
  assumes "rc_frame s s'"
  shows "length (lz_p s') = length (lz_p s)" "lz_wr s' = lz_wr s" "lz_cst s' = lz_cst s" "lz_header s' = lz_header s"
  using assms by (simp_all add: rc_frame_def)

lemma rc_step_frame: "rc_step s s' \<Longrightarrow> rc_frame s s'" and rc_weak_frame: "rc_weak s s' \<Longrightarrow> rc_frame s s'"
  by (simp_all add: rc_step_def rc_weak_def)

lemmas rc_reads = rc_frame_reads [OF rc_step_frame] rc_frame_reads [OF rc_weak_frame]

lemma wp_tree_loop:
  assumes "rc_inv s" and "p + (symbol + 1) * 2 ^ n div 2 \<le> length (lz_p s)"
    and "\<And>r s'. rc_weak s s' \<Longrightarrow> symbol * 2 ^ n \<le> r \<Longrightarrow> r < (symbol + 1) * 2 ^ n \<Longrightarrow> Q r s'"
  shows "lz_wp (rc_tree_loop p n symbol) Q s"
  using assms
proof (induction n arbitrary: symbol s)
  case 0
  then show ?case by (simp add: rc_weak_refl)
next
  case (Suc n)
  have half: "(symbol + 1) * 2 ^ Suc n div 2 = (symbol + 1) * 2 ^ n"
    by simp
  have "symbol < (symbol + 1) * 2 ^ n"
    using mult_le_mono2 [of 1 "2 ^ n" "symbol + 1"] by simp
  then have i: "p + symbol < length (lz_p s)"
    using Suc.prems(2) unfolding half by linarith
  show ?case
    unfolding rc_tree_loop.simps wp_bind
  proof (rule wp_get_bit [OF Suc.prems(1) i])
    fix b t assume t: "rc_step s t"
    let ?sym = "symbol * 2 + of_bool b"
    have "(?sym + 1) * 2 ^ n div 2 \<le> (symbol + 1) * 2 ^ n"
      by (cases b) (simp_all add: algebra_simps)
    then have "p + (?sym + 1) * 2 ^ n div 2 \<le> length (lz_p t)"
      using Suc.prems(2) rc_reads(1) [OF t] unfolding half by linarith
    moreover have "Q r s'" if "rc_weak t s'" "?sym * 2 ^ n \<le> r" "r < (?sym + 1) * 2 ^ n" for r s'
    proof (rule Suc.prems(3))
      show "rc_weak s s'"
        using t that(1) by (metis rc_step_then rc_step_weak)
      show "symbol * 2 ^ Suc n \<le> r" "r < (symbol + 1) * 2 ^ Suc n"
        using that(2,3) by (cases b; simp add: algebra_simps)+
    qed
    ultimately show "lz_wp (case (b, ?sym) of (_, x) \<Rightarrow> rc_tree_loop p n x) Q t"
      using Suc.IH [OF rc_step_inv [OF t]] by simp
  qed
qed

lemma wp_tree_decode:
  assumes "rc_inv s" and "p + 2 ^ n \<le> length (lz_p s)"
    and "\<And>r s'. rc_weak s s' \<Longrightarrow> r < 2 ^ n \<Longrightarrow> Q r s'"
  shows "lz_wp (rc_bit_tree_decode p n) Q s"
  unfolding rc_bit_tree_decode_def wp_bind wp_return
proof (rule wp_tree_loop [OF assms(1)])
  show "Q (r - 2 ^ n) s'" if "rc_weak s s'" "1 * 2 ^ n \<le> r" "r < (1 + 1) * 2 ^ n" for r s'
    using that by (intro assms(3)) auto
qed (use assms(2) in simp)

lemma wp_direct_loop:
  assumes "rc_inv s" and "\<And>r s'. rc_weak s s' \<Longrightarrow> Q r s'"
  shows "lz_wp (direct_loop n rep) Q s"
  using assms
proof (induction n arbitrary: rep s)
  case (Suc n)
  show ?case
    unfolding direct_loop.simps wp_bind
    by (rule wp_direct_bit [OF Suc.prems(1)], rule Suc.IH)
      (auto intro: rc_step_inv Suc.prems(2) rc_step_weak rc_step_then)
qed (simp add: rc_weak_refl)

lemma wp_dist_loop:
  assumes "rc_inv s" and "p + (mi + 1) * 2 ^ n div 2 \<le> length (lz_p s)"
    and "\<And>r s'. rc_weak s s' \<Longrightarrow> Q r s'"
  shows "lz_wp (dist_loop p n i mi rep) Q s"
  using assms
proof (induction n arbitrary: i mi rep s)
  case (Suc n)
  have half: "(mi + 1) * 2 ^ Suc n div 2 = (mi + 1) * 2 ^ n"
    by simp
  have "mi < (mi + 1) * 2 ^ n"
    using mult_le_mono2 [of 1 "2 ^ n" "mi + 1"] by simp
  then have i: "p + mi < length (lz_p s)"
    using Suc.prems(2) unfolding half by linarith
  show ?case
    unfolding dist_loop.simps wp_bind
  proof (rule wp_get_bit [OF Suc.prems(1) i])
    fix b t assume t: "rc_step s t"
    let ?mi = "mi * 2 + of_bool b"
    have "(?mi + 1) * 2 ^ n div 2 \<le> (mi + 1) * 2 ^ n"
      by (cases b) (simp_all add: algebra_simps)
    then have "p + (?mi + 1) * 2 ^ n div 2 \<le> length (lz_p t)"
      using Suc.prems(2) rc_reads(1) [OF t] unfolding half by linarith
    moreover have "Q r s'" if "rc_weak t s'" for r s'
      using Suc.prems(3) rc_step_weak [OF rc_step_then [OF t that]] by blast
    ultimately show "lz_wp (case (b, ?mi) of (b, mi') \<Rightarrow> dist_loop p n (i * 2) mi' (if b then rep OR i else rep)) Q t"
      using Suc.IH [OF rc_step_inv [OF t]] by simp
  qed
qed (simp add: rc_weak_refl)

end
