(* ===== verification/Lzma_Packets.thy ===== *)
theory Lzma_Packets
  imports Lzma_Inv
begin

text \<open>
  The packets of the LZMA stream keep the invariant: every probability they use lies in the array, the
  state of the decoder stays below 12, each round of the main loop consumes input or range, and, when
  the output goes to one buffer, it never grows past the size the header announces.
\<close>

section \<open>The writer\<close>

definition out_ok :: "lz \<Rightarrow> bool" where
  "out_ok s \<longleftrightarrow> wr_flush (lz_wr s) = None \<and> global_pos (lz_wr s) = 0
     \<and> buffer_pos (lz_wr s) \<le> dst_size (lz_header s)"

definition out_open :: "lz \<Rightarrow> bool" where
  "out_open s \<longleftrightarrow> out_ok s \<and> buffer_pos (lz_wr s) < dst_size (lz_header s)"

text \<open>A write touches the writer only, and keeps within the announced size.\<close>

definition wr_only :: "lz \<Rightarrow> lz \<Rightarrow> bool" where
  "wr_only s s' \<longleftrightarrow> lz_rc s' = lz_rc s \<and> lz_p s' = lz_p s \<and> lz_cst s' = lz_cst s \<and> lz_header s' = lz_header s
     \<and> (out_open s \<longrightarrow> out_ok s')"

lemma wp_peek: "(\<And>b. Q b s) \<Longrightarrow> lz_wp (peek_old_byte offs) Q s"
  by (simp add: lz_wp_def peek_old_byte_def Let_def split: option.splits)

lemma wp_write_byte: "(\<And>r s'. wr_only s s' \<Longrightarrow> Q r s') \<Longrightarrow> lz_wp (write_byte b) Q s"
  by (auto simp: lz_wp_def write_byte_def Let_def wr_only_def out_open_def out_ok_def split: option.splits)

lemma wp_copy_byte: "(\<And>r s'. wr_only s s' \<Longrightarrow> Q r s') \<Longrightarrow> lz_wp (copy_byte offs) Q s"
  by (simp add: copy_byte_def wp_peek wp_write_byte)

lemma wr_only_trans:
  "wr_only s t \<Longrightarrow> buffer_pos (lz_wr t) < dst_size (lz_header t) \<Longrightarrow> wr_only t u \<Longrightarrow> wr_only s u"
  by (auto simp: wr_only_def out_open_def)

lemma wp_copy_bytes: "(\<And>r s'. wr_only s s' \<Longrightarrow> Q r s') \<Longrightarrow> lz_wp (copy_bytes rep n) Q s"
proof (induction n arbitrary: s)
  case 0
  then show ?case by (auto intro!: wp_copy_byte)
next
  case (Suc n)
  show ?case
    unfolding copy_bytes.simps wp_bind
  proof (rule wp_copy_byte)
    fix r t assume t: "wr_only s t"
    have "lz_wp (copy_bytes rep n) Q t" if "buffer_pos (lz_wr t) < dst_size (lz_header t)"
      by (rule Suc.IH, rule Suc.prems, rule wr_only_trans [OF t that])
    then show "lz_wp (if r \<noteq> 0 then lz_return (- 1)
        else lz_bind (lz_get (\<lambda>s. buffer_pos (lz_wr s) < dst_size (lz_header s))) (\<lambda>more.
          if more then copy_bytes rep n else lz_return (int (Suc n)))) Q t"
      using Suc.prems [OF t] by simp
  qed
qed

section \<open>Literals\<close>

lemma wp_match_loop:
  assumes "rc_inv s" and "prob + 768 \<le> length (lz_p s)" and "1 \<le> mi" "mi < 0x100"
    and "\<And>r s'. rc_weak s s' \<Longrightarrow> 1 \<le> r \<Longrightarrow> Q r s'"
  shows "lz_wp (match_loop prob n mb mi) Q s"
  using assms
proof (induction n arbitrary: mb mi s)
  case (Suc n)
  let ?bt = "(mb * 2) AND 0x100"
  have "?bt \<le> 0x100"
    by (rule and_nat_le)
  then have i: "prob + 0x100 + ?bt + mi < length (lz_p s)"
    using Suc.prems(2,4) by linarith
  have "lz_wp (rc_get_bit (prob + 0x100 + ?bt + mi) mi) (\<lambda>(b, mi'). lz_wp (
      if b \<noteq> (?bt \<noteq> 0) then lz_return mi' else if mi' < 0x100 then match_loop prob n (mb * 2) mi' else lz_return mi') Q) s"
  proof (rule wp_get_bit_case [OF Suc.prems(1) i])
    fix b t assume t: "rc_step s t"
    let ?mi = "mi * 2 + of_bool b"
    have "Q ?mi t"
      using Suc.prems(3,5) rc_step_weak [OF t] by simp
    moreover have "lz_wp (match_loop prob n (mb * 2) ?mi) Q t" if "?mi < 0x100"
    proof (rule Suc.IH [OF rc_step_inv [OF t]])
      show "Q r s'" if "rc_weak t s'" "1 \<le> r" for r s'
        using Suc.prems(5) rc_step_weak [OF rc_step_then [OF t that(1)]] that(2) by blast
    qed (use Suc.prems(2,3) that rc_reads(1) [OF t] in auto)
    ultimately show "lz_wp (if b \<noteq> (?bt \<noteq> 0) then lz_return ?mi
        else if ?mi < 0x100 then match_loop prob n (mb * 2) ?mi else lz_return ?mi) Q t"
      by (intro wp_ifI) (simp_all only: wp_return)
  qed
  then show ?case
    by (simp add: Let_def case_prod_unfold)
qed (simp add: rc_weak_refl)

lemma wp_lit_loop:
  assumes "rc_inv s" and "prob + 256 \<le> length (lz_p s)" and "256 \<le> mi * 2 ^ n"
    and "\<And>r s'. rc_weak s s' \<Longrightarrow> 256 \<le> r \<Longrightarrow> Q r s'"
  shows "lz_wp (lit_loop prob n mi) Q s"
  using assms
proof (induction n arbitrary: mi s)
  case (Suc n)
  show ?case
  proof (cases "mi < 0x100")
    case True
    then have i: "prob + mi < length (lz_p s)"
      using Suc.prems(2) by linarith
    have "lz_wp (rc_get_bit (prob + mi) mi) (\<lambda>(_, mi'). lz_wp (lit_loop prob n mi') Q) s"
    proof (rule wp_get_bit_case [OF Suc.prems(1) i])
      fix b t assume t: "rc_step s t"
      have "256 \<le> (mi * 2 + of_bool b) * 2 ^ n"
        using Suc.prems(3) by (cases b) (simp_all add: algebra_simps)
      moreover have "Q r s'" if "rc_weak t s'" "256 \<le> r" for r s'
        using Suc.prems(4) rc_step_weak [OF rc_step_then [OF t that(1)]] that(2) by blast
      ultimately show "lz_wp (lit_loop prob n (mi * 2 + of_bool b)) Q t"
        using Suc.IH [OF rc_step_inv [OF t]] Suc.prems(2) rc_reads(1) [OF t] by simp
    qed
    then show ?thesis
      using True by (simp add: case_prod_unfold)
  qed (use Suc.prems in \<open>simp add: rc_weak_refl\<close>)
qed (simp add: rc_weak_refl)

section \<open>Matches\<close>

text \<open>What a packet may do to a state: the decoder advances and the state machine stays in range.\<close>

definition lz_inv :: "nat \<Rightarrow> lz \<Rightarrow> bool" where
  "lz_inv n s \<longleftrightarrow> rc_inv s \<and> length (lz_p s) = n \<and> 1846 \<le> n \<and> cs_state (lz_cst s) < 12"

definition lz_adv :: "lz \<Rightarrow> lz \<Rightarrow> bool" where
  "lz_adv s s' \<longleftrightarrow> rc_inv s' \<and> length (lz_p s') = length (lz_p s) \<and> lz_header s' = lz_header s
     \<and> lz_wr s' = lz_wr s \<and> lz_measure s' \<le> lz_measure s \<and> cs_state (lz_cst s') < 12"

lemma lz_adv_trans: "lz_adv s t \<Longrightarrow> lz_adv t u \<Longrightarrow> lz_adv s u"
  by (simp add: lz_adv_def)

lemma weak_adv: "rc_weak s s' \<Longrightarrow> cs_state (lz_cst s) < 12 \<Longrightarrow> lz_adv s s'"
  by (simp add: rc_weak_def rc_frame_def lz_adv_def)

lemma adv_weak: "lz_adv s t \<Longrightarrow> rc_weak t u \<Longrightarrow> lz_adv s u"
  by (simp add: rc_weak_def rc_frame_def lz_adv_def)

lemma step_adv: "rc_step s s' \<Longrightarrow> cs_state (lz_cst s) < 12 \<Longrightarrow> lz_adv s s'"
  by (simp add: rc_step_weak weak_adv)

lemma cst_adv: "lz_adv s t \<Longrightarrow> cs_state (f (lz_cst t)) < 12 \<Longrightarrow> lz_adv s (t\<lparr>lz_cst := f (lz_cst t)\<rparr>)"
  by (simp add: lz_adv_def rc_inv_def lz_measure_def lz_left_def)

lemma adv_inv: "lz_inv n s \<Longrightarrow> lz_adv s t \<Longrightarrow> lz_inv n t"
  by (simp add: lz_inv_def lz_adv_def)

lemma lz_inv_refl: "lz_inv n s \<Longrightarrow> lz_adv s s"
  by (simp add: lz_inv_def lz_adv_def)

lemma wp_bit_adv:
  assumes "lz_inv n s" and "i < 1846" and "\<And>b t. lz_adv s t \<Longrightarrow> lz_cst t = lz_cst s \<Longrightarrow> Q b t"
  shows "lz_wp (rc_bit i) Q s"
proof (rule wp_rc_bit)
  show "rc_inv s" "i < length (lz_p s)"
    using assms(1,2) by (auto simp: lz_inv_def)
  show "Q b t" if "rc_step s t" for b t
    using that assms(1,3) rc_reads(3) [OF that] by (simp add: step_adv lz_inv_def)
qed

lemma wp_cstI: "Q () (s\<lparr>lz_cst := f (lz_cst s)\<rparr>) \<Longrightarrow> lz_wp (upd_cst f) Q s"
  by simp

lemma wp_cst_adv:
  assumes "lz_adv s t" and "\<And>c. cs_state c < 12 \<Longrightarrow> cs_state (f c) < 12" and "\<And>u. lz_adv s u \<Longrightarrow> Q () u"
  shows "lz_wp (upd_cst f) Q t"
  using assms(1,2) by (auto intro!: assms(3) cst_adv simp: lz_adv_def)

lemma wp_rep_choice:
  assumes "lz_inv n s" and Q: "\<And>t. lz_adv s t \<Longrightarrow> Q () t"
  shows "lz_wp rep_choice Q s"
proof -
  have st: "cs_state (lz_cst s) < 12"
    using assms(1) by (simp add: lz_inv_def)
  show ?thesis
    unfolding rep_choice_def wp_bind wp_get
  proof (rule wp_bit_adv [OF assms(1)], goal_cases)
    case (2 b t)
    have "lz_wp (rc_bit (228 + cs_state (lz_cst s))) (\<lambda>b2. lz_wp (if \<not> b2
        then upd_cst (\<lambda>c. c\<lparr>rep2 := rep1 c, rep1 := rep0 c, rep0 := rep2 c\<rparr>)
        else upd_cst (\<lambda>c. c\<lparr>rep3 := rep2 c, rep2 := rep1 c, rep1 := rep0 c, rep0 := rep3 c\<rparr>)) Q) t"
    proof (rule wp_bit_adv [OF adv_inv [OF assms(1) 2(1)]], goal_cases)
      case (2 b2 u)
      then have "lz_adv s u"
        using \<open>lz_adv s t\<close> by (blast intro: lz_adv_trans)
      then show ?case
        by (intro wp_ifI) (rule wp_cst_adv, assumption, simp, rule Q, assumption)+
    qed (use st in simp)
    moreover have "lz_wp (upd_cst (\<lambda>c. c\<lparr>rep1 := rep0 c, rep0 := rep1 c\<rparr>)) Q t"
      by (rule wp_cst_adv [OF 2(1)]) (simp_all add: Q)
    ultimately show ?case
      by (intro wp_ifI) (simp_all only: wp_bind)
  qed (use st in simp)
qed

lemma wp_rep_packet:
  assumes "lz_inv n s" and ps: "pos_state < 16" and Q: "\<And>r t. lz_adv s t \<Longrightarrow> r \<in> {None, Some 1332} \<Longrightarrow> Q r t"
  shows "lz_wp (rep_packet pos_state) Q s"
proof -
  have st: "cs_state (lz_cst s) < 12"
    using assms(1) by (simp add: lz_inv_def)
  have long: "lz_wp (lz_bind (upd_cst (\<lambda>c. c\<lparr>cs_state := (if cs_state c < 7 then 8 else 11)\<rparr>))
      (\<lambda>_. lz_return (Some 1332))) Q t" if "lz_adv s t" for t
    unfolding wp_bind wp_return by (rule wp_cst_adv [OF that]) (simp_all add: Q)
  have short: "lz_wp (lz_bind (upd_cst (\<lambda>c. c\<lparr>cs_state := (if cs_state c < 7 then 9 else 11)\<rparr>))
      (\<lambda>_. lz_return None)) Q t" if "lz_adv s t" for t
    unfolding wp_bind wp_return by (rule wp_cst_adv [OF that]) (simp_all add: Q)
  show ?thesis
    unfolding rep_packet_def wp_bind wp_get Let_def
  proof (rule wp_bit_adv [OF assms(1)], goal_cases)
    case (2 g0 t)
    note inv_t = adv_inv [OF assms(1) 2(1)]
    have c: "lz_wp (lz_bind rep_choice (\<lambda>_. lz_bind (upd_cst (\<lambda>c. c\<lparr>cs_state := (if cs_state c < 7 then 8 else 11)\<rparr>))
        (\<lambda>_. lz_return (Some 1332)))) Q t"
      unfolding wp_bind [of rep_choice]
      by (rule wp_rep_choice [OF inv_t]) (rule long, rule lz_adv_trans [OF 2(1)])
    have d: "lz_wp (lz_bind (rc_bit (240 + push_bit 4 (cs_state (lz_cst s)) + pos_state)) (\<lambda>l. if l
        then lz_bind (upd_cst (\<lambda>c. c\<lparr>cs_state := (if cs_state c < 7 then 8 else 11)\<rparr>)) (\<lambda>_. lz_return (Some 1332))
        else lz_bind (upd_cst (\<lambda>c. c\<lparr>cs_state := (if cs_state c < 7 then 9 else 11)\<rparr>)) (\<lambda>_. lz_return None))) Q t"
      unfolding wp_bind [of "rc_bit _"]
      by (rule wp_bit_adv [OF inv_t], use st ps in \<open>simp add: push_bit_eq_mult\<close>)
        (intro wp_ifI; (rule long | rule short); rule lz_adv_trans [OF 2(1)])
    show ?case
      using c d by (intro wp_ifI)
  qed (use st in simp)
qed

lemma wp_match_kind:
  assumes "lz_inv n s" and ps: "pos_state < 16"
    and Q: "\<And>r t. lz_adv s t \<Longrightarrow> r \<in> {None, Some 818, Some 1332} \<Longrightarrow> Q r t"
  shows "lz_wp (match_kind pos_state) Q s"
proof -
  have st: "cs_state (lz_cst s) < 12"
    using assms(1) by (simp add: lz_inv_def)
  show ?thesis
    unfolding match_kind_def wp_bind wp_get
  proof (rule wp_bit_adv [OF assms(1)], goal_cases)
    case (2 b t)
    have "lz_wp (rep_packet pos_state) Q t"
      by (rule wp_rep_packet [OF adv_inv [OF assms(1) 2(1)] ps]) (auto intro: Q lz_adv_trans [OF 2(1)])
    moreover have "lz_wp (lz_bind (upd_cst (\<lambda>c. c\<lparr>rep3 := rep2 c, rep2 := rep1 c, rep1 := rep0 c,
        cs_state := (if cs_state c < 7 then 0 else 3)\<rparr>)) (\<lambda>_. lz_return (Some 818))) Q t"
      unfolding wp_bind wp_return by (rule wp_cst_adv [OF 2(1)]) (simp_all add: Q)
    ultimately show ?case
      by (intro wp_ifI)
  qed (use st in simp)
qed

lemma wp_tree_adv:
  assumes "lz_inv n s" and "p + 2 ^ k \<le> 1846" and Q: "\<And>r t. lz_adv s t \<Longrightarrow> lz_cst t = lz_cst s \<Longrightarrow> r < 2 ^ k \<Longrightarrow> Q r t"
  shows "lz_wp (rc_bit_tree_decode p k) Q s"
proof (rule wp_tree_decode)
  show "rc_inv s" "p + 2 ^ k \<le> length (lz_p s)"
    using assms(1,2) by (auto simp: lz_inv_def)
  show "Q r t" if "rc_weak s t" "r < 2 ^ k" for r t
    using that assms(1) Q rc_reads(7) [OF that(1)] by (simp add: weak_adv lz_inv_def)
qed

lemma wp_match_len:
  assumes "lz_inv n s" and "prob \<in> {818, 1332}" and ps: "pos_state < 16"
    and Q: "\<And>r t. lz_adv s t \<Longrightarrow> Q r t"
  shows "lz_wp (match_len prob pos_state) Q s"
proof -
  have ix: "prob + 2 + push_bit 3 pos_state + 2 ^ 3 \<le> 1846" "prob + 130 + push_bit 3 pos_state + 2 ^ 3 \<le> 1846"
      "prob + 258 + 2 ^ 8 \<le> 1846" "prob < 1846" "prob + 1 < 1846"
    using assms(2) ps by (auto simp: push_bit_eq_mult)
  show ?thesis
    unfolding match_len_def wp_bind
  proof (rule wp_bit_adv [OF assms(1) ix(4)], rule wp_ifI, goal_cases)
    case (1 c1 t)
    show ?case
      by (rule wp_tree_adv [OF adv_inv [OF assms(1) 1(1)] ix(1)]) (rule Q, rule lz_adv_trans [OF 1(1)])
  next
    case (2 c1 t)
    show ?case
      unfolding wp_bind
    proof (rule wp_bit_adv [OF adv_inv [OF assms(1) 2(1)] ix(5)], goal_cases)
      case (1 c2 u)
      then have u: "lz_adv s u"
        using 2(1) by (blast intro: lz_adv_trans)
      show ?case
        unfolding wp_bind wp_return
        by (intro wp_ifI; unfold wp_bind wp_return; rule wp_tree_adv [OF adv_inv [OF assms(1) u] ix(2)]
            wp_tree_adv [OF adv_inv [OF assms(1) u] ix(3)]; rule Q; rule lz_adv_trans [OF u])
    qed
  qed
qed

lemma spec_pos_index:
  assumes "4 \<le> slot" and "slot < 14"
  shows "688 + push_bit (drop_bit 1 slot - 1) (2 OR (slot AND 1)) - slot - 1
    + (1 + 1) * 2 ^ (drop_bit 1 slot - 1) div 2 \<le> (1846 :: nat)"
proof -
  have "slot = 4 \<or> slot = 5 \<or> slot = 6 \<or> slot = 7 \<or> slot = 8 \<or> slot = 9 \<or> slot = 10 \<or> slot = 11
      \<or> slot = 12 \<or> slot = 13"
    using assms by presburger
  then show ?thesis
    by (elim disjE) (simp_all add: push_bit_eq_mult drop_bit_eq_div)
qed

lemma wp_match_distance:
  assumes "lz_inv n s" and Q: "\<And>r t. lz_adv s t \<Longrightarrow> Q r t"
  shows "lz_wp (match_distance len) Q s"
proof -
  have ix: "432 + push_bit 6 (if len < 4 then len else 3) + 2 ^ 6 \<le> (1846 :: nat)"
    by (simp add: push_bit_eq_mult)
  have dist: "lz_wp (dist_loop prob k 1 1 rep) Q t"
    if "lz_adv s t" "prob + (1 + 1) * 2 ^ k div 2 \<le> 1846" for t prob k rep
  proof (rule wp_dist_loop)
    show "rc_inv t" "prob + (1 + 1) * 2 ^ k div 2 \<le> length (lz_p t)"
      using that assms(1) by (auto simp: lz_adv_def lz_inv_def)
    show "Q r u" if "rc_weak t u" for r u
      by (rule Q, rule adv_weak [OF \<open>lz_adv s t\<close> that])
  qed
  show ?thesis
    unfolding match_distance_def wp_bind
  proof (rule wp_tree_adv [OF assms(1) ix], goal_cases)
    case (1 slot t)
    have "lz_wp (direct_loop k rep) (\<lambda>rep'. lz_wp (dist_loop 802 4 1 1 (push_bit 4 rep' mod 2 ^ 32)) Q) t" for k rep
    proof (rule wp_direct_loop)
      show "rc_inv t"
        using 1(1) by (simp add: lz_adv_def)
      show "lz_wp (dist_loop 802 4 1 1 (push_bit 4 r mod 2 ^ 32)) Q u" if "rc_weak t u" for r u
        by (rule dist [OF adv_weak [OF 1(1) that]]) simp
    qed
    then show ?case
      unfolding Let_def using dist [OF 1(1) spec_pos_index] Q [OF 1(1)]
      by (intro wp_ifI) (simp_all only: wp_bind wp_return)
  qed
qed

lemma wp_new_match:
  assumes "lz_inv n s" and Q: "\<And>r t. lz_adv s t \<Longrightarrow> Q r t"
  shows "lz_wp (new_match len) Q s"
  unfolding new_match_def wp_bind wp_get
proof (rule wp_ifI, goal_cases)
  case 1
  have a: "lz_adv s (s\<lparr>lz_cst := (lz_cst s)\<lparr>cs_state := cs_state (lz_cst s) + 7\<rparr>\<rparr>)"
    using lz_inv_refl [OF assms(1)] 1 by (intro cst_adv) simp_all
  have D: "lz_wp (match_distance len) (\<lambda>rep. lz_wp (upd_cst (\<lambda>c. c\<lparr>rep0 := (rep + 1) mod 2 ^ 32\<rparr>)) R)
      (s\<lparr>lz_cst := (lz_cst s)\<lparr>cs_state := cs_state (lz_cst s) + 7\<rparr>\<rparr>)"
    if "\<And>u. lz_adv s u \<Longrightarrow> R () u" for R
    by (rule wp_match_distance [OF adv_inv [OF assms(1) a]], rule wp_cst_adv)
      (auto intro: lz_adv_trans [OF a] that)
  show ?case
    unfolding wp_bind wp_get by (rule wp_cstI, rule D, rule Q)
next
  case 2
  then show ?case
    by (simp add: Q lz_inv_refl [OF assms(1)])
qed

section \<open>Packets and rounds\<close>

text \<open>The effect of a whole packet.\<close>

definition packet_ok :: "nat \<Rightarrow> lz \<Rightarrow> lz \<Rightarrow> bool" where
  "packet_ok n s s' \<longleftrightarrow> lz_inv n s' \<and> lz_header s' = lz_header s \<and> lz_measure s' < lz_measure s
     \<and> (out_open s \<longrightarrow> out_ok s')"

lemma packet_okI:
  assumes "lz_inv n s" and "rc_step s t" and "lz_adv t u" and "wr_only u v"
  shows "packet_ok n s v"
proof -
  have "lz_inv n v" "lz_header v = lz_header s" "lz_measure v < lz_measure s"
    using assms by (auto simp: packet_ok_def lz_inv_def lz_adv_def wr_only_def rc_step_def rc_frame_def rc_inv_def
        lz_measure_def lz_left_def)
  moreover have "lz_wr u = lz_wr s" "lz_header u = lz_header s"
    using assms(2,3) by (simp_all add: lz_adv_def rc_step_def rc_frame_def)
  ultimately show ?thesis
    using assms(4) by (simp add: packet_ok_def wr_only_def out_open_def out_ok_def)
qed

lemma wr_only_refl: "wr_only s s"
  by (simp add: wr_only_def out_open_def)

lemma step_inv: "lz_inv n s \<Longrightarrow> rc_step s t \<Longrightarrow> lz_inv n t"
  by (simp add: lz_inv_def rc_step_def rc_frame_def)

lemma wp_process_bit1:
  assumes "lz_inv n s" and "prob < 1846" and ps: "pos_state < 16" and t: "tested prob s t"
    and Q: "\<And>r u. packet_ok n s u \<Longrightarrow> Q r u"
  shows "lz_wp (process_bit1 pos_state prob) Q t"
  unfolding process_bit1_def wp_bind
proof (rule wp_update_bit_1 [OF _ _ t], goal_cases)
  case (3 u)
  note inv_u = step_inv [OF assms(1) 3]
  show ?case
  proof (rule wp_match_kind [OF inv_u ps], goal_cases)
    case (1 k v)
    note inv_v = adv_inv [OF inv_u 1(1)]
    have copy: "lz_wp (copy_byte r) Q v" for r
      by (rule wp_copy_byte) (rule Q, rule packet_okI [OF assms(1) 3 1(1)])
    have "lz_wp (match_len coder pos_state) (\<lambda>len. lz_wp (new_match len) (\<lambda>out. lz_wp (case out of
          Some ret \<Rightarrow> lz_return ret
        | None \<Rightarrow> lz_bind (lz_get (\<lambda>s. rep0 (lz_cst s))) (\<lambda>r'. copy_bytes r' (len + 1))) Q)) v"
      if "coder \<in> {818, 1332}" for coder
    proof (rule wp_match_len [OF inv_v that ps], rule wp_new_match)
      fix len w out x assume w: "lz_adv v w"
      show "lz_inv n w"
        using adv_inv [OF inv_v w] .
      assume x: "lz_adv w x"
      have a: "lz_adv u x"
        using 1(1) w x by (blast intro: lz_adv_trans)
      have "lz_wp (copy_bytes r (len + 1)) Q x" for r
        by (rule wp_copy_bytes) (rule Q, rule packet_okI [OF assms(1) 3 a])
      moreover have "Q ret x" for ret
        by (rule Q, rule packet_okI [OF assms(1) 3 a wr_only_refl])
      ultimately show "lz_wp (case out of Some ret \<Rightarrow> lz_return ret
          | None \<Rightarrow> lz_bind (lz_get (\<lambda>s. rep0 (lz_cst s))) (\<lambda>r'. copy_bytes r' (len + 1))) Q x"
        by (simp split: option.split)
    qed
    then show ?case
      using 1(2) copy unfolding wp_get by (cases k) (simp_all only: option.case wp_bind insert_iff option.inject option.simps simp_thms empty_iff)
  qed
qed (use assms(1,2) in \<open>auto simp: lz_inv_def\<close>)

lemma literal_index:
  fixes lc q b :: nat
  assumes "lc \<le> 8" and "q < 2 ^ lp" and "b < 256"
  shows "1846 + 768 * (push_bit lc q + drop_bit (8 - lc) b) + 768 \<le> 1846 + 768 * 2 ^ (lc + lp :: nat)"
proof -
  have "b < 2 ^ (8 - lc) * 2 ^ lc"
    using assms(1,3) by (simp flip: power_add)
  then have "b div 2 ^ (8 - lc) < 2 ^ lc"
    by (simp add: less_mult_imp_div_less mult.commute)
  then have "q * 2 ^ lc + b div 2 ^ (8 - lc) + 1 \<le> (q + 1) * 2 ^ lc"
    by simp
  also have "\<dots> \<le> 2 ^ lp * 2 ^ lc"
    using assms(2) by (intro mult_right_mono) auto
  finally have "q * 2 ^ lc + b div 2 ^ (8 - lc) + 1 \<le> 2 ^ (lc + lp)"
    by (simp add: power_add mult.commute)
  then show ?thesis
    by (simp add: push_bit_eq_mult drop_bit_eq_div)
qed

lemma literal_state_less: "c < 12 \<Longrightarrow> literal_state c < 12"
  by (auto simp: literal_state_def)

lemma wp_process_bit0:
  assumes "lz_inv n s" and "prob < 1846" and t: "tested prob s t"
    and n: "n = 1846 + 768 * 2 ^ (lc + lp)" and lc: "lc \<le> 8"
    and Q: "\<And>r u. packet_ok n s u \<Longrightarrow> Q r u"
  shows "lz_wp (process_bit0 prob lc (2 ^ lp - 1)) Q t"
  unfolding process_bit0_def wp_bind
proof (rule wp_update_bit_0 [OF _ _ t], goal_cases)
  case (3 u)
  note inv_u = step_inv [OF assms(1) 3]
  let ?lit = "1846 + 768 * (push_bit lc (get_pos (lz_wr u) AND (2 ^ lp - 1)) + drop_bit (8 - lc) (unat (previous_byte (lz_wr u))))"
  have ix: "?lit + 768 \<le> length (lz_p u)"
    using literal_index [OF lc and_mask_less, of "unat (previous_byte (lz_wr u))" "get_pos (lz_wr u)" lp]
      unsigned_less [of "previous_byte (lz_wr u)"] inv_u n by (simp add: lz_inv_def)
  have ru: "rc_inv u" and st: "cs_state (lz_cst u) < 12"
    using inv_u by (auto simp: lz_inv_def)
  have tail: "lz_wp (lit_loop ?lit 8 mi) (\<lambda>mi'. lz_wp (upd_cst (\<lambda>c. c\<lparr>cs_state := literal_state (cs_state c)\<rparr>))
      (\<lambda>_. lz_wp (write_byte (word_of_nat mi')) Q)) v" if v: "rc_weak u v" and mi: "1 \<le> mi" for v mi
  proof (rule wp_lit_loop)
    show "rc_inv v" "?lit + 256 \<le> length (lz_p v)" "256 \<le> mi * 2 ^ 8"
      using rc_weak_inv [OF v] rc_reads(5) [OF v] ix mi by simp_all
    fix r w assume "rc_weak v w"
    then have "rc_weak u w"
      using v by (blast intro: rc_weak_trans)
    then have a: "lz_adv u w"
      using st by (rule weak_adv)
    show "lz_wp (upd_cst (\<lambda>c. c\<lparr>cs_state := literal_state (cs_state c)\<rparr>)) (\<lambda>_. lz_wp (write_byte (word_of_nat r)) Q) w"
      by (rule wp_cst_adv [OF a], simp add: literal_state_less, rule wp_write_byte, rule Q, rule packet_okI [OF assms(1) 3])
  qed
  have "lz_wp (match_loop ?lit 8 mb 1) (\<lambda>mi. lz_wp (lit_loop ?lit 8 mi) (\<lambda>mi'. lz_wp
      (upd_cst (\<lambda>c. c\<lparr>cs_state := literal_state (cs_state c)\<rparr>)) (\<lambda>_. lz_wp (write_byte (word_of_nat mi')) Q))) u" for mb
    by (rule wp_match_loop [OF ru ix]) (simp, simp, rule tail)
  then show ?case
    unfolding wp_get by (intro wp_ifI) (simp_all only: wp_bind wp_return wp_peek tail [OF rc_weak_refl [OF ru]] le_refl)
qed (use assms(1,2) in \<open>auto simp: lz_inv_def\<close>)

lemma wp_round:
  assumes "lz_inv n s" and n: "n = 1846 + 768 * 2 ^ (lc + lp)" and lc: "lc \<le> 8" and pb: "pb \<le> 4"
  shows "lz_wp (unlzma_round lc (2 ^ pb - 1) (2 ^ lp - 1)) (\<lambda>_. packet_ok n s) s"
proof -
  let ?ps = "get_pos (lz_wr s) AND (2 ^ pb - 1)"
  have "?ps < 2 ^ pb"
    by (rule and_mask_less)
  also have "(2::nat) ^ pb \<le> 2 ^ 4"
    using pb by (intro power_increasing) auto
  finally have ps: "?ps < 16"
    by simp
  let ?i = "0 + push_bit 4 (cs_state (lz_cst s)) + ?ps"
  have i: "?i < 1846"
    using assms(1) ps by (simp add: lz_inv_def push_bit_eq_mult)
  have corrupt: "lz_wp (\<lambda>s. Inl Corrupt) Q t" for Q :: "bool \<Rightarrow> lz \<Rightarrow> bool" and t
    by (simp add: lz_wp_def)
  show ?thesis
    unfolding unlzma_round_def wp_bind wp_get
  proof (rule wp_is_bit_0, goal_cases)
    case (3 z t)
    have "lz_wp (process_bit0 ?i lc (2 ^ lp - 1)) (\<lambda>r. lz_wp (if r \<noteq> 0 then \<lambda>s. Inl Corrupt else lz_return False)
        (\<lambda>_. packet_ok n s)) t"
      by (rule wp_process_bit0 [OF assms(1) i 3 n lc]) (rule wp_ifI; simp add: corrupt)
    moreover have "lz_wp (process_bit1 ?ps ?i) (\<lambda>r. lz_wp (if r \<noteq> 0 then \<lambda>s. Inl Corrupt
        else lz_get (\<lambda>s. rep0 (lz_cst s) = 0)) (\<lambda>_. packet_ok n s)) t"
      by (rule wp_process_bit1 [OF assms(1) i ps 3]) (rule wp_ifI; simp add: corrupt)
    ultimately show ?case
      by (intro wp_ifI) (simp_all only: wp_bind)
  qed (use assms(1) i in \<open>auto simp: lz_inv_def\<close>)
qed

section \<open>The main loop\<close>

definition loop_ok :: "nat \<Rightarrow> lz \<Rightarrow> lz_error + lz \<Rightarrow> bool" where
  "loop_ok n s r \<longleftrightarrow> (case r of Inl e \<Rightarrow> \<forall>i. e \<noteq> Bad_prob i
     | Inr s' \<Rightarrow> lz_inv n s' \<and> lz_header s' = lz_header s
         \<and> (dst_size (lz_header s) < 2 ^ 32 \<longrightarrow> out_ok s \<longrightarrow> out_ok s'))"

lemma unlzma_loop_ok:
  assumes "lz_inv n s" and n: "n = 1846 + 768 * 2 ^ (lc + lp)" and lc: "lc \<le> 8" and pb: "pb \<le> 4"
  shows "\<exists>r. unlzma_loop lc (2 ^ pb - 1) (2 ^ lp - 1) s = Some r \<and> loop_ok n s r"
  using assms(1)
proof (induction "lz_measure s" arbitrary: s rule: less_induct)
  case less
  note W = wp_round [OF less.prems n lc pb]
  show ?case
  proof (cases "get_pos (lz_wr s) < dst_size (lz_header s)")
    case False
    then have "unlzma_loop lc (2 ^ pb - 1) (2 ^ lp - 1) s = Some (Inr s)"
      by (subst unlzma_loop.simps) simp
    then show ?thesis
      using less.prems by (simp add: loop_ok_def)
  next
    case True
    show ?thesis
    proof (cases "unlzma_round lc (2 ^ pb - 1) (2 ^ lp - 1) s")
      case (Inl e)
      then have "unlzma_loop lc (2 ^ pb - 1) (2 ^ lp - 1) s = Some (Inl e)"
        using True by (subst unlzma_loop.simps) simp
      then show ?thesis
        using wp_Inl [OF W Inl] by (simp add: loop_ok_def)
    next
      case (Inr x)
      obtain fin s' where x: "x = (fin, s')"
        by fastforce
      have p: "packet_ok n s s'"
        using wp_Inr [OF W] Inr x by blast
      have u: "unlzma_loop lc (2 ^ pb - 1) (2 ^ lp - 1) s =
          (if fin then Some (Inr s') else unlzma_loop lc (2 ^ pb - 1) (2 ^ lp - 1) s')"
        using True Inr x by (subst unlzma_loop.simps) simp
      have out: "dst_size (lz_header s) < 2 ^ 32 \<longrightarrow> out_ok s \<longrightarrow> out_ok s'"
      proof (intro impI)
        assume d: "dst_size (lz_header s) < 2 ^ 32" and o: "out_ok s"
        then have "buffer_pos (lz_wr s) < 2 ^ 32"
          by (simp add: out_ok_def)
        then have "get_pos (lz_wr s) = buffer_pos (lz_wr s)"
          using o by (simp add: get_pos_def out_ok_def)
        then have "out_open s"
          using o True by (simp add: out_open_def)
        then show "out_ok s'"
          using p by (simp add: packet_ok_def)
      qed
      show ?thesis
      proof (cases fin)
        case True
        then show ?thesis
          using u p out by (simp add: loop_ok_def packet_ok_def)
      next
        case False
        obtain r where "unlzma_loop lc (2 ^ pb - 1) (2 ^ lp - 1) s' = Some r" "loop_ok n s' r"
          using less.hyps [of s'] p by (auto simp: packet_ok_def)
        then show ?thesis
          using u False p out by (auto simp: loop_ok_def packet_ok_def split: sum.splits)
      qed
    qed
  qed
qed

end
