(* ===== verification/Lzma_Props.thy ===== *)
theory Lzma_Props
  imports Lzma_Packets
begin

text \<open>
  The properties of the LZMA decoder: it always ends, it never leaves its array of probabilities, it
  never writes past the size the header announces, and a match copies what it should.
\<close>

section \<open>Header and start\<close>

lemma split_digit_eq: "d \<noteq> 0 \<Longrightarrow> split_digit d q x = (q + x div d, x mod d)"
proof (induction d q x rule: split_digit.induct)
  case (1 d q x)
  then show ?case
    by (subst split_digit.simps) (auto simp: le_div_geq le_mod_geq not_le)
qed

lemma rc_byte_inv:
  assumes "rc_frame s t" and "lz_p t = lz_p s" and "rc_range (lz_rc t) = rc_range (lz_rc s)" and "rc_inv s"
  shows "rc_inv t"
  using assms by (simp add: rc_inv_def)

lemma wp_read_header:
  assumes "rc_inv s" and "\<And>h t. rc_inv t \<Longrightarrow> rc_frame s t \<Longrightarrow> length h = n \<Longrightarrow> Q h t"
  shows "lz_wp (read_header n) Q s"
  using assms
proof (induction n arbitrary: s Q)
  case (Suc n)
  show ?case
    unfolding read_header.simps wp_bind wp_return
    by (rule wp_rc_byte, rule Suc.IH) (auto intro: rc_byte_inv Suc.prems rc_frame_trans)
qed (simp add: rc_frame_refl)

lemma wp_init_code:
  assumes "rc_inv s" and "\<And>t. rc_inv t \<Longrightarrow> rc_frame s t \<Longrightarrow> Q () t"
  shows "lz_wp (rc_init_code n) Q s"
  using assms
proof (induction n arbitrary: s)
  case (Suc n)
  show ?case
    unfolding rc_init_code.simps rc_shift_code_def wp_bind wp_upd
  proof (rule wp_rc_byte, rule Suc.IH, goal_cases)
    case (1 b t)
    then show ?case
      using Suc.prems(1) by (simp add: rc_inv_def)
  next
    case (2 b t u)
    then show ?case
      by (intro Suc.prems(2)) (simp_all add: rc_frame_def)
  qed
qed (simp add: rc_frame_refl)

definition decoded_ok :: "(lz_error + int \<times> lz) option \<Rightarrow> bool" where
  "decoded_ok r \<longleftrightarrow> (\<exists>e. r = Some (Inl e) \<and> (\<forall>i. e \<noteq> Bad_prob i))
     \<or> (\<exists>ret s. r = Some (Inr (ret, s)) \<and> ret \<in> {0, -1}
          \<and> (dst_size (lz_header s) < 2 ^ 32 \<longrightarrow> buffer_pos (lz_wr s) \<le> dst_size (lz_header s)))"

lemma unlzma_ok: "decoded_ok (unlzma buf fill None output below have_probs)"
proof -
  let ?s = "lz_start buf fill None output below"
  have inv0: "rc_inv ?s"
    by (simp add: rc_inv_def lz_start_def rc_init_def)
  have H: "lz_wp (read_header 13) (\<lambda>h t. rc_inv t \<and> rc_frame ?s t \<and> length h = 13) ?s"
    by (rule wp_read_header [OF inv0]) simp
  show ?thesis
  proof (cases "read_header 13 ?s")
    case (Inl e)
    then show ?thesis
      using wp_Inl [OF H Inl] by (simp add: unlzma_def decoded_ok_def)
  next
    case (Inr x)
    obtain h s where x: "x = (h, s)"
      by fastforce
    have hs: "rc_inv s" "rc_frame ?s s"
      using wp_Inr [OF H] Inr x by blast+
    define pos where "pos = unat (h ! 0)"
    define lc lp pb where "lc = pos mod 9" and "lp = pos div 9 mod 5" and "pb = pos div 9 div 5"
    let ?s1 = "set_header h s"
    let ?s2 = "?s1\<lparr>lz_p := replicate (1846 + push_bit (lc + lp) 768) 1024\<rparr>"
    have eq: "unlzma buf fill None output below have_probs =
      (if 225 \<le> pos then Some (Inl Bad_header)
       else if \<not> have_probs then Some (Inr (-1, ?s1))
       else case rc_init_code 5 ?s2 of Inl e \<Rightarrow> Some (Inl e)
         | Inr (_, s2) \<Rightarrow> (case unlzma_loop lc (2 ^ pb - 1) (2 ^ lp - 1) s2 of None \<Rightarrow> None
             | Some (Inl e) \<Rightarrow> Some (Inl e)
             | Some (Inr s3) \<Rightarrow> Some (Inr (0, s3\<lparr>lz_wr := (lz_wr s3)\<lparr>wr_flushed :=
                 (case wr_flush (lz_wr s3) of None \<Rightarrow> []
                  | Some _ \<Rightarrow> wr_flushed (lz_wr s3) @ map (wr_buffer (lz_wr s3)) [0..<buffer_pos (lz_wr s3)])\<rparr>\<rparr>))))"
      unfolding unlzma_def Inr x lc_def lp_def pb_def pos_def by (simp add: split_digit_eq Let_def)
    have out1: "out_ok ?s1"
      using hs(2) by (simp add: out_ok_def set_header_def Let_def rc_frame_def lz_start_def)
    have n: "1846 + push_bit (lc + lp) 768 = 1846 + 768 * 2 ^ (lc + lp)"
      by (simp add: push_bit_eq_mult)
    have "rc_inv ?s2"
      using hs(1) by (auto simp: rc_inv_def set_header_def Let_def)
    then have C: "lz_wp (rc_init_code 5) (\<lambda>_ t. rc_inv t \<and> rc_frame ?s2 t) ?s2"
      by (rule wp_init_code) simp
    show ?thesis
    proof (cases "225 \<le> pos \<or> \<not> have_probs")
      case True
      then show ?thesis
        unfolding eq using out1 by (auto simp: decoded_ok_def out_ok_def)
    next
      case False
      show ?thesis
      proof (cases "rc_init_code 5 ?s2")
        case (Inl e)
        then show ?thesis
          unfolding eq using False wp_Inl [OF C Inl] by (simp add: decoded_ok_def)
      next
        case (Inr y)
        obtain s2 where y: "y = ((), s2)"
          by (cases y) simp
        have s2: "rc_inv s2" "rc_frame ?s2 s2"
          using wp_Inr [OF C] Inr y by blast+
        have "cs_state (lz_cst s2) = 0"
          using s2(2) hs(2) by (simp add: rc_frame_def set_header_def Let_def lz_start_def)
        then have inv: "lz_inv (1846 + push_bit (lc + lp) 768) s2"
          using s2 by (simp add: lz_inv_def rc_frame_def)
        have "pos div 9 \<le> 224 div 9"
          using False by (intro div_le_mono) simp
        then have "pb \<le> 24 div 5"
          unfolding pb_def by (intro div_le_mono) simp
        then have pb: "pb \<le> 4"
          by simp
        have lc: "lc \<le> 8"
          unfolding lc_def by (simp add: less_Suc_eq_le [symmetric])
        obtain r where r: "unlzma_loop lc (2 ^ pb - 1) (2 ^ lp - 1) s2 = Some r" "loop_ok (1846 + push_bit (lc + lp) 768) s2 r"
          using unlzma_loop_ok [OF inv n lc pb] by blast
        have "out_ok s2"
          using out1 s2(2) by (simp add: out_ok_def rc_frame_def)
        then show ?thesis
          unfolding eq using False Inr y r by (auto simp: decoded_ok_def loop_ok_def out_ok_def split: sum.splits)
      qed
    qed
  qed
qed

lemma lz_message_errors: "(\<forall>i. e \<noteq> Bad_prob i) \<longleftrightarrow> e \<in> {Unexpected_EOF, Bad_header, Corrupt}"
  by (cases e) auto

section \<open>Copying a match\<close>

lemma peek_offs_small: "offs \<le> dict \<Longrightarrow> peek_offs dict offs = offs"
  by (subst peek_offs.simps) simp

definition put_byte :: "u8 \<Rightarrow> lz \<Rightarrow> lz" where
  "put_byte b s = s\<lparr>lz_wr := (lz_wr s)\<lparr>wr_buffer := (wr_buffer (lz_wr s))(buffer_pos (lz_wr s) := b),
     previous_byte := b, buffer_pos := buffer_pos (lz_wr s) + 1\<rparr>\<rparr>"

lemma copy_byte_eq:
  assumes "wr_flush (lz_wr s) = None" and "rep \<le> buffer_pos (lz_wr s)" and "rep \<le> dict_size (lz_header s)"
  shows "copy_byte rep s = Inr (0, put_byte (wr_buffer (lz_wr s) (buffer_pos (lz_wr s) - rep)) s)"
  using assms by (simp add: copy_byte_def lz_bind_def peek_old_byte_def write_byte_def Let_def peek_offs_small
      put_byte_def of_nat_diff [symmetric] del: of_nat_diff)

lemma put_byte_reads [simp]:
  "buffer_pos (lz_wr (put_byte b s)) = buffer_pos (lz_wr s) + 1" "lz_header (put_byte b s) = lz_header s"
  "wr_flush (lz_wr (put_byte b s)) = wr_flush (lz_wr s)" "lz_rc (put_byte b s) = lz_rc s"
  "lz_cst (put_byte b s) = lz_cst s"
  "wr_buffer (lz_wr (put_byte b s)) = (wr_buffer (lz_wr s))(buffer_pos (lz_wr s) := b)"
  by (simp_all add: put_byte_def)

definition match_copied :: "nat \<Rightarrow> nat \<Rightarrow> lz \<Rightarrow> lz \<Rightarrow> bool" where
  "match_copied rep n s s' \<longleftrightarrow>
     (let pos = buffer_pos (lz_wr s) in
      buffer_pos (lz_wr s') = pos + n
      \<and> (\<forall>j < pos. wr_buffer (lz_wr s') j = wr_buffer (lz_wr s) j)
      \<and> (\<forall>j \<in> {pos..<pos + n}. wr_buffer (lz_wr s') j = wr_buffer (lz_wr s') (j - rep))
      \<and> lz_rc s' = lz_rc s \<and> lz_cst s' = lz_cst s \<and> lz_header s' = lz_header s)"

lemma match_copied_step:
  assumes "1 \<le> rep" and "rep \<le> buffer_pos (lz_wr s)"
    and "match_copied rep n (put_byte (wr_buffer (lz_wr s) (buffer_pos (lz_wr s) - rep)) s) s'"
  shows "match_copied rep (Suc n) s s'"
proof -
  let ?pos = "buffer_pos (lz_wr s)" and ?b = "wr_buffer (lz_wr s')"
  let ?t = "put_byte (wr_buffer (lz_wr s) (?pos - rep)) s"
  have old: "?b j = wr_buffer (lz_wr ?t) j" if "j < Suc ?pos" for j
    using assms(3) that by (simp add: match_copied_def Let_def)
  have new: "?b j = ?b (j - rep)" if "j \<in> {Suc ?pos..<Suc (?pos + n)}" for j
    using assms(3) that by (simp add: match_copied_def Let_def)
  have "?b j = ?b (j - rep)" if "j \<in> {?pos..<?pos + Suc n}" for j
    using that assms(1,2) old [of j] old [of "j - rep"] new [of j] by (cases "j = ?pos") auto
  moreover have "?b j = wr_buffer (lz_wr s) j" if "j < ?pos" for j
    using that old [of j] by simp
  ultimately show ?thesis
    using assms(3) by (simp add: match_copied_def Let_def)
qed

lemma copy_bytes_eq:
  assumes "wr_flush (lz_wr s) = None" and "1 \<le> rep" "rep \<le> buffer_pos (lz_wr s)" and "rep \<le> dict_size (lz_header s)"
    and "buffer_pos (lz_wr s) + Suc n \<le> dst_size (lz_header s)"
  shows "\<exists>s'. copy_bytes rep n s = Inr (0, s') \<and> match_copied rep (Suc n) s s'"
  using assms
proof (induction n arbitrary: s)
  case 0
  let ?t = "put_byte (wr_buffer (lz_wr s) (buffer_pos (lz_wr s) - rep)) s"
  have "match_copied rep 0 ?t ?t"
    by (simp add: match_copied_def Let_def)
  then have "match_copied rep (Suc 0) s ?t"
    by (rule match_copied_step [OF "0.prems"(2,3)])
  then show ?case
    using copy_byte_eq [OF "0.prems"(1,3,4)] by (simp add: lz_bind_def lz_return_def)
next
  case (Suc n)
  let ?t = "put_byte (wr_buffer (lz_wr s) (buffer_pos (lz_wr s) - rep)) s"
  obtain s' where "copy_bytes rep n ?t = Inr (0, s')" "match_copied rep (Suc n) ?t s'"
    using Suc.IH [of ?t] Suc.prems by auto
  then show ?case
    using copy_byte_eq [OF Suc.prems(1,3,4)] Suc.prems(5) match_copied_step [OF Suc.prems(2,3)]
    by (simp add: lz_bind_def lz_get_def)
qed

section \<open>Properties\<close>

text \<open>
  C5. Decompressing ends on every input: whatever the bytes are, and whatever the memory below the output buffer holds, \<open>do_decompress\<close> either
  halts with one of its three messages or returns 0 or -1, because every decoded bit consumes input or narrows the range. It never
  reads or writes a probability outside the array that \<open>unlzma\<close> allocated, and when it returns it has
  written no more than the size the header announces (for sizes below \<open>2 ^ 32\<close>).
\<close>

theorem do_decompress_ends:
  "(\<exists>e. do_decompress input output below have_probs = Some (Inl e) \<and> e \<in> {Unexpected_EOF, Bad_header, Corrupt})
   \<or> (\<exists>ret s. do_decompress input output below have_probs = Some (Inr (ret, s)) \<and> ret \<in> {0, -1}
        \<and> (dst_size (lz_header s) < 2 ^ 32 \<longrightarrow> buffer_pos (lz_wr s) \<le> dst_size (lz_header s)))"
  using unlzma_ok [of "take (length input - 4) input" "[]" "output" below have_probs]
  unfolding do_decompress_def decompress_def decoded_ok_def lz_message_errors .

theorem do_decompress_ends_witness:
  "\<exists>r. do_decompress [0, 0, 0] (\<lambda>_. 0) (\<lambda>_ _. 0) True = Some r"
  using do_decompress_ends [of "[0, 0, 0]" "\<lambda>_. 0" "\<lambda>_ _. 0" True] by blast

text \<open>
  A match copies from the output already written: with a distance within the output and the
  dictionary and room for the whole match, \<open>copy_bytes\<close> succeeds, appends exactly the length of the match, keeps
  all earlier bytes, and every new byte equals the byte one distance before it, also when source
  and destination overlap.
\<close>

theorem copy_bytes_repeats:
  assumes "wr_flush (lz_wr s) = None" and "1 \<le> rep" "rep \<le> buffer_pos (lz_wr s)" and "rep \<le> dict_size (lz_header s)"
    and "buffer_pos (lz_wr s) + Suc n \<le> dst_size (lz_header s)"
  shows "\<exists>s'. copy_bytes rep n s = Inr (0, s') \<and> buffer_pos (lz_wr s') = buffer_pos (lz_wr s) + Suc n
    \<and> (\<forall>j < buffer_pos (lz_wr s). wr_buffer (lz_wr s') j = wr_buffer (lz_wr s) j)
    \<and> (\<forall>j \<in> {buffer_pos (lz_wr s)..<buffer_pos (lz_wr s) + Suc n}.
          wr_buffer (lz_wr s') j = wr_buffer (lz_wr s') (j - rep))"
  using copy_bytes_eq [OF assms] unfolding match_copied_def Let_def by blast

definition lz_ex :: lz where
  "lz_ex = (lz_start [] [] None (\<lambda>_. 7) (\<lambda>_ _. 0))\<lparr>lz_header := \<lparr>h_pos = 0, dict_size = 16, dst_size = 8\<rparr>,
     lz_wr := (lz_wr (lz_start [] [] None (\<lambda>_. 7) (\<lambda>_ _. 0)))\<lparr>buffer_pos := 2\<rparr>\<rparr>"

theorem copy_bytes_repeats_witness:
  "\<exists>s'. copy_bytes 2 3 lz_ex = Inr (0, s') \<and> buffer_pos (lz_wr s') = 6"
  using copy_bytes_repeats [of lz_ex 2 3] by (auto simp: lz_ex_def lz_start_def)

section \<open>Repeated distances are not checked\<close>

lemmas lz_run = lz_bind_def lz_return_def lz_get_def lz_upd_def upd_rc_def upd_cst_def upd_wr_def

lemma rc_byte_next:
  "rc_ptr (lz_rc s) < length (rc_buffer (lz_rc s)) \<Longrightarrow>
   rc_byte s = Inr (rc_buffer (lz_rc s) ! rc_ptr (lz_rc s), s\<lparr>lz_rc := (lz_rc s)\<lparr>rc_ptr := rc_ptr (lz_rc s) + 1\<rparr>\<rparr>)"
  by (simp add: rc_byte_def lz_run)

lemma read_header_prefix:
  "rc_ptr (lz_rc s) + n \<le> length (rc_buffer (lz_rc s)) \<Longrightarrow>
   read_header n s = Inr (take n (drop (rc_ptr (lz_rc s)) (rc_buffer (lz_rc s))),
      s\<lparr>lz_rc := (lz_rc s)\<lparr>rc_ptr := rc_ptr (lz_rc s) + n\<rparr>\<rparr>)"
proof (induction n arbitrary: s)
  case (Suc n)
  then show ?case
    by (simp add: rc_byte_next lz_run Cons_nth_drop_Suc [symmetric])
qed (simp add: lz_run)

lemma rc_shift_code_next:
  "rc_ptr (lz_rc s) < length (rc_buffer (lz_rc s)) \<Longrightarrow>
   rc_shift_code s = Inr ((), s\<lparr>lz_rc := (lz_rc s)\<lparr>rc_ptr := rc_ptr (lz_rc s) + 1,
     rc_code := (rc_code (lz_rc s) * 2 ^ 8) mod 2 ^ 32 OR unat (rc_buffer (lz_rc s) ! rc_ptr (lz_rc s))\<rparr>\<rparr>)"
  by (simp add: rc_shift_code_def rc_byte_next lz_run)

lemma rc_init_code_bytes:
  "rc_ptr (lz_rc s) + n \<le> length (rc_buffer (lz_rc s)) \<Longrightarrow>
   rc_init_code n s = Inr ((), s\<lparr>lz_rc := (lz_rc s)\<lparr>rc_ptr := rc_ptr (lz_rc s) + n,
     rc_code := foldl (\<lambda>c b. (c * 2 ^ 8) mod 2 ^ 32 OR unat b) (rc_code (lz_rc s))
        (take n (drop (rc_ptr (lz_rc s)) (rc_buffer (lz_rc s))))\<rparr>\<rparr>)"
proof (induction n arbitrary: s)
  case (Suc n)
  then show ?case
    by (simp add: rc_shift_code_next lz_run Cons_nth_drop_Suc [symmetric])
qed (simp add: lz_run)

text \<open>A stream whose first packet repeats one byte at the initial distance 1.\<close>

definition short_rep_stream :: "u8 list" where
  "short_rep_stream = [0, 1, 0, 0, 0, 1, 0, 0, 0, 0, 0, 0, 0] @ [0, 0xBF, 0xFF, 0xFC, 0] @ [1, 0, 0, 0]"

lemma short_rep_bytes: "take (length short_rep_stream - 4) short_rep_stream =
   [0, 1, 0, 0, 0, 1, 0, 0, 0, 0, 0, 0, 0, 0, 0xBF, 0xFF, 0xFC, 0]"
  by (simp add: short_rep_stream_def)

definition short_rep_start :: "(nat \<Rightarrow> u8) \<Rightarrow> (nat \<Rightarrow> nat \<Rightarrow> u8) \<Rightarrow> lz" where
  "short_rep_start out below =
   (lz_start (take (length short_rep_stream - 4) short_rep_stream) [] None out below)
     \<lparr>lz_rc := (rc_init (take (length short_rep_stream - 4) short_rep_stream) [])\<lparr>rc_ptr := 18, rc_code := 0xBFFFFC00\<rparr>,
      lz_p := replicate (1846 + 768) 1024, lz_header := \<lparr>h_pos = 0, dict_size = 1, dst_size = 1\<rparr>\<rparr>"

lemma short_rep_round:
  "\<exists>s. unlzma_round 0 0 0 (short_rep_start out below) = Inr (False, s) \<and> buffer_pos (lz_wr s) = 1 \<and> global_pos (lz_wr s) = 0
    \<and> wr_flush (lz_wr s) = None \<and> wr_buffer (lz_wr s) 0 = below 0 1 \<and> dst_size (lz_header s) = 1"
  by (simp add: short_rep_start_def lz_start_def rc_init_def lz_run unlzma_round_def get_pos_def rc_is_bit_0_def rc_is_bit_0_helper_def
   rc_normalize_def get_prob_def upd_prob_def rc_update_bit_1_def rc_update_bit_0_def process_bit1_def match_kind_def rep_packet_def rc_bit_def
   copy_byte_def peek_old_byte_def peek_offs.simps write_byte_def nth_list_update drop_bit_eq_div push_bit_eq_mult Let_def)

lemma short_rep_loop:
  "\<exists>s. unlzma_loop 0 0 0 (short_rep_start out below) = Some (Inr s) \<and> buffer_pos (lz_wr s) = 1
    \<and> wr_flush (lz_wr s) = None \<and> wr_buffer (lz_wr s) 0 = below 0 1"
proof -
  obtain s where s: "unlzma_round 0 0 0 (short_rep_start out below) = Inr (False, s)" "buffer_pos (lz_wr s) = 1"
    "global_pos (lz_wr s) = 0" "wr_flush (lz_wr s) = None" "wr_buffer (lz_wr s) 0 = below 0 1" "dst_size (lz_header s) = 1"
    using short_rep_round by blast
  have "unlzma_loop 0 0 0 s = Some (Inr s)"
    by (subst unlzma_loop.simps) (simp add: s get_pos_def)
  moreover have "get_pos (lz_wr (short_rep_start out below)) < dst_size (lz_header (short_rep_start out below))"
    by (simp add: short_rep_start_def lz_start_def get_pos_def)
  ultimately have "unlzma_loop 0 0 0 (short_rep_start out below) = Some (Inr s)"
    by (subst unlzma_loop.simps) (simp add: s(1))
  then show ?thesis
    using s by blast
qed

text \<open>
  The distance of a repeated match is not compared with the bytes written so far. This stream, which starts with a
  one-byte repeat, passes the header checks, and the decoder returns success with the byte from below the output buffer
  as the first byte of the kernel.
\<close>

theorem short_rep_reads_below:
  "\<exists>s. do_decompress short_rep_stream out below True = Some (Inr (0, s)) \<and> buffer_pos (lz_wr s) = 1
    \<and> wr_buffer (lz_wr s) 0 = below 0 1"
proof -
  have h: "read_header 13 (lz_start (take (length short_rep_stream - 4) short_rep_stream) [] None out below)
    = Inr ([0, 1, 0, 0, 0, 1, 0, 0, 0, 0, 0, 0, 0], (lz_start (take (length short_rep_stream - 4) short_rep_stream) [] None out below)
        \<lparr>lz_rc := (rc_init (take (length short_rep_stream - 4) short_rep_stream) [])\<lparr>rc_ptr := 13\<rparr>\<rparr>)"
    by (subst read_header_prefix) (simp_all add: short_rep_bytes lz_start_def rc_init_def)
  show ?thesis
    unfolding do_decompress_def decompress_def unlzma_def h
    using short_rep_loop [of out below]
    by (auto simp: split_digit.simps set_header_def read_int_def short_rep_start_def short_rep_bytes
        lz_start_def rc_init_def rc_init_code_bytes)
qed

end
