(* ===== verification/Boot_Misc.thy ===== *)
theory Boot_Misc
  imports Lzma_Props
begin

text \<open>
  The boot loader's own routines (arch/arm/boot/compressed/misc.c): the debug channel, the console, \<open>memcpy\<close>,
  \<open>error\<close> and \<open>decompress_kernel\<close>.

  Memory is a function from addresses to bytes. The console is the sequence of the characters given
  to \<open>putc\<close>. \<open>get_unaligned_le32\<close> and the allocator behind \<open>large_malloc\<close> are not part of the repository: the
  first is a parameter, the second the flag \<open>have_probs\<close> of the decoder.
\<close>

section \<open>The debug channel\<close>

text \<open>The three variants of \<open>icedcc_putc\<close> differ in the bit of the status that says the channel is busy.\<close>

datatype icedcc_cpu = CPU_V6 | CPU_XSCALE | CPU_OTHER

fun icedcc_busy :: "icedcc_cpu \<Rightarrow> u32 \<Rightarrow> bool" where
  "icedcc_busy CPU_V6 status = (status AND 2 ^ 29 \<noteq> 0)"
| "icedcc_busy CPU_XSCALE status = (status AND 2 ^ 28 \<noteq> 0)"
| "icedcc_busy CPU_OTHER status = (status AND 2 \<noteq> 0)"

text \<open>
  The polling loop with its counter \<open>i\<close>; \<open>status n\<close> is what the \<open>n\<close>-th read of the status register gives. The
  result is the character sent and the number of reads, or \<open>None\<close> when it gives up.
\<close>

fun icedcc_loop :: "icedcc_cpu \<Rightarrow> (nat \<Rightarrow> u32) \<Rightarrow> nat \<Rightarrow> nat \<Rightarrow> nat option" where
  "icedcc_loop cpu status 0 n = None"
| "icedcc_loop cpu status (Suc i) n =
     (if icedcc_busy cpu (status n) then icedcc_loop cpu status i (n + 1) else Some (n + 1))"

definition icedcc_putc :: "icedcc_cpu \<Rightarrow> (nat \<Rightarrow> u32) \<Rightarrow> char \<Rightarrow> (char \<times> nat) option" where
  "icedcc_putc cpu status ch = map_option (\<lambda>n. (ch, n)) (icedcc_loop cpu status 0x4000000 0)"

section \<open>The console\<close>

fun putstr :: "string \<Rightarrow> string \<Rightarrow> string" where
  "putstr [] con = con"
| "putstr (c # ptr) con =
     (if c = CHR 0x00 then con
      else putstr ptr ((if c = CHR 0x0A then con @ [CHR 0x0D] else con) @ [c]))"

text \<open>\<open>error\<close> prints and then loops forever: the console it leaves is all that can be observed.\<close>

definition halt_text :: "string \<Rightarrow> string \<Rightarrow> string" where
  "halt_text x con = putstr (CHR 0x0A # CHR 0x0A # '' -- System halted'') (putstr x (putstr [CHR 0x0A, CHR 0x0A] con))"

definition uu_div0 :: "string \<Rightarrow> string" where
  "uu_div0 con = halt_text ''Attempting division by 0!'' con"

section \<open>memcpy\<close>

text \<open>\<open>*d++ = *s++\<close>, on memory and the two pointers.\<close>

definition copy_next :: "(nat \<Rightarrow> u8) \<times> nat \<times> nat \<Rightarrow> (nat \<Rightarrow> u8) \<times> nat \<times> nat" where
  "copy_next st = (case st of (mem, d, s) \<Rightarrow> (mem(d := mem s), d + 1, s + 1))"

fun memcpy_loop :: "nat \<Rightarrow> (nat \<Rightarrow> u8) \<times> nat \<times> nat \<Rightarrow> (nat \<Rightarrow> u8) \<times> nat \<times> nat" where
  "memcpy_loop 0 st = st"
| "memcpy_loop (Suc i) st =
     memcpy_loop i (copy_next (copy_next (copy_next (copy_next (copy_next (copy_next (copy_next (copy_next st))))))))"

definition memcpy :: "nat \<Rightarrow> nat \<Rightarrow> nat \<Rightarrow> (nat \<Rightarrow> u8) \<Rightarrow> nat \<times> (nat \<Rightarrow> u8)" where
  "memcpy dest src n mem =
     (let st1 = memcpy_loop (drop_bit 3 n) (mem, dest, src);
          st2 = (if n AND push_bit 2 1 \<noteq> 0 then copy_next (copy_next (copy_next (copy_next st1))) else st1);
          st3 = (if n AND push_bit 1 1 \<noteq> 0 then copy_next (copy_next st2) else st2);
          st4 = (if n AND 1 \<noteq> 0 then copy_next st3 else st3)
      in (dest, fst st4))"

section \<open>decompress_kernel\<close>

definition lz_message :: "lz_error \<Rightarrow> string option" where
  "lz_message e =
     (case e of
        Unexpected_EOF \<Rightarrow> Some ''unexpected EOF''
      | Bad_header \<Rightarrow> Some ''bad header''
      | Corrupt \<Rightarrow> Some ''LZMA data is corrupt''
      | Bad_prob _ \<Rightarrow> None)"

text \<open>
  How a boot ends: halted by \<open>error\<close> with a console text, gone out of bounds in the decoder, or back from
  \<open>decompress_kernel\<close> with its return value, the decoder's final state and the console text.
\<close>

datatype boot = Halted string | Wild lz_error | Booted u32 lz string

definition decompress_kernel ::
  "(u8 list \<Rightarrow> u32) \<Rightarrow> u8 list \<Rightarrow> (nat \<Rightarrow> u8) \<Rightarrow> (nat \<Rightarrow> nat \<Rightarrow> u8) \<Rightarrow> bool \<Rightarrow> boot option" where
  "decompress_kernel get_unaligned_le32 input_data output_data below have_probs =
     (let output_ptr = get_unaligned_le32 (drop (length input_data - 4) input_data);
          con = putstr ''Uncompressing Linux...'' []
      in case do_decompress input_data output_data below have_probs of
           None \<Rightarrow> None
         | Some (Inl e) \<Rightarrow>
             Some (case lz_message e of None \<Rightarrow> Wild e | Some x \<Rightarrow> Halted (halt_text x con))
         | Some (Inr (ret, s)) \<Rightarrow>
             Some (Booted output_ptr s (putstr ('' done, booting the kernel.'' @ [CHR 0x0A]) con)))"

section \<open>The copy loop\<close>

definition copied :: "nat \<Rightarrow> nat \<Rightarrow> nat \<Rightarrow> (nat \<Rightarrow> u8) \<Rightarrow> nat \<Rightarrow> u8" where
  "copied dest src n mem a = (if dest \<le> a \<and> a < dest + n then mem (src + (a - dest)) else mem a)"

lemma copy_next_pow:
  assumes "dest \<le> src \<or> src + n \<le> dest" and "k \<le> n"
  shows "(copy_next ^^ k) (mem, dest, src) = (copied dest src k mem, dest + k, src + k)"
  using assms(2)
proof (induction k)
  case 0
  show ?case
    by (auto simp: copied_def intro!: ext)
next
  case (Suc k)
  then show ?case
    using assms(1) by (auto simp: copy_next_def copied_def fun_eq_iff less_Suc_eq)
qed

lemma memcpy_loop_pow: "memcpy_loop i st = (copy_next ^^ (8 * i)) st"
proof (induction i arbitrary: st)
  case (Suc i)
  have "(copy_next ^^ (8 * Suc i)) st = (copy_next ^^ (8 * i)) ((copy_next ^^ 8) st)"
    using funpow_add [of "8 * i" 8 copy_next, THEN fun_cong, of st] by (simp add: add.commute)
  then show ?case
    using Suc by (simp add: eval_nat_numeral)
qed simp

lemma tail_steps:
  "(if n AND push_bit 2 1 \<noteq> 0 then copy_next (copy_next (copy_next (copy_next st))) else st)
     = (copy_next ^^ (4 * (n div 4 mod 2))) st"
  "(if n AND push_bit 1 1 \<noteq> 0 then copy_next (copy_next st) else st) = (copy_next ^^ (2 * (n div 2 mod 2))) st"
  "(if n AND 1 \<noteq> 0 then copy_next st else st) = (copy_next ^^ (n mod 2)) st" for n :: nat
proof -
  have p4: "(copy_next ^^ 4) st = copy_next (copy_next (copy_next (copy_next st)))"
    and p2: "(copy_next ^^ 2) st = copy_next (copy_next st)"
    by (simp_all add: eval_nat_numeral)
  have bits: "n AND push_bit k 1 \<noteq> 0 \<longleftrightarrow> odd (n div 2 ^ k)" for k
    using bit_iff_and_push_bit_not_eq_0 [of n k] by (simp add: bit_iff_odd)
  show "(if n AND push_bit 2 1 \<noteq> 0 then copy_next (copy_next (copy_next (copy_next st))) else st)
     = (copy_next ^^ (4 * (n div 4 mod 2))) st"
    using bits [of 2] by (cases "odd (n div 4)") (simp_all add: p4 odd_iff_mod_2_eq_one)
  show "(if n AND push_bit 1 1 \<noteq> 0 then copy_next (copy_next st) else st) = (copy_next ^^ (2 * (n div 2 mod 2))) st"
    using bits [of 1] by (cases "odd (n div 2)") (simp_all add: p2 odd_iff_mod_2_eq_one)
  show "(if n AND 1 \<noteq> 0 then copy_next st else st) = (copy_next ^^ (n mod 2)) st"
    using bits [of 0] by (cases "odd n") (simp_all add: odd_iff_mod_2_eq_one)
qed

lemma memcpy_pow: "memcpy dest src n mem = (dest, fst ((copy_next ^^ n) (mem, dest, src)))"
proof -
  have "n = n mod 2 + 2 * (n div 2)" and "n div 2 = n div 2 mod 2 + 2 * (n div 4)"
    and "n div 4 = n div 4 mod 2 + 2 * (n div 8)"
    using div_mult2_eq [of n 2 2] div_mult2_eq [of n 4 2] by simp_all
  then have split: "n = n mod 2 + (2 * (n div 2 mod 2) + (4 * (n div 4 mod 2) + 8 * (n div 8)))"
    by linarith
  have "fst ((copy_next ^^ n) (mem, dest, src)) = fst ((copy_next ^^ (n mod 2 + (2 * (n div 2 mod 2) + (4 * (n div 4 mod 2) + 8 * (n div 8))))) (mem, dest, src))"
    using split by simp
  then show ?thesis
    unfolding memcpy_def Let_def tail_steps memcpy_loop_pow funpow_add
    by (simp add: drop_bit_eq_div)
qed

text \<open>
  C30. The unrolled \<open>memcpy\<close> equals the plain copy: for regions that do not overlap, or that overlap
  with the destination below the source, it returns the destination, every byte of the destination
  is the old byte of the source, and the rest of memory is unchanged, for every length.
\<close>

theorem memcpy_copies:
  assumes "dest \<le> src \<or> src + n \<le> dest"
  shows "memcpy dest src n mem =
    (dest, \<lambda>a. if dest \<le> a \<and> a < dest + n then mem (src + (a - dest)) else mem a)"
  using copy_next_pow [OF assms order_refl] by (simp add: memcpy_pow copied_def fun_eq_iff)

theorem memcpy_copies_witness:
  "memcpy 100 200 13 (\<lambda>a. word_of_nat a) =
    (100, \<lambda>a. if 100 \<le> a \<and> a < 113 then word_of_nat (a + 100) else word_of_nat a)"
  using memcpy_copies [of 100 200 13 "\<lambda>a. word_of_nat a"] by (auto simp: fun_eq_iff add.commute)

section \<open>The console\<close>

lemma putstr_eq:
  "CHR 0x00 \<notin> set x \<Longrightarrow>
   putstr x con = con @ concat (map (\<lambda>c. if c = CHR 0x0A then [CHR 0x0D, CHR 0x0A] else [c]) x)"
  by (induction x arbitrary: con) auto

lemma icedcc_loop_eq:
  "icedcc_loop cpu status i n =
     (if \<exists>k<i. \<not> icedcc_busy cpu (status (n + k))
      then Some (n + 1 + (LEAST k. \<not> icedcc_busy cpu (status (n + k)))) else None)"
proof (induction i arbitrary: n)
  case (Suc i)
  show ?case
  proof (cases "icedcc_busy cpu (status n)")
    case True
    have "(\<exists>k<Suc i. \<not> icedcc_busy cpu (status (n + k))) \<longleftrightarrow> (\<exists>k<i. \<not> icedcc_busy cpu (status (Suc n + k)))"
      using True by (auto simp: Ex_less_Suc2)
    moreover have "(LEAST k. \<not> icedcc_busy cpu (status (n + k))) = Suc (LEAST k. \<not> icedcc_busy cpu (status (Suc n + k)))"
      if "\<not> icedcc_busy cpu (status (Suc n + k))" for k
      using Least_Suc [of "\<lambda>k. \<not> icedcc_busy cpu (status (n + k))" "Suc k"] that True by simp
    ultimately show ?thesis
      using Suc [of "n + 1"] True by auto
  next
    case False
    then show ?thesis
      by (auto intro!: Least_equality [symmetric])
  qed
qed simp

text \<open>
  The debug channel always gives the processor back: \<open>icedcc_putc\<close> sends the character at the
  first status read that is not busy when there is one among the first \<open>0x4000000\<close>, and drops it otherwise.
\<close>

theorem icedcc_putc_sends:
  "icedcc_putc cpu status ch =
    (if \<exists>k<0x4000000. \<not> icedcc_busy cpu (status k)
     then Some (ch, Suc (LEAST k. \<not> icedcc_busy cpu (status k))) else None)"
  unfolding icedcc_putc_def icedcc_loop_eq by (simp only: add_0 if_distrib [where f = "map_option _"] option.map) simp

section \<open>Booting\<close>

definition crlf :: string where
  "crlf = [CHR 0x0D, CHR 0x0A]"

lemma halt_text_eq:
  "lz_message e = Some x \<Longrightarrow> halt_text x con = con @ crlf @ crlf @ x @ crlf @ crlf @ '' -- System halted''"
  by (auto simp: lz_message_def halt_text_def crlf_def split: lz_error.splits)

text \<open>
  Every boot ends in one of two ways. It halts after printing one of the decoder's three messages
  between blank lines; or it returns the four trailing bytes of the image as the size, having
  printed exactly the two progress messages with their line end expanded.
\<close>

theorem decompress_kernel_ends:
  "\<exists>r. decompress_kernel get_unaligned_le32 input_data output_data below have_probs = Some r \<and>
    (case r of
       Halted con \<Rightarrow> \<exists>x \<in> {''unexpected EOF'', ''bad header'', ''LZMA data is corrupt''}.
         con = ''Uncompressing Linux...'' @ crlf @ crlf @ x @ crlf @ crlf @ '' -- System halted''
     | Wild e \<Rightarrow> False
     | Booted ptr s con \<Rightarrow> ptr = get_unaligned_le32 (drop (length input_data - 4) input_data)
         \<and> con = ''Uncompressing Linux... done, booting the kernel.'' @ crlf)"
proof -
  have con: "putstr ''Uncompressing Linux...'' [] = ''Uncompressing Linux...''"
    and fin: "putstr ('' done, booting the kernel.'' @ [CHR 0x0A]) ''Uncompressing Linux...''
      = ''Uncompressing Linux... done, booting the kernel.'' @ crlf"
    by (simp_all add: crlf_def)
  have d: "decoded_ok (do_decompress input_data output_data below have_probs)"
    unfolding do_decompress_def decompress_def by (rule unlzma_ok)
  then consider (err) e where "do_decompress input_data output_data below have_probs = Some (Inl e)" "\<forall>i. e \<noteq> Bad_prob i"
    | (ok) ret s where "do_decompress input_data output_data below have_probs = Some (Inr (ret, s))"
    unfolding decoded_ok_def by blast
  then show ?thesis
  proof cases
    case err
    then show ?thesis
      by (cases e) (simp_all add: decompress_kernel_def con halt_text_eq [of e] lz_message_def)
  next
    case ok
    have "decompress_kernel get_unaligned_le32 input_data output_data below have_probs =
        Some (Booted (get_unaligned_le32 (drop (length input_data - 4) input_data)) s
          (''Uncompressing Linux... done, booting the kernel.'' @ crlf))"
      unfolding decompress_kernel_def Let_def ok con fin by simp
    then show ?thesis
      by simp
  qed
qed

end
