(* ===== verification/Telnetd.thy ===== *)
theory Telnetd
  imports Kd_Prelude
begin

text \<open>
  The telnet server (module/serial_daemon/telnetd.c) in standalone mode: the two circular buffers of a
  session, the removal and the doubling of IAC bytes, the list of sessions and one round of the
  main loop.

  The fields \<open>rdidxN\<close>, \<open>wridxN\<close>, \<open>sizeN\<close> and the buffer \<open>TS_BUFN\<close> form one record. System calls are parameters:
  a read or a write returns what the operating system gives it. Each session carries
  a log of the bytes it exchanged, which the code does not look at. Inetd mode, where the process
  exits with its only session, and the child side of \<open>vfork\<close> are left out.
\<close>

section \<open>Circular buffers\<close>

text \<open>\<open>sizeof(struct tsession)\<close> is 44 with 32-bit pointers.\<close>

definition BUFSIZE :: nat where
  "BUFSIZE = (4 * 1024 - 44) div 2"

record ring =
  rb_buf :: "u8 list"
  rdidx :: nat
  wridx :: nat
  rb_size :: nat

definition buf_store :: "nat \<Rightarrow> u8 list \<Rightarrow> u8 list \<Rightarrow> u8 list" where
  "buf_store off data buf = take off buf @ data @ drop (off + length data) buf"

definition ring_room :: "ring \<Rightarrow> nat" where
  "ring_room r = min (BUFSIZE - rdidx r) (BUFSIZE - rb_size r)"

definition ring_run :: "ring \<Rightarrow> nat" where
  "ring_run r = min (BUFSIZE - wridx r) (rb_size r)"

definition ring_front :: "ring \<Rightarrow> u8 list" where
  "ring_front r = take (ring_run r) (drop (wridx r) (rb_buf r))"

text \<open>The bytes in \<open>got\<close> were read into the buffer; the first \<open>count\<close> of them are kept.\<close>

definition ring_put :: "u8 list \<Rightarrow> nat \<Rightarrow> ring \<Rightarrow> ring" where
  "ring_put got count r =
     (let rd = rdidx r + count
      in r\<lparr>rb_buf := buf_store (rdidx r) got (rb_buf r), rb_size := rb_size r + count,
           rdidx := (if rd \<ge> BUFSIZE then 0 else rd)\<rparr>)"

definition ring_drop :: "nat \<Rightarrow> ring \<Rightarrow> ring" where
  "ring_drop count r =
     (let wr = wridx r + count
      in r\<lparr>rb_size := rb_size r - count, wridx := (if wr \<ge> BUFSIZE then 0 else wr)\<rparr>)"

definition ring_reset :: "ring \<Rightarrow> ring" where
  "ring_reset r = (if rb_size r = 0 then r\<lparr>rdidx := 0, wridx := 0\<rparr> else r)"

section \<open>Removing IAC sequences\<close>

abbreviation (input) "IAC \<equiv> (255 :: u8)"
abbreviation (input) "DO \<equiv> (253 :: u8)"
abbreviation (input) "WILL \<equiv> (251 :: u8)"
abbreviation (input) "SB \<equiv> (250 :: u8)"
abbreviation (input) "NOP \<equiv> (241 :: u8)"
abbreviation (input) "TELOPT_ECHO \<equiv> (1 :: u8)"
abbreviation (input) "TELOPT_SGA \<equiv> (3 :: u8)"
abbreviation (input) "TELOPT_NAWS \<equiv> (31 :: u8)"
abbreviation (input) "CR \<equiv> (13 :: u8)"
abbreviation (input) "LF \<equiv> (10 :: u8)"

type_synonym winsize = "nat \<times> nat"

definition naws_size :: "u8 list \<Rightarrow> nat \<Rightarrow> winsize" where
  "naws_size buf ptr =
     (push_bit 8 (unat (buf ! (ptr + 3))) OR unat (buf ! (ptr + 4)),
      push_bit 8 (unat (buf ! (ptr + 5))) OR unat (buf ! (ptr + 6)))"

function iacs_loop ::
  "nat \<Rightarrow> u8 list \<Rightarrow> nat \<Rightarrow> nat \<Rightarrow> winsize list \<Rightarrow> u8 list \<times> nat \<times> nat \<times> winsize list" where
  "iacs_loop stop buf ptr totty ws =
     (if ptr < stop then
        if buf ! ptr \<noteq> IAC then
          let c = buf ! ptr; buf' = buf[totty := c]
          in if c = CR \<and> ptr + 1 < stop \<and> (buf' ! (ptr + 1) = LF \<or> buf' ! (ptr + 1) = 0)
             then iacs_loop stop buf' (ptr + 2) (totty + 1) ws
             else iacs_loop stop buf' (ptr + 1) (totty + 1) ws
        else if ptr + 1 \<ge> stop then (buf, ptr, totty, ws)
        else if buf ! (ptr + 1) = NOP then iacs_loop stop buf (ptr + 2) totty ws
        else if buf ! (ptr + 1) = IAC
          then iacs_loop stop (buf[totty := buf ! (ptr + 1)]) (ptr + 2) (totty + 1) ws
        else if ptr + 2 \<ge> stop then (buf, ptr, totty, ws)
        else if buf ! (ptr + 1) = SB \<and> buf ! (ptr + 2) = TELOPT_NAWS then
          if ptr + 8 \<ge> stop then (buf, ptr, totty, ws)
          else iacs_loop stop buf (ptr + 9) totty (ws @ [naws_size buf ptr])
        else iacs_loop stop buf (ptr + 3) totty ws
      else (buf, ptr, totty, ws))"
  by pat_completeness auto
termination
  by (relation "measure (\<lambda>(stop, buf, ptr, totty, ws). stop - ptr)") (auto simp: Let_def)

declare iacs_loop.simps [simp del]

text \<open>
  The result is the start of the characters meant for the terminal, their number, the buffer
  after the move and the window sizes that were set on the terminal.
\<close>

definition remove_iacs :: "ring \<Rightarrow> nat \<times> nat \<times> ring \<times> winsize list" where
  "remove_iacs r =
     (let ptr0 = wridx r
      in case iacs_loop (ptr0 + ring_run r) (rb_buf r) ptr0 ptr0 [] of (buf, ptr, totty, ws) \<Rightarrow>
        let num_totty = totty - ptr0
        in if ptr - totty = 0 then (ptr0, num_totty, r\<lparr>rb_buf := buf\<rparr>, ws)
           else (ptr - num_totty, num_totty,
                 r\<lparr>wridx := wridx r + (ptr - totty), rb_size := rb_size r - (ptr - totty),
                   rb_buf := buf_store (ptr - num_totty) (take num_totty (drop ptr0 buf)) buf\<rparr>, ws))"

section \<open>Doubling IAC on output\<close>

text \<open>The result of a write: the count, or -1 with \<open>errno\<close> \<open>EAGAIN\<close> or another error.\<close>

datatype io = Count nat | Again | Fail

text \<open>What \<open>n\<close> of \<open>count\<close> bytes written means for the wire.\<close>

fun io_bytes :: "io \<Rightarrow> u8 list \<Rightarrow> u8 list" where
  "io_bytes (Count n) data = take n data"
| "io_bytes Again data = []"
| "io_bytes Fail data = []"

fun short_write :: "nat \<Rightarrow> io \<Rightarrow> io" where
  "short_write tot (Count rc) = Count (tot + rc)"
| "short_write tot rc = (if tot = 0 then rc else Count tot)"

text \<open>\<open>safe_write k data\<close> is the result of the \<open>k\<close>-th call. The second component is what went out.\<close>

function iac_write_loop ::
  "(nat \<Rightarrow> u8 list \<Rightarrow> io) \<Rightarrow> nat \<Rightarrow> u8 list \<Rightarrow> nat \<Rightarrow> u8 list \<Rightarrow> io \<times> u8 list" where
  "iac_write_loop safe_write k buf tot wire =
     (if buf = [] then (Count tot, wire)
      else if hd buf = IAC then
        let rc = safe_write k [IAC, IAC]; wire' = wire @ io_bytes rc [IAC, IAC]
        in if rc \<noteq> Count 2 then (short_write tot rc, wire')
           else iac_write_loop safe_write (k + 1) (tl buf) (tot + 1) wire'
      else
        let wr = takeWhile (\<lambda>b. b \<noteq> IAC) buf; rc = safe_write k wr; wire' = wire @ io_bytes rc wr
        in if rc \<noteq> Count (length wr) then (short_write tot rc, wire')
           else iac_write_loop safe_write (k + 1) (drop (length wr) buf) (tot + length wr) wire')"
  by pat_completeness auto
termination
  by (relation "measure (\<lambda>(sw, k, buf, tot, wire). length buf)")
    (auto simp: length_greater_0_conv takeWhile_eq_Nil_iff neq_Nil_conv intro!: diff_less)

declare iac_write_loop.simps [simp del]

definition iac_safe_write :: "(nat \<Rightarrow> u8 list \<Rightarrow> io) \<Rightarrow> u8 list \<Rightarrow> io \<times> u8 list" where
  "iac_safe_write safe_write buf = iac_write_loop safe_write 0 buf 0 []"

section \<open>Sessions\<close>

text \<open>What was written to the socket, by origin: the option negotiation, the terminal, the kernel's log.\<close>

datatype chunk = Hello "u8 list" | From_pty "u8 list" | From_kernel "u8 list"

text \<open>\<open>ts_addr\<close> is the address of the structure. The last five fields are the log.\<close>

record tsession =
  ts_addr :: nat
  shell_pid :: int
  sockfd_read :: nat
  sockfd_write :: nat
  ptyfd :: nat
  ring1 :: ring
  ring2 :: ring
  to_pty :: "u8 list"
  winsizes :: "winsize list"
  to_sock :: "chunk list"
  from_sock :: "u8 list"
  from_pty :: "u8 list"

record globals =
  sessions :: "tsession list"
  maxfd :: nat
  maxclients :: nat
  dead_utmp :: "int list"

definition new_session_is_allowed :: "globals \<Rightarrow> bool" where
  "new_session_is_allowed g \<longleftrightarrow> \<not> (length (sessions g) \<ge> maxclients g)"

definition get_session :: "nat \<Rightarrow> globals \<Rightarrow> tsession option" where
  "get_session a g = find (\<lambda>t. ts_addr t = a) (sessions g)"

definition put_session :: "tsession \<Rightarrow> globals \<Rightarrow> globals" where
  "put_session ts g = g\<lparr>sessions := map (\<lambda>t. if ts_addr t = ts_addr ts then ts else t) (sessions g)\<rparr>"

definition raise_maxfd :: "nat \<Rightarrow> globals \<Rightarrow> globals" where
  "raise_maxfd fd g = (if fd > maxfd g then g\<lparr>maxfd := fd\<rparr> else g)"

definition empty_ring :: ring where
  "empty_ring = \<lparr>rb_buf = replicate BUFSIZE 0, rdidx = 0, wridx = 0, rb_size = 0\<rparr>"

definition iacs_to_send :: "u8 list" where
  "iacs_to_send = [IAC, DO, TELOPT_ECHO, IAC, DO, TELOPT_NAWS, IAC, WILL, TELOPT_ECHO, IAC, WILL, TELOPT_SGA]"

text \<open>The parent's side: \<open>fd\<close> is the terminal that \<open>xgetpty\<close> opened, \<open>pid\<close> the result of \<open>vfork\<close>.\<close>

definition make_new_session :: "nat \<Rightarrow> nat \<Rightarrow> nat \<Rightarrow> int \<Rightarrow> globals \<Rightarrow> tsession option \<times> globals" where
  "make_new_session addr sock fd pid g =
     (let wsock = (if sock = 0 then sock + 1 else sock);
          g1 = raise_maxfd wsock (raise_maxfd fd g);
          ts = \<lparr>ts_addr = addr, shell_pid = pid, sockfd_read = sock, sockfd_write = wsock, ptyfd = fd,
                ring1 = empty_ring, ring2 = empty_ring, to_pty = [], winsizes = [],
                to_sock = [Hello iacs_to_send], from_sock = [], from_pty = []\<rparr>
      in if pid < 0 then (None, g1) else (Some ts, g1))"

fun scan_maxfd :: "nat \<Rightarrow> tsession list \<Rightarrow> nat" where
  "scan_maxfd m [] = m"
| "scan_maxfd m (ts # tss) =
     (let m1 = (if m < ptyfd ts then ptyfd ts else m);
          m2 = (if m1 < sockfd_read ts then sockfd_read ts else m1)
      in scan_maxfd m2 tss)"

definition free_session :: "nat \<Rightarrow> globals \<Rightarrow> globals" where
  "free_session a g =
     (let tss = filter (\<lambda>t. ts_addr t \<noteq> a) (sessions g)
      in g\<lparr>sessions := tss, maxfd := scan_maxfd 0 tss\<rparr>)"

fun mark_dead :: "int \<Rightarrow> tsession list \<Rightarrow> tsession list" where
  "mark_dead pid [] = []"
| "mark_dead pid (ts # tss) =
     (if shell_pid ts = pid then ts\<lparr>shell_pid := -1\<rparr> # tss else ts # mark_dead pid tss)"

text \<open>The list holds the results of \<open>wait_any_nohang\<close>; the loop ends at the first that is not a process.\<close>

fun handle_sigchld :: "int list \<Rightarrow> globals \<Rightarrow> globals" where
  "handle_sigchld [] g = g"
| "handle_sigchld (pid # pids) g =
     (if pid \<le> 0 then g
      else handle_sigchld pids
        (if \<exists>ts \<in> set (sessions g). shell_pid ts = pid
         then g\<lparr>sessions := mark_dead pid (sessions g), dead_utmp := dead_utmp g @ [pid]\<rparr> else g))"

section \<open>Kernel messages\<close>

abbreviation (input) "MAX_MSGSIZE \<equiv> (4096 :: nat)"

text \<open>The result of \<open>recvmsg\<close>; a message carries its length in \<open>nlmsg_flags\<close>.\<close>

datatype netlink = Nl_error | Nl_closed | Nl_msg nat "u8 list"

definition log_sock :: "chunk \<Rightarrow> tsession \<Rightarrow> tsession" where
  "log_sock c ts = ts\<lparr>to_sock := to_sock ts @ [c]\<rparr>"

text \<open>
  The message is received into a zeroed block with room for \<open>MAX_MSGSIZE\<close> bytes of data. The length it carries is not compared with the size of
  the block: \<open>beyond\<close> is the memory behind it.
\<close>

definition nl_data :: "(nat \<Rightarrow> u8) \<Rightarrow> nat \<Rightarrow> u8 list \<Rightarrow> u8 list" where
  "nl_data beyond msg_len payload =
     take msg_len (take MAX_MSGSIZE payload @ replicate (MAX_MSGSIZE - length payload) 0)
     @ map beyond [0..<msg_len - MAX_MSGSIZE]"

definition serial_daemon_recvmsg :: "netlink \<Rightarrow> (nat \<Rightarrow> u8) \<Rightarrow> (nat \<Rightarrow> u8 list \<Rightarrow> io) \<Rightarrow> globals \<Rightarrow> globals" where
  "serial_daemon_recvmsg nl beyond safe_write g =
     (case sessions g of
        [] \<Rightarrow> g
      | ts # tss \<Rightarrow>
          (case nl of
             Nl_error \<Rightarrow> g
           | Nl_closed \<Rightarrow> g
           | Nl_msg msg_len payload \<Rightarrow>
               g\<lparr>sessions := log_sock (From_kernel (snd (iac_safe_write safe_write (nl_data beyond msg_len payload)))) ts # tss\<rparr>))"

section \<open>Moving data\<close>

datatype rd = Got "u8 list" | Rd_again | Rd_fail

text \<open>The results of the system calls made for one session in one round.\<close>

record session_io =
  pty_write :: "u8 list \<Rightarrow> io"
  sock_write :: "nat \<Rightarrow> u8 list \<Rightarrow> io"
  sock_read :: "nat \<Rightarrow> rd"
  pty_read :: "nat \<Rightarrow> rd"
  nl_recv :: netlink
  nl_beyond :: "nat \<Rightarrow> u8"
  nl_write :: "nat \<Rightarrow> u8 list \<Rightarrow> io"

text \<open>\<open>None\<close> is \<open>goto kill_session\<close>; the flag tells whether control passes the netlink check before \<open>skip1\<close>.\<close>

definition tunnel_write_pty :: "bool \<Rightarrow> session_io \<Rightarrow> tsession \<Rightarrow> (bool \<times> tsession) option" where
  "tunnel_write_pty ready sio ts =
     (if ready then
        case remove_iacs (ring1 ts) of (start, num_totty, r, ws) \<Rightarrow>
          let data = take num_totty (drop start (rb_buf r));
              ts1 = ts\<lparr>ring1 := r, winsizes := winsizes ts @ ws\<rparr>
          in case pty_write sio data of
               Count n \<Rightarrow> Some (True, ts1\<lparr>ring1 := ring_drop n r, to_pty := to_pty ts1 @ take n data\<rparr>)
             | Again \<Rightarrow> Some (False, ts1)
             | Fail \<Rightarrow> None
      else Some (True, ts))"

definition tunnel_write_sock :: "bool \<Rightarrow> session_io \<Rightarrow> tsession \<Rightarrow> tsession option" where
  "tunnel_write_sock ready sio ts =
     (if ready then
        case iac_safe_write (sock_write sio) (ring_front (ring2 ts)) of (count, wire) \<Rightarrow>
          let ts1 = log_sock (From_pty wire) ts
          in case count of
               Count n \<Rightarrow> Some (ts1\<lparr>ring2 := ring_drop n (ring2 ts1)\<rparr>)
             | Again \<Rightarrow> Some ts1
             | Fail \<Rightarrow> None
      else Some ts)"

definition tunnel_reset :: "tsession \<Rightarrow> tsession" where
  "tunnel_reset ts = ts\<lparr>ring1 := ring_reset (ring1 ts), ring2 := ring_reset (ring2 ts)\<rparr>"

definition tunnel_read_sock :: "bool \<Rightarrow> session_io \<Rightarrow> tsession \<Rightarrow> tsession option" where
  "tunnel_read_sock ready sio ts =
     (if ready then
        case sock_read sio (ring_room (ring1 ts)) of
          Got d \<Rightarrow>
            if d = [] then None
            else let count = (if last d = 0 then length d - 1 else length d)
                 in Some (ts\<lparr>ring1 := ring_put d count (ring1 ts), from_sock := from_sock ts @ d\<rparr>)
        | Rd_again \<Rightarrow> Some ts
        | Rd_fail \<Rightarrow> None
      else Some ts)"

definition tunnel_read_pty :: "bool \<Rightarrow> session_io \<Rightarrow> tsession \<Rightarrow> tsession option" where
  "tunnel_read_pty ready sio ts =
     (if ready then
        case pty_read sio (ring_room (ring2 ts)) of
          Got d \<Rightarrow>
            if d = [] then None
            else Some (ts\<lparr>ring2 := ring_put d (length d) (ring2 ts), from_pty := from_pty ts @ d\<rparr>)
        | Rd_again \<Rightarrow> Some ts
        | Rd_fail \<Rightarrow> None
      else Some ts)"

text \<open>The part of a session's round after \<open>skip1\<close>.\<close>

definition tunnel_rest :: "nat list \<Rightarrow> nat list \<Rightarrow> session_io \<Rightarrow> tsession \<Rightarrow> tsession option" where
  "tunnel_rest rdfds wrfds sio ts =
     Option.bind (tunnel_write_sock (sockfd_write ts \<in> set wrfds) sio ts) (\<lambda>ts1.
     Option.bind (tunnel_read_sock (sockfd_read ts1 \<in> set rdfds) sio (tunnel_reset ts1)) (\<lambda>ts2.
     tunnel_read_pty (ptyfd ts2 \<in> set rdfds) sio ts2))"

definition kill_session :: "tsession \<Rightarrow> globals \<Rightarrow> globals" where
  "kill_session ts g =
     free_session (ts_addr ts) (if shell_pid ts > 0 then g\<lparr>dead_utmp := dead_utmp g @ [shell_pid ts]\<rparr> else g)"

definition tunnel_one :: "nat \<Rightarrow> nat list \<Rightarrow> nat list \<Rightarrow> (nat \<Rightarrow> session_io) \<Rightarrow> nat \<Rightarrow> globals \<Rightarrow> globals" where
  "tunnel_one netlink_fd rdfds wrfds ios a g =
     (case get_session a g of
        None \<Rightarrow> g
      | Some ts \<Rightarrow>
          (case tunnel_write_pty (ptyfd ts \<in> set wrfds) (ios a) ts of
             None \<Rightarrow> kill_session ts g
           | Some (nl, ts1) \<Rightarrow>
               let g1 = put_session ts1 g;
                   g2 = (if nl \<and> netlink_fd \<in> set rdfds
                         then serial_daemon_recvmsg (nl_recv (ios a)) (nl_beyond (ios a)) (nl_write (ios a)) g1 else g1)
               in case get_session a g2 of
                    None \<Rightarrow> g2
                  | Some ts2 \<Rightarrow>
                      (case tunnel_rest rdfds wrfds (ios a) ts2 of
                         None \<Rightarrow> kill_session ts2 g2
                       | Some ts3 \<Rightarrow> put_session ts3 g2)))"

section \<open>One round of the main loop\<close>

definition prepare_one :: "nat \<Rightarrow> globals \<times> nat list \<times> nat list \<Rightarrow> globals \<times> nat list \<times> nat list" where
  "prepare_one a st =
     (case st of (g, rdfds, wrfds) \<Rightarrow>
        case get_session a g of
          None \<Rightarrow> st
        | Some ts \<Rightarrow>
            if shell_pid ts = -1 then (free_session a g, rdfds, wrfds)
            else (g,
              (if rb_size (ring2 ts) < BUFSIZE then [ptyfd ts] else []) @
              (if rb_size (ring1 ts) < BUFSIZE then [sockfd_read ts] else []) @ rdfds,
              (if rb_size (ring2 ts) > 0 then [sockfd_write ts] else []) @
              (if rb_size (ring1 ts) > 0 then [ptyfd ts] else []) @ wrfds))"

definition prepare_fds :: "nat \<Rightarrow> nat \<Rightarrow> globals \<Rightarrow> globals \<times> nat list \<times> nat list" where
  "prepare_fds master_fd netlink_fd g =
     (case fold prepare_one (map ts_addr (sessions g)) (g, [], []) of (g1, rdfds, wrfds) \<Rightarrow>
        let g2 = raise_maxfd master_fd g1;
            g3 = (if netlink_fd > maxfd g2 then g2\<lparr>maxfd := master_fd\<rparr> else g2)
        in (g3, netlink_fd # master_fd # rdfds, wrfds))"

record round_env =
  sel_count :: int
  sel_rd :: "nat list"
  sel_wr :: "nat list"
  acc_fd :: int
  new_addr :: nat
  new_pty :: nat
  new_pid :: int
  sess_io :: "nat \<Rightarrow> session_io"

text \<open>\<open>None\<close> is \<open>goto again\<close>.\<close>

definition accept_session :: "nat \<Rightarrow> round_env \<Rightarrow> globals \<Rightarrow> globals option" where
  "accept_session master_fd e g =
     (if master_fd \<in> set (sel_rd e) then
        if acc_fd e < 0 then None
        else if \<not> new_session_is_allowed g then None
        else case make_new_session (new_addr e) (nat (acc_fd e)) (new_pty e) (new_pid e) g of
               (Some ts, g1) \<Rightarrow> Some (g1\<lparr>sessions := ts # sessions g1\<rparr>)
             | (None, g1) \<Rightarrow> Some g1
      else Some g)"

text \<open>\<open>Inl\<close> is the return of \<open>telnetd_main\<close>, \<open>Inr\<close> the state at \<open>again\<close>.\<close>

definition telnetd_round :: "nat \<Rightarrow> nat \<Rightarrow> round_env \<Rightarrow> globals \<Rightarrow> int + globals" where
  "telnetd_round master_fd netlink_fd e g =
     (case prepare_fds master_fd netlink_fd g of (g1, _, _) \<Rightarrow>
        if sel_count e = 0 then Inl 0
        else if sel_count e < 0 then Inr g1
        else case accept_session master_fd e g1 of
               None \<Rightarrow> Inr g1
             | Some g2 \<Rightarrow>
                 Inr (fold (tunnel_one netlink_fd (sel_rd e) (sel_wr e) (sess_io e)) (map ts_addr (sessions g2)) g2))"

end
