(* ===== verification/Telnet_Ring.thy ===== *)
theory Telnet_Ring
  imports Telnetd
begin

text \<open>
  The circular buffers of a telnet session refine byte queues: the contract of a queue as a locale, and its
  interpretation on the buffers.
\<close>

section \<open>The contract of a byte queue\<close>

locale byte_queue =
  fixes inv :: "'q \<Rightarrow> bool" and content :: "'q \<Rightarrow> 'a list" and front :: "'q \<Rightarrow> 'a list"
    and room :: "'q \<Rightarrow> nat" and put :: "'a list \<Rightarrow> nat \<Rightarrow> 'q \<Rightarrow> 'q" and remove :: "nat \<Rightarrow> 'q \<Rightarrow> 'q"
    and reset :: "'q \<Rightarrow> 'q"
  assumes front_prefix: "inv q \<Longrightarrow> front q = take (length (front q)) (content q)"
    and front_empty: "inv q \<Longrightarrow> content q = [] \<Longrightarrow> front q = []"
    and inv_put: "inv q \<Longrightarrow> length d \<le> room q \<Longrightarrow> n \<le> length d \<Longrightarrow> inv (put d n q)"
    and content_put: "inv q \<Longrightarrow> length d \<le> room q \<Longrightarrow> n \<le> length d \<Longrightarrow> content (put d n q) = content q @ take n d"
    and inv_remove: "inv q \<Longrightarrow> n \<le> length (front q) \<Longrightarrow> inv (remove n q)"
    and content_remove: "inv q \<Longrightarrow> n \<le> length (front q) \<Longrightarrow> content (remove n q) = drop n (content q)"
    and inv_reset: "inv q \<Longrightarrow> inv (reset q)"
    and content_reset: "inv q \<Longrightarrow> content (reset q) = content q"
begin

lemma take_front:
  assumes "inv q" and "n \<le> length (front q)"
  shows "take n (front q) @ content (remove n q) = content q"
proof -
  have "take n (front q) = take n (content q)"
    using front_prefix [OF assms(1)] assms(2) by (metis min.absorb1 take_take)
  then show ?thesis
    using assms by (simp add: content_remove)
qed

text \<open>Order is kept: what was put in is what was taken out followed by what is left.\<close>

lemma fifo_put:
  assumes "inv q" and "got = sent @ content q" and "length d \<le> room q"
  shows "got @ d = sent @ content (put d (length d) q)"
  using assms by (simp add: content_put)

lemma fifo_remove:
  assumes "inv q" and "got = sent @ content q" and "n \<le> length (front q)"
  shows "got = (sent @ take n (front q)) @ content (remove n q)"
  using assms take_front by simp

end

section \<open>The buffers of a session\<close>

definition ring_bytes :: "ring \<Rightarrow> u8 list" where
  "ring_bytes r = map (\<lambda>i. rb_buf r ! ((wridx r + i) mod BUFSIZE)) [0..<rb_size r]"

definition ring_ok :: "ring \<Rightarrow> bool" where
  "ring_ok r \<longleftrightarrow> length (rb_buf r) = BUFSIZE \<and> wridx r \<le> BUFSIZE \<and> rdidx r < BUFSIZE
     \<and> rb_size r \<le> BUFSIZE \<and> rdidx r = (wridx r + rb_size r) mod BUFSIZE"

lemma bufsize_pos [simp]: "0 < BUFSIZE"
  by (simp add: BUFSIZE_def)

lemma mod_wrap: "x < 2 * b \<Longrightarrow> x mod b = (if x < b then x else x - b)" for x b :: nat
  by (auto simp: le_mod_geq)

lemma length_ring_bytes [simp]: "length (ring_bytes r) = rb_size r"
  by (simp add: ring_bytes_def)

lemma nth_ring_bytes:
  "i < rb_size r \<Longrightarrow> ring_bytes r ! i = rb_buf r ! ((wridx r + i) mod BUFSIZE)"
  by (simp add: ring_bytes_def)

lemma length_buf_store [simp]: "off + length d \<le> length buf \<Longrightarrow> length (buf_store off d buf) = length buf"
  by (simp add: buf_store_def)

lemma nth_buf_store:
  assumes "off + length d \<le> length buf" and "j < length buf"
  shows "buf_store off d buf ! j = (if off \<le> j \<and> j < off + length d then d ! (j - off) else buf ! j)"
  using assms by (auto simp: buf_store_def nth_append)

lemma ring_run_le: "ring_ok r \<Longrightarrow> wridx r + ring_run r \<le> BUFSIZE" and ring_run_size: "ring_run r \<le> rb_size r"
  by (auto simp: ring_ok_def ring_run_def)

lemma length_ring_front [simp]: "ring_ok r \<Longrightarrow> length (ring_front r) = ring_run r"
  using ring_run_le [of r] by (simp add: ring_front_def ring_ok_def)

lemma ring_front_eq:
  assumes "ring_ok r"
  shows "ring_front r = take (ring_run r) (ring_bytes r)"
proof (rule nth_equalityI)
  show "length (ring_front r) = length (take (ring_run r) (ring_bytes r))"
    using assms ring_run_size [of r] by simp
next
  fix i
  assume "i < length (ring_front r)"
  then have i: "i < ring_run r" "wridx r + i < BUFSIZE" "i < rb_size r"
    using assms ring_run_le [of r] ring_run_size [of r] by auto
  then show "ring_front r ! i = take (ring_run r) (ring_bytes r) ! i"
    using assms by (simp add: ring_front_def nth_ring_bytes ring_ok_def)
qed

lemma wrap_index: "wr \<le> BUFSIZE \<Longrightarrow> (if wr \<ge> BUFSIZE then 0 else wr) = wr mod BUFSIZE"
  by (auto simp: le_less)

lemma ring_drop_ok:
  assumes "ring_ok r" and "n \<le> ring_run r"
  shows "ring_ok (ring_drop n r)" and "ring_bytes (ring_drop n r) = drop n (ring_bytes r)"
proof -
  have le: "wridx r + n \<le> BUFSIZE" "n \<le> rb_size r"
    using assms ring_run_le [of r] ring_run_size [of r] by auto
  have eq: "ring_drop n r = r\<lparr>rb_size := rb_size r - n, wridx := (wridx r + n) mod BUFSIZE\<rparr>"
    using wrap_index [OF le(1)] by (simp add: ring_drop_def)
  have "((wridx r + n) mod BUFSIZE + (rb_size r - n)) mod BUFSIZE = (wridx r + rb_size r) mod BUFSIZE"
    using le(2) mod_add_left_eq [of "wridx r + n" BUFSIZE "rb_size r - n"] by (simp del: mod_add_left_eq)
  then show "ring_ok (ring_drop n r)"
    using assms(1) le by (simp add: eq ring_ok_def less_imp_le) linarith
  show "ring_bytes (ring_drop n r) = drop n (ring_bytes r)"
    using le by (auto simp: eq nth_ring_bytes mod_simps add.assoc intro!: nth_equalityI)
qed

lemma ring_room_le:
  assumes "ring_ok r" and "n \<le> ring_room r"
  shows "rdidx r + n \<le> BUFSIZE" and "rb_size r + n \<le> BUFSIZE"
proof -
  have "rdidx r \<le> BUFSIZE" and "rb_size r \<le> BUFSIZE"
    using assms(1) unfolding ring_ok_def by linarith+
  then show "rdidx r + n \<le> BUFSIZE" and "rb_size r + n \<le> BUFSIZE"
    using assms(2) unfolding ring_room_def by linarith+
qed

lemma ring_put_index:
  assumes "ring_ok r" and "i < rb_size r" and "k < ring_room r"
  shows "(wridx r + i) mod BUFSIZE \<noteq> rdidx r + k"
proof -
  let ?s = "wridx r + rb_size r"
  have le: "wridx r \<le> BUFSIZE" "rb_size r \<le> BUFSIZE" "rdidx r = ?s mod BUFSIZE" "rb_size r + k < BUFSIZE"
    "rdidx r + k < BUFSIZE"
    using assms by (auto simp: ring_ok_def ring_room_def)
  have s: "?s < 2 * BUFSIZE"
    using le assms(2) by linarith
  have i: "wridx r + i < 2 * BUFSIZE"
    using s assms(2) by linarith
  show ?thesis
    using le assms(2) unfolding mod_wrap [OF i] le(3) mod_wrap [OF s] by (auto split: if_splits)
qed

lemma ring_put_new_index:
  assumes "ring_ok r" and "k < ring_room r"
  shows "(wridx r + (rb_size r + k)) mod BUFSIZE = rdidx r + k"
proof -
  have "(wridx r + (rb_size r + k)) mod BUFSIZE = (rdidx r + k) mod BUFSIZE"
    using assms by (simp add: ring_ok_def mod_simps add.assoc)
  also have "\<dots> = rdidx r + k"
    using ring_room_le(1) [OF assms(1), of "Suc k"] assms(2) by (intro mod_less) linarith
  finally show ?thesis .
qed

lemma ring_put_ok:
  assumes "ring_ok r" and "length d \<le> ring_room r" and "n \<le> length d"
  shows "ring_ok (ring_put d n r)" and "ring_bytes (ring_put d n r) = ring_bytes r @ take n d"
proof -
  have le: "rdidx r + n \<le> BUFSIZE" "rb_size r + n \<le> BUFSIZE" and fits: "rdidx r + length d \<le> length (rb_buf r)"
    using ring_room_le [OF assms(1), of n] ring_room_le(1) [OF assms(1,2)] assms by (simp_all add: ring_ok_def)
  have eq: "ring_put d n r = r\<lparr>rb_buf := buf_store (rdidx r) d (rb_buf r), rb_size := rb_size r + n,
      rdidx := (rdidx r + n) mod BUFSIZE\<rparr>"
    using wrap_index [OF le(1)] by (simp add: ring_put_def)
  show "ring_ok (ring_put d n r)"
    using assms(1) le fits by (auto simp: eq ring_ok_def mod_simps add.assoc)
  show "ring_bytes (ring_put d n r) = ring_bytes r @ take n d"
  proof (rule nth_equalityI)
    show "length (ring_bytes (ring_put d n r)) = length (ring_bytes r @ take n d)"
      using assms(3) by (simp add: eq)
  next
    fix i
    assume "i < length (ring_bytes (ring_put d n r))"
    then have i: "i < rb_size r + n"
      by (simp add: eq)
    let ?j = "(wridx r + i) mod BUFSIZE"
    have j: "?j < length (rb_buf r)"
      using assms(1) by (simp add: ring_ok_def)
    have nth: "ring_bytes (ring_put d n r) ! i = buf_store (rdidx r) d (rb_buf r) ! ?j"
      using i by (simp add: eq nth_ring_bytes)
    show "ring_bytes (ring_put d n r) ! i = (ring_bytes r @ take n d) ! i"
    proof (cases "i < rb_size r")
      case True
      have "\<not> (rdidx r \<le> ?j \<and> ?j < rdidx r + length d)"
        using ring_put_index [OF assms(1) True, of "?j - rdidx r"] assms(2) by (cases "?j - rdidx r < ring_room r") auto
      then show ?thesis
        using True nth nth_buf_store [OF fits j] by (auto simp: nth_append nth_ring_bytes)
    next
      case False
      have ij: "?j = rdidx r + (i - rb_size r)"
        using ring_put_new_index [OF assms(1), of "i - rb_size r"] False i assms(2,3) by simp
      have "buf_store (rdidx r) d (rb_buf r) ! ?j = d ! (i - rb_size r)"
        using False i assms(3) ij nth_buf_store [OF fits j] by auto
      then show ?thesis
        unfolding nth using False i by (simp add: nth_append)
    qed
  qed
qed

lemma ring_reset_ok: "ring_ok r \<Longrightarrow> ring_ok (ring_reset r)" "ring_bytes (ring_reset r) = ring_bytes r"
  by (auto simp: ring_reset_def ring_ok_def ring_bytes_def)

lemma empty_ring_ok [simp]: "ring_ok empty_ring" "ring_bytes empty_ring = []"
  by (simp_all add: empty_ring_def ring_ok_def ring_bytes_def)

interpretation rq: byte_queue ring_ok ring_bytes ring_front ring_room ring_put ring_drop ring_reset
proof unfold_locales
  show "ring_front q = []" if "ring_ok q" "ring_bytes q = []" for q
    using that by (simp add: ring_front_eq)
  show "ring_front q = take (length (ring_front q)) (ring_bytes q)" if "ring_ok q" for q
    using that by (simp only: length_ring_front ring_front_eq [symmetric])
qed (simp_all add: ring_put_ok ring_drop_ok ring_reset_ok)

end
