(* ===== verification/Telnet_Iac.thy ===== *)
theory Telnet_Iac
  imports Telnet_Ring
begin

text \<open>
  IAC handling of the telnet server: the removal in place computes the same as a filter on lists,
  and output with doubled IAC bytes is what that filter undoes.
\<close>

section \<open>The filter\<close>

text \<open>
  The next item of the input: the characters it stands for and its length, or \<open>None\<close> at the end or
  before a sequence that is not complete.
\<close>

definition iac_item :: "u8 list \<Rightarrow> (u8 list \<times> nat) option" where
  "iac_item xs =
     (if xs = [] then None
      else if xs ! 0 \<noteq> IAC then
        Some ([xs ! 0], if xs ! 0 = CR \<and> 1 < length xs \<and> (xs ! 1 = LF \<or> xs ! 1 = 0) then 2 else 1)
      else if length xs \<le> 1 then None
      else if xs ! 1 = NOP then Some ([], 2)
      else if xs ! 1 = IAC then Some ([IAC], 2)
      else if length xs \<le> 2 then None
      else if xs ! 1 = SB \<and> xs ! 2 = TELOPT_NAWS then (if length xs \<le> 8 then None else Some ([], 9))
      else Some ([], 3))"

lemma iac_item_bounds:
  assumes "iac_item xs = Some (e, n)"
  shows "0 < n" and "length e \<le> n" and "n \<le> length xs" and "length e \<le> 1"
proof -
  have len: "xs \<noteq> [] \<Longrightarrow> 1 \<le> length xs"
    by (cases xs) auto
  show "0 < n" and "length e \<le> n" and "length e \<le> 1"
    using assms by (auto simp: iac_item_def split: if_splits)
  show "n \<le> length xs"
    using assms len by (auto simp: iac_item_def split: if_splits)
qed

text \<open>The characters for the terminal and the number of bytes consumed.\<close>

function iac_filter :: "u8 list \<Rightarrow> u8 list \<times> nat" where
  "iac_filter xs =
     (case iac_item xs of
        None \<Rightarrow> ([], 0)
      | Some (e, n) \<Rightarrow> (case iac_filter (drop n xs) of (out, k) \<Rightarrow> (e @ out, n + k)))"
  by pat_completeness auto
termination
proof (relation "measure length", goal_cases)
  case (2 xs p e n)
  then have "iac_item xs = Some (e, n)"
    by simp
  from iac_item_bounds(1,3) [OF this] show ?case
    by simp
qed simp

declare iac_filter.simps [simp del]

lemma iac_filter_None: "iac_item xs = None \<Longrightarrow> iac_filter xs = ([], 0)"
  by (simp add: iac_filter.simps)

lemma iac_filter_Some:
  "iac_item xs = Some (e, n) \<Longrightarrow>
   iac_filter xs = (e @ fst (iac_filter (drop n xs)), n + snd (iac_filter (drop n xs)))"
  by (subst iac_filter.simps) (simp split: prod.splits)

lemma iac_filter_bounds:
  "length (fst (iac_filter xs)) \<le> snd (iac_filter xs) \<and> snd (iac_filter xs) \<le> length xs"
proof (induction xs rule: length_induct)
  case (1 xs)
  show ?case
  proof (cases "iac_item xs")
    case None
    then show ?thesis
      by (simp add: iac_filter_None)
  next
    case (Some p)
    then obtain e n where p: "iac_item xs = Some (e, n)"
      by (cases p) auto
    note b = iac_item_bounds [OF p]
    have "length (drop n xs) < length xs"
      using b by simp
    then show ?thesis
      using "1"[rule_format, of "drop n xs"] b by (simp add: iac_filter_Some [OF p]) linarith
  qed
qed

section \<open>Removal in place\<close>

lemma buf_store_Nil [simp]: "buf_store t [] buf = buf"
  by (simp add: buf_store_def)

lemma buf_store_single: "t < length buf \<Longrightarrow> buf_store t [c] buf = buf[t := c]"
  by (simp add: buf_store_def upd_conv_take_nth_drop)

lemma buf_store_append:
  assumes "t + length e + length out \<le> length buf"
  shows "buf_store (t + length e) out (buf_store t e buf) = buf_store t (e @ out) buf"
  using assms by (simp add: buf_store_def ac_simps)

lemma drop_buf_store: "t + length e \<le> p \<Longrightarrow> p \<le> length buf \<Longrightarrow> drop p (buf_store t e buf) = drop p buf"
  by (simp add: buf_store_def)

lemma iacs_loop_item:
  assumes "ptr \<le> stop" and "stop \<le> length buf" and "totty \<le> ptr"
  shows "iacs_loop stop buf ptr totty ws =
    (case iac_item (take (stop - ptr) (drop ptr buf)) of
       None \<Rightarrow> (buf, ptr, totty, ws)
     | Some (e, n) \<Rightarrow>
         iacs_loop stop (buf_store totty e buf) (ptr + n) (totty + length e)
           (if n = 9 then ws @ [naws_size buf ptr] else ws))"
proof (cases "ptr < stop")
  case True
  let ?xs = "take (stop - ptr) (drop ptr buf)"
  have nth: "?xs ! i = buf ! (ptr + i)" if "ptr + i < stop" for i
    using that assms(2) by simp
  have len: "length ?xs = stop - ptr" "?xs \<noteq> []"
    using assms(2) True by auto
  have x0: "?xs ! 0 = buf ! ptr"
    using nth [of 0] True by simp
  have keep: "buf[totty := c] ! (ptr + 1) = buf ! (ptr + 1)" for c
    using assms(3) by simp
  have st: "buf_store totty [c] buf = buf[totty := c]" for c
    using assms True by (simp add: buf_store_single)
  have in_buf: "\<not> length buf \<le> ptr"
    using True assms(2) by simp
  have x1: "?xs ! 1 = buf ! (ptr + 1)" if "ptr + 1 < stop"
    using nth [OF that] .
  have x2: "?xs ! 2 = buf ! (ptr + 2)" if "ptr + 2 < stop"
    using nth [OF that] .
  have l: "1 < stop - ptr \<longleftrightarrow> ptr + 1 < stop" "stop - ptr \<le> 1 \<longleftrightarrow> ptr + 1 \<ge> stop"
    "stop - ptr \<le> 2 \<longleftrightarrow> ptr + 2 \<ge> stop" "stop - ptr \<le> 8 \<longleftrightarrow> ptr + 8 \<ge> stop"
    by auto
  note unf = iacs_loop.simps [of stop buf ptr totty ws] iac_item_def [of ?xs] len x0 l
  consider "buf ! ptr \<noteq> IAC" "ptr + 1 < stop" | "buf ! ptr \<noteq> IAC" "\<not> ptr + 1 < stop"
    | "buf ! ptr = IAC" "\<not> ptr + 1 < stop"
    | "buf ! ptr = IAC" "ptr + 1 < stop" "\<not> ptr + 2 < stop"
    | "buf ! ptr = IAC" "ptr + 1 < stop" "ptr + 2 < stop"
    by blast
  then show ?thesis
  proof cases
    case 1
    show ?thesis
      unfolding unf x1 [OF 1(2)] using 1 in_buf True st keep by (auto simp: Let_def)
  next
    case 2
    show ?thesis
      unfolding unf using 2 in_buf True st by (simp add: Let_def)
  next
    case 3
    show ?thesis
      unfolding unf using 3 in_buf True by simp
  next
    case 4
    show ?thesis
      unfolding unf x1 [OF 4(2)] using 4 in_buf True st by simp
  next
    case 5
    show ?thesis
      unfolding unf x1 [OF 5(2)] x2 [OF 5(3)] using 5 in_buf True st by simp
  qed
next
  case False
  then show ?thesis
    using assms by (subst iacs_loop.simps) (simp add: iac_item_def)
qed

lemma iacs_loop_eq:
  assumes "ptr \<le> stop" and "stop \<le> length buf" and "totty \<le> ptr"
  shows "\<exists>ws'. iacs_loop stop buf ptr totty ws =
    (let (out, k) = iac_filter (take (stop - ptr) (drop ptr buf))
     in (buf_store totty out buf, ptr + k, totty + length out, ws'))"
  using assms
proof (induction "stop - ptr" arbitrary: buf ptr totty ws rule: less_induct)
  case less
  let ?xs = "take (stop - ptr) (drop ptr buf)"
  show ?case
  proof (cases "iac_item ?xs")
    case None
    then show ?thesis
      using iacs_loop_item [OF less.prems] by (simp add: iac_filter_None)
  next
    case (Some p)
    then obtain e n where p: "iac_item ?xs = Some (e, n)"
      by (cases p) auto
    note b = iac_item_bounds [OF p]
    let ?buf = "buf_store totty e buf"
    have fits: "totty + length e \<le> length buf" and n: "ptr + n \<le> stop"
      using b less.prems by auto
    have len: "length ?buf = length buf"
      using fits by simp
    have xs: "take (stop - (ptr + n)) (drop (ptr + n) ?buf) = drop n ?xs"
      using b less.prems n by (simp add: drop_buf_store drop_take add.commute)
    obtain out k where f: "iac_filter (drop n ?xs) = (out, k)"
      by fastforce
    have room: "totty + length e + length out \<le> length buf"
      using iac_filter_bounds [of "drop n ?xs"] f b less.prems by auto
    obtain ws' where "iacs_loop stop ?buf (ptr + n) (totty + length e) (if n = 9 then ws @ [naws_size buf ptr] else ws) =
        (buf_store (totty + length e) out ?buf, ptr + n + k, totty + length e + length out, ws')"
      using less.hyps [of "ptr + n" ?buf "totty + length e" "if n = 9 then ws @ [naws_size buf ptr] else ws"]
        b n less.prems len unfolding xs f by (auto simp: diff_less_mono2)
    then show ?thesis
      using iacs_loop_item [OF less.prems, of ws] p f room
      by (auto simp: iac_filter_Some [OF p] buf_store_append add.assoc)
  qed
qed

text \<open>The first \<open>k\<close> bytes of a buffer replaced by the shorter \<open>out\<close>, right before what follows them.\<close>

lemma ring_compact:
  assumes ok: "ring_ok r" and k: "length out \<le> k" "k \<le> ring_run r" and len: "length buf = BUFSIZE"
    and new: "\<And>i. i < length out \<Longrightarrow> buf ! (wridx r + (k - length out) + i) = out ! i"
    and old: "\<And>j. j < BUFSIZE \<Longrightarrow> j < wridx r \<or> wridx r + k \<le> j \<Longrightarrow> buf ! j = rb_buf r ! j"
  defines "r' \<equiv> r\<lparr>wridx := wridx r + (k - length out), rb_size := rb_size r - (k - length out), rb_buf := buf\<rparr>"
  shows "ring_ok r'" and "ring_bytes r' = out @ drop k (ring_bytes r)" and "length out \<le> ring_run r'"
    and "take (length out) (drop (wridx r') buf) = out"
proof -
  have le: "wridx r + k \<le> BUFSIZE" "k \<le> rb_size r" "rb_size r \<le> BUFSIZE"
    using ring_run_le [OF ok] ring_run_size [of r] k ok by (auto simp: ring_ok_def)
  show "ring_ok r'"
    using ok le k(1) len by (simp add: r'_def ring_ok_def) linarith
  show "length out \<le> ring_run r'"
    using le k(1) by (simp add: r'_def ring_run_def) linarith
  show "take (length out) (drop (wridx r') buf) = out"
    using le k(1) len new by (intro nth_equalityI) (auto simp: r'_def)
  show "ring_bytes r' = out @ drop k (ring_bytes r)"
  proof (rule nth_equalityI)
    show "length (ring_bytes r') = length (out @ drop k (ring_bytes r))"
      using le k(1) by (simp add: r'_def)
  next
    fix i
    assume "i < length (ring_bytes r')"
    then have i: "i < rb_size r - (k - length out)"
      by (simp add: r'_def)
    have nth: "ring_bytes r' ! i = buf ! ((wridx r + (k - length out) + i) mod BUFSIZE)"
      using i by (simp add: r'_def nth_ring_bytes)
    show "ring_bytes r' ! i = (out @ drop k (ring_bytes r)) ! i"
    proof (cases "i < length out")
      case True
      have "(wridx r + (k - length out) + i) mod BUFSIZE = wridx r + (k - length out) + i"
        using True le k(1) by (intro mod_less) linarith
      then show ?thesis
        using True nth new by (simp add: nth_append)
    next
      case False
      let ?x = "wridx r + (k + (i - length out))"
      have x: "wridx r + (k - length out) + i = ?x" and x2: "?x < 2 * BUFSIZE"
        using False le k(1) i by linarith+
      have "?x mod BUFSIZE < wridx r \<or> wridx r + k \<le> ?x mod BUFSIZE"
        using le i False k(1) unfolding mod_wrap [OF x2] by auto
      then have "buf ! (?x mod BUFSIZE) = rb_buf r ! (?x mod BUFSIZE)"
        by (intro old) auto
      moreover have "k + (i - length out) < rb_size r"
        using i False k(1) le by linarith
      ultimately show ?thesis
        using nth False by (simp add: x nth_append nth_ring_bytes)
    qed
  qed
qed

text \<open>What a pass over the input buffer does, as a relation on byte queues.\<close>

definition iacs_removed :: "ring \<Rightarrow> u8 list \<times> nat \<Rightarrow> nat \<times> nat \<times> ring \<times> winsize list \<Rightarrow> bool" where
  "iacs_removed r f res \<longleftrightarrow>
     (case f of (out, k) \<Rightarrow> case res of (start, num_totty, r', ws) \<Rightarrow>
        num_totty = length out \<and> take num_totty (drop start (rb_buf r')) = out \<and> ring_ok r'
        \<and> num_totty \<le> ring_run r' \<and> ring_bytes r' = out @ drop k (ring_bytes r))"

lemma remove_iacs_ok:
  assumes ok: "ring_ok r"
  shows "iacs_removed r (iac_filter (ring_front r)) (remove_iacs r)"
proof -
  obtain out k where f: "iac_filter (ring_front r) = (out, k)"
    by fastforce
  have b: "length out \<le> k" "k \<le> ring_run r"
    using iac_filter_bounds [of "ring_front r"] f ok by auto
  have len: "length (rb_buf r) = BUFSIZE" and run: "wridx r + ring_run r \<le> BUFSIZE"
    using ok ring_run_le [OF ok] by (auto simp: ring_ok_def)
  let ?buf = "buf_store (wridx r) out (rb_buf r)"
  obtain ws where L: "iacs_loop (wridx r + ring_run r) (rb_buf r) (wridx r) (wridx r) [] =
      (?buf, wridx r + k, wridx r + length out, ws)"
    using iacs_loop_eq [of "wridx r" "wridx r + ring_run r" "rb_buf r" "wridx r" "[]"] f run len
    by (auto simp: ring_front_def)
  have fits: "wridx r + length out \<le> length (rb_buf r)"
    using b run len by linarith
  have nth: "?buf ! j = (if wridx r \<le> j \<and> j < wridx r + length out then out ! (j - wridx r) else rb_buf r ! j)"
    if "j < BUFSIZE" for j
    using nth_buf_store [OF fits] that len by simp
  have out: "take (length out) (drop (wridx r) ?buf) = out"
    using fits by (simp add: buf_store_def)
  have blen: "length ?buf = BUFSIZE"
    using fits len by simp
  show ?thesis
  proof (cases "k = length out")
    case True
    have R: "remove_iacs r = (wridx r, length out, r\<lparr>wridx := wridx r + (k - length out),
        rb_size := rb_size r - (k - length out), rb_buf := ?buf\<rparr>, ws)"
      using True by (simp add: remove_iacs_def L Let_def)
    have new: "?buf ! (wridx r + (k - length out) + i) = out ! i" if "i < length out" for i
      using that nth fits len True by simp
    have old: "?buf ! j = rb_buf r ! j" if "j < BUFSIZE" "j < wridx r \<or> wridx r + k \<le> j" for j
      using that nth True by auto
    note C = ring_compact [OF ok b blen new old]
    show ?thesis
      unfolding iacs_removed_def f R using C out True by simp
  next
    case False
    let ?s = "wridx r + (k - length out)"
    let ?buf2 = "buf_store ?s out ?buf"
    have fits2: "?s + length out \<le> length ?buf"
      using b run blen by linarith
    have R: "remove_iacs r = (?s, length out, r\<lparr>wridx := ?s, rb_size := rb_size r - (k - length out), rb_buf := ?buf2\<rparr>, ws)"
      using False b(1) out by (simp add: remove_iacs_def L Let_def)
    have nth2: "?buf2 ! j = (if ?s \<le> j \<and> j < ?s + length out then out ! (j - ?s) else ?buf ! j)" if "j < BUFSIZE" for j
      using nth_buf_store [OF fits2] that blen by simp
    have blen2: "length ?buf2 = BUFSIZE"
      using fits2 blen by simp
    have new: "?buf2 ! (?s + i) = out ! i" if "i < length out" for i
    proof -
      have "?s + i < BUFSIZE" and "?s + i < ?s + length out"
        using that fits2 blen by linarith+
      then show ?thesis
        using nth2 by (simp del: add_diff_assoc)
    qed
    have old: "?buf2 ! j = rb_buf r ! j" if "j < BUFSIZE" "j < wridx r \<or> wridx r + k \<le> j" for j
      using that nth2 nth b by auto
    note C = ring_compact [OF ok b blen2 new old]
    show ?thesis
      unfolding iacs_removed_def f R using C by (simp del: add_diff_assoc)
  qed
qed

section \<open>Doubling\<close>

definition iac_double :: "u8 list \<Rightarrow> u8 list" where
  "iac_double xs = concat (map (\<lambda>b. if b = IAC then [IAC, IAC] else [b]) xs)"

lemma iac_double_simps [simp]:
  "iac_double [] = []"
  "iac_double (b # xs) = (if b = IAC then [IAC, IAC] else [b]) @ iac_double xs"
  "iac_double (xs @ ys) = iac_double xs @ iac_double ys"
  by (simp_all add: iac_double_def)

lemma iac_double_plain: "\<forall>b \<in> set xs. b \<noteq> IAC \<Longrightarrow> iac_double xs = xs"
  by (induction xs) auto

text \<open>
  What \<open>write\<close> documents: it takes at most what it is given. It may cut a pair of IAC bytes; \<open>pairs_whole\<close> is a socket that never does, and
  \<open>writes_all\<close> one that always takes everything.
\<close>

definition write_ok :: "(nat \<Rightarrow> u8 list \<Rightarrow> io) \<Rightarrow> bool" where
  "write_ok sw \<longleftrightarrow> (\<forall>k d n. sw k d = Count n \<longrightarrow> n \<le> length d)"

definition pairs_whole :: "(nat \<Rightarrow> u8 list \<Rightarrow> io) \<Rightarrow> bool" where
  "pairs_whole sw \<longleftrightarrow> (\<forall>k. sw k [IAC, IAC] \<noteq> Count 1)"

definition writes_all :: "(nat \<Rightarrow> u8 list \<Rightarrow> io) \<Rightarrow> bool" where
  "writes_all sw \<longleftrightarrow> (\<forall>k d. sw k d = Count (length d))"

text \<open>How one call puts bytes on the wire: each IAC doubled, except that a socket that cuts pairs may leave the last one single.\<close>

definition sent_as :: "(nat \<Rightarrow> u8 list \<Rightarrow> io) \<Rightarrow> u8 list \<Rightarrow> u8 list \<Rightarrow> bool" where
  "sent_as sw xs w \<longleftrightarrow> w = iac_double xs
     \<or> xs \<noteq> [] \<and> last xs = IAC \<and> w = iac_double (butlast xs) @ [IAC] \<and> (\<exists>k. sw k [IAC, IAC] = Count 1)"

lemma sent_as_append: "sent_as sw ys w \<Longrightarrow> sent_as sw (xs @ ys) (iac_double xs @ w)"
  by (auto simp: sent_as_def butlast_append)

lemma sent_as_whole: "sent_as sw xs w \<Longrightarrow> pairs_whole sw \<Longrightarrow> w = iac_double xs"
  by (auto simp: sent_as_def pairs_whole_def)

text \<open>How a sequence of calls puts bytes on the wire: in order, every byte as it is, each IAC doubled or, where a pair was cut, single.\<close>

inductive wire_shows :: "u8 list \<Rightarrow> u8 list \<Rightarrow> bool" where
  Nothing: "wire_shows [] []"
| Plain: "b \<noteq> IAC \<Longrightarrow> wire_shows xs w \<Longrightarrow> wire_shows (b # xs) (b # w)"
| Pair: "wire_shows xs w \<Longrightarrow> wire_shows (IAC # xs) (IAC # IAC # w)"
| Cut: "wire_shows xs w \<Longrightarrow> wire_shows (IAC # xs) (IAC # w)"

lemma wire_shows_append: "wire_shows xs w \<Longrightarrow> wire_shows ys v \<Longrightarrow> wire_shows (xs @ ys) (w @ v)"
  by (induction rule: wire_shows.induct) (auto intro: wire_shows.intros)

lemma wire_shows_double: "wire_shows xs (iac_double xs)"
  by (induction xs) (auto intro: wire_shows.intros)

lemma sent_as_shows: "sent_as sw xs w \<Longrightarrow> wire_shows xs w"
proof -
  assume "sent_as sw xs w"
  then consider "w = iac_double xs" | "xs = butlast xs @ [IAC]" "w = iac_double (butlast xs) @ [IAC]"
    unfolding sent_as_def by (metis append_butlast_last_id)
  then show ?thesis
  proof cases
    case 2
    have "wire_shows [IAC] [IAC]"
      by (intro wire_shows.Cut wire_shows.Nothing)
    from wire_shows_append [OF wire_shows_double this, of "butlast xs"] show ?thesis
      using 2 by simp
  qed (simp add: wire_shows_double)
qed

definition wrote_prefix :: "(nat \<Rightarrow> u8 list \<Rightarrow> io) \<Rightarrow> u8 list \<Rightarrow> nat \<Rightarrow> u8 list \<Rightarrow> io \<times> u8 list \<Rightarrow> bool" where
  "wrote_prefix sw buf tot wire res \<longleftrightarrow>
     (\<exists>n \<le> length buf. \<exists>w. res = (Count (tot + n), wire @ w) \<and> sent_as sw (take n buf) w)
     \<or> (tot = 0 \<and> (res = (Again, wire) \<or> res = (Fail, wire)))"

lemma wrote_prefix_more:
  assumes "wrote_prefix sw (drop m buf) (tot + m) (wire @ iac_double (take m buf)) res" and "m \<le> length buf" and "0 < m"
  shows "wrote_prefix sw buf tot wire res"
proof -
  obtain n w where n: "n \<le> length (drop m buf)" "res = (Count (tot + m + n), (wire @ iac_double (take m buf)) @ w)"
    "sent_as sw (take n (drop m buf)) w"
    using assms(1,3) unfolding wrote_prefix_def by auto
  have "sent_as sw (take (m + n) buf) (iac_double (take m buf) @ w)"
    using sent_as_append [OF n(3), of "take m buf"] by (simp add: take_add)
  then show ?thesis
    using n(1,2) assms(2) unfolding wrote_prefix_def
    by (intro disjI1 exI [of _ "m + n"] conjI exI [of _ "iac_double (take m buf) @ w"]) auto
qed

lemma wrote_exact: "n \<le> length buf \<Longrightarrow> wrote_prefix sw buf tot wire (Count (tot + n), wire @ iac_double (take n buf))"
  unfolding wrote_prefix_def sent_as_def by blast

lemma iac_double_takeWhile:
  "n \<le> length (takeWhile (\<lambda>b. b \<noteq> IAC) buf) \<Longrightarrow> iac_double (take n buf) = take n (takeWhile (\<lambda>b. b \<noteq> IAC) buf)"
proof -
  let ?w = "takeWhile (\<lambda>b. b \<noteq> IAC) buf"
  assume "n \<le> length ?w"
  then have "take n buf = take n ?w"
    by (metis append_eq_conv_conj min.absorb1 take_take takeWhile_eq_take)
  moreover have "\<forall>b \<in> set (take n ?w). b \<noteq> IAC"
    by (auto dest!: in_set_takeD set_takeWhileD)
  ultimately show "iac_double (take n buf) = take n ?w"
    using iac_double_plain by metis
qed

lemma takeWhile_pos: "buf \<noteq> [] \<Longrightarrow> hd buf \<noteq> IAC \<Longrightarrow> 0 < length (takeWhile (\<lambda>b. b \<noteq> IAC) buf)"
  by (cases buf) auto

lemma iac_write_loop_ok:
  assumes "write_ok sw"
  shows "wrote_prefix sw buf tot wire (iac_write_loop sw k buf tot wire)"
proof (induction "length buf" arbitrary: buf tot wire k rule: less_induct)
  case less
  consider "buf = []" | xs where "buf = IAC # xs" | "buf \<noteq> []" "hd buf \<noteq> IAC"
    by (cases buf) auto
  then show ?case
  proof cases
    case 1
    then show ?thesis
      using wrote_exact [of 0 buf sw tot wire] by (simp add: iac_write_loop.simps)
  next
    case (2 xs)
    have step: "iac_write_loop sw k buf tot wire =
      (if sw k [IAC, IAC] \<noteq> Count 2 then (short_write tot (sw k [IAC, IAC]), wire @ io_bytes (sw k [IAC, IAC]) [IAC, IAC])
       else iac_write_loop sw (k + 1) xs (tot + 1) (wire @ [IAC, IAC]))"
      by (subst iac_write_loop.simps) (simp add: 2 Let_def)
    show ?thesis
    proof (cases "sw k [IAC, IAC]")
      case (Count n)
      have "n \<le> 2"
        using assms Count unfolding write_ok_def by fastforce
      then consider "n = 0" | "n = 1" | "n = 2"
        by linarith
      then show ?thesis
      proof cases
        case 1
        then show ?thesis
          unfolding step Count using wrote_exact [of 0 buf sw tot wire] by simp
      next
        case 2
        then have "sent_as sw (take 1 buf) [IAC]"
          using Count \<open>buf = IAC # xs\<close> by (auto simp: sent_as_def)
        then show ?thesis
          unfolding step Count wrote_prefix_def using 2 \<open>buf = IAC # xs\<close> by (intro disjI1 exI [of _ 1]) simp
      next
        case 3
        have "wrote_prefix sw xs (tot + 1) (wire @ [IAC, IAC]) (iac_write_loop sw (k + 1) xs (tot + 1) (wire @ [IAC, IAC]))"
          by (rule less) (simp add: \<open>buf = IAC # xs\<close>)
        from wrote_prefix_more [of sw 1 buf tot wire, simplified \<open>buf = IAC # xs\<close>, simplified, OF this [simplified]] 3
        show ?thesis
          unfolding step Count by (simp add: \<open>buf = IAC # xs\<close>)
      qed
    qed (auto simp: step wrote_prefix_def sent_as_def)
  next
    case 3
    let ?w = "takeWhile (\<lambda>b. b \<noteq> IAC) buf"
    have w: "0 < length ?w" "length ?w \<le> length buf"
      using takeWhile_pos [OF 3] by (auto simp: length_takeWhile_le)
    have step: "iac_write_loop sw k buf tot wire =
      (if sw k ?w \<noteq> Count (length ?w) then (short_write tot (sw k ?w), wire @ io_bytes (sw k ?w) ?w)
       else iac_write_loop sw (k + 1) (drop (length ?w) buf) (tot + length ?w) (wire @ ?w))"
      by (subst iac_write_loop.simps) (simp add: 3 Let_def)
    show ?thesis
    proof (cases "sw k ?w")
      case (Count n)
      have n: "n \<le> length ?w"
        using assms Count unfolding write_ok_def by blast
      show ?thesis
      proof (cases "n = length ?w")
        case True
        have "wrote_prefix sw (drop (length ?w) buf) (tot + length ?w) (wire @ iac_double (take (length ?w) buf))
            (iac_write_loop sw (k + 1) (drop (length ?w) buf) (tot + length ?w) (wire @ ?w))"
          unfolding iac_double_takeWhile [OF order_refl] take_all [OF order_refl]
          by (rule less) (use w in \<open>simp add: diff_less del: length_greater_0_conv\<close>)
        then show ?thesis
          unfolding step Count using True wrote_prefix_more [OF _ w(2,1)] by simp
      next
        case False
        then show ?thesis
          unfolding step Count using n w(2) wrote_exact [of n buf sw tot wire] iac_double_takeWhile [OF n] by simp
      qed
    qed (auto simp: step wrote_prefix_def sent_as_def)
  qed
qed

lemma iac_write_loop_all:
  assumes "writes_all sw"
  shows "iac_write_loop sw k buf tot wire = (Count (tot + length buf), wire @ iac_double buf)"
proof (induction "length buf" arbitrary: buf tot wire k rule: less_induct)
  case less
  show ?case
  proof (cases "buf = []")
    case True
    then show ?thesis
      by (simp add: iac_write_loop.simps)
  next
    case ne: False
    let ?w = "takeWhile (\<lambda>b. b \<noteq> IAC) buf"
    have sw: "sw k d = Count (length d)" for k d
      using assms by (simp add: writes_all_def)
    show ?thesis
    proof (cases "hd buf = IAC")
      case True
      then obtain xs where "buf = IAC # xs"
        using ne by (cases buf) auto
      then show ?thesis
        using less [of xs] by (subst iac_write_loop.simps) (simp add: sw Let_def)
    next
      case False
      have "length (drop (length ?w) buf) < length buf"
        using takeWhile_pos [OF ne False] ne by (simp add: diff_less)
      note IH = less [OF this]
      have "buf = ?w @ drop (length ?w) buf"
        by (metis dropWhile_eq_drop takeWhile_dropWhile_id)
      then have "iac_double buf = iac_double ?w @ iac_double (drop (length ?w) buf)"
        by (metis iac_double_simps(3))
      moreover have "iac_double ?w = ?w"
        by (rule iac_double_plain) (auto dest!: set_takeWhileD)
      ultimately have d: "wire @ iac_double buf = (wire @ ?w) @ iac_double (drop (length ?w) buf)"
        by simp
      have "iac_write_loop sw k buf tot wire =
          iac_write_loop sw (k + 1) (drop (length ?w) buf) (tot + length ?w) (wire @ ?w)"
        using ne False by (subst iac_write_loop.simps) (simp add: sw Let_def)
      also have "\<dots> = (Count (tot + length ?w + length (drop (length ?w) buf)), wire @ iac_double buf)"
        unfolding d by (rule IH)
      also have "tot + length ?w + length (drop (length ?w) buf) = tot + length buf"
        using length_takeWhile_le [of "\<lambda>b. b \<noteq> IAC" buf] by simp
      finally show ?thesis .
    qed
  qed
qed

section \<open>Reading back\<close>

text \<open>A carriage return followed by a line feed or a NUL is one key press, so such text does not come back as it was.\<close>

fun no_crlf :: "u8 list \<Rightarrow> bool" where
  "no_crlf (a # b # xs) = (\<not> (a = CR \<and> (b = LF \<or> b = 0)) \<and> no_crlf (b # xs))"
| "no_crlf xs = True"

lemma iac_filter_double: "no_crlf xs \<Longrightarrow> iac_filter (iac_double xs) = (xs, length (iac_double xs))"
proof (induction xs)
  case Nil
  then show ?case
    by (simp add: iac_filter_None iac_item_def)
next
  case (Cons b xs)
  have IH: "iac_filter (iac_double xs) = (xs, length (iac_double xs))"
    using Cons by (cases xs) auto
  show ?case
  proof (cases "b = IAC")
    case True
    have "iac_item (IAC # IAC # iac_double xs) = Some ([IAC], 2)"
      by (simp add: iac_item_def)
    from iac_filter_Some [OF this] show ?thesis
      using True IH by simp
  next
    case False
    have "iac_item (b # iac_double xs) = Some ([b], 1)"
      using Cons.prems False by (cases xs) (auto simp: iac_item_def)
    from iac_filter_Some [OF this] show ?thesis
      using False IH by simp
  qed
qed

end
