(* ===== verification/Kd_Text.thy ===== *)
theory Kd_Text
  imports Kd_Prelude
begin

text \<open>
  Numbers as text, the way the C library prints them: decimal and hexadecimal digits, padding, and the value of a
  string of decimal digits.
\<close>

section \<open>Decimal\<close>

fun nat_digits :: "nat \<Rightarrow> string" where
  "nat_digits n = (if n < 10 then [char_of (48 + n)] else nat_digits (n div 10) @ [char_of (48 + n mod 10)])"

declare nat_digits.simps [simp del]

definition int_digits :: "int \<Rightarrow> string" where
  "int_digits i = (if i < 0 then CHR ''-'' # nat_digits (nat (- i)) else nat_digits (nat i))"

definition is_digit :: "char \<Rightarrow> bool" where
  "is_digit c \<longleftrightarrow> 48 \<le> (of_char c :: nat) \<and> (of_char c :: nat) \<le> 57"

definition digits_value :: "string \<Rightarrow> nat" where
  "digits_value s = foldl (\<lambda>v c. v * 10 + (of_char c - 48)) 0 s"

section \<open>Hexadecimal and padding\<close>

definition hex_digit :: "nat \<Rightarrow> char" where
  "hex_digit n = char_of (if n < 10 then 48 + n else 87 + n)"

fun hex_digits :: "nat \<Rightarrow> string" where
  "hex_digits n = (if n < 16 then [hex_digit n] else hex_digits (n div 16) @ [hex_digit (n mod 16)])"

declare hex_digits.simps [simp del]

definition pad_left :: "nat \<Rightarrow> string \<Rightarrow> string" where
  "pad_left w s = replicate (w - length s) (CHR '' '') @ s"

section \<open>Lemmas\<close>

lemma nat_digits_rec: "nat_digits n = (if n < 10 then [char_of (48 + n)] else nat_digits (n div 10) @ [char_of (48 + n mod 10)])"
  by (rule nat_digits.simps)

lemma of_char_digit: "n < 10 \<Longrightarrow> of_char (char_of (48 + n :: nat)) = 48 + n" for n :: nat
  by simp

lemma digits_all: "list_all is_digit (nat_digits n)"
proof (induction n rule: less_induct)
  case (less n)
  have last: "is_digit (char_of (48 + n mod 10))"
    by (simp add: is_digit_def)
  show ?case
  proof (cases "n < 10")
    case True
    then show ?thesis
      using last by (simp add: nat_digits_rec [of n])
  next
    case False
    then show ?thesis
      using less [of "n div 10"] last by (simp add: nat_digits_rec [of n])
  qed
qed

lemma digits_value_snoc: "digits_value (s @ [c]) = digits_value s * 10 + (of_char c - 48)"
  by (simp add: digits_value_def)

lemma digits_value_digits: "digits_value (nat_digits n) = n"
proof (induction n rule: less_induct)
  case (less n)
  show ?case
  proof (cases "n < 10")
    case True
    then show ?thesis
      by (simp add: nat_digits_rec [of n] digits_value_def)
  next
    case False
    then show ?thesis
      using less [of "n div 10"] by (simp add: nat_digits_rec [of n] digits_value_snoc)
  qed
qed

lemma digits_nonempty: "nat_digits n \<noteq> []"
  by (simp add: nat_digits_rec [of n])

lemma length_digits: "0 < k \<Longrightarrow> n < 10 ^ k \<Longrightarrow> length (nat_digits n) \<le> k"
proof (induction k arbitrary: n)
  case (Suc k)
  show ?case
  proof (cases "n < 10")
    case True
    then show ?thesis
      by (simp add: nat_digits_rec [of n])
  next
    case False
    then have "0 < k"
      using Suc.prems(2) by (cases k) auto
    moreover have "n div 10 < 10 ^ k"
      using Suc.prems(2) by (simp add: div_less_iff_less_mult mult.commute)
    ultimately show ?thesis
      using Suc.IH False by (simp add: nat_digits_rec [of n])
  qed
qed simp

end
