(* ===== verification/Serial_Daemon.thy ===== *)
theory Serial_Daemon
  imports Telnet_Iac Kd_Text
begin

text \<open>
  The kernel side of the serial log (drivers/serial/serial_daemon.c): a page that collects console
  output, the thread that sends it to the attached process over netlink, and the ways to attach.

  The netlink and process functions of the kernel are parameters: whether a process exists, whether
  a message could be allocated and whether its payload fits. A write outside the page and the use of a
  null pointer are errors of the model.
\<close>

section \<open>State and console output\<close>

abbreviation (input) "PAGE_SIZE_SD \<equiv> (4096 :: nat)"
abbreviation (input) "NLMSG_HDR_SPACE \<equiv> (16 :: nat)"
abbreviation (input) "CMD_ATTACH \<equiv> (0x11 :: nat)"
abbreviation (input) "CMD_DETTACH \<equiv> (0x12 :: nat)"

datatype sd_error = Out_of_page | Null_pointer

text \<open>\<open>buf\<close> is \<open>None\<close> before the page is allocated; \<open>sock\<close> tells whether the netlink socket exists.\<close>

record uart_daemon =
  sd_buf :: "u8 list option"
  sd_length :: nat
  sd_pid :: int
  sd_sock :: bool
  sd_kthread :: bool
  sd_completion :: nat

text \<open>\<open>memcpy(serial_daemon.buf + serial_daemon.length, data, len)\<close>.\<close>

definition sd_copy :: "u8 list \<Rightarrow> uart_daemon \<Rightarrow> sd_error + uart_daemon" where
  "sd_copy data d =
     (case sd_buf d of
        None \<Rightarrow> Inl Null_pointer
      | Some buf \<Rightarrow>
          if sd_length d + length data > length buf then Inl Out_of_page
          else Inr (d\<lparr>sd_buf := Some (buf_store (sd_length d) data buf), sd_length := sd_length d + length data\<rparr>))"

definition attached :: "uart_daemon \<Rightarrow> bool" where
  "attached d \<longleftrightarrow> sd_sock d \<and> sd_pid d \<noteq> 0"

text \<open>\<open>unsigned long\<close> has 32 bits.\<close>

definition sd_make_room :: "nat \<Rightarrow> uart_daemon \<Rightarrow> uart_daemon" where
  "sd_make_room len d = (if (sd_length d + len) mod 2 ^ 32 > PAGE_SIZE_SD then d\<lparr>sd_length := 0\<rparr> else d)"

definition serial_daemon_write :: "u8 list \<Rightarrow> uart_daemon \<Rightarrow> sd_error + nat \<times> uart_daemon" where
  "serial_daemon_write data d =
     (if attached d then
        (case sd_copy data (sd_make_room (length data) d) of
           Inl e \<Rightarrow> Inl e
         | Inr d' \<Rightarrow> Inr (length data, d'))
      else Inr (length data, d))"

definition serial_daemon_putchar :: "u8 \<Rightarrow> uart_daemon \<Rightarrow> sd_error + nat \<times> uart_daemon" where
  "serial_daemon_putchar ch d =
     (if attached d then
        (case sd_copy [ch] (sd_make_room 1 d) of
           Inl e \<Rightarrow> Inl e
         | Inr d' \<Rightarrow> Inr (0, d'))
      else Inr (0, d))"

definition serial_daemon_complete :: "uart_daemon \<Rightarrow> uart_daemon" where
  "serial_daemon_complete d = (if attached d then d\<lparr>sd_completion := sd_completion d + 1\<rparr> else d)"

section \<open>The sending thread\<close>

text \<open>
  One pass of the loop after \<open>wait_for_completion_interruptible\<close> returned. \<open>have_skb\<close> tells whether \<open>nlmsg_new\<close>
  succeeded and \<open>fits\<close> whether \<open>nlmsg_put\<close> finds room for the payload; neither result is checked by the code.
  The message is its \<open>nlmsg_flags\<close>, which carry the length, and its payload.
\<close>

definition serial_daemon_kthread ::
  "bool \<Rightarrow> (nat \<Rightarrow> bool) \<Rightarrow> uart_daemon \<Rightarrow> sd_error + netlink option \<times> uart_daemon" where
  "serial_daemon_kthread have_skb fits d0 =
     (let d = d0\<lparr>sd_completion := sd_completion d0 - 1\<rparr>
      in if attached d \<and> sd_length d \<noteq> 0 then
           if \<not> have_skb \<or> \<not> fits (sd_length d) then Inl Null_pointer
           else (case sd_buf d of
                   None \<Rightarrow> Inl Null_pointer
                 | Some buf \<Rightarrow>
                     Inr (Some (Nl_msg (sd_length d mod 2 ^ 16) (take (sd_length d) buf)), d\<lparr>sd_length := 0\<rparr>))
         else Inr (None, d))"

section \<open>Attaching\<close>

text \<open>A message from user space: its length, \<open>nlmsg_flags\<close> and \<open>nlmsg_pid\<close>. \<open>task\<close> tells which processes exist.\<close>

definition serial_daemon_control :: "(int \<Rightarrow> bool) \<Rightarrow> nat \<Rightarrow> nat \<Rightarrow> int \<Rightarrow> uart_daemon \<Rightarrow> uart_daemon" where
  "serial_daemon_control task skb_len flags pid d =
     (if skb_len \<ge> NLMSG_HDR_SPACE then
        if flags = CMD_ATTACH then (if task pid then d\<lparr>sd_pid := pid\<rparr> else d)
        else if flags = CMD_DETTACH then d\<lparr>sd_pid := 0\<rparr>
        else d
      else d)"

text \<open>Decimal input as the kernel's \<open>sscanf\<close> does for \<open>%d\<close>.\<close>

definition is_space :: "char \<Rightarrow> bool" where
  "is_space c \<longleftrightarrow> of_char c = (32::nat) \<or> (9 \<le> (of_char c :: nat) \<and> (of_char c :: nat) \<le> 13)"

text \<open>The value is a 32-bit integer; \<open>None\<close> when there is no number, which leaves the variable as it was.\<close>

definition sscanf_int :: "string \<Rightarrow> int option" where
  "sscanf_int s =
     (let t = dropWhile is_space s;
          neg = (t \<noteq> [] \<and> hd t = CHR ''-'');
          ds = takeWhile is_digit (if neg then tl t else t);
          v = int (digits_value ds)
      in if ds = [] then None
         else Some (signed_take_bit 31 (if neg then - v else v)))"

definition serial_daemon_proc_read :: "uart_daemon \<Rightarrow> string" where
  "serial_daemon_proc_read d = ''Serial Daemon Pid = '' @ int_digits (sd_pid d) @ [CHR 0x0A]"

abbreviation (input) "EINVAL \<equiv> (22 :: int)"
abbreviation (input) "EFAULT \<equiv> (14 :: int)"
abbreviation (input) "EBUSY \<equiv> (16 :: int)"
abbreviation (input) "ENOENT \<equiv> (2 :: int)"

text \<open>\<open>fault\<close> tells whether \<open>copy_from_user\<close> failed. The string ends at its first NUL.\<close>

definition serial_daemon_proc_write ::
  "(int \<Rightarrow> bool) \<Rightarrow> bool \<Rightarrow> string \<Rightarrow> uart_daemon \<Rightarrow> int \<times> uart_daemon" where
  "serial_daemon_proc_write task fault buffer d =
     (if length buffer > 31 then (- EINVAL, d)
      else if fault then (- EFAULT, d)
      else
        let val_string = takeWhile (\<lambda>c. c \<noteq> CHR 0x00) buffer;
            value = (case sscanf_int val_string of None \<Rightarrow> -1 | Some v \<Rightarrow> v)
        in (int (length buffer), d\<lparr>sd_pid := (if task value then value else 0)\<rparr>))"

section \<open>Loading and unloading\<close>

text \<open>
  The module's data starts zeroed. The parameters tell whether the netlink socket, the proc entry
  and the page could be created; the result of the last is not checked.
\<close>

definition sd_zero :: uart_daemon where
  "sd_zero = \<lparr>sd_buf = None, sd_length = 0, sd_pid = 0, sd_sock = False, sd_kthread = False, sd_completion = 0\<rparr>"

definition serial_daemon_init :: "bool \<Rightarrow> bool \<Rightarrow> bool \<Rightarrow> int \<times> uart_daemon" where
  "serial_daemon_init have_sock have_proc have_page =
     (if \<not> have_sock then (- EBUSY, sd_zero)
      else if \<not> have_proc then (- ENOENT, sd_zero\<lparr>sd_sock := True\<rparr>)
      else (0, sd_zero\<lparr>sd_sock := True, sd_buf := (if have_page then Some (replicate PAGE_SIZE_SD 0) else None),
                       sd_length := 0, sd_completion := 0, sd_kthread := True\<rparr>))"

definition serial_daemon_exit :: "uart_daemon \<Rightarrow> uart_daemon" where
  "serial_daemon_exit d = d\<lparr>sd_pid := 0\<rparr>"

end
