(* ===== verification/Telnet_Props.thy ===== *)
theory Telnet_Props
  imports Telnet_Iac
begin

text \<open>
  The telnet server's sessions and main loop: rounds and signals as a step relation, the invariant of its reachable
  states, and the properties of the server.
\<close>

section \<open>One session\<close>

fun chunk_pty :: "chunk \<Rightarrow> u8 list" where
  "chunk_pty (From_pty d) = d"
| "chunk_pty _ = []"

text \<open>What of the socket's output came from the terminal.\<close>

definition pty_wire :: "tsession \<Rightarrow> u8 list" where
  "pty_wire ts = concat (map chunk_pty (to_sock ts))"

text \<open>
  Both buffers are well formed, and the bytes read from the terminal are those the socket took followed by those still buffered.
  \<open>whole\<close> says that the socket never cuts a pair of IAC bytes.
\<close>

definition session_ok :: "bool \<Rightarrow> tsession \<Rightarrow> bool" where
  "session_ok whole ts \<longleftrightarrow> ring_ok (ring1 ts) \<and> ring_ok (ring2 ts)
     \<and> (\<exists>sent. from_pty ts = sent @ ring_bytes (ring2 ts) \<and> wire_shows sent (pty_wire ts)
          \<and> (whole \<longrightarrow> pty_wire ts = iac_double sent))"

definition same_fds :: "tsession \<Rightarrow> tsession \<Rightarrow> bool" where
  "same_fds ts ts' \<longleftrightarrow> ts_addr ts' = ts_addr ts \<and> sockfd_read ts' = sockfd_read ts
     \<and> sockfd_write ts' = sockfd_write ts \<and> ptyfd ts' = ptyfd ts"

lemma same_fds_refl [simp]: "same_fds ts ts"
  by (simp add: same_fds_def)

lemma same_fds_trans: "same_fds a b \<Longrightarrow> same_fds b c \<Longrightarrow> same_fds a c"
  by (simp add: same_fds_def)

text \<open>What the system calls of a session document.\<close>

definition read_ok :: "(nat \<Rightarrow> rd) \<Rightarrow> bool" where
  "read_ok f \<longleftrightarrow> (\<forall>n d. f n = Got d \<longrightarrow> length d \<le> n)"

definition session_io_ok :: "bool \<Rightarrow> session_io \<Rightarrow> bool" where
  "session_io_ok whole sio \<longleftrightarrow> (\<forall>d n. pty_write sio d = Count n \<longrightarrow> n \<le> length d)
     \<and> write_ok (sock_write sio) \<and> (whole \<longrightarrow> pairs_whole (sock_write sio)) \<and> read_ok (sock_read sio) \<and> read_ok (pty_read sio)"

text \<open>A step that ends the session or keeps its invariant and its descriptors.\<close>

definition step_ok :: "bool \<Rightarrow> tsession \<Rightarrow> tsession option \<Rightarrow> bool" where
  "step_ok whole ts r \<longleftrightarrow> (\<forall>ts'. r = Some ts' \<longrightarrow> session_ok whole ts' \<and> same_fds ts ts')"

lemma step_ok_bind:
  assumes "step_ok whole ts r" and "\<And>ts'. session_ok whole ts' \<Longrightarrow> same_fds ts ts' \<Longrightarrow> step_ok whole ts' (f ts')"
  shows "step_ok whole ts (Option.bind r f)"
  using assms unfolding step_ok_def by (cases r) (auto intro: same_fds_trans)

lemma pty_wire_log [simp]: "pty_wire (log_sock c ts) = pty_wire ts @ chunk_pty c"
  by (simp add: pty_wire_def log_sock_def)

lemma log_sock_fields [simp]:
  "ring1 (log_sock c ts) = ring1 ts" "ring2 (log_sock c ts) = ring2 ts" "from_pty (log_sock c ts) = from_pty ts"
  "same_fds ts (log_sock c ts)" "ts_addr (log_sock c ts) = ts_addr ts"
  by (simp_all add: log_sock_def same_fds_def)

lemma write_pty_ok:
  assumes ok: "session_ok whole ts" and io: "session_io_ok whole sio"
  shows "step_ok whole ts (map_option snd (tunnel_write_pty ready sio ts))"
proof (cases ready)
  case True
  obtain start num r ws where R: "remove_iacs (ring1 ts) = (start, num, r, ws)"
    by (cases "remove_iacs (ring1 ts)") auto
  have "iacs_removed (ring1 ts) (iac_filter (ring_front (ring1 ts))) (start, num, r, ws)"
    using remove_iacs_ok [of "ring1 ts"] ok R by (simp add: session_ok_def)
  then have r: "ring_ok r" "num \<le> ring_run r"
    by (auto simp: iacs_removed_def split: prod.splits)
  let ?d = "take num (drop start (rb_buf r))"
  have "ring_ok (ring_drop n r)" if "pty_write sio ?d = Count n" for n
  proof (rule ring_drop_ok(1) [OF r(1)])
    have "n \<le> length ?d"
      using that io unfolding session_io_ok_def by blast
    then show "n \<le> ring_run r"
      using r(2) by simp
  qed
  then show ?thesis
    using True R r ok
    by (auto simp: tunnel_write_pty_def step_ok_def Let_def session_ok_def same_fds_def pty_wire_def split: io.splits)
qed (use ok in \<open>simp add: tunnel_write_pty_def step_ok_def\<close>)

lemma write_sock_ok:
  assumes ok: "session_ok whole ts" and io: "session_io_ok whole sio"
  shows "step_ok whole ts (tunnel_write_sock ready sio ts)"
proof (cases ready)
  case True
  let ?f = "ring_front (ring2 ts)"
  obtain count wire where W: "iac_safe_write (sock_write sio) ?f = (count, wire)"
    by fastforce
  have w: "wrote_prefix (sock_write sio) ?f 0 [] (count, wire)"
    using iac_write_loop_ok [of "sock_write sio" ?f 0 "[]" 0] io W
    by (simp add: iac_safe_write_def session_io_ok_def)
  obtain sent where r: "ring_ok (ring1 ts)" "ring_ok (ring2 ts)"
    and eq: "from_pty ts = sent @ ring_bytes (ring2 ts)" "wire_shows sent (pty_wire ts)" "whole \<longrightarrow> pty_wire ts = iac_double sent"
    using ok unfolding session_ok_def by blast
  show ?thesis
  proof (cases count)
    case (Count n)
    then have n: "n \<le> length ?f" "sent_as (sock_write sio) (take n ?f) wire"
      using w by (auto simp: wrote_prefix_def)
    have "from_pty ts = (sent @ take n ?f) @ ring_bytes (ring_drop n (ring2 ts))"
      unfolding eq(1) append_assoc rq.take_front [OF r(2) n(1)] ..
    moreover have "wire_shows (sent @ take n ?f) (pty_wire ts @ wire)"
      by (rule wire_shows_append [OF eq(2) sent_as_shows [OF n(2)]])
    moreover have "whole \<longrightarrow> pty_wire ts @ wire = iac_double (sent @ take n ?f)"
      using eq(3) sent_as_whole [OF n(2)] io by (simp add: session_io_ok_def)
    ultimately have "session_ok whole ((log_sock (From_pty wire) ts)\<lparr>ring2 := ring_drop n (ring2 ts)\<rparr>)"
      using r rq.inv_remove [OF r(2) n(1)] unfolding session_ok_def by (auto simp: pty_wire_def log_sock_def)
    then show ?thesis
      using True W Count
      by (simp add: tunnel_write_sock_def step_ok_def Let_def same_fds_def) (simp add: log_sock_def)
  next
    case Again
    then show ?thesis
      using True W ok w by (auto simp: tunnel_write_sock_def step_ok_def Let_def session_ok_def wrote_prefix_def)
  qed (use True W in \<open>simp add: tunnel_write_sock_def step_ok_def Let_def\<close>)
qed (use ok in \<open>simp add: tunnel_write_sock_def step_ok_def\<close>)

lemma reset_ok: "session_ok whole ts \<Longrightarrow> session_ok whole (tunnel_reset ts)" "same_fds ts (tunnel_reset ts)"
  by (simp_all add: tunnel_reset_def session_ok_def same_fds_def pty_wire_def ring_reset_ok)

lemma read_sock_ok:
  assumes ok: "session_ok whole ts" and io: "session_io_ok whole sio"
  shows "step_ok whole ts (tunnel_read_sock ready sio ts)"
proof (cases "ready \<and> (\<exists>d. sock_read sio (ring_room (ring1 ts)) = Got d)")
  case True
  then obtain d where d: "sock_read sio (ring_room (ring1 ts)) = Got d"
    by blast
  then have "length d \<le> ring_room (ring1 ts)"
    using io by (simp add: session_io_ok_def read_ok_def)
  then have "ring_ok (ring_put d (if last d = 0 then length d - 1 else length d) (ring1 ts))"
    using ok by (intro rq.inv_put) (auto simp: session_ok_def)
  then show ?thesis
    using ok True d by (simp add: tunnel_read_sock_def step_ok_def session_ok_def same_fds_def pty_wire_def)
qed (use ok in \<open>auto simp: tunnel_read_sock_def step_ok_def split: rd.splits\<close>)

lemma read_pty_ok:
  assumes ok: "session_ok whole ts" and io: "session_io_ok whole sio"
  shows "step_ok whole ts (tunnel_read_pty ready sio ts)"
proof (cases "ready \<and> (\<exists>d. pty_read sio (ring_room (ring2 ts)) = Got d)")
  case True
  then obtain d where d: "pty_read sio (ring_room (ring2 ts)) = Got d"
    by blast
  then have room: "length d \<le> ring_room (ring2 ts)"
    using io by (simp add: session_io_ok_def read_ok_def)
  have r: "ring_ok (ring2 ts)"
    using ok by (simp add: session_ok_def)
  note put = rq.inv_put [OF r room order_refl] rq.content_put [OF r room order_refl]
  show ?thesis
    using ok True d put by (simp add: tunnel_read_pty_def step_ok_def session_ok_def same_fds_def pty_wire_def)
qed (use ok in \<open>auto simp: tunnel_read_pty_def step_ok_def split: rd.splits\<close>)

lemma tunnel_rest_ok:
  assumes "session_ok whole ts" and "session_io_ok whole sio"
  shows "step_ok whole ts (tunnel_rest rdfds wrfds sio ts)"
  unfolding tunnel_rest_def
proof (rule step_ok_bind [OF write_sock_ok [OF assms]])
  fix ts1
  assume "session_ok whole ts1"
  then have "step_ok whole (tunnel_reset ts1) (tunnel_read_sock (sockfd_read ts1 \<in> set rdfds) sio (tunnel_reset ts1))"
    using assms(2) by (intro read_sock_ok reset_ok)
  then have "step_ok whole ts1 (tunnel_read_sock (sockfd_read ts1 \<in> set rdfds) sio (tunnel_reset ts1))"
    using reset_ok(2) unfolding step_ok_def by (blast intro: same_fds_trans)
  then show "step_ok whole ts1 (Option.bind (tunnel_read_sock (sockfd_read ts1 \<in> set rdfds) sio (tunnel_reset ts1))
      (\<lambda>ts2. tunnel_read_pty (ptyfd ts2 \<in> set rdfds) sio ts2))"
    by (rule step_ok_bind) (intro read_pty_ok assms(2))
qed

section \<open>All sessions\<close>

definition fds_ok :: "nat \<Rightarrow> nat \<Rightarrow> tsession \<Rightarrow> bool" where
  "fds_ok netlink_fd m ts \<longleftrightarrow> netlink_fd < ptyfd ts \<and> netlink_fd < sockfd_read ts \<and> sockfd_write ts = sockfd_read ts
     \<and> ptyfd ts \<le> m \<and> sockfd_read ts \<le> m"

text \<open>
  The invariant at the top of the loop. The descriptors of sessions are above that of the netlink socket, which is
  opened before any session and stays open.
\<close>

definition globals_ok :: "bool \<Rightarrow> nat \<Rightarrow> globals \<Rightarrow> bool" where
  "globals_ok whole netlink_fd g \<longleftrightarrow> distinct (map ts_addr (sessions g)) \<and> length (sessions g) \<le> maxclients g
     \<and> (\<forall>ts \<in> set (sessions g). session_ok whole ts \<and> fds_ok netlink_fd (maxfd g) ts)"

lemma fds_ok_same: "fds_ok n m ts \<Longrightarrow> same_fds ts ts' \<Longrightarrow> fds_ok n m ts'"
  by (simp add: fds_ok_def same_fds_def)

lemma fds_ok_mono: "fds_ok n m ts \<Longrightarrow> m \<le> m' \<Longrightarrow> fds_ok n m' ts"
  by (simp add: fds_ok_def)

lemma scan_maxfd_ge: "m \<le> scan_maxfd m tss"
proof (induction tss arbitrary: m)
  case (Cons t tss)
  have "m \<le> (if (if m < ptyfd t then ptyfd t else m) < sockfd_read t then sockfd_read t
      else if m < ptyfd t then ptyfd t else m)"
    by auto
  also have "\<dots> \<le> scan_maxfd m (t # tss)"
    using Cons by (simp add: Let_def)
  finally show ?case .
qed simp

lemma scan_maxfd_mem: "ts \<in> set tss \<Longrightarrow> ptyfd ts \<le> scan_maxfd m tss \<and> sockfd_read ts \<le> scan_maxfd m tss"
proof (induction tss arbitrary: m)
  case (Cons t tss)
  let ?m = "if (if m < ptyfd t then ptyfd t else m) < sockfd_read t then sockfd_read t
      else if m < ptyfd t then ptyfd t else m"
  have "ptyfd t \<le> ?m" and "sockfd_read t \<le> ?m"
    by auto
  moreover have "scan_maxfd m (t # tss) = scan_maxfd ?m tss"
    by (simp only: scan_maxfd.simps Let_def)
  ultimately show ?case
    using Cons scan_maxfd_ge [of ?m tss] by (metis order_trans set_ConsD)
qed simp

lemma get_session_Some:
  "get_session a g = Some ts \<Longrightarrow> ts \<in> set (sessions g) \<and> ts_addr ts = a"
  by (auto simp: get_session_def find_Some_iff)

lemma globals_ok_mem: "globals_ok whole n g \<Longrightarrow> ts \<in> set (sessions g) \<Longrightarrow> session_ok whole ts \<and> fds_ok n (maxfd g) ts"
  by (simp add: globals_ok_def)

lemma free_session_ok:
  assumes "globals_ok whole n g"
  shows "globals_ok whole n (free_session a g)"
proof -
  let ?tss = "filter (\<lambda>t. ts_addr t \<noteq> a) (sessions g)"
  have "fds_ok n (scan_maxfd 0 ?tss) ts" if "ts \<in> set ?tss" for ts
    using that scan_maxfd_mem [OF that, of 0] globals_ok_mem [OF assms, of ts] by (simp add: fds_ok_def)
  moreover have "length ?tss \<le> maxclients g"
    using assms length_filter_le [of "\<lambda>t. ts_addr t \<noteq> a" "sessions g"] unfolding globals_ok_def by linarith
  ultimately show ?thesis
    using assms by (auto simp: free_session_def Let_def globals_ok_def distinct_map_filter)
qed

lemma put_session_ok:
  assumes "globals_ok whole n g" and "session_ok whole ts'" and "same_fds ts ts'" and "ts \<in> set (sessions g)"
  shows "globals_ok whole n (put_session ts' g)"
proof -
  have "map ts_addr (sessions (put_session ts' g)) = map ts_addr (sessions g)"
    by (auto simp: put_session_def)
  moreover have "fds_ok n (maxfd g) ts'"
    using assms by (blast intro: fds_ok_same globals_ok_mem [THEN conjunct2])
  moreover have "\<forall>t \<in> set (sessions (put_session ts' g)). t = ts' \<or> t \<in> set (sessions g)"
    by (auto simp: put_session_def)
  moreover have "length (sessions (put_session ts' g)) = length (sessions g)" "maxfd (put_session ts' g) = maxfd g"
    "maxclients (put_session ts' g) = maxclients g"
    by (simp_all add: put_session_def)
  ultimately show ?thesis
    using assms(1,2) unfolding globals_ok_def by metis
qed

lemma kill_session_ok: "globals_ok whole n g \<Longrightarrow> globals_ok whole n (kill_session ts g)"
  unfolding kill_session_def by (rule free_session_ok) (simp add: globals_ok_def)

lemma recvmsg_ok:
  assumes "globals_ok whole n g"
  shows "globals_ok whole n (serial_daemon_recvmsg nl beyond sw g)"
proof (cases "sessions g")
  case (Cons ts tss)
  have "session_ok whole (log_sock (From_kernel d) ts)" "fds_ok n (maxfd g) (log_sock (From_kernel d) ts)" for d
    using assms Cons by (auto simp: globals_ok_def session_ok_def intro: fds_ok_same)
  then show ?thesis
    using assms Cons by (auto simp: serial_daemon_recvmsg_def globals_ok_def split: netlink.splits)
qed (use assms in \<open>simp add: serial_daemon_recvmsg_def\<close>)

lemma tunnel_one_ok:
  assumes g: "globals_ok whole n g" and io: "\<And>a. session_io_ok whole (ios a)"
  shows "globals_ok whole n (tunnel_one nfd rdfds wrfds ios a g)"
proof (cases "get_session a g")
  case (Some ts)
  note ts = get_session_Some [OF Some]
  have ok: "session_ok whole ts"
    using ts globals_ok_mem [OF g] by blast
  show ?thesis
  proof (cases "tunnel_write_pty (ptyfd ts \<in> set wrfds) (ios a) ts")
    case None
    then show ?thesis
      using Some kill_session_ok [OF g] by (simp add: tunnel_one_def)
  next
    case W: (Some p)
    obtain nl ts1 where p: "p = (nl, ts1)"
      by fastforce
    have ts1: "session_ok whole ts1" "same_fds ts ts1"
      using write_pty_ok [OF ok io, of "ptyfd ts \<in> set wrfds" a] W p by (auto simp: step_ok_def)
    define g2 where "g2 = (if nl \<and> nfd \<in> set rdfds
      then serial_daemon_recvmsg (nl_recv (ios a)) (nl_beyond (ios a)) (nl_write (ios a)) (put_session ts1 g) else put_session ts1 g)"
    have g2: "globals_ok whole n g2"
      using put_session_ok [OF g ts1] ts recvmsg_ok by (simp add: g2_def)
    show ?thesis
    proof (cases "get_session a g2")
      case N2: None
      show ?thesis
        unfolding tunnel_one_def Let_def Some option.case W p prod.case g2_def [symmetric] N2 by (rule g2)
    next
      case S2: (Some ts2)
      note ts2 = get_session_Some [OF S2]
      have ok2: "session_ok whole ts2"
        using ts2 globals_ok_mem [OF g2] by blast
      have eq: "tunnel_one nfd rdfds wrfds ios a g =
        (case tunnel_rest rdfds wrfds (ios a) ts2 of None \<Rightarrow> kill_session ts2 g2 | Some ts3 \<Rightarrow> put_session ts3 g2)"
        unfolding tunnel_one_def Let_def Some option.case W p prod.case g2_def [symmetric] S2 ..
      show ?thesis
        unfolding eq using tunnel_rest_ok [OF ok2 io, of rdfds wrfds a] kill_session_ok [OF g2] put_session_ok [OF g2] ts2
        by (auto simp: step_ok_def split: option.splits)
    qed
  qed
qed (use g in \<open>simp add: tunnel_one_def\<close>)

lemma fold_keeps: "(\<And>a x. P x \<Longrightarrow> P (f a x)) \<Longrightarrow> P x \<Longrightarrow> P (fold f as x)"
  by (induction as arbitrary: x) auto

section \<open>The main loop\<close>

lemma raise_maxfd_ok: "globals_ok whole n g \<Longrightarrow> globals_ok whole n (raise_maxfd fd g)"
  by (auto simp: raise_maxfd_def globals_ok_def intro: fds_ok_mono)

lemma prepare_one_ok:
  assumes "globals_ok whole n (fst st)"
  shows "globals_ok whole n (fst (prepare_one a st))"
  using assms free_session_ok by (auto simp: prepare_one_def split: prod.splits option.splits)

lemma netlink_above_maxfd:
  assumes "globals_ok whole n g" and "n > maxfd g"
  shows "sessions g = []"
proof (cases "sessions g")
  case (Cons ts tss)
  then have "fds_ok n (maxfd g) ts"
    using assms(1) by (simp add: globals_ok_def)
  then show ?thesis
    using assms(2) by (simp add: fds_ok_def)
qed simp

lemma prepare_fds_ok:
  assumes "globals_ok whole n g"
  shows "globals_ok whole n (fst (prepare_fds m n g))"
proof -
  let ?p = "fold prepare_one (map ts_addr (sessions g)) (g, [], [])"
  have "globals_ok whole n (fst ?p)"
    using fold_keeps [where P = "\<lambda>st. globals_ok whole n (fst st)" and f = prepare_one, OF prepare_one_ok] assms by simp
  then have g2: "globals_ok whole n (raise_maxfd m (fst ?p))"
    by (rule raise_maxfd_ok)
  then have "globals_ok whole n ((raise_maxfd m (fst ?p))\<lparr>maxfd := m\<rparr>)" if "n > maxfd (raise_maxfd m (fst ?p))"
    using netlink_above_maxfd [OF g2 that] by (simp add: globals_ok_def)
  then show ?thesis
    using g2 by (cases ?p) (simp add: prepare_fds_def Let_def)
qed

text \<open>What a round may assume of the operating system.\<close>

definition round_ok :: "bool \<Rightarrow> nat \<Rightarrow> round_env \<Rightarrow> globals \<Rightarrow> bool" where
  "round_ok whole netlink_fd e g \<longleftrightarrow> new_addr e \<notin> ts_addr ` set (sessions g)
     \<and> (0 \<le> acc_fd e \<longrightarrow> netlink_fd < nat (acc_fd e)) \<and> netlink_fd < new_pty e \<and> (\<forall>a. session_io_ok whole (sess_io e a))"

lemma new_session_ok:
  assumes g: "globals_ok whole n g" and ts: "make_new_session a sock fd pid g = (Some ts, g1)"
    and fd: "n < sock" "n < fd" and a: "a \<notin> ts_addr ` set (sessions g)" and allowed: "new_session_is_allowed g"
  shows "globals_ok whole n (g1\<lparr>sessions := ts # sessions g1\<rparr>)"
proof -
  have sock: "sock \<noteq> 0"
    using fd by simp
  have g1: "g1 = raise_maxfd sock (raise_maxfd fd g)"
    using ts sock by (auto simp: make_new_session_def Let_def split: if_splits)
  have same: "sessions g1 = sessions g" "maxclients g1 = maxclients g" "sock \<le> maxfd g1" "fd \<le> maxfd g1"
    by (auto simp: g1 raise_maxfd_def)
  have "session_ok whole ts" "ts_addr ts = a" "ptyfd ts = fd" "sockfd_read ts = sock" "sockfd_write ts = sock"
    using ts sock by (auto simp: make_new_session_def Let_def session_ok_def pty_wire_def wire_shows.Nothing split: if_splits)
  moreover have "globals_ok whole n g1"
    unfolding g1 by (intro raise_maxfd_ok g)
  ultimately show ?thesis
    using same fd a allowed by (auto simp: globals_ok_def fds_ok_def new_session_is_allowed_def)
qed

lemma accept_ok:
  assumes g: "globals_ok whole n g" and e: "round_ok whole n e g" and g': "accept_session m e g = Some g'"
  shows "globals_ok whole n g'"
proof (cases "m \<in> set (sel_rd e)")
  case True
  have acc: "\<not> acc_fd e < 0" "new_session_is_allowed g"
    using g' True by (auto simp: accept_session_def split: if_splits)
  obtain r g1 where N: "make_new_session (new_addr e) (nat (acc_fd e)) (new_pty e) (new_pid e) g = (r, g1)"
    by fastforce
  show ?thesis
  proof (cases r)
    case None
    then have "g' = g1" and "g1 = raise_maxfd (if nat (acc_fd e) = 0 then 1 else nat (acc_fd e)) (raise_maxfd (new_pty e) g)"
      using g' True acc N by (auto simp: accept_session_def make_new_session_def Let_def split: if_splits)
    then show ?thesis
      using raise_maxfd_ok g by simp
  next
    case (Some ts)
    then show ?thesis
      using g' True acc N new_session_ok [OF g] e by (auto simp: accept_session_def round_ok_def)
  qed
qed (use g g' in \<open>simp add: accept_session_def\<close>)

lemma prepare_one_addrs:
  "set (sessions (fst (prepare_one a st))) \<subseteq> set (sessions (fst st))"
  by (auto simp: prepare_one_def free_session_def Let_def split: prod.splits option.splits)

lemma prepare_fds_sessions: "set (sessions (fst (prepare_fds m n g))) \<subseteq> set (sessions g)"
proof -
  let ?p = "fold prepare_one (map ts_addr (sessions g)) (g, [], [])"
  have "set (sessions (fst ?p)) \<subseteq> set (sessions g)"
    by (rule fold_keeps [where P = "\<lambda>st. set (sessions (fst st)) \<subseteq> set (sessions g)"])
      (use prepare_one_addrs in blast, simp)
  then show ?thesis
    by (cases ?p) (simp add: prepare_fds_def Let_def raise_maxfd_def)
qed

lemma round_keeps:
  assumes g: "globals_ok whole n g" and e: "round_ok whole n e g" and r: "telnetd_round m n e g = Inr g'"
  shows "globals_ok whole n g'"
proof -
  obtain g1 rdfds wrfds where p: "prepare_fds m n g = (g1, rdfds, wrfds)"
    by (cases "prepare_fds m n g")
  have g1: "globals_ok whole n g1" and e1: "round_ok whole n e g1"
    using prepare_fds_ok [OF g, of m] prepare_fds_sessions [of m n g] e p by (auto simp: round_ok_def)
  show ?thesis
  proof (cases "sel_count e > 0 \<and> accept_session m e g1 \<noteq> None")
    case True
    then obtain g2 where A: "accept_session m e g1 = Some g2"
      by blast
    have eq: "g' = fold (tunnel_one n (sel_rd e) (sel_wr e) (sess_io e)) (map ts_addr (sessions g2)) g2"
      using r True p A by (simp add: telnetd_round_def)
    show ?thesis
      unfolding eq using e accept_ok [OF g1 e1 A]
      by (intro fold_keeps [where P = "globals_ok whole n"] tunnel_one_ok) (auto simp: round_ok_def)
  next
    case False
    then show ?thesis
      using r p g1 by (auto simp: telnetd_round_def split: if_splits)
  qed
qed

lemma shell_pid_ok [simp]:
  "session_ok whole (ts\<lparr>shell_pid := p\<rparr>) = session_ok whole ts" "fds_ok n m (ts\<lparr>shell_pid := p\<rparr>) = fds_ok n m ts"
  by (simp_all add: session_ok_def pty_wire_def fds_ok_def)

lemma mark_dead_addrs: "map ts_addr (mark_dead pid tss) = map ts_addr tss"
  by (induction tss) simp_all

lemma mark_dead_ok:
  "\<forall>ts \<in> set tss. session_ok whole ts \<and> fds_ok n m ts \<Longrightarrow>
   \<forall>ts \<in> set (mark_dead pid tss). session_ok whole ts \<and> fds_ok n m ts"
  by (induction tss) simp_all

lemma sigchld_keeps: "globals_ok whole n g \<Longrightarrow> globals_ok whole n (handle_sigchld pids g)"
proof (induction pids arbitrary: g)
  case (Cons pid pids)
  have all: "\<forall>ts \<in> set (sessions g). session_ok whole ts \<and> fds_ok n (maxfd g) ts"
    using Cons.prems by (simp add: globals_ok_def)
  have "length (mark_dead pid (sessions g)) = length (sessions g)"
    using arg_cong [OF mark_dead_addrs, of length pid "sessions g"] by simp
  then have "globals_ok whole n (g\<lparr>sessions := mark_dead pid (sessions g), dead_utmp := d\<rparr>)" for d
    using Cons.prems mark_dead_ok [OF all] mark_dead_addrs by (simp add: globals_ok_def)
  then show ?case
    using Cons.IH Cons.prems by (cases "pid \<le> 0") simp_all
qed simp

section \<open>Reachable states\<close>

text \<open>Rounds of the loop and signals in any order, with any behaviour of the operating system that \<open>round_ok\<close> allows.\<close>

inductive telnetd_reach :: "bool \<Rightarrow> nat \<Rightarrow> nat \<Rightarrow> nat \<Rightarrow> globals \<Rightarrow> bool" for whole master_fd netlink_fd clients where
  start: "telnetd_reach whole master_fd netlink_fd clients
     \<lparr>sessions = [], maxfd = 0, maxclients = clients, dead_utmp = []\<rparr>"
| loop: "telnetd_reach whole master_fd netlink_fd clients g \<Longrightarrow> round_ok whole netlink_fd e g \<Longrightarrow>
     telnetd_round master_fd netlink_fd e g = Inr g' \<Longrightarrow> telnetd_reach whole master_fd netlink_fd clients g'"
| signal: "telnetd_reach whole master_fd netlink_fd clients g \<Longrightarrow>
     telnetd_reach whole master_fd netlink_fd clients (handle_sigchld pids g)"

lemma round_clients:
  assumes "telnetd_round m n e g = Inr g'"
  shows "maxclients g' = maxclients g"
proof -
  have free: "maxclients (free_session a g) = maxclients g" for a g
    by (simp add: free_session_def Let_def)
  have prep: "maxclients (fst (prepare_fds m n g)) = maxclients g"
  proof -
    let ?p = "fold prepare_one (map ts_addr (sessions g)) (g, [], [])"
    have "maxclients (fst ?p) = maxclients g"
      by (rule fold_keeps [where P = "\<lambda>st. maxclients (fst st) = maxclients g"])
        (auto simp: prepare_one_def free split: prod.splits option.splits)
    then show ?thesis
      by (cases ?p) (simp add: prepare_fds_def Let_def raise_maxfd_def)
  qed
  have one: "maxclients (tunnel_one n rdfds wrfds ios a g) = maxclients g" for rdfds wrfds ios a g
    by (auto simp: tunnel_one_def kill_session_def free put_session_def serial_daemon_recvmsg_def Let_def
        split: option.splits list.splits netlink.splits)
  have acc: "maxclients g2 = maxclients g1" if "accept_session m e g1 = Some g2" for g1 g2
    using that by (auto simp: accept_session_def make_new_session_def raise_maxfd_def Let_def split: if_splits)
  have "maxclients (fold (tunnel_one n rdfds wrfds ios) as g) = maxclients g" for rdfds wrfds ios as g
    by (rule fold_keeps [where P = "\<lambda>x. maxclients x = maxclients g"]) (auto simp: one)
  then show ?thesis
    using assms prep acc by (auto simp: telnetd_round_def split: prod.splits option.splits if_splits)
qed

lemma sigchld_clients: "maxclients (handle_sigchld pids g) = maxclients g"
  by (induction pids arbitrary: g) auto

lemma reach_ok:
  assumes "telnetd_reach whole m n c g"
  shows "globals_ok whole n g \<and> maxclients g = c"
  using assms
proof induction
  case start
  show ?case
    by (simp add: globals_ok_def)
qed (auto simp: round_clients sigchld_keeps sigchld_clients intro: round_keeps)

section \<open>Properties of IAC handling\<close>

text \<open>
  C21. Removing IAC sequences in place equals filtering: for a well-formed input buffer, \<open>remove_iacs\<close> hands out
  exactly the characters the filter gives for the contiguous part of the buffer, the buffer then holds
  those characters followed by the bytes that were not consumed, and its indices stay consistent.
\<close>

theorem remove_iacs_filters:
  assumes "ring_ok r"
  shows "\<exists>start r' ws. remove_iacs r = (start, length (fst (iac_filter (ring_front r))), r', ws)
    \<and> take (length (fst (iac_filter (ring_front r)))) (drop start (rb_buf r')) = fst (iac_filter (ring_front r))
    \<and> ring_ok r' \<and> ring_bytes r' = fst (iac_filter (ring_front r)) @ drop (snd (iac_filter (ring_front r))) (ring_bytes r)"
proof -
  obtain start num r' ws where R: "remove_iacs r = (start, num, r', ws)"
    by (cases "remove_iacs r") auto
  show ?thesis
    using remove_iacs_ok [OF assms] R by (auto simp: iacs_removed_def split: prod.splits)
qed

definition literal_ring :: ring where
  "literal_ring = ring_put [255, 255, 97, 98] 4 empty_ring"

lemma literal_ring_ok: "ring_ok literal_ring" "ring_bytes literal_ring = [255, 255, 97, 98]"
  "ring_front literal_ring = [255, 255, 97, 98]"
proof -
  have room: "length [255, 255, 97, 98 :: u8] \<le> ring_room empty_ring"
    by (simp add: ring_room_def empty_ring_def BUFSIZE_def)
  note put = ring_put_ok [OF empty_ring_ok(1) room, of 4]
  show ok: "ring_ok literal_ring" and bytes: "ring_bytes literal_ring = [255, 255, 97, 98]"
    using put by (simp_all add: literal_ring_def)
  have "ring_run literal_ring = 4"
    by (simp add: literal_ring_def ring_run_def ring_put_def empty_ring_def BUFSIZE_def)
  then show "ring_front literal_ring = [255, 255, 97, 98]"
    using ring_front_eq [OF ok] bytes by simp
qed

theorem remove_iacs_filters_witness:
  "\<exists>start r' ws. remove_iacs literal_ring = (start, 3, r', ws) \<and> take 3 (drop start (rb_buf r')) = [255, 97, 98]
    \<and> ring_bytes r' = [255, 97, 98]"
proof -
  have "iac_filter [255, 255, 97, 98] = ([255, 97, 98], 4)"
    by (subst iac_filter.simps, simp add: iac_item_def)+
  then show ?thesis
    using remove_iacs_filters [OF literal_ring_ok(1)] by (auto simp: literal_ring_ok eval_nat_numeral)
qed

text \<open>
  A second pass over characters that the terminal did not take reads an escaped IAC as the start of a command:
  of the input IAC IAC a b, nothing is left after two passes.
\<close>

theorem literal_iac_lost:
  "\<exists>start r' ws. remove_iacs literal_ring = (start, 3, r', ws) \<and> ring_bytes r' = [255, 97, 98]
    \<and> (\<exists>start2 r2 ws2. remove_iacs r' = (start2, 0, r2, ws2) \<and> ring_bytes r2 = [])"
proof -
  have f1: "iac_filter [255, 255, 97, 98] = ([255, 97, 98], 4)"
    by (subst iac_filter.simps, simp add: iac_item_def)+
  have f2: "iac_filter [255, 97, 98] = ([], 3)"
    by (subst iac_filter.simps, simp add: iac_item_def)+
  obtain start num r' ws where R: "remove_iacs literal_ring = (start, num, r', ws)"
    by (cases "remove_iacs literal_ring") auto
  have r': "num = 3" "ring_ok r'" "3 \<le> ring_run r'" "ring_bytes r' = [255, 97, 98]"
    using remove_iacs_ok [OF literal_ring_ok(1)] R f1 by (auto simp: iacs_removed_def literal_ring_ok)
  have "ring_front r' = [255, 97, 98]"
    using r' ring_front_eq [OF r'(2)] by simp
  then have "iacs_removed r' ([], 3) (remove_iacs r')"
    using remove_iacs_ok [OF r'(2)] f2 by simp
  then show ?thesis
    using R r' by (cases "remove_iacs r'") (auto simp: iacs_removed_def)
qed

text \<open>
  C31. What \<open>iac_safe_write\<close> reports, for every socket whose writes take at most what they are given. A count \<open>n\<close> means that exactly the
  first \<open>n\<close> bytes went out, in order and each IAC doubled, with one exception: when a write took only one byte of a pair, the last
  of the \<open>n\<close> bytes is an IAC that went out single and counts as sent. An error means that nothing went out. When every write is
  complete all bytes go out, each IAC doubled.
\<close>

theorem iac_safe_write_truthful:
  assumes "\<forall>k d n. sw k d = Count n \<longrightarrow> n \<le> length d" and "iac_safe_write sw buf = (res, wire)"
  shows "((\<exists>n \<le> length buf. res = Count n
        \<and> (wire = iac_double (take n buf)
           \<or> 0 < n \<and> buf ! (n - 1) = IAC \<and> wire = iac_double (take (n - 1) buf) @ [IAC] \<and> (\<exists>k. sw k [IAC, IAC] = Count 1)))
      \<or> (res = Again \<or> res = Fail) \<and> wire = [])
    \<and> ((\<forall>k d. sw k d = Count (length d)) \<longrightarrow> res = Count (length buf) \<and> wire = iac_double buf)"
proof (intro conjI impI)
  have "wrote_prefix sw buf 0 [] (res, wire)"
    using iac_write_loop_ok [of sw buf 0 "[]" 0] assms by (simp add: iac_safe_write_def write_ok_def)
  then consider n where "n \<le> length buf" "res = Count n" "sent_as sw (take n buf) wire"
    | "res = Again \<or> res = Fail" "wire = []"
    unfolding wrote_prefix_def by auto
  then show "(\<exists>n \<le> length buf. res = Count n
        \<and> (wire = iac_double (take n buf)
           \<or> 0 < n \<and> buf ! (n - 1) = IAC \<and> wire = iac_double (take (n - 1) buf) @ [IAC] \<and> (\<exists>k. sw k [IAC, IAC] = Count 1)))
      \<or> (res = Again \<or> res = Fail) \<and> wire = []"
  proof cases
    case (1 n)
    then show ?thesis
      by (intro disjI1 exI [of _ n]) (auto simp: sent_as_def butlast_take last_conv_nth)
  qed simp
next
  assume "\<forall>k d. sw k d = Count (length d)"
  then show "res = Count (length buf)" and "wire = iac_double buf"
    using iac_write_loop_all [of sw 0 buf 0 "[]"] assms(2) by (simp_all add: iac_safe_write_def writes_all_def)
qed

theorem iac_safe_write_truthful_witness:
  "iac_safe_write (\<lambda>k d. Count (length d)) [1, 255, 2] = (Count 3, [1, 255, 255, 2])"
proof -
  let ?sw = "\<lambda>(k::nat) (d :: u8 list). Count (length d)"
  obtain res wire where W: "iac_safe_write ?sw [1, 255, 2] = (res, wire)"
    by fastforce
  have ok: "\<forall>k d n. ?sw k d = Count n \<longrightarrow> n \<le> length d"
    by simp
  show ?thesis
    using iac_safe_write_truthful [OF ok W] W by simp
qed

text \<open>A socket that takes one byte of the pair leaves a single IAC on the wire, and the byte counts as sent.\<close>

theorem iac_pair_cut: "iac_safe_write (\<lambda>k d. Count 1) [255] = (Count 1, [255])"
  by (simp add: iac_safe_write_def iac_write_loop.simps Let_def)

text \<open>
  What \<open>iac_safe_write\<close> puts on the wire is read back unchanged by the input filter of the same
  protocol, with all bytes consumed, for text without a carriage return before a line feed or a NUL.
\<close>

theorem iac_wire_roundtrip:
  assumes "writes_all sw" and "no_crlf xs"
  shows "\<exists>wire. iac_safe_write sw xs = (Count (length xs), wire) \<and> iac_filter wire = (xs, length wire)"
  using iac_write_loop_all [OF assms(1), of 0 xs 0 "[]"] iac_filter_double [OF assms(2)]
  by (simp add: iac_safe_write_def)

theorem iac_wire_roundtrip_witness: "iac_filter [104, 255, 255, 105] = ([104, 255, 105], 4)"
proof -
  let ?sw = "\<lambda>(k::nat) (d :: u8 list). Count (length d)"
  have "writes_all ?sw" "no_crlf [104, 255, 105]"
    by (simp_all add: writes_all_def)
  from iac_wire_roundtrip [OF this] show ?thesis
    by (auto simp: iac_safe_write_def iac_write_loop.simps Let_def)
qed

section \<open>Properties of the server\<close>

text \<open>
  C4. The server refines a first-in first-out channel. In every state it can reach, through any mix of rounds, short reads
  and writes, dead children and kernel messages: the bytes a session read from its terminal are, in order, those
  the socket took followed by those still buffered. On the wire each byte stands as it is and each IAC doubled, except that an IAC whose
  pair a short write has cut stands single; when no write cuts a pair (\<open>whole\<close>), every IAC is doubled. Both buffers are
  within bounds, and there are never more sessions than clients allowed. Of the system calls it is assumed that reads and writes
  transfer at most what they are given and that a new session gets descriptors above that of the netlink socket.
\<close>

theorem telnetd_fifo:
  assumes "telnetd_reach whole master_fd netlink_fd clients g" and "ts \<in> set (sessions g)"
  shows "(\<exists>sent. from_pty ts = sent @ ring_bytes (ring2 ts) \<and> wire_shows sent (pty_wire ts)
        \<and> (whole \<longrightarrow> pty_wire ts = iac_double sent))
    \<and> ring_ok (ring1 ts) \<and> ring_ok (ring2 ts) \<and> length (sessions g) \<le> clients"
proof -
  have "globals_ok whole netlink_fd g" "maxclients g = clients"
    using reach_ok [OF assms(1)] by auto
  then show ?thesis
    using assms(2) by (auto simp: globals_ok_def session_ok_def)
qed

definition example_io :: session_io where
  "example_io = \<lparr>pty_write = (\<lambda>d. Again), sock_write = (\<lambda>k d. Again), sock_read = (\<lambda>n. Rd_again),
     pty_read = (\<lambda>n. if 2 \<le> n then Got [72, 255] else Rd_again), nl_recv = Nl_error, nl_beyond = (\<lambda>_. 0), nl_write = (\<lambda>k d. Again)\<rparr>"

definition example_round :: round_env where
  "example_round = \<lparr>sel_count = 2, sel_rd = [3, 7], sel_wr = [], acc_fd = 6, new_addr = 1000, new_pty = 7, new_pid = 50,
     sess_io = (\<lambda>_. example_io)\<rparr>"

definition example_start :: globals where
  "example_start = \<lparr>sessions = [], maxfd = 0, maxclients = 1, dead_utmp = []\<rparr>"

definition example_session :: tsession where
  "example_session = \<lparr>ts_addr = 1000, shell_pid = 50, sockfd_read = 6, sockfd_write = 6, ptyfd = 7,
     ring1 = empty_ring, ring2 = ring_put [72, 255] 2 empty_ring, to_pty = [], winsizes = [],
     to_sock = [Hello iacs_to_send], from_sock = [], from_pty = [72, 255]\<rparr>"

definition example_globals :: globals where
  "example_globals = \<lparr>sessions = [example_session], maxfd = 7, maxclients = 1, dead_utmp = []\<rparr>"

lemma example_round_ok: "round_ok whole 4 example_round example_start"
  by (simp add: round_ok_def example_round_def example_start_def example_io_def session_io_ok_def write_ok_def
      pairs_whole_def read_ok_def)

lemma example_room: "ring_room empty_ring = 2026"
  by (simp add: ring_room_def empty_ring_def BUFSIZE_def)

lemma example_step: "telnetd_round 3 4 example_round example_start = Inr example_globals"
proof -
  have reset: "ring_reset empty_ring = empty_ring"
    by (simp add: ring_reset_def empty_ring_def)
  show ?thesis
    by (simp add: telnetd_round_def prepare_fds_def example_round_def example_start_def example_globals_def Let_def
        raise_maxfd_def accept_session_def new_session_is_allowed_def make_new_session_def tunnel_one_def get_session_def
        tunnel_write_pty_def put_session_def tunnel_rest_def tunnel_write_sock_def tunnel_reset_def reset
        tunnel_read_sock_def tunnel_read_pty_def example_io_def example_room example_session_def numeral_2_eq_2)
qed

lemma example_reach: "telnetd_reach whole 3 4 1 example_globals"
  using telnetd_reach.loop [OF telnetd_reach.start [of whole 3 4 1, folded example_start_def] example_round_ok example_step] .

theorem telnetd_fifo_witness:
  "\<exists>sent. [72, 255] = sent @ ring_bytes (ring2 example_session) \<and> wire_shows sent (pty_wire example_session)
    \<and> pty_wire example_session = iac_double sent"
  using telnetd_fifo [OF example_reach [of True], of example_session]
  by (simp add: example_globals_def) (simp add: example_session_def)

definition session_fds :: "tsession \<Rightarrow> nat set" where
  "session_fds ts = {ptyfd ts, sockfd_read ts, sockfd_write ts}"

lemma prepare_fold_fds:
  assumes "distinct as" and "\<forall>fd \<in> set rdfds \<union> set wrfds. \<exists>ts \<in> set (sessions g). ts_addr ts \<notin> set as \<and> fd \<in> session_fds ts"
    and "fold prepare_one as (g, rdfds, wrfds) = (g', rdfds', wrfds')"
  shows "\<forall>fd \<in> set rdfds' \<union> set wrfds'. \<exists>ts \<in> set (sessions g'). fd \<in> session_fds ts"
  using assms
proof (induction as arbitrary: g rdfds wrfds)
  case (Cons a as)
  obtain g1 rd1 wr1 where p: "prepare_one a (g, rdfds, wrfds) = (g1, rd1, wr1)"
    by (cases "prepare_one a (g, rdfds, wrfds)")
  have "\<forall>fd \<in> set rd1 \<union> set wr1. \<exists>ts \<in> set (sessions g1). ts_addr ts \<notin> set as \<and> fd \<in> session_fds ts"
  proof (cases "get_session a g")
    case None
    then show ?thesis
      using p Cons.prems(2) by (auto simp: prepare_one_def)
  next
    case (Some ts)
    note ts = get_session_Some [OF Some]
    show ?thesis
    proof (cases "shell_pid ts = -1")
      case True
      then have "g1 = free_session a g" "rd1 = rdfds" "wr1 = wrfds"
        using p Some by (auto simp: prepare_one_def)
      then show ?thesis
        using Cons.prems(2) by (fastforce simp: free_session_def Let_def)
    next
      case False
      then have g1: "g1 = g" and new: "set rd1 \<union> set wr1 \<subseteq> set rdfds \<union> set wrfds \<union> session_fds ts"
        using p Some by (auto simp: prepare_one_def session_fds_def split: if_splits)
      have "ts_addr ts \<notin> set as"
        using ts Cons.prems(1) by auto
      then show ?thesis
        using Cons.prems(2) new ts unfolding g1 by (metis Un_iff list.set_intros(2) subsetD)
    qed
  qed
  then show ?case
    using Cons.IH [of rd1 wr1 g1] Cons.prems(1,3) p by simp
qed simp

text \<open>
  The set of descriptors passed to \<open>select\<close> is covered by \<open>maxfd\<close>: in every reachable state, after the loop has collected the
  descriptors, that of the listening socket and all those of sessions are at most \<open>maxfd\<close>. The netlink socket
  is covered as long as there is a session.
\<close>

theorem select_covers:
  assumes "telnetd_reach whole master_fd netlink_fd clients g" and "prepare_fds master_fd netlink_fd g = (g', rdfds, wrfds)"
  shows "(\<forall>fd \<in> (set rdfds \<union> set wrfds) - {netlink_fd}. fd \<le> maxfd g')
    \<and> (sessions g' \<noteq> [] \<longrightarrow> netlink_fd \<le> maxfd g')"
proof -
  have g: "globals_ok whole netlink_fd g"
    using reach_ok [OF assms(1)] by simp
  obtain g1 rd1 wr1 where p: "fold prepare_one (map ts_addr (sessions g)) (g, [], []) = (g1, rd1, wr1)"
    by (cases "fold prepare_one (map ts_addr (sessions g)) (g, [], [])")
  have fds: "\<forall>fd \<in> set rd1 \<union> set wr1. \<exists>ts \<in> set (sessions g1). fd \<in> session_fds ts"
    using prepare_fold_fds [OF _ _ p] g by (simp add: globals_ok_def)
  have g': "globals_ok whole netlink_fd g'"
    using prepare_fds_ok [OF g, of master_fd] assms(2) by simp
  have same: "sessions g' = sessions g1" and sets: "rdfds = netlink_fd # master_fd # rd1" "wrfds = wr1"
    and m: "master_fd \<le> maxfd g'"
    using assms(2) p by (auto simp: prepare_fds_def Let_def raise_maxfd_def split: if_splits)
  have cover: "fd \<le> maxfd g'" if "ts \<in> set (sessions g')" "fd \<in> session_fds ts" for fd ts
    using globals_ok_mem [OF g' that(1)] that(2) by (auto simp: fds_ok_def session_fds_def)
  have nl: "netlink_fd \<le> maxfd g'" if ne: "sessions g' \<noteq> []"
    using netlink_above_maxfd [OF g'] ne by (cases "netlink_fd \<le> maxfd g'") auto
  have "fd \<le> maxfd g'" if "fd \<in> set rd1 \<union> set wr1" for fd
    using fds cover that unfolding same by blast
  then show ?thesis
    using m nl unfolding sets by auto
qed

theorem select_covers_witness:
  "3 \<le> maxfd (fst (prepare_fds 3 4 example_globals)) \<and> 7 \<le> maxfd (fst (prepare_fds 3 4 example_globals))"
proof -
  have small: "rb_size (ring_put [72, 255] 2 empty_ring) = 2" "rb_size empty_ring = 0"
    by (simp_all add: ring_put_def empty_ring_def)
  obtain g' rdfds wrfds where p: "prepare_fds 3 4 example_globals = (g', rdfds, wrfds)"
    by (cases "prepare_fds 3 4 example_globals")
  then have "{3, 6, 7} \<subseteq> (set rdfds \<union> set wrfds) - {4}"
    by (auto simp: prepare_fds_def example_globals_def example_session_def prepare_one_def get_session_def raise_maxfd_def
        Let_def small BUFSIZE_def)
  then show ?thesis
    using select_covers [OF example_reach p] p by auto
qed

text \<open>
  When the netlink socket has the highest number, \<open>maxfd\<close> becomes that of the listening socket: \<open>select\<close> then
  watches neither the netlink socket nor the sessions.
\<close>

theorem netlink_fd_hides_sessions:
  "\<exists>g' rdfds wrfds. prepare_fds 3 9 example_globals = (g', rdfds, wrfds) \<and> {6, 7, 9} \<subseteq> set rdfds \<and> maxfd g' = 3"
proof -
  have small: "rb_size (ring_put [72, 255] 2 empty_ring) = 2" "rb_size empty_ring = 0"
    by (simp_all add: ring_put_def empty_ring_def)
  show ?thesis
    by (simp add: prepare_fds_def example_globals_def example_session_def prepare_one_def get_session_def raise_maxfd_def
        Let_def small BUFSIZE_def)
qed

end
