(* ===== verification/Serial_Props.thy ===== *)
theory Serial_Props
  imports Serial_Daemon Telnet_Props
begin

text \<open>
  The serial log: the module never leaves its page, the process that is written to the proc
  file is the one that is read back, and console output reaches the telnet client unchanged.
\<close>

section \<open>Runs of the module\<close>

datatype sd_op =
    Sd_write "u8 list" | Sd_putchar u8 | Sd_complete | Sd_send bool "nat \<Rightarrow> bool"
  | Sd_control nat nat int | Sd_proc bool string

fun sd_step :: "(int \<Rightarrow> bool) \<Rightarrow> sd_op \<Rightarrow> uart_daemon \<Rightarrow> sd_error + netlink list \<times> uart_daemon" where
  "sd_step task (Sd_write data) d = map_sum id (\<lambda>(_, d'). ([], d')) (serial_daemon_write data d)"
| "sd_step task (Sd_putchar ch) d = map_sum id (\<lambda>(_, d'). ([], d')) (serial_daemon_putchar ch d)"
| "sd_step task Sd_complete d = Inr ([], serial_daemon_complete d)"
| "sd_step task (Sd_send have_skb fits) d =
     map_sum id (\<lambda>(m, d'). (case m of None \<Rightarrow> [] | Some x \<Rightarrow> [x], d')) (serial_daemon_kthread have_skb fits d)"
| "sd_step task (Sd_control len flags pid) d = Inr ([], serial_daemon_control task len flags pid d)"
| "sd_step task (Sd_proc fault buffer) d = Inr ([], snd (serial_daemon_proc_write task fault buffer d))"

fun sd_run :: "(int \<Rightarrow> bool) \<Rightarrow> sd_op list \<Rightarrow> uart_daemon \<Rightarrow> sd_error + netlink list \<times> uart_daemon" where
  "sd_run task [] d = Inr ([], d)"
| "sd_run task (x # xs) d =
     (case sd_step task x d of
        Inl e \<Rightarrow> Inl e
      | Inr (ms, d1) \<Rightarrow> map_sum id (\<lambda>(ms', d2). (ms @ ms', d2)) (sd_run task xs d1))"

text \<open>What the callers keep to: no write is longer than the page.\<close>

fun sd_op_ok :: "sd_op \<Rightarrow> bool" where
  "sd_op_ok (Sd_write data) = (length data \<le> 4096)"
| "sd_op_ok _ = True"

text \<open>A send for which no message can be allocated, or one without room for what is buffered.\<close>

fun sd_unsendable :: "uart_daemon \<Rightarrow> sd_op \<Rightarrow> bool" where
  "sd_unsendable d (Sd_send have_skb fits) = (attached d \<and> 0 < sd_length d \<and> (\<not> have_skb \<or> \<not> fits (sd_length d)))"
| "sd_unsendable d _ = False"

definition sd_inv :: "uart_daemon \<Rightarrow> bool" where
  "sd_inv d \<longleftrightarrow> (\<exists>buf. sd_buf d = Some buf \<and> length buf = 4096) \<and> sd_length d \<le> 4096"

fun msg_ok :: "netlink \<Rightarrow> bool" where
  "msg_ok (Nl_msg len payload) = (len = length payload \<and> 0 < len \<and> len \<le> 4096)"
| "msg_ok _ = False"

definition sd_good :: "sd_error + netlink list \<times> uart_daemon \<Rightarrow> bool" where
  "sd_good r \<longleftrightarrow> (\<exists>ms d. r = Inr (ms, d) \<and> sd_inv d \<and> list_all msg_ok ms)"

lemma make_room_inv:
  assumes "sd_inv d" and "len \<le> 4096"
  shows "sd_inv (sd_make_room len d) \<and> sd_length (sd_make_room len d) + len \<le> 4096"
proof -
  have "(sd_length d + len) mod 2 ^ 32 = sd_length d + len"
    using assms by (intro mod_less) (simp add: sd_inv_def)
  then show ?thesis
    using assms by (auto simp: sd_make_room_def sd_inv_def)
qed

lemma copy_inv:
  assumes "sd_inv d" and "sd_length d + length data \<le> 4096"
  shows "\<exists>d'. sd_copy data d = Inr d' \<and> sd_inv d'"
  using assms by (auto simp: sd_copy_def sd_inv_def)

lemma copy_room_inv:
  assumes "sd_inv d" and "length data \<le> 4096"
  shows "\<exists>d'. sd_copy data (sd_make_room (length data) d) = Inr d' \<and> sd_inv d'"
  using make_room_inv [OF assms] copy_inv by blast

lemma sd_step_good:
  assumes "sd_inv d" and "sd_op_ok x"
  shows "if sd_unsendable d x then sd_step task x d = Inl Null_pointer else sd_good (sd_step task x d)"
proof (cases x)
  case (Sd_write data)
  then show ?thesis
    using assms copy_room_inv [OF assms(1), of data] by (auto simp: serial_daemon_write_def sd_good_def)
next
  case (Sd_putchar ch)
  then show ?thesis
    using assms copy_room_inv [OF assms(1), of "[ch]"] by (auto simp: serial_daemon_putchar_def sd_good_def)
next
  case (Sd_send have_skb fits)
  then show ?thesis
    using assms by (auto simp: serial_daemon_kthread_def attached_def sd_good_def sd_inv_def Let_def)
next
  case Sd_complete
  then show ?thesis
    using assms by (simp add: serial_daemon_complete_def sd_good_def sd_inv_def)
next
  case (Sd_control len flags pid)
  then show ?thesis
    using assms by (simp add: serial_daemon_control_def sd_good_def sd_inv_def)
next
  case (Sd_proc fault buffer)
  then show ?thesis
    using assms by (simp add: serial_daemon_proc_write_def sd_good_def sd_inv_def Let_def)
qed

text \<open>Where a run ends at a null pointer: at a send that cannot be done, after operations that went well.\<close>

definition sd_null_at :: "(int \<Rightarrow> bool) \<Rightarrow> sd_op list \<Rightarrow> uart_daemon \<Rightarrow> bool" where
  "sd_null_at task ops d \<longleftrightarrow>
     (\<exists>before x rest ms d'. ops = before @ x # rest \<and> sd_run task before d = Inr (ms, d') \<and> sd_unsendable d' x)"

lemma sd_run_good:
  assumes "sd_inv d" and "list_all sd_op_ok ops"
  shows "sd_good (sd_run task ops d) \<or> sd_run task ops d = Inl Null_pointer \<and> sd_null_at task ops d"
  using assms
proof (induction ops arbitrary: d)
  case (Cons x xs)
  note step = sd_step_good [OF Cons.prems(1), of x task]
  show ?case
  proof (cases "sd_unsendable d x")
    case True
    then have "sd_null_at task (x # xs) d"
      unfolding sd_null_at_def by (intro exI [of _ "[]"] exI [of _ x] exI [of _ xs]) simp
    then show ?thesis
      using step True Cons.prems(2) by simp
  next
    case False
    then obtain ms d1 where s: "sd_step task x d = Inr (ms, d1)" "sd_inv d1" "list_all msg_ok ms"
      using step Cons.prems(2) by (auto simp: sd_good_def)
    consider ms' d2 where "sd_run task xs d1 = Inr (ms', d2)" "sd_inv d2" "list_all msg_ok ms'"
      | "sd_run task xs d1 = Inl Null_pointer" "sd_null_at task xs d1"
      using Cons.IH [OF s(2)] Cons.prems(2) by (auto simp: sd_good_def)
    then show ?thesis
    proof cases
      case 1
      then show ?thesis
        using s by (simp add: sd_good_def)
    next
      case 2
      then obtain pre y rest ms' d' where "xs = pre @ y # rest" "sd_run task pre d1 = Inr (ms', d')" "sd_unsendable d' y"
        unfolding sd_null_at_def by blast
      then have "sd_null_at task (x # xs) d"
        using s(1) unfolding sd_null_at_def by (intro exI [of _ "x # pre"] exI [of _ y] exI [of _ rest]) simp
      then show ?thesis
        using 2 s(1) by simp
    qed
  qed
qed (simp add: sd_good_def)

lemma sd_init_inv: "sd_inv (snd (serial_daemon_init True True True))"
  by (simp add: serial_daemon_init_def sd_inv_def)

text \<open>
  C24. After a successful initialisation, and as long as no single write is longer than the page, no sequence of console writes, characters,
  wake-ups, sends, attach and detach requests and writes to the proc file takes the module outside its page. The run either completes, and
  then every message sent carries its exact length, which telnetd can hold; or it ends at a null pointer, and then at a send
  with a process attached and text in the buffer for which the message could not be allocated or has no room for that text, which the code does not
  check.
\<close>

theorem serial_daemon_safe:
  assumes "\<forall>data. Sd_write data \<in> set ops \<longrightarrow> length data \<le> 4096"
  shows "(\<exists>ms d. sd_run task ops (snd (serial_daemon_init True True True)) = Inr (ms, d) \<and> sd_length d \<le> 4096
      \<and> (\<forall>m \<in> set ms. \<exists>payload. m = Nl_msg (length payload) payload \<and> 0 < length payload \<and> length payload \<le> 4096))
    \<or> sd_run task ops (snd (serial_daemon_init True True True)) = Inl Null_pointer
      \<and> (\<exists>before have_skb fits rest ms d. ops = before @ Sd_send have_skb fits # rest
           \<and> sd_run task before (snd (serial_daemon_init True True True)) = Inr (ms, d)
           \<and> attached d \<and> 0 < sd_length d \<and> (\<not> have_skb \<or> \<not> fits (sd_length d)))"
proof -
  let ?d = "snd (serial_daemon_init True True True)"
  have "sd_op_ok x" if "x \<in> set ops" for x
    using assms that by (cases x) auto
  then have "list_all sd_op_ok ops"
    by (simp add: list_all_iff)
  from sd_run_good [OF sd_init_inv this, of task]
  consider ms d where "sd_run task ops ?d = Inr (ms, d)" "sd_inv d" "list_all msg_ok ms"
    | "sd_run task ops ?d = Inl Null_pointer" "sd_null_at task ops ?d"
    by (auto simp: sd_good_def)
  then show ?thesis
  proof cases
    case (1 ms d)
    have "\<exists>payload. m = Nl_msg (length payload) payload \<and> 0 < length payload \<and> length payload \<le> 4096" if "m \<in> set ms" for m
      using 1(3) that by (cases m) (auto simp: list_all_iff dest!: bspec)
    then show ?thesis
      using 1 by (simp add: sd_inv_def)
  next
    case 2
    then obtain pre x rest ms d where x: "ops = pre @ x # rest" "sd_run task pre ?d = Inr (ms, d)" "sd_unsendable d x"
      unfolding sd_null_at_def by blast
    then obtain have_skb fits where "x = Sd_send have_skb fits" "attached d" "0 < sd_length d" "\<not> have_skb \<or> \<not> fits (sd_length d)"
      by (cases x) auto
    then show ?thesis
      using 2(1) x by blast
  qed
qed

theorem serial_daemon_safe_witness:
  "\<exists>ms d. sd_run (\<lambda>p. p = 7) [Sd_control 16 0x11 7, Sd_write [104, 105], Sd_complete, Sd_send True (\<lambda>n. n \<le> 4000)]
     (snd (serial_daemon_init True True True)) = Inr (ms, d) \<and> sd_length d \<le> 4096"
proof -
  let ?ops = "[Sd_control 16 0x11 7, Sd_write [104, 105], Sd_complete, Sd_send True (\<lambda>n. n \<le> 4000)]"
  have "sd_run (\<lambda>p. p = 7) ?ops (snd (serial_daemon_init True True True)) \<noteq> Inl Null_pointer"
    by (simp add: serial_daemon_init_def sd_zero_def serial_daemon_control_def serial_daemon_write_def attached_def sd_copy_def
        sd_make_room_def serial_daemon_complete_def serial_daemon_kthread_def Let_def)
  then show ?thesis
    using serial_daemon_safe [of ?ops "\<lambda>p. p = 7"] by auto
qed

text \<open>A write longer than the page empties the buffer first and then leaves the page all the same.\<close>

theorem long_write_leaves_page:
  assumes "attached d" and "sd_inv d" and "4096 < length data" and "length data < 2 ^ 31"
  shows "serial_daemon_write data d = Inl Out_of_page"
proof -
  have "(sd_length d + length data) mod 2 ^ 32 = sd_length d + length data"
    using assms by (intro mod_less) (simp add: sd_inv_def)
  then have "sd_make_room (length data) d = d\<lparr>sd_length := 0\<rparr>"
    using assms(3) by (simp add: sd_make_room_def)
  then show ?thesis
    using assms by (auto simp: serial_daemon_write_def sd_copy_def sd_inv_def)
qed

section \<open>The proc file\<close>

lemma digit_props: "is_digit c \<Longrightarrow> \<not> is_space c \<and> c \<noteq> CHR ''-'' \<and> c \<noteq> CHR 0x00"
  by (auto simp: is_digit_def is_space_def)

lemma sscanf_digits:
  assumes "int n < 2 ^ 31"
  shows "sscanf_int (nat_digits n @ [CHR 0x0A]) = Some (int n)"
proof -
  obtain c ds where d: "nat_digits n = c # ds"
    using digits_nonempty by (cases "nat_digits n") auto
  have c: "is_digit c" and all: "list_all is_digit (nat_digits n)"
    using digits_all [of n] by (simp_all add: d)
  have "takeWhile is_digit (nat_digits n @ [CHR 0x0A]) = nat_digits n"
    using all by (simp add: takeWhile_append list_all_iff is_digit_def)
  moreover have "dropWhile is_space (nat_digits n @ [CHR 0x0A]) = nat_digits n @ [CHR 0x0A]"
    using digit_props [OF c] by (simp add: d)
  moreover have "signed_take_bit 31 (int n) = int n"
    using assms by (simp add: signed_take_bit_int_eq_self)
  ultimately show ?thesis
    using digit_props [OF c] digits_value_digits [of n] by (simp add: sscanf_int_def Let_def d)
qed

text \<open>
  The proc file reads back what was written: writing the decimal number of a live process attaches it and returns the
  number of bytes written, and the file then shows that number.
\<close>

theorem proc_pid_roundtrip:
  assumes "0 < pid" and "pid < 2 ^ 31" and "task (int pid)"
  shows "serial_daemon_proc_write task False (nat_digits pid @ [CHR 0x0A]) d =
      (int (length (nat_digits pid)) + 1, d\<lparr>sd_pid := int pid\<rparr>)
    \<and> serial_daemon_proc_read (d\<lparr>sd_pid := int pid\<rparr>) = ''Serial Daemon Pid = '' @ nat_digits pid @ [CHR 0x0A]"
proof -
  have len: "length (nat_digits pid) \<le> 10"
    using assms(2) by (intro length_digits) simp_all
  have "list_all (\<lambda>c. c \<noteq> CHR 0x00) (nat_digits pid)"
    using digits_all [of pid] digit_props by (auto simp: list_all_iff)
  then have "takeWhile (\<lambda>c. c \<noteq> CHR 0x00) (nat_digits pid @ [CHR 0x0A]) = nat_digits pid @ [CHR 0x0A]"
    by (auto simp: takeWhile_append list_all_iff)
  then show ?thesis
    using len sscanf_digits [of pid] assms
    by (simp add: serial_daemon_proc_write_def serial_daemon_proc_read_def int_digits_def Let_def)
qed

theorem proc_pid_roundtrip_witness:
  "snd (serial_daemon_proc_write (\<lambda>p. p = 123) False (''123'' @ [CHR 0x0A]) sd_zero) = sd_zero\<lparr>sd_pid := 123\<rparr>"
proof -
  have "nat_digits 123 = ''123''"
    by (simp add: nat_digits.simps char_of_def bit_0)
  then show ?thesis
    using proc_pid_roundtrip [of 123 "\<lambda>p. p = 123" sd_zero] by simp
qed

section \<open>From the console to the client\<close>

definition pending :: "uart_daemon \<Rightarrow> u8 list" where
  "pending d = (case sd_buf d of None \<Rightarrow> [] | Some buf \<Rightarrow> take (sd_length d) buf)"

fun sd_writes :: "u8 list list \<Rightarrow> uart_daemon \<Rightarrow> sd_error + uart_daemon" where
  "sd_writes [] d = Inr d"
| "sd_writes (x # xs) d = (case serial_daemon_write x d of Inl e \<Rightarrow> Inl e | Inr (_, d') \<Rightarrow> sd_writes xs d')"

lemma write_appends:
  assumes "attached d" and "sd_inv d" and "sd_length d + length x \<le> 4096"
  shows "\<exists>d'. serial_daemon_write x d = Inr (length x, d') \<and> attached d' \<and> sd_inv d' \<and> pending d' = pending d @ x
    \<and> sd_length d' = sd_length d + length x"
proof -
  have "(sd_length d + length x) mod 2 ^ 32 = sd_length d + length x"
    using assms(3) by (intro mod_less) simp
  then have room: "sd_make_room (length x) d = d"
    using assms(3) by (simp add: sd_make_room_def)
  obtain buf where buf: "sd_buf d = Some buf" "length buf = 4096"
    using assms(2) by (auto simp: sd_inv_def)
  have "take (sd_length d + length x) (buf_store (sd_length d) x buf) = take (sd_length d) buf @ x"
    using assms(3) buf by (simp add: buf_store_def)
  then show ?thesis
    using assms room buf by (simp add: serial_daemon_write_def sd_copy_def attached_def sd_inv_def pending_def)
qed

lemma writes_append:
  assumes "attached d" and "sd_inv d" and "sd_length d + length (concat xs) \<le> 4096"
  shows "\<exists>d'. sd_writes xs d = Inr d' \<and> attached d' \<and> sd_inv d' \<and> pending d' = pending d @ concat xs
    \<and> sd_length d' = sd_length d + length (concat xs)"
  using assms
proof (induction xs arbitrary: d)
  case (Cons x xs)
  obtain d1 where d1: "serial_daemon_write x d = Inr (length x, d1)" "attached d1" "sd_inv d1" "pending d1 = pending d @ x"
    "sd_length d1 = sd_length d + length x"
    using write_appends [OF Cons.prems(1,2), of x] Cons.prems(3) by auto
  then show ?case
    using Cons.IH [OF d1(2,3)] Cons.prems(3) by auto
qed simp

text \<open>
  C23. Console output reaches the telnet client unchanged, through the module, netlink, telnetd and the
  telnet protocol: what was written to an attached, empty buffer in any number of pieces is sent as one message,
  telnetd writes it to its first session, and the input filter of the protocol gives back exactly that text.
  This holds for text that fits the page and has no carriage return before a line feed or a NUL, when the message could be allocated and has
  room for the text (a message of the default size has none for a full page) and the socket takes all of it.
\<close>

theorem console_reaches_client:
  assumes "attached d" and "sd_inv d" and "sd_length d = 0" and "concat xs \<noteq> []" and "length (concat xs) \<le> 4096"
    and "no_crlf (concat xs)" and "fits (length (concat xs))" and "writes_all sw" and "sessions g = ts # tss"
  shows "\<exists>d1 d2 msg wire. sd_writes xs d = Inr d1 \<and> serial_daemon_kthread True fits d1 = Inr (Some msg, d2)
    \<and> sd_length d2 = 0 \<and> sessions (serial_daemon_recvmsg msg beyond sw g) = log_sock (From_kernel wire) ts # tss
    \<and> iac_filter wire = (concat xs, length wire)"
proof -
  obtain d1 where d1: "sd_writes xs d = Inr d1" "attached d1" "sd_inv d1" "pending d1 = pending d @ concat xs"
    "sd_length d1 = length (concat xs)"
    using writes_append [OF assms(1,2), of xs] assms(3,5) by auto
  have pend: "pending d1 = concat xs"
    using d1(4) assms(3) by (simp add: pending_def split: option.splits)
  obtain buf where buf: "sd_buf d1 = Some buf"
    using d1(3) by (auto simp: sd_inv_def)
  have take: "take (length (concat xs)) buf = concat xs"
    using pend buf d1(5) by (simp add: pending_def)
  have send: "serial_daemon_kthread True fits d1 =
      Inr (Some (Nl_msg (length (concat xs)) (concat xs)), d1\<lparr>sd_completion := sd_completion d1 - 1, sd_length := 0\<rparr>)"
    using d1(2,5) buf assms(4,5,7) take by (simp add: serial_daemon_kthread_def attached_def Let_def)
  have "nl_data beyond (length (concat xs)) (concat xs) = concat xs"
    using assms(5) by (simp add: nl_data_def)
  moreover have "snd (iac_safe_write sw (concat xs)) = iac_double (concat xs)"
    using iac_write_loop_all [OF assms(8)] by (simp add: iac_safe_write_def)
  ultimately have "sessions (serial_daemon_recvmsg (Nl_msg (length (concat xs)) (concat xs)) beyond sw g) =
      log_sock (From_kernel (iac_double (concat xs))) ts # tss"
    using assms(9) by (simp add: serial_daemon_recvmsg_def)
  then show ?thesis
    using d1(1) send iac_filter_double [OF assms(6)] by auto
qed

theorem console_reaches_client_witness:
  "\<exists>d1 d2 msg wire. sd_writes [[104, 105], [255]] ((snd (serial_daemon_init True True True))\<lparr>sd_pid := 7\<rparr>) = Inr d1
    \<and> serial_daemon_kthread True (\<lambda>n. n < 4000) d1 = Inr (Some msg, d2)
    \<and> sessions (serial_daemon_recvmsg msg (\<lambda>i. 0) (\<lambda>k x. Count (length x)) example_globals) = [log_sock (From_kernel wire) example_session]
    \<and> iac_filter wire = ([104, 105, 255], length wire)"
proof -
  let ?d = "(snd (serial_daemon_init True True True))\<lparr>sd_pid := 7\<rparr>"
  have 1: "attached ?d" "sd_inv ?d" "sd_length ?d = 0"
    by (simp_all add: attached_def sd_inv_def serial_daemon_init_def)
  have 2: "concat [[104, 105], [255 :: u8]] \<noteq> []" "length (concat [[104, 105], [255 :: u8]]) \<le> 4096"
    "no_crlf (concat [[104, 105], [255]])" "(\<lambda>n. n < (4000::nat)) (length (concat [[104, 105], [255 :: u8]]))"
    "writes_all (\<lambda>k x. Count (length x))" "sessions example_globals = [example_session]"
    by (simp_all add: writes_all_def example_globals_def)
  show ?thesis
    using console_reaches_client [where fits = "\<lambda>n. n < 4000" and beyond = "\<lambda>i. 0", OF 1 2] by auto
qed

end
