(* ===== verification/Uart_Types.thy ===== *)
theory Uart_Types
  imports Serial_Daemon
begin

text \<open>
  The data of the serial core (module/serial_daemon/kernel/drivers/serial/serial_core.c): the port of
  a low-level driver, the state the core keeps for a line, the terminal that is attached to it, and
  the operations a low-level driver provides.

  The structures and the constants come from the kernel's headers (serial_core.h, serial.h, tty.h,
  termbits.h, circ_buf.h) with their published values for a 32-bit ARM kernel; only the members that
  the core uses are kept. Words that are handled as a whole keep their width; the bits of
  \<open>tty_port.flags\<close> and \<open>tty_struct.flags\<close>, which the core only sets, clears and tests one at a time,
  are booleans.
\<close>

section \<open>Constants\<close>

abbreviation (input) "EPERM \<equiv> (1 :: int)"
abbreviation (input) "EIO \<equiv> (5 :: int)"
abbreviation (input) "ENXIO \<equiv> (6 :: int)"
abbreviation (input) "EAGAIN \<equiv> (11 :: int)"
abbreviation (input) "ENOMEM \<equiv> (12 :: int)"
abbreviation (input) "ENODEV \<equiv> (19 :: int)"
abbreviation (input) "EL3HLT \<equiv> (46 :: int)"
abbreviation (input) "ERESTARTSYS \<equiv> (512 :: int)"
abbreviation (input) "ENOIOCTLCMD \<equiv> (515 :: int)"

abbreviation (input) "HZ \<equiv> (100 :: nat)"

text \<open>Bits of \<open>c_cflag\<close> and \<open>c_iflag\<close>.\<close>

abbreviation (input) "CBAUD \<equiv> (0x100F :: u32)"
abbreviation (input) "CSIZE \<equiv> (0x30 :: u32)"
abbreviation (input) "CS5 \<equiv> (0x00 :: u32)"
abbreviation (input) "CS6 \<equiv> (0x10 :: u32)"
abbreviation (input) "CS7 \<equiv> (0x20 :: u32)"
abbreviation (input) "CS8 \<equiv> (0x30 :: u32)"
abbreviation (input) "CSTOPB \<equiv> (0x40 :: u32)"
abbreviation (input) "CREAD \<equiv> (0x80 :: u32)"
abbreviation (input) "PARENB \<equiv> (0x100 :: u32)"
abbreviation (input) "PARODD \<equiv> (0x200 :: u32)"
abbreviation (input) "HUPCL \<equiv> (0x400 :: u32)"
abbreviation (input) "CLOCAL \<equiv> (0x800 :: u32)"
abbreviation (input) "CRTSCTS \<equiv> (0x80000000 :: u32)"
abbreviation (input) "IXOFF \<equiv> (0x1000 :: u32)"
abbreviation (input) "IFLAG_LINE \<equiv> (0x1F :: u32)"

text \<open>Modem lines, and the bit of the line status that says that the transmitter is empty.\<close>

abbreviation (input) "TIOCM_DTR \<equiv> (0x002 :: u32)"
abbreviation (input) "TIOCM_RTS \<equiv> (0x004 :: u32)"
abbreviation (input) "TIOCM_CTS \<equiv> (0x020 :: u32)"
abbreviation (input) "TIOCM_CAR \<equiv> (0x040 :: u32)"
abbreviation (input) "TIOCM_RNG \<equiv> (0x080 :: u32)"
abbreviation (input) "TIOCM_DSR \<equiv> (0x100 :: u32)"
abbreviation (input) "TIOCSER_TEMT \<equiv> (0x01 :: u32)"

text \<open>Bits of \<open>uart_port.flags\<close>.\<close>

abbreviation (input) "UPF_SPD_HI \<equiv> (0x0010 :: u32)"
abbreviation (input) "UPF_SPD_VHI \<equiv> (0x0020 :: u32)"
abbreviation (input) "UPF_SPD_CUST \<equiv> (0x0030 :: u32)"
abbreviation (input) "UPF_SPD_SHI \<equiv> (0x1000 :: u32)"
abbreviation (input) "UPF_SPD_WARP \<equiv> (0x1010 :: u32)"
abbreviation (input) "UPF_SPD_MASK \<equiv> (0x1030 :: u32)"
abbreviation (input) "UPF_AUTO_IRQ \<equiv> (0x0080 :: u32)"
abbreviation (input) "UPF_LOW_LATENCY \<equiv> (0x2000 :: u32)"
abbreviation (input) "UPF_FIXED_TYPE \<equiv> (0x08000000 :: u32)"
abbreviation (input) "UPF_BOOT_AUTOCONF \<equiv> (0x10000000 :: u32)"
abbreviation (input) "UPF_FIXED_PORT \<equiv> (0x20000000 :: u32)"
abbreviation (input) "UPF_DEAD \<equiv> (0x40000000 :: u32)"
abbreviation (input) "UPF_CHANGE_MASK \<equiv> (0x17FFF :: u32)"
abbreviation (input) "UPF_USR_MASK \<equiv> (0x3030 :: u32)"

abbreviation (input) "PORT_UNKNOWN \<equiv> (0 :: u32)"
abbreviation (input) "UPIO_PORT \<equiv> (0 :: u8)"
abbreviation (input) "UPIO_HUB6 \<equiv> (1 :: u8)"
abbreviation (input) "UPIO_MEM \<equiv> (2 :: u8)"
abbreviation (input) "UPIO_MEM32 \<equiv> (3 :: u8)"
abbreviation (input) "UPIO_AU \<equiv> (4 :: u8)"
abbreviation (input) "UPIO_TSI \<equiv> (5 :: u8)"
abbreviation (input) "UPIO_DWAPB \<equiv> (6 :: u8)"
abbreviation (input) "UART_CONFIG_TYPE \<equiv> (1 :: u32)"
abbreviation (input) "UART_CONFIG_IRQ \<equiv> (2 :: u32)"
abbreviation (input) "CLOSING_WAIT_NONE \<equiv> (65535 :: u32)"

text \<open>\<open>flags & mask\<close> as a condition.\<close>

definition has_bits :: "u32 \<Rightarrow> u32 \<Rightarrow> bool" where
  "has_bits w m \<longleftrightarrow> w AND m \<noteq> 0"

section \<open>The port of a low-level driver\<close>

record uart_icount =
  ic_cts :: u32
  ic_dsr :: u32
  ic_rng :: u32
  ic_dcd :: u32
  ic_rx :: u32
  ic_tx :: u32
  ic_frame :: u32
  ic_overrun :: u32
  ic_parity :: u32
  ic_brk :: u32
  ic_buf_overrun :: u32

text \<open>\<open>start_char\<close> and \<open>stop_char\<close> are \<open>c_cc[VSTART]\<close> and \<open>c_cc[VSTOP]\<close>.\<close>

record ktermios =
  c_iflag :: u32
  c_cflag :: u32
  c_ispeed :: u32
  c_ospeed :: u32
  start_char :: u8
  stop_char :: u8

text \<open>\<open>con_enabled\<close> is the bit \<open>CON_ENABLED\<close> of the console's flags.\<close>

record console =
  con_index :: int
  con_cflag :: u32
  con_enabled :: bool

text \<open>
  Low-level drivers extend the structure with data of their own, here the field \<open>hw\<close>. \<open>has_cons\<close>
  tells whether \<open>cons\<close> points to the console of the driver, \<open>has_state\<close> whether \<open>state\<close> points to the line.
\<close>

record 'h uart_port =
  iobase :: u32
  mapbase :: u32
  membase :: u32
  irq :: u32
  uartclk :: u32
  fifosize :: u32
  x_char :: u8
  regshift :: u8
  iotype :: u8
  hub6 :: u8
  icount :: uart_icount
  has_cons :: bool
  flags :: u32
  mctrl :: u32
  timeout :: u32
  type :: u32
  custom_divisor :: u32
  line :: u32
  suspended :: bool
  has_state :: bool
  hw :: 'h

text \<open>What \<open>TIOCGSERIAL\<close> reads and \<open>TIOCSSERIAL\<close> writes.\<close>

record serial_struct =
  ss_type :: u32
  ss_line :: u32
  ss_port :: u32
  ss_irq :: u32
  ss_flags :: u32
  ss_xmit_fifo_size :: u32
  ss_custom_divisor :: u32
  ss_baud_base :: u32
  ss_close_delay :: u16
  ss_io_type :: u8
  ss_hub6 :: u32
  ss_closing_wait :: u16
  ss_iomem_base :: u32
  ss_iomem_reg_shift :: u16

section \<open>The state of a line\<close>

text \<open>The transmit buffer; \<open>circ_data\<close> is \<open>None\<close> while \<open>buf\<close> is a null pointer.\<close>

record circ_buf =
  circ_data :: "u8 list option"
  circ_head :: nat
  circ_tail :: nat

text \<open>
  \<open>tty_count\<close> is \<open>tty->count\<close>, kept by the terminal layer. \<open>driver_data\<close> tells whether the pointer of that
  name leads to the state of the line; \<open>wakeups\<close> counts the calls of \<open>tty_wakeup\<close>.
\<close>

record tty_struct =
  tty_count :: int
  io_error :: bool
  throttled :: bool
  stopped :: bool
  hw_stopped :: bool
  closing :: bool
  low_latency :: bool
  driver_data :: bool
  wakeups :: nat
  termios :: ktermios

text \<open>
  A line has at most one terminal at a time, \<open>tty\<close>; \<open>port_tty\<close> tells whether \<open>port.tty\<close> points to it, and
  \<open>port_present\<close> whether \<open>uart_port\<close> points to the port. \<open>tlet\<close> tells whether the tasklet is scheduled. \<open>crashed\<close> is not a
  member of the structure: it records that an operation which has no result to report a fault with has followed a null pointer
  or run into \<open>BUG_ON\<close>. What the model does to a line after that means nothing.
\<close>

record 'h uart_state =
  count :: int
  blocked_open :: int
  close_delay :: u32
  closing_wait :: u32
  initialized :: bool
  normal_active :: bool
  cts_flow :: bool
  check_cd :: bool
  async_suspended :: bool
  port_tty :: bool
  tty :: tty_struct
  pm_state :: int
  xmit :: circ_buf
  tlet :: bool
  port_present :: bool
  crashed :: bool
  uport :: "'h uart_port"

abbreviation on_port :: "('h uart_port \<Rightarrow> 'h uart_port) \<Rightarrow> 'h uart_state \<Rightarrow> 'h uart_state" where
  "on_port f s \<equiv> s\<lparr>uport := f (uport s)\<rparr>"

abbreviation on_tty :: "(tty_struct \<Rightarrow> tty_struct) \<Rightarrow> 'h uart_state \<Rightarrow> 'h uart_state" where
  "on_tty f s \<equiv> s\<lparr>tty := f (tty s)\<rparr>"

text \<open>What the code does not survive: following a null pointer, a division by zero, and \<open>BUG_ON\<close>.\<close>

datatype uart_fault =
    Null_tty | Null_state | Div_by_zero | Daemon_fault sd_error
  | Null_call | Driver_bug | Null_tty_driver | Freed_state

text \<open>A fault in a function without a result, and a function that follows \<open>tty->driver_data\<close> without a test.\<close>

definition survive :: "'h uart_state \<Rightarrow> uart_fault + 'h uart_state \<Rightarrow> 'h uart_state" where
  "survive s r = (case r of Inl _ \<Rightarrow> s\<lparr>crashed := True\<rparr> | Inr s' \<Rightarrow> s')"

definition with_state :: "('h uart_state \<Rightarrow> 'h uart_state) \<Rightarrow> 'h uart_state \<Rightarrow> 'h uart_state" where
  "with_state f s = (if driver_data (tty s) then f s else s\<lparr>crashed := True\<rparr>)"

lemma survive_simps [simp]: "survive s (Inl e) = s\<lparr>crashed := True\<rparr>" "survive s (Inr s') = s'"
  by (simp_all add: survive_def)

lemma with_state_simps [simp]:
  "driver_data (tty s) \<Longrightarrow> with_state f s = f s" "\<not> driver_data (tty s) \<Longrightarrow> with_state f s = s\<lparr>crashed := True\<rparr>"
  by (simp_all add: with_state_def)

section \<open>Operations of a low-level driver\<close>

text \<open>
  The members of \<open>struct uart_ops\<close> are functions on the port; \<open>start_tx\<close> and \<open>get_mctrl\<close>, which may transmit from the buffer
  and react to a changed modem line, are functions on the line. \<open>set_termios\<close> may correct the settings it is given.
\<close>

record 'h uart_ops =
  ops_tx_empty :: "'h uart_port \<Rightarrow> u32 \<times> 'h uart_port"
  ops_set_mctrl :: "u32 \<Rightarrow> 'h uart_port \<Rightarrow> 'h uart_port"
  ops_get_mctrl :: "'h uart_state \<Rightarrow> u32 \<times> 'h uart_state"
  ops_stop_tx :: "'h uart_port \<Rightarrow> 'h uart_port"
  ops_start_tx :: "'h uart_state \<Rightarrow> 'h uart_state"
  ops_send_xchar :: "(u8 \<Rightarrow> 'h uart_port \<Rightarrow> 'h uart_port) option"
  ops_stop_rx :: "'h uart_port \<Rightarrow> 'h uart_port"
  ops_enable_ms :: "'h uart_port \<Rightarrow> 'h uart_port"
  ops_break_ctl :: "int \<Rightarrow> 'h uart_port \<Rightarrow> 'h uart_port"
  ops_startup :: "'h uart_port \<Rightarrow> int \<times> 'h uart_port"
  ops_shutdown :: "'h uart_port \<Rightarrow> 'h uart_port"
  ops_flush_buffer :: "('h uart_port \<Rightarrow> 'h uart_port) option"
  ops_set_termios :: "ktermios \<Rightarrow> ktermios option \<Rightarrow> 'h uart_port \<Rightarrow> ktermios \<times> 'h uart_port"
  ops_set_ldisc :: "('h uart_port \<Rightarrow> 'h uart_port) option"
  ops_pm :: "(int \<Rightarrow> int \<Rightarrow> 'h uart_port \<Rightarrow> 'h uart_port) option"
  ops_type :: "('h uart_port \<Rightarrow> string option) option"
  ops_release_port :: "'h uart_port \<Rightarrow> 'h uart_port"
  ops_request_port :: "'h uart_port \<Rightarrow> int \<times> 'h uart_port"
  ops_config_port :: "u32 \<Rightarrow> 'h uart_port \<Rightarrow> 'h uart_port"
  ops_verify_port :: "('h uart_port \<Rightarrow> serial_struct \<Rightarrow> int) option"
  ops_ioctl :: "('h uart_port \<Rightarrow> u32 \<Rightarrow> u32 \<Rightarrow> int \<times> 'h uart_port) option"
  ops_poll_put_char :: "(u8 \<Rightarrow> 'h uart_port \<Rightarrow> 'h uart_port) option"
  ops_poll_get_char :: "('h uart_port \<Rightarrow> int \<times> 'h uart_port) option"

text \<open>A call through a member that may be a null pointer.\<close>

definition opt_call :: "('a \<Rightarrow> 'a) option \<Rightarrow> 'a \<Rightarrow> 'a" where
  "opt_call f x = (case f of None \<Rightarrow> x | Some g \<Rightarrow> g x)"

lemma opt_call_simps [simp]: "opt_call None x = x" "opt_call (Some g) x = g x"
  by (simp_all add: opt_call_def)

end
