(* ===== verification/Uart_Xmit.thy ===== *)
theory Uart_Xmit
  imports Uart_Types
begin

text \<open>
  The transmit side of the serial core: the circular buffer of a line, starting and stopping the
  transmitter, and the output operations of the terminal. What goes into the buffer is also handed to the
  serial log, which the core shares between all lines: operations that reach it take and return
  the pair of the line and the log.
\<close>

section \<open>The circular buffer\<close>

text \<open>
  The macros \<open>CIRC_CNT\<close>, \<open>CIRC_SPACE\<close> and \<open>CIRC_SPACE_TO_END\<close> of the kernel's circ\_buf.h for the size \<open>UART_XMIT_SIZE\<close>, a page: masking with
  the size minus one is the remainder, also of a negative difference.
\<close>

abbreviation (input) "UART_XMIT_SIZE \<equiv> (4096 :: nat)"

type_synonym 'h line = "'h uart_state \<times> uart_daemon"

definition circ_cnt :: "nat \<Rightarrow> nat \<Rightarrow> nat" where
  "circ_cnt head tail = nat ((int head - int tail) mod 4096)"

definition circ_space :: "nat \<Rightarrow> nat \<Rightarrow> nat" where
  "circ_space head tail = circ_cnt tail (head + 1)"

definition circ_space_to_end :: "nat \<Rightarrow> nat \<Rightarrow> int" where
  "circ_space_to_end head tail =
     (let e = 4096 - 1 - int head;
          n = (e + int tail) mod 4096
      in if n \<le> e then n else e + 1)"

definition uart_circ_empty :: "circ_buf \<Rightarrow> bool" where
  "uart_circ_empty circ \<longleftrightarrow> circ_head circ = circ_tail circ"

definition uart_circ_clear :: "circ_buf \<Rightarrow> circ_buf" where
  "uart_circ_clear circ = circ\<lparr>circ_head := 0, circ_tail := 0\<rparr>"

definition uart_circ_chars_pending :: "circ_buf \<Rightarrow> nat" where
  "uart_circ_chars_pending circ = circ_cnt (circ_head circ) (circ_tail circ)"

definition uart_circ_chars_free :: "circ_buf \<Rightarrow> nat" where
  "uart_circ_chars_free circ = circ_space (circ_head circ) (circ_tail circ)"

section \<open>The transmitter\<close>

text \<open>\<open>tty_wakeup\<close> tells the line discipline that there is room again.\<close>

definition tty_wakeup :: "'h uart_state \<Rightarrow> 'h uart_state" where
  "tty_wakeup s = on_tty (\<lambda>t. t\<lparr>wakeups := wakeups t + 1\<rparr>) s"

definition uart_write_wakeup :: "'h uart_state \<Rightarrow> uart_fault + 'h uart_state" where
  "uart_write_wakeup s = (if \<not> has_state (uport s) then Inl Null_state else Inr (s\<lparr>tlet := True\<rparr>))"

definition uart_tasklet_action :: "'h uart_state \<Rightarrow> uart_fault + 'h uart_state" where
  "uart_tasklet_action s = (if port_tty s then Inr (tty_wakeup (s\<lparr>tlet := False\<rparr>)) else Inl Null_tty)"

definition uart_stop :: "'h uart_ops \<Rightarrow> 'h uart_state \<Rightarrow> 'h uart_state" where
  "uart_stop ops = with_state (on_port (ops_stop_tx ops))"

text \<open>\<open>__uart_start\<close>\<close>

definition uart_start_locked :: "'h uart_ops \<Rightarrow> 'h line \<Rightarrow> 'h line" where
  "uart_start_locked ops = (\<lambda>(s, d).
     if \<not> driver_data (tty s) then (s\<lparr>crashed := True\<rparr>, d)
     else if \<not> uart_circ_empty (xmit s) \<and> circ_data (xmit s) \<noteq> None \<and> \<not> stopped (tty s) \<and> \<not> hw_stopped (tty s)
     then (ops_start_tx ops s, serial_daemon_complete d)
     else (s, d))"

definition uart_start :: "'h uart_ops \<Rightarrow> 'h line \<Rightarrow> 'h line" where
  "uart_start ops l = uart_start_locked ops l"

section \<open>Output\<close>

text \<open>\<open>__uart_put_char\<close>\<close>

definition circ_put_char :: "u8 \<Rightarrow> circ_buf \<Rightarrow> int \<times> circ_buf" where
  "circ_put_char c circ =
     (case circ_data circ of
        None \<Rightarrow> (0, circ)
      | Some buf \<Rightarrow>
          if uart_circ_chars_free circ \<noteq> 0
          then (1, circ\<lparr>circ_data := Some (buf[circ_head circ := c]), circ_head := (circ_head circ + 1) mod UART_XMIT_SIZE\<rparr>)
          else (0, circ))"

definition uart_put_char :: "u8 \<Rightarrow> 'h uart_state \<Rightarrow> int \<times> 'h uart_state" where
  "uart_put_char ch s =
     (if \<not> driver_data (tty s) then (0, s\<lparr>crashed := True\<rparr>)
      else (case circ_put_char ch (xmit s) of (r, x) \<Rightarrow> (r, s\<lparr>xmit := x\<rparr>)))"

definition uart_flush_chars :: "'h uart_ops \<Rightarrow> 'h line \<Rightarrow> 'h line" where
  "uart_flush_chars ops l = uart_start ops l"

text \<open>The bytes one pass of the loop of \<open>uart_write\<close> copies, and the buffer after it.\<close>

definition write_chunk :: "circ_buf \<Rightarrow> nat \<Rightarrow> nat" where
  "write_chunk circ n = nat (min (int n) (circ_space_to_end (circ_head circ) (circ_tail circ)))"

definition circ_store :: "u8 list \<Rightarrow> circ_buf \<Rightarrow> circ_buf" where
  "circ_store chunk circ =
     circ\<lparr>circ_data := map_option (buf_store (circ_head circ) chunk) (circ_data circ),
          circ_head := (circ_head circ + length chunk) mod UART_XMIT_SIZE\<rparr>"

text \<open>The loop, with the number of bytes copied so far.\<close>

function circ_write :: "u8 list \<Rightarrow> nat \<Rightarrow> circ_buf \<Rightarrow> nat \<times> circ_buf" where
  "circ_write buf ret circ =
     (let c = write_chunk circ (length buf)
      in if c = 0 then (ret, circ)
         else circ_write (drop c buf) (ret + c) (circ_store (take c buf) circ))"
  by pat_completeness auto
termination
  by (relation "measure (\<lambda>(buf, _). length buf)") (auto simp: write_chunk_def)

declare circ_write.simps [simp del]

definition uart_write :: "'h uart_ops \<Rightarrow> u8 list \<Rightarrow> 'h line \<Rightarrow> uart_fault + int \<times> 'h line" where
  "uart_write ops buf = (\<lambda>(s, d).
     if \<not> driver_data (tty s) then Inr (- EL3HLT, s, d)
     else if circ_data (xmit s) = None then Inr (0, s, d)
     else
       (case circ_write buf 0 (xmit s) of (ret, x) \<Rightarrow>
        (case serial_daemon_write (take ret buf) d of
           Inl e \<Rightarrow> Inl (Daemon_fault e)
         | Inr (_, d1) \<Rightarrow> Inr (int ret, uart_start ops (s\<lparr>xmit := x\<rparr>, d1)))))"

definition uart_write_room :: "'h uart_state \<Rightarrow> uart_fault + int" where
  "uart_write_room s = (if driver_data (tty s) then Inr (int (uart_circ_chars_free (xmit s))) else Inl Null_state)"

definition uart_chars_in_buffer :: "'h uart_state \<Rightarrow> uart_fault + int" where
  "uart_chars_in_buffer s = (if driver_data (tty s) then Inr (int (uart_circ_chars_pending (xmit s))) else Inl Null_state)"

definition uart_flush_buffer :: "'h uart_ops \<Rightarrow> 'h uart_state \<Rightarrow> 'h uart_state" where
  "uart_flush_buffer ops s =
     (if \<not> driver_data (tty s) then s
      else tty_wakeup (on_port (opt_call (ops_flush_buffer ops)) (s\<lparr>xmit := uart_circ_clear (xmit s)\<rparr>)))"

end
