(* ===== verification/Uart_Line.thy ===== *)
theory Uart_Line
  imports Uart_Xmit
begin

text \<open>
  The line side of the serial core: starting and shutting down a port, its speed and settings, the
  modem lines and flow control. What the kernel provides is a parameter: whether a page could be allocated
  (\<open>page\<close>), whether the caller has \<open>CAP_SYS_ADMIN\<close> (\<open>admin\<close>), whether the file was hung up (\<open>hung_up\<close>),
  whether a copy to user space failed (\<open>fault\<close>), and the two conversions between settings and a baud rate.
\<close>

section \<open>Modem lines\<close>

definition uart_update_mctrl :: "'h uart_ops \<Rightarrow> u32 \<Rightarrow> u32 \<Rightarrow> 'h uart_port \<Rightarrow> 'h uart_port" where
  "uart_update_mctrl ops sb cb p =
     (let old = mctrl p;
          new = (old AND NOT cb) OR sb
      in if old \<noteq> new then ops_set_mctrl ops new (p\<lparr>mctrl := new\<rparr>) else p\<lparr>mctrl := new\<rparr>)"

abbreviation uart_set_mctrl :: "'h uart_ops \<Rightarrow> u32 \<Rightarrow> 'h uart_port \<Rightarrow> 'h uart_port" where
  "uart_set_mctrl ops sb \<equiv> uart_update_mctrl ops sb 0"

abbreviation uart_clear_mctrl :: "'h uart_ops \<Rightarrow> u32 \<Rightarrow> 'h uart_port \<Rightarrow> 'h uart_port" where
  "uart_clear_mctrl ops cb \<equiv> uart_update_mctrl ops 0 cb"

section \<open>Speed\<close>

definition uart_update_timeout :: "u32 \<Rightarrow> u32 \<Rightarrow> 'h uart_port \<Rightarrow> uart_fault + 'h uart_port" where
  "uart_update_timeout cflag baud p =
     (let size = cflag AND CSIZE;
          bits0 = (if size = CS5 then 7 else if size = CS6 then 8 else if size = CS7 then 9 else 10) :: u32;
          bits1 = (if has_bits cflag CSTOPB then bits0 + 1 else bits0);
          bits2 = (if has_bits cflag PARENB then bits1 + 1 else bits1);
          bits = bits2 * fifosize p
      in if baud = 0 then Inl Div_by_zero
         else Inr (p\<lparr>timeout := (of_nat HZ * bits) div baud + of_nat (HZ div 50)\<rparr>))"

definition alt_baud :: "u32 \<Rightarrow> u32" where
  "alt_baud fl =
     (let spd = fl AND UPF_SPD_MASK
      in if spd = UPF_SPD_HI then 57600
         else if spd = UPF_SPD_VHI then 115200
         else if spd = UPF_SPD_SHI then 230400
         else if spd = UPF_SPD_WARP then 460800
         else 38400)"

text \<open>
  The loop of \<open>uart_get_baud_rate\<close>, with the number of tries that are left. \<open>rate\<close> is
  \<open>tty_termios_baud_rate\<close> and \<open>enc\<close> is \<open>tty_termios_encode_baud_rate\<close>.
\<close>

fun baud_tries ::
  "(ktermios \<Rightarrow> u32) \<Rightarrow> (ktermios \<Rightarrow> u32 \<Rightarrow> u32 \<Rightarrow> ktermios) \<Rightarrow> u32 \<Rightarrow> u32 \<Rightarrow> u32 \<Rightarrow> nat \<Rightarrow> bool \<Rightarrow>
   ktermios \<Rightarrow> ktermios option \<Rightarrow> u32 \<times> ktermios" where
  "baud_tries rate enc alt lo hi 0 hung t old = (0, t)"
| "baud_tries rate enc alt lo hi (Suc n) hung t old =
     (let b0 = rate t;
          b1 = (if b0 = 38400 then alt else b0);
          hung1 = (hung \<or> b1 = 0);
          baud = (if b1 = 0 then 9600 else b1)
      in if lo \<le> baud \<and> baud \<le> hi then (baud, t)
         else
           let t1 = t\<lparr>c_cflag := c_cflag t AND NOT CBAUD\<rparr>
           in (case old of
                 Some ot \<Rightarrow>
                   baud_tries rate enc alt lo hi n hung1 (if hung1 then t1 else enc t1 (rate ot) (rate ot)) None
               | None \<Rightarrow>
                   baud_tries rate enc alt lo hi n hung1 (if hung1 then t1 else enc t1 9600 9600) None))"

definition uart_get_baud_rate ::
  "(ktermios \<Rightarrow> u32) \<Rightarrow> (ktermios \<Rightarrow> u32 \<Rightarrow> u32 \<Rightarrow> ktermios) \<Rightarrow> 'h uart_port \<Rightarrow>
   ktermios \<Rightarrow> ktermios option \<Rightarrow> u32 \<Rightarrow> u32 \<Rightarrow> u32 \<times> ktermios" where
  "uart_get_baud_rate rate enc p t old lo hi = baud_tries rate enc (alt_baud (flags p)) lo hi 2 False t old"

definition uart_get_divisor :: "u32 \<Rightarrow> 'h uart_port \<Rightarrow> uart_fault + u32" where
  "uart_get_divisor baud p =
     (if baud = 38400 \<and> flags p AND UPF_SPD_MASK = UPF_SPD_CUST then Inr (custom_divisor p)
      else if 16 * baud = 0 then Inl Div_by_zero
      else Inr ((uartclk p + 8 * baud) div (16 * baud)))"

definition uart_change_speed :: "'h uart_ops \<Rightarrow> ktermios option \<Rightarrow> 'h uart_state \<Rightarrow> 'h uart_state" where
  "uart_change_speed ops old s =
     (if \<not> port_tty s \<or> type (uport s) = PORT_UNKNOWN then s
      else
        let t = termios (tty s);
            s1 = s\<lparr>cts_flow := has_bits (c_cflag t) CRTSCTS, check_cd := \<not> has_bits (c_cflag t) CLOCAL\<rparr>
        in (case ops_set_termios ops t old (uport s1) of
              (t', p) \<Rightarrow> s1\<lparr>uport := p, tty := (tty s1)\<lparr>termios := t'\<rparr>\<rparr>))"

section \<open>Starting and shutting down\<close>

text \<open>What \<open>uart_startup\<close> does once the driver's \<open>startup\<close> has succeeded.\<close>

definition startup_hw :: "'h uart_ops \<Rightarrow> bool \<Rightarrow> 'h uart_state \<Rightarrow> 'h uart_state" where
  "startup_hw ops init_hw s =
     (let s1 = (if init_hw then
                  let s' = uart_change_speed ops None s
                  in if has_bits (c_cflag (termios (tty s'))) CBAUD
                     then on_port (uart_set_mctrl ops (TIOCM_RTS OR TIOCM_DTR)) s' else s'
                else s);
          s2 = (if cts_flow s1 then
                  (case ops_get_mctrl ops s1 of
                     (m, s') \<Rightarrow> if has_bits m TIOCM_CTS then s' else on_tty (\<lambda>t. t\<lparr>hw_stopped := True\<rparr>) s')
                else s1)
      in on_tty (\<lambda>t. t\<lparr>io_error := False\<rparr>) (s2\<lparr>initialized := True\<rparr>))"

definition uart_startup :: "'h uart_ops \<Rightarrow> bool \<Rightarrow> bool \<Rightarrow> bool \<Rightarrow> 'h uart_state \<Rightarrow> uart_fault + int \<times> 'h uart_state" where
  "uart_startup ops page admin init_hw s =
     (if initialized s then Inr (0, s)
      else if \<not> port_tty s then Inl Null_tty
      else
        let s1 = on_tty (\<lambda>t. t\<lparr>io_error := True\<rparr>) s
        in if type (uport s1) = PORT_UNKNOWN then Inr (0, s1)
           else if circ_data (xmit s1) = None \<and> \<not> page then Inr (- ENOMEM, s1)
           else
             let s2 = (if circ_data (xmit s1) = None
                       then s1\<lparr>xmit := uart_circ_clear ((xmit s1)\<lparr>circ_data := Some (replicate UART_XMIT_SIZE 0)\<rparr>)\<rparr>
                       else s1)
             in (case ops_startup ops (uport s2) of
                   (retval, p) \<Rightarrow>
                     let s3 = s2\<lparr>uport := p\<rparr>;
                         s4 = (if retval = 0 then startup_hw ops init_hw s3 else s3)
                     in Inr (if retval \<noteq> 0 \<and> admin then 0 else retval, s4)))"

definition uart_shutdown :: "'h uart_ops \<Rightarrow> 'h uart_state \<Rightarrow> 'h uart_state" where
  "uart_shutdown ops s =
     (let s1 = (if port_tty s then on_tty (\<lambda>t. t\<lparr>io_error := True\<rparr>) s else s);
          s2 = (if initialized s1 then
                  let s' = s1\<lparr>initialized := False\<rparr>;
                      s'' = (if \<not> port_tty s' \<or> has_bits (c_cflag (termios (tty s'))) HUPCL
                             then on_port (uart_clear_mctrl ops (TIOCM_DTR OR TIOCM_RTS)) s' else s')
                  in on_port (ops_shutdown ops) s''
                else s1)
      in s2\<lparr>tlet := False, xmit := (xmit s2)\<lparr>circ_data := None\<rparr>\<rparr>)"

section \<open>Flow control\<close>

definition uart_send_xchar :: "'h uart_ops \<Rightarrow> u8 \<Rightarrow> 'h uart_state \<Rightarrow> 'h uart_state" where
  "uart_send_xchar ops ch = with_state (\<lambda>s.
     case ops_send_xchar ops of
       Some f \<Rightarrow> on_port (f ch) s
     | None \<Rightarrow>
         let s1 = on_port (\<lambda>p. p\<lparr>x_char := ch\<rparr>) s
         in if ch \<noteq> 0 then ops_start_tx ops s1 else s1)"

definition uart_throttle :: "'h uart_ops \<Rightarrow> 'h uart_state \<Rightarrow> 'h uart_state" where
  "uart_throttle ops s =
     (let s1 = (if has_bits (c_iflag (termios (tty s))) IXOFF
                then uart_send_xchar ops (stop_char (termios (tty s))) s else s)
      in if has_bits (c_cflag (termios (tty s1))) CRTSCTS
         then with_state (on_port (uart_clear_mctrl ops TIOCM_RTS)) s1 else s1)"

definition uart_unthrottle :: "'h uart_ops \<Rightarrow> 'h uart_state \<Rightarrow> 'h uart_state" where
  "uart_unthrottle ops = with_state (\<lambda>s.
     let s1 = (if has_bits (c_iflag (termios (tty s))) IXOFF
                then if x_char (uport s) \<noteq> 0 then on_port (\<lambda>p. p\<lparr>x_char := 0\<rparr>) s
                     else uart_send_xchar ops (start_char (termios (tty s))) s
                else s)
     in if has_bits (c_cflag (termios (tty s1))) CRTSCTS
        then on_port (uart_set_mctrl ops TIOCM_RTS) s1 else s1)"

section \<open>Settings\<close>

definition relevant_iflag :: "u32 \<Rightarrow> u32" where
  "relevant_iflag iflag = iflag AND IFLAG_LINE"

text \<open>The modem lines follow the step to and away from the rate \<open>B0\<close>.\<close>

definition termios_b0 :: "'h uart_ops \<Rightarrow> u32 \<Rightarrow> u32 \<Rightarrow> 'h uart_state \<Rightarrow> 'h uart_state" where
  "termios_b0 ops old_cflag cflag s =
     (let s1 = (if has_bits old_cflag CBAUD \<and> \<not> has_bits cflag CBAUD
                then on_port (uart_clear_mctrl ops (TIOCM_RTS OR TIOCM_DTR)) s else s)
      in if \<not> has_bits old_cflag CBAUD \<and> has_bits cflag CBAUD
         then on_port (uart_set_mctrl ops
                (if \<not> has_bits cflag CRTSCTS \<or> \<not> throttled (tty s1) then TIOCM_DTR OR TIOCM_RTS else TIOCM_DTR)) s1
         else s1)"

text \<open>Hardware flow control was switched off or on.\<close>

definition termios_crtscts :: "'h uart_ops \<Rightarrow> u32 \<Rightarrow> u32 \<Rightarrow> 'h line \<Rightarrow> 'h line" where
  "termios_crtscts ops old_cflag cflag = (\<lambda>(s, d).
     let (s1, d1) = (if has_bits old_cflag CRTSCTS \<and> \<not> has_bits cflag CRTSCTS
                     then uart_start_locked ops (on_tty (\<lambda>t. t\<lparr>hw_stopped := False\<rparr>) s, d) else (s, d))
     in if \<not> has_bits old_cflag CRTSCTS \<and> has_bits cflag CRTSCTS then
          (case ops_get_mctrl ops s1 of
             (m, s2) \<Rightarrow> if has_bits m TIOCM_CTS then (s2, d1)
                        else (on_port (ops_stop_tx ops) (on_tty (\<lambda>t. t\<lparr>hw_stopped := True\<rparr>) s2), d1))
        else (s1, d1))"

definition uart_set_termios :: "'h uart_ops \<Rightarrow> ktermios \<Rightarrow> 'h line \<Rightarrow> 'h line" where
  "uart_set_termios ops old = (\<lambda>(s, d).
     let t = termios (tty s); cflag = c_cflag t
     in if (cflag XOR c_cflag old) = 0 \<and> c_ospeed t = c_ospeed old \<and> c_ispeed t = c_ispeed old
           \<and> relevant_iflag (c_iflag t XOR c_iflag old) = 0 then (s, d)
        else if \<not> driver_data (tty s) then (s\<lparr>crashed := True\<rparr>, d)
        else termios_crtscts ops (c_cflag old) cflag
               (termios_b0 ops (c_cflag old) cflag (uart_change_speed ops (Some old) s), d))"

definition uart_set_ldisc :: "'h uart_ops \<Rightarrow> 'h uart_state \<Rightarrow> 'h uart_state" where
  "uart_set_ldisc ops = with_state (on_port (opt_call (ops_set_ldisc ops)))"

definition uart_break_ctl :: "'h uart_ops \<Rightarrow> int \<Rightarrow> 'h uart_state \<Rightarrow> int \<times> 'h uart_state" where
  "uart_break_ctl ops break_state s =
     (0, with_state (\<lambda>s. if type (uport s) \<noteq> PORT_UNKNOWN then on_port (ops_break_ctl ops break_state) s else s) s)"

text \<open>\<open>file\<close> is \<open>None\<close> for a null pointer, and otherwise tells whether the file was hung up.\<close>

definition file_usable :: "bool option \<Rightarrow> 'h uart_state \<Rightarrow> bool" where
  "file_usable hung s \<longleftrightarrow> (hung = None \<or> hung = Some False) \<and> \<not> io_error (tty s)"

definition uart_tiocmget :: "'h uart_ops \<Rightarrow> bool option \<Rightarrow> 'h uart_state \<Rightarrow> int \<times> 'h uart_state" where
  "uart_tiocmget ops hung s =
     (if \<not> driver_data (tty s) then (- EIO, s\<lparr>crashed := True\<rparr>)
      else if file_usable hung s
      then (case ops_get_mctrl ops s of (m, s') \<Rightarrow> (sint (mctrl (uport s) OR m), s'))
      else (- EIO, s))"

definition uart_tiocmset :: "'h uart_ops \<Rightarrow> bool option \<Rightarrow> u32 \<Rightarrow> u32 \<Rightarrow> 'h uart_state \<Rightarrow> int \<times> 'h uart_state" where
  "uart_tiocmset ops hung sb cb s =
     (if \<not> driver_data (tty s) then (- EIO, s\<lparr>crashed := True\<rparr>)
      else if file_usable hung s then (0, on_port (uart_update_mctrl ops sb cb) s) else (- EIO, s))"

definition uart_change_pm :: "'h uart_ops \<Rightarrow> int \<Rightarrow> 'h uart_state \<Rightarrow> 'h uart_state" where
  "uart_change_pm ops new s =
     (if pm_state s \<noteq> new
      then (on_port (opt_call (map_option (\<lambda>f. f new (pm_state s)) (ops_pm ops))) s)\<lparr>pm_state := new\<rparr>
      else s)"

text \<open>The value that \<open>TIOCSERGETLSR\<close> stores.\<close>

definition uart_get_lsr_info :: "'h uart_ops \<Rightarrow> bool \<Rightarrow> 'h uart_state \<Rightarrow> uart_fault + int \<times> u32 \<times> 'h uart_state" where
  "uart_get_lsr_info ops fault s0 =
     (let (result, p) = ops_tx_empty ops (uport s0);
          s = s0\<lparr>uport := p\<rparr>;
          ret = (if fault then - EFAULT else 0)
      in if x_char (uport s) \<noteq> 0 then Inr (ret, result AND NOT TIOCSER_TEMT, s)
         else if uart_circ_chars_pending (xmit s) > 0 then
           if \<not> port_tty s then Inl Null_tty
           else if \<not> stopped (tty s) \<and> \<not> hw_stopped (tty s) then Inr (ret, result AND NOT TIOCSER_TEMT, s)
           else Inr (ret, result, s)
         else Inr (ret, result, s))"

end
