(* ===== verification/Uart_Config.thy ===== *)
theory Uart_Config
  imports Uart_Line
begin

text \<open>
  Configuration of a line through \<open>ioctl\<close>: reading and changing the settings of the port, probing it again,
  waiting for a modem line and reading the counters.
\<close>

section \<open>Reading and writing the settings\<close>

text \<open>
  What the kernel provides: a zeroed page, the capability of the caller, the number of interrupts and the
  canonical number of an interrupt.
\<close>

record uart_env =
  env_page :: bool
  env_admin :: bool
  env_nr_irqs :: int
  env_irq_canon :: "u32 \<Rightarrow> u32"

definition uart_get_info :: "bool \<Rightarrow> 'h uart_state \<Rightarrow> int \<times> serial_struct option" where
  "uart_get_info fault s =
     (let p = uport s;
          tmp = \<lparr>ss_type = type p, ss_line = line p, ss_port = iobase p, ss_irq = irq p, ss_flags = flags p,
                 ss_xmit_fifo_size = fifosize p, ss_custom_divisor = custom_divisor p,
                 ss_baud_base = uartclk p div 16, ss_close_delay = ucast (close_delay s div 10),
                 ss_io_type = iotype p, ss_hub6 = ucast (hub6 p),
                 ss_closing_wait = (if closing_wait s = CLOSING_WAIT_NONE then 65535 else ucast (closing_wait s div 10)),
                 ss_iomem_base = mapbase p, ss_iomem_reg_shift = ucast (regshift p)\<rparr>
      in if fault then (- EFAULT, None) else (0, Some tmp))"

definition tty_port_users :: "'h uart_state \<Rightarrow> int" where
  "tty_port_users s = count s + blocked_open s"

definition change_irq :: "serial_struct \<Rightarrow> 'h uart_port \<Rightarrow> bool" where
  "change_irq new p \<longleftrightarrow> \<not> has_bits (flags p) UPF_FIXED_PORT \<and> ss_irq new \<noteq> irq p"

definition change_port :: "serial_struct \<Rightarrow> 'h uart_port \<Rightarrow> bool" where
  "change_port new p \<longleftrightarrow> \<not> has_bits (flags p) UPF_FIXED_PORT
     \<and> (ss_port new \<noteq> iobase p \<or> ss_iomem_base new \<noteq> mapbase p \<or> ss_hub6 new \<noteq> ucast (hub6 p)
        \<or> ss_io_type new \<noteq> iotype p \<or> ss_iomem_reg_shift new \<noteq> ucast (regshift p) \<or> ss_type new \<noteq> type p)"

definition new_close_delay :: "serial_struct \<Rightarrow> u32" where
  "new_close_delay new = ucast (ss_close_delay new) * 10"

definition new_closing_wait :: "serial_struct \<Rightarrow> u32" where
  "new_closing_wait new =
     (if ss_closing_wait new = 65535 then CLOSING_WAIT_NONE else ucast (ss_closing_wait new) * 10)"

text \<open>What a caller without the capability may not change.\<close>

definition needs_admin :: "serial_struct \<Rightarrow> 'h uart_state \<Rightarrow> bool" where
  "needs_admin new s \<longleftrightarrow>
     change_irq new (uport s) \<or> change_port new (uport s)
     \<or> ss_baud_base new \<noteq> uartclk (uport s) div 16
     \<or> new_close_delay new \<noteq> close_delay s \<or> new_closing_wait new \<noteq> closing_wait s
     \<or> (ss_xmit_fifo_size new \<noteq> 0 \<and> ss_xmit_fifo_size new \<noteq> fifosize (uport s))
     \<or> (ss_flags new XOR flags (uport s)) AND NOT UPF_USR_MASK \<noteq> 0"

text \<open>The place of a port, which changes as a whole, and its restoration.\<close>

definition move_port :: "serial_struct \<Rightarrow> 'h uart_port \<Rightarrow> 'h uart_port" where
  "move_port new p =
     p\<lparr>iobase := ss_port new, type := ss_type new, hub6 := ucast (ss_hub6 new), iotype := ss_io_type new,
       regshift := ucast (ss_iomem_reg_shift new), mapbase := ss_iomem_base new\<rparr>"

definition restore_port :: "'h uart_port \<Rightarrow> 'h uart_port \<Rightarrow> 'h uart_port" where
  "restore_port old p =
     p\<lparr>iobase := iobase old, type := type old, hub6 := hub6 old, iotype := iotype old,
       regshift := regshift old, mapbase := mapbase old\<rparr>"

text \<open>
  The block for \<open>change_port\<close>. The flag is true when the function goes on, false when it leaves with \<open>-EBUSY\<close>.
\<close>

definition relocate_port :: "'h uart_ops \<Rightarrow> serial_struct \<Rightarrow> 'h uart_port \<Rightarrow> bool \<times> 'h uart_port" where
  "relocate_port ops new old =
     (let p1 = (if type old \<noteq> PORT_UNKNOWN then ops_release_port ops old else old);
          p2 = move_port new p1;
          (retval, p3) = (if type p2 \<noteq> PORT_UNKNOWN then ops_request_port ops p2 else (0, p2))
      in if retval \<noteq> 0 \<and> type old \<noteq> PORT_UNKNOWN then
           (case ops_request_port ops (restore_port old p3) of
              (retval', p4) \<Rightarrow> (False, if retval' \<noteq> 0 then p4\<lparr>type := PORT_UNKNOWN\<rparr> else p4))
         else (True, p3))"

text \<open>The settings that need no new resources; \<open>ci\<close> is \<open>change_irq\<close> as computed on entry.\<close>

definition store_settings :: "bool \<Rightarrow> serial_struct \<Rightarrow> 'h uart_state \<Rightarrow> 'h uart_state" where
  "store_settings ci new s =
     (let p = uport s;
          p1 = (if ci then p\<lparr>irq := ss_irq new\<rparr> else p);
          p2 = (if has_bits (flags p1) UPF_FIXED_PORT then p1 else p1\<lparr>uartclk := ss_baud_base new * 16\<rparr>);
          p3 = p2\<lparr>flags := (flags p2 AND NOT UPF_CHANGE_MASK) OR (ss_flags new AND UPF_CHANGE_MASK),
                  custom_divisor := ss_custom_divisor new\<rparr>;
          p4 = (if ss_xmit_fifo_size new \<noteq> 0 then p3\<lparr>fifosize := ss_xmit_fifo_size new\<rparr> else p3);
          s1 = s\<lparr>uport := p4, close_delay := new_close_delay new, closing_wait := new_closing_wait new\<rparr>
      in if port_tty s1 then on_tty (\<lambda>t. t\<lparr>low_latency := has_bits (flags p4) UPF_LOW_LATENCY\<rparr>) s1 else s1)"

text \<open>From the label \<open>check_and_exit\<close> on.\<close>

definition check_and_exit ::
  "'h uart_ops \<Rightarrow> uart_env \<Rightarrow> u32 \<Rightarrow> u32 \<Rightarrow> 'h uart_state \<Rightarrow> uart_fault + int \<times> 'h uart_state" where
  "check_and_exit ops env old_flags old_divisor s =
     (if type (uport s) = PORT_UNKNOWN then Inr (0, s)
      else if initialized s then
        if has_bits (old_flags XOR flags (uport s)) UPF_SPD_MASK \<or> old_divisor \<noteq> custom_divisor (uport s)
        then Inr (0, uart_change_speed ops None s)
        else Inr (0, s)
      else uart_startup ops (env_page env) (env_admin env) True s)"

text \<open>\<open>user\<close> is the structure in user space, \<open>None\<close> when it cannot be read.\<close>

definition uart_set_info ::
  "'h uart_ops \<Rightarrow> uart_env \<Rightarrow> serial_struct option \<Rightarrow> 'h uart_state \<Rightarrow> uart_fault + int \<times> 'h uart_state" where
  "uart_set_info ops env user s =
     (case user of
        None \<Rightarrow> Inr (- EFAULT, s)
      | Some new0 \<Rightarrow>
          let new = new0\<lparr>ss_irq := env_irq_canon env (ss_irq new0)\<rparr>;
              p = uport s; ci = change_irq new p; cp = change_port new p
          in if \<not> env_admin env then
               if needs_admin new s then Inr (- EPERM, s)
               else check_and_exit ops env (flags p) (custom_divisor p)
                      (on_port (\<lambda>p. p\<lparr>flags := (flags p AND NOT UPF_USR_MASK) OR (ss_flags new AND UPF_USR_MASK),
                                       custom_divisor := ss_custom_divisor new\<rparr>) s)
             else
               let verify = (case ops_verify_port ops of None \<Rightarrow> 0 | Some f \<Rightarrow> f p new);
                   retval = (if sint (ss_irq new) \<ge> env_nr_irqs env \<or> sint (ss_irq new) < 0
                               \<or> sint (ss_baud_base new) < 9600 then - EINVAL else verify)
               in if retval \<noteq> 0 then Inr (retval, s)
                  else if (cp \<or> ci) \<and> tty_port_users s > 1 then Inr (- EBUSY, s)
                  else
                    let s1 = (if cp \<or> ci then uart_shutdown ops s else s);
                        (go, p2) = (if cp then relocate_port ops new (uport s1) else (True, uport s1));
                        s2 = s1\<lparr>uport := p2\<rparr>
                    in if go then check_and_exit ops env (flags p) (custom_divisor p) (store_settings ci new s2)
                       else Inr (- EBUSY, s2))"

section \<open>Probing the port again\<close>

text \<open>\<open>intr\<close> tells whether \<open>mutex_lock_interruptible\<close> was interrupted.\<close>

definition uart_do_autoconfig ::
  "'h uart_ops \<Rightarrow> uart_env \<Rightarrow> bool \<Rightarrow> 'h uart_state \<Rightarrow> uart_fault + int \<times> 'h uart_state" where
  "uart_do_autoconfig ops env intr s =
     (if \<not> env_admin env then Inr (- EPERM, s)
      else if intr then Inr (- ERESTARTSYS, s)
      else if tty_port_users s = 1 then
        let s1 = uart_shutdown ops s;
            s2 = (if type (uport s1) \<noteq> PORT_UNKNOWN then on_port (ops_release_port ops) s1 else s1);
            fl = (if has_bits (flags (uport s2)) UPF_AUTO_IRQ then UART_CONFIG_TYPE OR UART_CONFIG_IRQ else UART_CONFIG_TYPE);
            s3 = on_port (ops_config_port ops fl) s2
        in uart_startup ops (env_page env) (env_admin env) True s3
      else Inr (- EBUSY, s))"

section \<open>Modem status and counters\<close>

definition modem_changed :: "u32 \<Rightarrow> uart_icount \<Rightarrow> uart_icount \<Rightarrow> bool" where
  "modem_changed arg cprev cnow \<longleftrightarrow>
     has_bits arg TIOCM_RNG \<and> ic_rng cnow \<noteq> ic_rng cprev \<or> has_bits arg TIOCM_DSR \<and> ic_dsr cnow \<noteq> ic_dsr cprev
     \<or> has_bits arg TIOCM_CAR \<and> ic_dcd cnow \<noteq> ic_dcd cprev \<or> has_bits arg TIOCM_CTS \<and> ic_cts cnow \<noteq> ic_cts cprev"

text \<open>
  The waiting loop. The list gives what each pass finds: the counters, and whether a signal is
  pending after \<open>schedule\<close>. The result is \<open>None\<close> while the process still sleeps at the end of the list.
\<close>

fun modem_wait :: "u32 \<Rightarrow> uart_icount \<Rightarrow> (uart_icount \<times> bool) list \<Rightarrow> int option" where
  "modem_wait arg cprev [] = None"
| "modem_wait arg cprev ((cnow, signal) # looks) =
     (if modem_changed arg cprev cnow then Some 0
      else if signal then Some (- ERESTARTSYS)
      else modem_wait arg cnow looks)"

definition uart_wait_modem_status ::
  "'h uart_ops \<Rightarrow> u32 \<Rightarrow> (uart_icount \<times> bool) list \<Rightarrow> 'h uart_state \<Rightarrow> int option \<times> 'h uart_state" where
  "uart_wait_modem_status ops arg looks s =
     (modem_wait arg (icount (uport s)) looks, on_port (ops_enable_ms ops) s)"

definition uart_get_count :: "bool \<Rightarrow> 'h uart_state \<Rightarrow> int \<times> uart_icount option" where
  "uart_get_count fault s =
     (let cnow = icount (uport s);
          ic = \<lparr>ic_cts = ic_cts cnow, ic_dsr = ic_dsr cnow, ic_rng = ic_rng cnow, ic_dcd = ic_dcd cnow,
                ic_rx = ic_rx cnow, ic_tx = ic_tx cnow, ic_frame = ic_frame cnow, ic_overrun = ic_overrun cnow,
                ic_parity = ic_parity cnow, ic_brk = ic_brk cnow, ic_buf_overrun = ic_buf_overrun cnow\<rparr>
      in if fault then (- EFAULT, None) else (0, Some ic))"

section \<open>Dispatch\<close>

abbreviation (input) "TIOCGSERIAL \<equiv> (0x541E :: u32)"
abbreviation (input) "TIOCSSERIAL \<equiv> (0x541F :: u32)"
abbreviation (input) "TIOCSERCONFIG \<equiv> (0x5453 :: u32)"
abbreviation (input) "TIOCSERGWILD \<equiv> (0x5454 :: u32)"
abbreviation (input) "TIOCSERSWILD \<equiv> (0x5455 :: u32)"
abbreviation (input) "TIOCSERGETLSR \<equiv> (0x5459 :: u32)"
abbreviation (input) "TIOCMIWAIT \<equiv> (0x545C :: u32)"
abbreviation (input) "TIOCGICOUNT \<equiv> (0x545D :: u32)"

text \<open>The caller: what is at the user's address, whether it can be written, and what happens to the process.\<close>

record uart_caller =
  uc_info :: "serial_struct option"
  uc_fault :: bool
  uc_hung_up :: bool
  uc_interrupted :: bool
  uc_looks :: "(uart_icount \<times> bool) list"

datatype ioctl_out = Out_none | Out_info serial_struct | Out_count uart_icount | Out_lsr u32

text \<open>The result is \<open>None\<close> while the process waits for a modem line.\<close>

type_synonym 'h ioctl_result = "uart_fault + int option \<times> ioctl_out \<times> 'h uart_state"

definition ioctl_config :: "'h uart_ops \<Rightarrow> uart_env \<Rightarrow> uart_caller \<Rightarrow> u32 \<Rightarrow> 'h uart_state \<Rightarrow> 'h ioctl_result" where
  "ioctl_config ops env uc cmd s =
     (let plain = map_sum id (\<lambda>(r, s'). (Some r, Out_none, s'))
      in if cmd = TIOCGSERIAL then
           (case uart_get_info (uc_fault uc) s of
              (r, out) \<Rightarrow> Inr (Some r, case out of None \<Rightarrow> Out_none | Some i \<Rightarrow> Out_info i, s))
         else if cmd = TIOCSSERIAL then plain (uart_set_info ops env (uc_info uc) s)
         else if cmd = TIOCSERCONFIG then plain (uart_do_autoconfig ops env (uc_interrupted uc) s)
         else if cmd = TIOCSERGWILD \<or> cmd = TIOCSERSWILD then Inr (Some 0, Out_none, s)
         else Inr (Some (- ENOIOCTLCMD), Out_none, s))"

definition ioctl_status :: "'h uart_ops \<Rightarrow> uart_caller \<Rightarrow> u32 \<Rightarrow> u32 \<Rightarrow> 'h uart_state \<Rightarrow> int option \<times> ioctl_out \<times> 'h uart_state" where
  "ioctl_status ops uc cmd arg s =
     (if cmd = TIOCMIWAIT then
        (case uart_wait_modem_status ops arg (uc_looks uc) s of (r, s') \<Rightarrow> (r, Out_none, s'))
      else if cmd = TIOCGICOUNT then
        (case uart_get_count (uc_fault uc) s of
           (r, out) \<Rightarrow> (Some r, case out of None \<Rightarrow> Out_none | Some i \<Rightarrow> Out_count i, s))
      else (Some (- ENOIOCTLCMD), Out_none, s))"

definition ioctl_hardware :: "'h uart_ops \<Rightarrow> uart_caller \<Rightarrow> u32 \<Rightarrow> u32 \<Rightarrow> 'h uart_state \<Rightarrow> 'h ioctl_result" where
  "ioctl_hardware ops uc cmd arg s =
     (if uc_hung_up uc then Inr (Some (- EIO), Out_none, s)
      else if cmd = TIOCSERGETLSR then
        map_sum id (\<lambda>(r, v, s'). (Some r, if uc_fault uc then Out_none else Out_lsr v, s')) (uart_get_lsr_info ops (uc_fault uc) s)
      else
        (case ops_ioctl ops of
           None \<Rightarrow> Inr (Some (- ENOIOCTLCMD), Out_none, s)
         | Some f \<Rightarrow> (case f (uport s) cmd arg of (r, p) \<Rightarrow> Inr (Some r, Out_none, s\<lparr>uport := p\<rparr>))))"

text \<open>The commands on whose way the pointer to the state is followed: all but two, when the terminal is not in error.\<close>

definition follows_state :: "u32 \<Rightarrow> 'h uart_state \<Rightarrow> bool" where
  "follows_state cmd s \<longleftrightarrow> cmd \<in> {TIOCGSERIAL, TIOCSSERIAL, TIOCSERCONFIG}
     \<or> cmd \<notin> {TIOCSERGWILD, TIOCSERSWILD} \<and> \<not> io_error (tty s)"

definition uart_ioctl ::
  "'h uart_ops \<Rightarrow> uart_env \<Rightarrow> uart_caller \<Rightarrow> u32 \<Rightarrow> u32 \<Rightarrow> 'h uart_state \<Rightarrow> 'h ioctl_result" where
  "uart_ioctl ops env uc cmd arg s =
     (if \<not> driver_data (tty s) \<and> follows_state cmd s then Inl Null_state
      else case ioctl_config ops env uc cmd s of
        Inl e \<Rightarrow> Inl e
      | Inr (r1, out1, s1) \<Rightarrow>
          if r1 \<noteq> Some (- ENOIOCTLCMD) then Inr (r1, out1, s1)
          else if io_error (tty s1) then Inr (Some (- EIO), Out_none, s1)
          else (case ioctl_status ops uc cmd arg s1 of
                  (r2, out2, s2) \<Rightarrow>
                    if r2 \<noteq> Some (- ENOIOCTLCMD) then Inr (r2, out2, s2)
                    else ioctl_hardware ops uc cmd arg s2))"

end
