(* ===== verification/Uart_Open.thy ===== *)
theory Uart_Open
  imports Uart_Config
begin

text \<open>
  Opening, closing and hanging up a line. Whatever sleeps takes a list of what happens while it sleeps: each
  element changes the state (other processes and interrupts), and tells whether a signal is pending when the
  process wakes up. A process that still sleeps at the end of the list has the result \<open>None\<close>.
\<close>

section \<open>Waiting for the transmitter\<close>

text \<open>\<open>time_after(a, b)\<close> on the 32-bit tick counter.\<close>

definition time_after :: "u32 \<Rightarrow> u32 \<Rightarrow> bool" where
  "time_after a b \<longleftrightarrow> sint (b - a) < 0"

text \<open>The check interval and the longest time \<open>uart_wait_until_sent\<close> waits, in ticks.\<close>

definition wait_interval :: "u32 \<Rightarrow> 'h uart_port \<Rightarrow> u32" where
  "wait_interval limit p =
     (let c0 = (timeout p - of_nat (HZ div 50)) div fifosize p div 5;
          c1 = (if c0 = 0 then 1 else c0)
      in if limit \<noteq> 0 \<and> limit < c1 then limit else c1)"

definition wait_limit :: "u32 \<Rightarrow> 'h uart_port \<Rightarrow> u32" where
  "wait_limit limit p = (if limit = 0 \<or> limit > 2 * timeout p then 2 * timeout p else limit)"

text \<open>A nap: what happens meanwhile, how many ticks it takes, and whether a signal is pending after it.\<close>

type_synonym 'h nap = "('h uart_state \<Rightarrow> 'h uart_state) \<times> u32 \<times> bool"

fun drain_wait :: "'h uart_ops \<Rightarrow> u32 \<Rightarrow> u32 \<Rightarrow> 'h nap list \<Rightarrow> 'h uart_state \<Rightarrow> 'h uart_state option" where
  "drain_wait ops expire now [] s =
     (case ops_tx_empty ops (uport s) of (e, p) \<Rightarrow> if e \<noteq> 0 then Some (s\<lparr>uport := p\<rparr>) else None)"
| "drain_wait ops expire now ((f, ticks, signal) # naps) s =
     (case ops_tx_empty ops (uport s) of
        (e, p) \<Rightarrow>
          let s1 = s\<lparr>uport := p\<rparr>
          in if e \<noteq> 0 then Some s1
             else if signal \<or> time_after (now + ticks) expire then Some (f s1)
             else drain_wait ops expire (now + ticks) naps (f s1))"

definition uart_wait_until_sent :: "'h uart_ops \<Rightarrow> u32 \<Rightarrow> u32 \<Rightarrow> 'h nap list \<Rightarrow> 'h uart_state \<Rightarrow> 'h uart_state option" where
  "uart_wait_until_sent ops limit now naps s =
     (if \<not> driver_data (tty s) then Some (s\<lparr>crashed := True\<rparr>)
      else if type (uport s) = PORT_UNKNOWN \<or> fifosize (uport s) = 0 then Some s
      else drain_wait ops (now + wait_limit limit (uport s)) now naps s)"

section \<open>Closing and hanging up\<close>

text \<open>\<open>uart_console(port)\<close>\<close>

definition uart_console :: "console option \<Rightarrow> 'h uart_port \<Rightarrow> bool" where
  "uart_console cons p =
     (case cons of None \<Rightarrow> False | Some c \<Rightarrow> has_cons p \<and> word_of_int (con_index c) = line p)"

text \<open>
  The count of openers after a close, with the two repairs of the code: a terminal on its last file is
  taken to be the port's last opener too, and the count does not go below zero.
\<close>

definition close_count :: "'h uart_state \<Rightarrow> int" where
  "close_count s =
     (let c0 = (if tty_count (tty s) = 1 \<and> count s \<noteq> 1 then 1 else count s)
      in if c0 - 1 < 0 then 0 else c0 - 1)"

text \<open>
  A close: whether the file was hung up, what happens during \<open>tty_wait_until_sent\<close>, the tick counter and the naps
  of the wait for the transmitter.
\<close>

record 'h close_env =
  ce_hung_up :: bool
  ce_drain :: "'h uart_state \<Rightarrow> 'h uart_state"
  ce_now :: u32
  ce_naps :: "'h nap list"

definition close_drained :: "'h uart_ops \<Rightarrow> 'h close_env \<Rightarrow> 'h uart_state \<Rightarrow> 'h uart_state option" where
  "close_drained ops ce s =
     (if initialized s
      then uart_wait_until_sent ops (timeout (uport (on_port (ops_stop_rx ops) s))) (ce_now ce) (ce_naps ce)
             (on_port (ops_stop_rx ops) s)
      else Some s)"

definition close_finish :: "'h uart_ops \<Rightarrow> console option \<Rightarrow> 'h uart_state \<Rightarrow> 'h uart_state" where
  "close_finish ops cons s =
     (let s1 = uart_flush_buffer ops (uart_shutdown ops s);
          s2 = (on_tty (\<lambda>t. t\<lparr>closing := False\<rparr>) s1)\<lparr>port_tty := False\<rparr>;
          s3 = (if blocked_open s2 = 0 \<and> \<not> uart_console cons (uport s2) then uart_change_pm ops 3 s2 else s2)
      in s3\<lparr>normal_active := False\<rparr>)"

definition uart_close :: "'h uart_ops \<Rightarrow> console option \<Rightarrow> 'h close_env \<Rightarrow> 'h uart_state \<Rightarrow> 'h uart_state option" where
  "uart_close ops cons ce s =
     (if \<not> driver_data (tty s) \<or> ce_hung_up ce then Some s
      else
        let s1 = s\<lparr>count := close_count s\<rparr>
        in if count s1 \<noteq> 0 then Some s1
           else
             let s2 = on_tty (\<lambda>t. t\<lparr>closing := True\<rparr>) s1;
                 s3 = (if closing_wait s2 \<noteq> CLOSING_WAIT_NONE then ce_drain ce s2 else s2)
             in map_option (close_finish ops cons) (close_drained ops ce s3))"

definition uart_hangup :: "'h uart_ops \<Rightarrow> 'h uart_state \<Rightarrow> 'h uart_state" where
  "uart_hangup ops = with_state (\<lambda>s.
     if normal_active s
     then (uart_shutdown ops (uart_flush_buffer ops s))\<lparr>count := 0, normal_active := False, port_tty := False\<rparr>
     else s)"

section \<open>Opening\<close>

definition uart_update_termios ::
  "'h uart_ops \<Rightarrow> console option \<Rightarrow> 'h uart_state \<Rightarrow> uart_fault + console option \<times> 'h uart_state" where
  "uart_update_termios ops cons s =
     (if \<not> port_tty s then Inl Null_tty
      else
        let (cons1, s1) =
              (case cons of
                 Some c \<Rightarrow>
                   if uart_console cons (uport s) \<and> con_cflag c \<noteq> 0
                   then (Some (c\<lparr>con_cflag := 0\<rparr>),
                         on_tty (\<lambda>t. t\<lparr>termios := (termios t)\<lparr>c_cflag := con_cflag c\<rparr>\<rparr>) s)
                   else (cons, s)
               | None \<Rightarrow> (cons, s))
        in if io_error (tty s1) then Inr (cons1, s1)
           else
             let s2 = uart_change_speed ops None s1
             in Inr (cons1, if has_bits (c_cflag (termios (tty s2))) CBAUD
                            then on_port (uart_set_mctrl ops (TIOCM_DTR OR TIOCM_RTS)) s2 else s2))"

text \<open>
  One pass of the loop of \<open>uart_block_til_ready\<close>, up to \<open>schedule\<close>: the flag tells whether the loop is left.
\<close>

definition btr_pass :: "'h uart_ops \<Rightarrow> bool \<Rightarrow> bool \<Rightarrow> 'h uart_state \<Rightarrow> bool \<times> 'h uart_state" where
  "btr_pass ops nonblock hung_up s =
     (if hung_up \<or> \<not> port_tty s then (True, s)
      else if \<not> initialized s then (True, s)
      else if nonblock \<or> has_bits (c_cflag (termios (tty s))) CLOCAL \<or> io_error (tty s) then (True, s)
      else
        let s1 = (if has_bits (c_cflag (termios (tty s))) CBAUD then on_port (uart_set_mctrl ops TIOCM_DTR) s else s);
            s2 = on_port (ops_enable_ms ops) s1
        in (case ops_get_mctrl ops s2 of (m, s3) \<Rightarrow> (has_bits m TIOCM_CAR, s3)))"

text \<open>A wake-up: what happened, whether a signal is pending, and whether the file was hung up.\<close>

type_synonym 'h wake = "('h uart_state \<Rightarrow> 'h uart_state) \<times> bool \<times> bool"

fun btr_loop ::
  "'h uart_ops \<Rightarrow> bool \<Rightarrow> bool \<Rightarrow> bool \<Rightarrow> 'h wake list \<Rightarrow> 'h uart_state \<Rightarrow> (bool \<times> bool \<times> 'h uart_state) option" where
  "btr_loop ops nonblock signal hung_up wakes s =
     (case btr_pass ops nonblock hung_up s of
        (True, s1) \<Rightarrow> Some (signal, hung_up, s1)
      | (False, s1) \<Rightarrow>
          (case wakes of
             [] \<Rightarrow> None
           | (f, signal', hung_up') # wakes' \<Rightarrow>
               if signal' then Some (signal', hung_up', f s1)
               else btr_loop ops nonblock signal' hung_up' wakes' (f s1)))"

declare btr_loop.simps [simp del]

definition btr_enter :: "'h uart_state \<Rightarrow> 'h uart_state" where
  "btr_enter s = s\<lparr>blocked_open := blocked_open s + 1, count := count s - 1\<rparr>"

definition btr_leave :: "bool \<Rightarrow> bool \<Rightarrow> 'h uart_state \<Rightarrow> int \<times> 'h uart_state" where
  "btr_leave signal hung_up s =
     (if signal then - ERESTARTSYS else if \<not> port_tty s \<or> hung_up then - EAGAIN else 0,
      s\<lparr>count := count s + 1, blocked_open := blocked_open s - 1\<rparr>)"

definition uart_block_til_ready ::
  "'h uart_ops \<Rightarrow> bool \<Rightarrow> bool \<Rightarrow> bool \<Rightarrow> 'h wake list \<Rightarrow> 'h uart_state \<Rightarrow> (int \<times> 'h uart_state) option" where
  "uart_block_til_ready ops nonblock signal hung_up wakes s =
     map_option (\<lambda>(sg, hu, s'). btr_leave sg hu s') (btr_loop ops nonblock signal hung_up wakes (btr_enter s))"

text \<open>\<open>uart_get\<close> gives the line, or an error.\<close>

definition uart_get :: "bool \<Rightarrow> 'h uart_state \<Rightarrow> int + 'h uart_state" where
  "uart_get intr s =
     (if intr then Inl (- ERESTARTSYS)
      else if \<not> port_present s \<or> has_bits (flags (uport s)) UPF_DEAD then Inl (- ENXIO)
      else Inr (s\<lparr>count := count s + 1\<rparr>))"

text \<open>
  An open: whether the line number exists, whether the lock was interrupted, the flags of the file, the state
  of the process, and the wake-ups.
\<close>

record 'h open_env =
  oe_env :: uart_env
  oe_line_ok :: bool
  oe_interrupted :: bool
  oe_hung_up :: bool
  oe_nonblock :: bool
  oe_signal :: bool
  oe_wakes :: "'h wake list"

text \<open>The part of \<open>uart_open\<close> that ties the terminal to the line.\<close>

definition open_attach :: "'h uart_state \<Rightarrow> 'h uart_state" where
  "open_attach s =
     (on_tty (\<lambda>t. t\<lparr>driver_data := True, low_latency := has_bits (flags (uport s)) UPF_LOW_LATENCY\<rparr>)
        (on_port (\<lambda>p. p\<lparr>has_state := True\<rparr>) s))\<lparr>port_tty := True\<rparr>"

text \<open>After the lock was released.\<close>

definition open_adjust ::
  "'h uart_ops \<Rightarrow> console option \<Rightarrow> int \<Rightarrow> 'h uart_state \<Rightarrow> uart_fault + (int \<times> console option \<times> 'h uart_state) option" where
  "open_adjust ops cons retval s =
     (if retval = 0 \<and> \<not> normal_active s
      then map_sum id (\<lambda>(cons', s'). Some (retval, cons', s')) (uart_update_termios ops cons (s\<lparr>normal_active := True\<rparr>))
      else Inr (Some (retval, cons, s)))"

definition uart_open ::
  "'h uart_ops \<Rightarrow> console option \<Rightarrow> 'h open_env \<Rightarrow> 'h uart_state \<Rightarrow>
   uart_fault + (int \<times> console option \<times> 'h uart_state) option" where
  "uart_open ops cons oe s =
     (if \<not> oe_line_ok oe then Inr (Some (- ENODEV, cons, s))
      else
        (case uart_get (oe_interrupted oe) s of
           Inl e \<Rightarrow> Inr (Some (e, cons, s))
         | Inr s0 \<Rightarrow>
             let s1 = open_attach s0
             in if oe_hung_up oe then Inr (Some (- EAGAIN, cons, s1\<lparr>count := count s1 - 1\<rparr>))
                else
                  (case uart_startup ops (env_page (oe_env oe)) (env_admin (oe_env oe)) False
                          (if count s1 = 1 then uart_change_pm ops 0 s1 else s1) of
                     Inl e \<Rightarrow> Inl e
                   | Inr (retval, s2) \<Rightarrow>
                       if retval = 0 then
                         (case uart_block_til_ready ops (oe_nonblock oe) (oe_signal oe) (oe_hung_up oe) (oe_wakes oe) s2 of
                            None \<Rightarrow> Inr None
                          | Some (retval', s3) \<Rightarrow> open_adjust ops cons retval' s3)
                       else open_adjust ops cons retval s2)))"

end
