(* ===== verification/Uart_Console.thy ===== *)
theory Uart_Console
  imports Uart_Open
begin

text \<open>
  The console side of the serial core: writing a message, choosing the port of a console, decoding and applying its
  options, and the polled operations of a debugger.
\<close>

section \<open>Writing\<close>

text \<open>
  \<open>putc\<close> is the \<open>putchar\<close> that the low-level driver passes. Every character also goes to the serial log.
\<close>

definition console_putc ::
  "(u8 \<Rightarrow> 'h uart_port \<Rightarrow> 'h uart_port) \<Rightarrow> u8 \<Rightarrow> 'h uart_port \<times> uart_daemon \<Rightarrow> uart_fault + 'h uart_port \<times> uart_daemon" where
  "console_putc putc c = (\<lambda>(p, d).
     (case serial_daemon_putchar c d of
        Inl e \<Rightarrow> Inl (Daemon_fault e)
      | Inr (_, d1) \<Rightarrow> Inr (putc c p, d1)))"

fun console_chars ::
  "(u8 \<Rightarrow> 'h uart_port \<Rightarrow> 'h uart_port) \<Rightarrow> u8 list \<Rightarrow> 'h uart_port \<times> uart_daemon \<Rightarrow> uart_fault + 'h uart_port \<times> uart_daemon" where
  "console_chars putc [] pd = Inr pd"
| "console_chars putc (c # cs) pd =
     (case (if c = 10 then console_putc putc 13 pd else Inr pd) of
        Inl e \<Rightarrow> Inl e
      | Inr pd1 \<Rightarrow>
          (case console_putc putc c pd1 of
             Inl e \<Rightarrow> Inl e
           | Inr pd2 \<Rightarrow> console_chars putc cs pd2))"

definition uart_console_write ::
  "(u8 \<Rightarrow> 'h uart_port \<Rightarrow> 'h uart_port) \<Rightarrow> u8 list \<Rightarrow> 'h uart_port \<times> uart_daemon \<Rightarrow> uart_fault + 'h uart_port \<times> uart_daemon" where
  "uart_console_write putc s pd = map_sum id (\<lambda>(p, d). (p, serial_daemon_complete d)) (console_chars putc s pd)"

section \<open>Choosing a port\<close>

text \<open>The port found first, or the number of ports when there is none.\<close>

fun first_usable :: "'h uart_port list \<Rightarrow> nat" where
  "first_usable [] = 0"
| "first_usable (p # ps) = (if iobase p \<noteq> 0 \<or> membase p \<noteq> 0 then 0 else Suc (first_usable ps))"

definition uart_get_console :: "'h uart_port list \<Rightarrow> console \<Rightarrow> nat \<times> console" where
  "uart_get_console ports co =
     (let bad = (con_index co < 0 \<or> con_index co \<ge> int (length ports)
                 \<or> iobase (ports ! nat (con_index co)) = 0 \<and> membase (ports ! nat (con_index co)) = 0);
          idx = (if bad then first_usable ports else nat (con_index co))
      in (idx, co\<lparr>con_index := int idx\<rparr>))"

section \<open>Options\<close>

record uart_options =
  opt_baud :: u32
  opt_parity :: int
  opt_bits :: int
  opt_flow :: int

text \<open>
  \<open>simple_strtoul(s, NULL, 10)\<close> gives the value of the leading digits; the fields of the argument are what the variables
  held before. The string ends at its NUL, which is not part of the list.
\<close>

definition uart_parse_options :: "string \<Rightarrow> uart_options \<Rightarrow> uart_options" where
  "uart_parse_options s v =
     (let v0 = v\<lparr>opt_baud := of_nat (digits_value (takeWhile is_digit s))\<rparr>
      in (case dropWhile is_digit s of
            [] \<Rightarrow> v0
          | [p] \<Rightarrow> v0\<lparr>opt_parity := of_char p\<rparr>
          | [p, b] \<Rightarrow> v0\<lparr>opt_parity := of_char p, opt_bits := of_char b - 48\<rparr>
          | p # b # f # _ \<Rightarrow> v0\<lparr>opt_parity := of_char p, opt_bits := of_char b - 48, opt_flow := of_char f\<rparr>))"

text \<open>The rates of the console with their codes in \<open>c_cflag\<close>; the last entry ends the table.\<close>

definition baud_rates :: "(u32 \<times> u32) list" where
  "baud_rates =
     [(921600, 0x1007), (460800, 0x1004), (230400, 0x1003), (115200, 0x1002), (57600, 0x1001), (38400, 0xF),
      (19200, 0xE), (9600, 0xD), (4800, 0xC), (2400, 0xB), (1200, 0x9), (0, 0xF)]"

fun find_rate :: "u32 \<Rightarrow> (u32 \<times> u32) list \<Rightarrow> u32" where
  "find_rate baud [] = 0"
| "find_rate baud ((rate, code) # rest) = (if rate = 0 \<or> rate \<le> baud then code else find_rate baud rest)"

definition options_cflag :: "uart_options \<Rightarrow> u32" where
  "options_cflag v =
     (let c0 = CREAD OR HUPCL OR CLOCAL;
          c1 = c0 OR find_rate (opt_baud v) baud_rates;
          c2 = c1 OR (if opt_bits v = 7 then CS7 else CS8);
          c3 = (if opt_parity v = 111 \<or> opt_parity v = 79 then c2 OR PARODD OR PARENB
                else if opt_parity v = 101 \<or> opt_parity v = 69 then c2 OR PARENB
                else c2)
      in if opt_flow v = 114 then c3 OR CRTSCTS else c3)"

definition zero_termios :: ktermios where
  "zero_termios = \<lparr>c_iflag = 0, c_cflag = 0, c_ispeed = 0, c_ospeed = 0, start_char = 0, stop_char = 0\<rparr>"

text \<open>
  The settings that the driver corrected are the ones the console remembers. \<open>dummy\<close> is a static structure of zeros.
\<close>

definition uart_set_options ::
  "'h uart_ops \<Rightarrow> uart_options \<Rightarrow> console option \<Rightarrow> 'h uart_port \<Rightarrow> int \<times> console option \<times> 'h uart_port" where
  "uart_set_options ops v co p =
     (case ops_set_termios ops (zero_termios\<lparr>c_cflag := options_cflag v\<rparr>) (Some zero_termios)
             (p\<lparr>mctrl := mctrl p OR TIOCM_DTR\<rparr>) of
        (t, p') \<Rightarrow> (0, map_option (\<lambda>c. c\<lparr>con_cflag := c_cflag t\<rparr>) co, p'))"

section \<open>Polling\<close>

definition uart_poll_init :: "'h uart_ops \<Rightarrow> string option \<Rightarrow> 'h uart_state \<Rightarrow> int \<times> 'h uart_state" where
  "uart_poll_init ops options s =
     (if \<not> port_present s then (-1, s)
      else if ops_poll_get_char ops = None \<or> ops_poll_put_char ops = None then (-1, s)
      else
        (case options of
           None \<Rightarrow> (0, s)
         | Some str \<Rightarrow>
             let v = uart_parse_options str \<lparr>opt_baud = 9600, opt_parity = 110, opt_bits = 8, opt_flow = 110\<rparr>
             in (case uart_set_options ops v None (uport s) of (r, _, p) \<Rightarrow> (r, s\<lparr>uport := p\<rparr>))))"

text \<open>The two others call the driver without looking whether it provides the function.\<close>

definition uart_poll_get_char :: "'h uart_ops \<Rightarrow> 'h uart_state \<Rightarrow> uart_fault + int \<times> 'h uart_state" where
  "uart_poll_get_char ops s =
     (if \<not> port_present s then Inr (-1, s)
      else (case ops_poll_get_char ops of
              None \<Rightarrow> Inl Null_call
            | Some f \<Rightarrow> (case f (uport s) of (r, p) \<Rightarrow> Inr (r, s\<lparr>uport := p\<rparr>))))"

definition uart_poll_put_char :: "'h uart_ops \<Rightarrow> u8 \<Rightarrow> 'h uart_state \<Rightarrow> uart_fault + 'h uart_state" where
  "uart_poll_put_char ops ch s =
     (if \<not> port_present s then Inr s
      else (case ops_poll_put_char ops of None \<Rightarrow> Inl Null_call | Some f \<Rightarrow> Inr (on_port (f ch) s)))"

end
