(* ===== verification/Uart_Driver.thy ===== *)
theory Uart_Driver
  imports Uart_Console
begin

text \<open>
  Drivers and their ports: registering a driver, adding and removing ports, power management, and the
  text of the proc file.
\<close>

section \<open>Power management\<close>

text \<open>
  \<open>console_stop\<close> and \<open>console_start\<close> clear and set \<open>CON_ENABLED\<close>. The parameters are \<open>console_suspend_enabled\<close>, whether
  the device may wake up the system, and what happens during a nap of ten milliseconds.
\<close>

fun suspend_drain :: "'h uart_ops \<Rightarrow> ('h uart_state \<Rightarrow> 'h uart_state) \<Rightarrow> nat \<Rightarrow> 'h uart_state \<Rightarrow> 'h uart_state" where
  "suspend_drain ops nap 0 s = s\<lparr>uport := snd (ops_tx_empty ops (uport s))\<rparr>"
| "suspend_drain ops nap (Suc n) s =
     (case ops_tx_empty ops (uport s) of
        (e, p) \<Rightarrow> if e \<noteq> 0 then s\<lparr>uport := p\<rparr> else suspend_drain ops nap n (nap (s\<lparr>uport := p\<rparr>)))"

definition suspend_hw :: "'h uart_ops \<Rightarrow> ('h uart_state \<Rightarrow> 'h uart_state) \<Rightarrow> 'h uart_state \<Rightarrow> 'h uart_state" where
  "suspend_hw ops nap s =
     (let s1 = s\<lparr>async_suspended := True, initialized := False\<rparr>;
          s2 = on_port (\<lambda>p. ops_stop_rx ops (ops_set_mctrl ops 0 (ops_stop_tx ops p))) s1
      in on_port (ops_shutdown ops) (suspend_drain ops nap 3 s2))"

definition uart_suspend_port ::
  "'h uart_ops \<Rightarrow> bool \<Rightarrow> bool \<Rightarrow> ('h uart_state \<Rightarrow> 'h uart_state) \<Rightarrow> console option \<Rightarrow> 'h uart_state \<Rightarrow>
   console option \<times> 'h uart_state" where
  "uart_suspend_port ops con_suspend may_wakeup nap cons s =
     (if \<not> con_suspend \<and> uart_console cons (uport s) then (cons, s)
      else if may_wakeup then (cons, s)
      else
        let s1 = on_port (\<lambda>p. p\<lparr>suspended := True\<rparr>) s;
            s2 = (if initialized s1 then suspend_hw ops nap s1 else s1);
            cons1 = (if uart_console cons (uport s2) then map_option (\<lambda>c. c\<lparr>con_enabled := False\<rparr>) cons else cons)
        in (cons1, uart_change_pm ops 3 s2))"

definition resume_hw :: "'h uart_ops \<Rightarrow> 'h uart_state \<Rightarrow> 'h uart_state" where
  "resume_hw ops s =
     (let s1 = on_port (ops_set_mctrl ops 0) (uart_change_pm ops 0 s)
      in (case ops_startup ops (uport s1) of
            (ret, p) \<Rightarrow>
              let s2 = s1\<lparr>uport := p\<rparr>;
                  s3 = (if ret = 0 then
                          let s' = uart_change_speed ops None s2
                          in (ops_start_tx ops (on_port (\<lambda>q. ops_set_mctrl ops (mctrl q) q) s'))\<lparr>initialized := True\<rparr>
                        else uart_shutdown ops s2)
              in s3\<lparr>async_suspended := False\<rparr>))"

text \<open>
  The settings for a console that was not suspended. \<open>irate\<close> and \<open>rate\<close> are \<open>tty_termios_input_baud_rate\<close> and
  \<open>tty_termios_baud_rate\<close>.
\<close>

definition resume_console ::
  "'h uart_ops \<Rightarrow> (ktermios \<Rightarrow> u32) \<Rightarrow> (ktermios \<Rightarrow> u32) \<Rightarrow> u32 \<Rightarrow> 'h uart_state \<Rightarrow> uart_fault + 'h uart_state" where
  "resume_console ops irate rate cflag s =
     (let t = zero_termios\<lparr>c_cflag := cflag\<rparr>
      in if cflag = 0 then
           if \<not> port_tty s then Inl Null_tty
           else Inr (on_port (\<lambda>p. snd (ops_set_termios ops (termios (tty s)) None p)) s)
         else
           let t1 = t\<lparr>c_ispeed := irate t, c_ospeed := irate t\<rparr>;
               t2 = t1\<lparr>c_ispeed := rate t1, c_ospeed := rate t1\<rparr>
           in Inr (on_port (\<lambda>p. snd (ops_set_termios ops t2 None p)) s))"

text \<open>
  \<open>stack\<close> is what the local variable \<open>termios\<close> holds when it has not been written: for a console that was
  suspended the driver gets it all the same.
\<close>

definition uart_resume_port ::
  "'h uart_ops \<Rightarrow> bool \<Rightarrow> bool \<Rightarrow> (ktermios \<Rightarrow> u32) \<Rightarrow> (ktermios \<Rightarrow> u32) \<Rightarrow> ktermios \<Rightarrow> console option \<Rightarrow>
   'h uart_state \<Rightarrow> uart_fault + console option \<times> 'h uart_state" where
  "uart_resume_port ops con_suspend may_wakeup irate rate stack cons s =
     (if \<not> con_suspend \<and> uart_console cons (uport s) then
        map_sum id (\<lambda>s'. (cons, s')) (resume_console ops irate rate (case cons of None \<Rightarrow> 0 | Some c \<Rightarrow> con_cflag c) s)
      else if \<not> suspended (uport s) \<and> may_wakeup then Inr (cons, s)
      else
        let s1 = on_port (\<lambda>p. p\<lparr>suspended := False\<rparr>) s;
            (cons1, s2) =
              (if uart_console cons (uport s1)
               then (map_option (\<lambda>c. c\<lparr>con_enabled := True\<rparr>) cons,
                     on_port (\<lambda>p. snd (ops_set_termios ops stack None p)) (uart_change_pm ops 0 s1))
               else (cons, s1))
        in Inr (cons1, if async_suspended s2 then resume_hw ops s2 else s2))"

section \<open>Ports of a driver\<close>

text \<open>\<open>drv->state\<close>: a null pointer, the array of lines, or a pointer to memory that was freed.\<close>

datatype 'h drv_state = State_null | State_lines "'h uart_state list" | State_freed

record 'h uart_driver =
  drv_nr :: nat
  drv_state :: "'h drv_state"
  drv_cons :: "console option"
  drv_tty_driver :: bool

text \<open>A zeroed line with the two delays, in milliseconds. The port, which is not there yet, is an arbitrary value.\<close>

definition zero_tty :: tty_struct where
  "zero_tty = \<lparr>tty_count = 0, io_error = False, throttled = False, stopped = False, hw_stopped = False, closing = False,
     low_latency = False, driver_data = False, wakeups = 0, termios = zero_termios\<rparr>"

definition fresh_line :: "'h uart_port \<Rightarrow> 'h uart_state" where
  "fresh_line p = \<lparr>count = 0, blocked_open = 0, close_delay = 500, closing_wait = 30000, initialized = False,
     normal_active = False, cts_flow = False, check_cd = False, async_suspended = False, port_tty = False, tty = zero_tty,
     pm_state = 0, xmit = \<lparr>circ_data = None, circ_head = 0, circ_tail = 0\<rparr>, tlet = False, port_present = False, crashed = False, uport = p\<rparr>"

text \<open>
  The parameters tell whether the array and the terminal driver could be allocated, and what \<open>tty_register_driver\<close>
  returns. On failure the code frees the array, keeps the pointer, and hands over the terminal driver even when it
  is a null pointer.
\<close>

definition uart_register_driver ::
  "'h uart_port \<Rightarrow> bool \<Rightarrow> bool \<Rightarrow> int \<Rightarrow> 'h uart_driver \<Rightarrow> uart_fault + int \<times> 'h uart_driver" where
  "uart_register_driver p0 have_state have_tty tty_ret drv =
     (if drv_state drv \<noteq> State_null then Inl Driver_bug
      else if \<not> have_state \<or> \<not> have_tty then Inl Null_tty_driver
      else
        let drv1 = drv\<lparr>drv_state := State_lines (replicate (drv_nr drv) (fresh_line p0)), drv_tty_driver := True\<rparr>
        in if tty_ret < 0 then Inr (tty_ret, drv1\<lparr>drv_state := State_freed\<rparr>) else Inr (tty_ret, drv1))"

definition uart_unregister_driver :: "'h uart_driver \<Rightarrow> 'h uart_driver" where
  "uart_unregister_driver drv =
     drv\<lparr>drv_state := (case drv_state drv of State_null \<Rightarrow> State_null | _ \<Rightarrow> State_freed), drv_tty_driver := False\<rparr>"

definition uart_console_device :: "console \<Rightarrow> 'h uart_driver \<Rightarrow> bool \<times> int" where
  "uart_console_device co drv = (drv_tty_driver drv, con_index co)"

text \<open>\<open>reg\<close> is what \<open>register_console\<close> does to the console.\<close>

definition configure_flags :: "'h uart_port \<Rightarrow> u32" where
  "configure_flags p =
     (let f0 = (if has_bits (flags p) UPF_AUTO_IRQ then UART_CONFIG_IRQ else 0)
      in if has_bits (flags p) UPF_BOOT_AUTOCONF \<and> \<not> has_bits (flags p) UPF_FIXED_TYPE then f0 OR UART_CONFIG_TYPE else f0)"

definition autoconf_port :: "'h uart_ops \<Rightarrow> 'h uart_port \<Rightarrow> 'h uart_port" where
  "autoconf_port ops p =
     (if has_bits (flags p) UPF_BOOT_AUTOCONF
      then ops_config_port ops (configure_flags p)
             (if has_bits (flags p) UPF_FIXED_TYPE then p else p\<lparr>type := PORT_UNKNOWN\<rparr>)
      else p)"

definition uart_configure_port ::
  "'h uart_ops \<Rightarrow> (console \<Rightarrow> console) \<Rightarrow> console option \<Rightarrow> 'h uart_state \<Rightarrow> console option \<times> 'h uart_state" where
  "uart_configure_port ops reg cons s =
     (if iobase (uport s) = 0 \<and> mapbase (uport s) = 0 \<and> membase (uport s) = 0 then (cons, s)
      else
        let s1 = on_port (autoconf_port ops) s
        in if type (uport s1) = PORT_UNKNOWN then (cons, s1)
           else
             let s2 = uart_change_pm ops 0 s1;
                 s3 = on_port (\<lambda>p. ops_set_mctrl ops (mctrl p AND TIOCM_DTR) p) s2;
                 cons1 = (case cons of
                            Some c \<Rightarrow> if has_cons (uport s3) \<and> \<not> con_enabled c then Some (reg c) else cons
                          | None \<Rightarrow> None)
             in (cons1, if uart_console cons1 (uport s3) then s3 else uart_change_pm ops 3 s3))"

definition add_port_line ::
  "'h uart_ops \<Rightarrow> (console \<Rightarrow> console) \<Rightarrow> console option \<Rightarrow> 'h uart_port \<Rightarrow> 'h uart_state \<Rightarrow> console option \<times> 'h uart_state" where
  "add_port_line ops reg cons p s =
     (let s1 = s\<lparr>port_present := True, pm_state := -1, uport := p\<lparr>has_cons := (cons \<noteq> None), has_state := True\<rparr>\<rparr>
      in (case uart_configure_port ops reg cons s1 of
            (cons1, s2) \<Rightarrow> (cons1, on_port (\<lambda>q. q\<lparr>flags := flags q AND NOT UPF_DEAD\<rparr>) s2)))"

definition uart_add_one_port ::
  "'h uart_ops \<Rightarrow> (console \<Rightarrow> console) \<Rightarrow> 'h uart_port \<Rightarrow> 'h uart_driver \<Rightarrow> uart_fault + int \<times> 'h uart_driver" where
  "uart_add_one_port ops reg p drv =
     (let i = unat (line p)
      in if i \<ge> drv_nr drv then Inr (- EINVAL, drv)
         else
           (case drv_state drv of
              State_lines ls \<Rightarrow>
                if port_present (ls ! i) then Inr (- EINVAL, drv)
                else (case add_port_line ops reg (drv_cons drv) p (ls ! i) of
                        (cons1, s) \<Rightarrow> Inr (0, drv\<lparr>drv_state := State_lines (ls[i := s]), drv_cons := cons1\<rparr>))
            | _ \<Rightarrow> Inl Freed_state))"

text \<open>
  Removing the port of line \<open>i\<close>. \<open>vhangup\<close> is \<open>tty_vhangup\<close>, which has the terminal layer hang up the terminal.
\<close>

definition remove_port_line :: "'h uart_ops \<Rightarrow> ('h uart_state \<Rightarrow> 'h uart_state) \<Rightarrow> 'h uart_state \<Rightarrow> 'h uart_state" where
  "remove_port_line ops vhangup s =
     (let s1 = on_port (\<lambda>p. p\<lparr>flags := flags p OR UPF_DEAD\<rparr>) s;
          s2 = (if port_tty s1 then vhangup s1 else s1);
          s3 = (if type (uport s2) \<noteq> PORT_UNKNOWN then on_port (ops_release_port ops) s2 else s2);
          s4 = on_port (\<lambda>p. p\<lparr>type := PORT_UNKNOWN\<rparr>) s3
      in s4\<lparr>tlet := False, port_present := False\<rparr>)"

definition uart_remove_one_port ::
  "'h uart_ops \<Rightarrow> ('h uart_state \<Rightarrow> 'h uart_state) \<Rightarrow> nat \<Rightarrow> 'h uart_driver \<Rightarrow> uart_fault + int \<times> 'h uart_driver" where
  "uart_remove_one_port ops vhangup i drv =
     (case drv_state drv of
        State_lines ls \<Rightarrow> Inr (0, drv\<lparr>drv_state := State_lines (ls[i := remove_port_line ops vhangup (ls ! i)])\<rparr>)
      | _ \<Rightarrow> Inl Freed_state)"

definition uart_match_port :: "'h uart_port \<Rightarrow> 'h uart_port \<Rightarrow> bool" where
  "uart_match_port p1 p2 \<longleftrightarrow>
     iotype p1 = iotype p2
     \<and> (if iotype p1 = UPIO_PORT then iobase p1 = iobase p2
        else if iotype p1 = UPIO_HUB6 then iobase p1 = iobase p2 \<and> hub6 p1 = hub6 p2
        else if iotype p1 \<in> {UPIO_MEM, UPIO_MEM32, UPIO_AU, UPIO_TSI, UPIO_DWAPB} then mapbase p1 = mapbase p2
        else False)"

section \<open>Text\<close>

definition uart_type :: "'h uart_ops \<Rightarrow> 'h uart_port \<Rightarrow> string" where
  "uart_type ops p =
     (case ops_type ops of
        None \<Rightarrow> ''unknown''
      | Some f \<Rightarrow> (case f p of None \<Rightarrow> ''unknown'' | Some str \<Rightarrow> str))"

definition upper_hex :: "string \<Rightarrow> string" where
  "upper_hex = map (\<lambda>c. if 97 \<le> (of_char c :: nat) then char_of (of_char c - 32 :: nat) else c)"

definition hex8 :: "u32 \<Rightarrow> string" where
  "hex8 w = (let d = upper_hex (hex_digits (unat w)) in replicate (8 - length d) (CHR ''0'') @ d)"

text \<open>The address in the message of \<open>uart_report_port\<close>.\<close>

definition port_address :: "'h uart_port \<Rightarrow> string" where
  "port_address p =
     take 63 (if iotype p = UPIO_PORT then ''I/O 0x'' @ hex_digits (unat (iobase p))
       else if iotype p = UPIO_HUB6 then ''I/O 0x'' @ hex_digits (unat (iobase p)) @ '' offset 0x'' @ hex_digits (unat (hub6 p))
       else if iotype p \<in> {UPIO_MEM, UPIO_MEM32, UPIO_AU, UPIO_TSI, UPIO_DWAPB} then ''MMIO 0x'' @ hex_digits (unat (mapbase p))
       else ''*unknown*'')"

text \<open>\<open>prefix\<close> is the name of the device with a colon and \<open>dev_name\<close> the name of the driver's devices.\<close>

definition uart_report_port :: "'h uart_ops \<Rightarrow> string \<Rightarrow> string \<Rightarrow> int \<Rightarrow> 'h uart_port \<Rightarrow> string" where
  "uart_report_port ops prefix dev_name name_base p =
     prefix @ dev_name @ int_digits (name_base + int (unat (line p))) @ '' at '' @ port_address p @ '' (irq = ''
     @ int_digits (sint (irq p)) @ '') is a '' @ uart_type ops p @ [CHR 0x0A]"

text \<open>\<open>strncat\<close> into the buffer of 32 bytes with the bound of the code.\<close>

definition stat_add :: "bool \<Rightarrow> string \<Rightarrow> string \<Rightarrow> string" where
  "stat_add cond str buf = (if cond then buf @ take (32 - length buf - 2) str else buf)"

definition stat_text :: "u32 \<Rightarrow> u32 \<Rightarrow> string" where
  "stat_text mc status =
     (let b = stat_add (has_bits status TIOCM_RNG) ''|RI''
               (stat_add (has_bits status TIOCM_CAR) ''|CD''
               (stat_add (has_bits status TIOCM_DSR) ''|DSR''
               (stat_add (has_bits mc TIOCM_DTR) ''|DTR''
               (stat_add (has_bits status TIOCM_CTS) ''|CTS''
               (stat_add (has_bits mc TIOCM_RTS) ''|RTS'' [])))))
      in (case b of [] \<Rightarrow> [] | _ # rest \<Rightarrow> CHR '' '' # rest))"

definition counter_text :: "string \<Rightarrow> u32 \<Rightarrow> string" where
  "counter_text name n = (if n \<noteq> 0 then name @ int_digits (sint n) else [])"

definition uart_line_info :: "'h uart_ops \<Rightarrow> bool \<Rightarrow> 'h uart_state \<Rightarrow> string \<times> 'h uart_state" where
  "uart_line_info ops admin s =
     (if \<not> port_present s then ([], s)
      else
        let p = uport s;
            mmio = (iotype p \<ge> UPIO_MEM);
            head = int_digits (sint (line p)) @ '': uart:'' @ uart_type ops p @ '' ''
                   @ (if mmio then ''mmio:0x'' else ''port:'') @ hex8 (if mmio then mapbase p else iobase p)
                   @ '' irq:'' @ int_digits (sint (irq p))
        in if type p = PORT_UNKNOWN then (head @ [CHR 0x0A], s)
           else if \<not> admin then (head @ [CHR 0x0A], s)
           else
             let pm = pm_state s;
                 s1 = (if pm \<noteq> 0 then uart_change_pm ops 0 s else s);
                 (status, s1') = ops_get_mctrl ops s1;
                 s2 = (if pm \<noteq> 0 then uart_change_pm ops pm s1' else s1');
                 ic = icount (uport s2)
             in (head @ '' tx:'' @ int_digits (sint (ic_tx ic)) @ '' rx:'' @ int_digits (sint (ic_rx ic))
                 @ counter_text '' fe:'' (ic_frame ic) @ counter_text '' pe:'' (ic_parity ic)
                 @ counter_text '' brk:'' (ic_brk ic) @ counter_text '' oe:'' (ic_overrun ic)
                 @ stat_text (mctrl (uport s2)) status @ [CHR 0x0A], s2))"

fun uart_proc_lines :: "'h uart_ops \<Rightarrow> bool \<Rightarrow> 'h uart_state list \<Rightarrow> string \<times> 'h uart_state list" where
  "uart_proc_lines ops admin [] = ([], [])"
| "uart_proc_lines ops admin (s # ss) =
     (case uart_line_info ops admin s of
        (t, s') \<Rightarrow> (case uart_proc_lines ops admin ss of (ts, ss') \<Rightarrow> (t @ ts, s' # ss')))"

definition uart_proc_show :: "'h uart_ops \<Rightarrow> bool \<Rightarrow> 'h uart_state list \<Rightarrow> string \<times> 'h uart_state list" where
  "uart_proc_show ops admin ss =
     (case uart_proc_lines ops admin ss of
        (ts, ss') \<Rightarrow> (''serinfo:1.0 driver revision:'' @ [CHR 0x0A] @ ts, ss'))"

end
