(* ===== verification/Uart_8250.thy ===== *)
theory Uart_8250
  imports Uart_Driver
begin

text \<open>
  The low-level driver for 8250-type ports (fiq/drivers/serial/8250.c): access to the registers, recognition of the
  chip, and the state the driver keeps for a port. The registers are read and written through the bus functions of the
  kernel, which act on a device of arbitrary type \<open>'d\<close>; they are parameters, as is everything else the driver gets
  from the kernel.

  The configuration is that of a 32-bit ARM kernel with \<open>CONFIG_FIQ\<close>, without support for RSA, Au1x00, RM9000 and OMAP
  hardware and without the changes for the Feroceon KW2 platform. Constants have their published values; the bits of \<open>capabilities\<close> and \<open>bugs\<close>, which are only set and
  tested one at a time, are booleans.
\<close>

section \<open>Constants\<close>

abbreviation (input) "REG_RX \<equiv> (0 :: nat)"
abbreviation (input) "REG_TX \<equiv> (0 :: nat)"
abbreviation (input) "REG_DLL \<equiv> (0 :: nat)"
abbreviation (input) "REG_TRG \<equiv> (0 :: nat)"
abbreviation (input) "REG_DLM \<equiv> (1 :: nat)"
abbreviation (input) "REG_IER \<equiv> (1 :: nat)"
abbreviation (input) "REG_FCTR \<equiv> (1 :: nat)"
abbreviation (input) "REG_IIR \<equiv> (2 :: nat)"
abbreviation (input) "REG_FCR \<equiv> (2 :: nat)"
abbreviation (input) "REG_EFR \<equiv> (2 :: nat)"
abbreviation (input) "REG_LCR \<equiv> (3 :: nat)"
abbreviation (input) "REG_MCR \<equiv> (4 :: nat)"
abbreviation (input) "REG_LSR \<equiv> (5 :: nat)"
abbreviation (input) "REG_ICR \<equiv> (5 :: nat)"
abbreviation (input) "REG_MSR \<equiv> (6 :: nat)"
abbreviation (input) "REG_SCR \<equiv> (7 :: nat)"

abbreviation (input) "ICR_ACR \<equiv> (0x00 :: u8)"
abbreviation (input) "ICR_ID1 \<equiv> (0x08 :: u8)"
abbreviation (input) "ICR_ID2 \<equiv> (0x09 :: u8)"
abbreviation (input) "ICR_ID3 \<equiv> (0x0A :: u8)"
abbreviation (input) "ICR_REV \<equiv> (0x0B :: u8)"
abbreviation (input) "ICR_CSR \<equiv> (0x0C :: u8)"
abbreviation (input) "ACR_TXDIS \<equiv> (0x02 :: u8)"
abbreviation (input) "ACR_ICRRD \<equiv> (0x40 :: u8)"

abbreviation (input) "IER_RDI \<equiv> (0x01 :: u8)"
abbreviation (input) "IER_THRI \<equiv> (0x02 :: u8)"
abbreviation (input) "IER_RLSI \<equiv> (0x04 :: u8)"
abbreviation (input) "IER_MSI \<equiv> (0x08 :: u8)"
abbreviation (input) "IER_RTOIE \<equiv> (0x10 :: u8)"
abbreviation (input) "IER_SLEEP \<equiv> (0x10 :: u8)"
abbreviation (input) "IER_UUE \<equiv> (0x40 :: u8)"
abbreviation (input) "IIR_NO_INT \<equiv> (0x01 :: u8)"
abbreviation (input) "IIR_THRI \<equiv> (0x02 :: u8)"
abbreviation (input) "IIR_ID \<equiv> (0x06 :: u8)"
abbreviation (input) "IIR_BUSY \<equiv> (0x07 :: u8)"
abbreviation (input) "FCR_ENABLE \<equiv> (0x01 :: u8)"
abbreviation (input) "FCR_CLEAR \<equiv> (0x06 :: u8)"
abbreviation (input) "FCR_64BYTE \<equiv> (0x20 :: u8)"
abbreviation (input) "LCR_STOP \<equiv> (0x04 :: u8)"
abbreviation (input) "LCR_PARITY \<equiv> (0x08 :: u8)"
abbreviation (input) "LCR_EPAR \<equiv> (0x10 :: u8)"
abbreviation (input) "LCR_SPAR \<equiv> (0x20 :: u8)"
abbreviation (input) "LCR_SBC \<equiv> (0x40 :: u8)"
abbreviation (input) "LCR_DLAB \<equiv> (0x80 :: u8)"
abbreviation (input) "MCR_DTR \<equiv> (0x01 :: u8)"
abbreviation (input) "MCR_RTS \<equiv> (0x02 :: u8)"
abbreviation (input) "MCR_OUT1 \<equiv> (0x04 :: u8)"
abbreviation (input) "MCR_OUT2 \<equiv> (0x08 :: u8)"
abbreviation (input) "MCR_LOOP \<equiv> (0x10 :: u8)"
abbreviation (input) "MCR_AFE \<equiv> (0x20 :: u8)"
abbreviation (input) "LSR_DR \<equiv> (0x01 :: u8)"
abbreviation (input) "LSR_OE \<equiv> (0x02 :: u8)"
abbreviation (input) "LSR_PE \<equiv> (0x04 :: u8)"
abbreviation (input) "LSR_FE \<equiv> (0x08 :: u8)"
abbreviation (input) "LSR_BI \<equiv> (0x10 :: u8)"
abbreviation (input) "LSR_THRE \<equiv> (0x20 :: u8)"
abbreviation (input) "LSR_TEMT \<equiv> (0x40 :: u8)"
abbreviation (input) "LSR_BRK_ERROR \<equiv> (0x1E :: u8)"
abbreviation (input) "BOTH_EMPTY \<equiv> (0x60 :: u8)"
abbreviation (input) "MSR_DCTS \<equiv> (0x01 :: u8)"
abbreviation (input) "MSR_DDSR \<equiv> (0x02 :: u8)"
abbreviation (input) "MSR_TERI \<equiv> (0x04 :: u8)"
abbreviation (input) "MSR_DDCD \<equiv> (0x08 :: u8)"
abbreviation (input) "MSR_ANY_DELTA \<equiv> (0x0F :: u8)"
abbreviation (input) "MSR_CTS \<equiv> (0x10 :: u8)"
abbreviation (input) "MSR_DSR \<equiv> (0x20 :: u8)"
abbreviation (input) "MSR_RI \<equiv> (0x40 :: u8)"
abbreviation (input) "MSR_DCD \<equiv> (0x80 :: u8)"
abbreviation (input) "EFR_ECB \<equiv> (0x10 :: u8)"
abbreviation (input) "EFR_CTS \<equiv> (0x80 :: u8)"
abbreviation (input) "FCTR_TX \<equiv> (0x80 :: u8)"
abbreviation (input) "FCTR_TRGD \<equiv> (0x30 :: u8)"
abbreviation (input) "TRG_96 \<equiv> (0x60 :: u8)"

abbreviation (input) "UPF_FOURPORT \<equiv> (0x2 :: u32)"
abbreviation (input) "UPF_SKIP_TEST \<equiv> (0x40 :: u32)"
abbreviation (input) "UPF_BUGGY_UART \<equiv> (0x4000 :: u32)"
abbreviation (input) "UPF_NO_TXEN_TEST \<equiv> (0x8000 :: u32)"
abbreviation (input) "UPF_MAGIC_MULTIPLIER \<equiv> (0x10000 :: u32)"
abbreviation (input) "UPF_CONS_FLOW \<equiv> (0x800000 :: u32)"
abbreviation (input) "UPF_IOREMAP \<equiv> (0x80000000 :: u32)"
abbreviation (input) "TIOCM_OUT1 \<equiv> (0x2000 :: u32)"
abbreviation (input) "TIOCM_OUT2 \<equiv> (0x4000 :: u32)"
abbreviation (input) "TIOCM_LOOP \<equiv> (0x8000 :: u32)"

abbreviation (input) "PORT_8250 \<equiv> (1 :: u32)"
abbreviation (input) "PORT_16450 \<equiv> (2 :: u32)"
abbreviation (input) "PORT_16550 \<equiv> (3 :: u32)"
abbreviation (input) "PORT_16550A \<equiv> (4 :: u32)"
abbreviation (input) "PORT_CIRRUS \<equiv> (5 :: u32)"
abbreviation (input) "PORT_16650 \<equiv> (6 :: u32)"
abbreviation (input) "PORT_16650V2 \<equiv> (7 :: u32)"
abbreviation (input) "PORT_16750 \<equiv> (8 :: u32)"
abbreviation (input) "PORT_STARTECH \<equiv> (9 :: u32)"
abbreviation (input) "PORT_16C950 \<equiv> (10 :: u32)"
abbreviation (input) "PORT_16654 \<equiv> (11 :: u32)"
abbreviation (input) "PORT_16850 \<equiv> (12 :: u32)"
abbreviation (input) "PORT_NS16550A \<equiv> (14 :: u32)"
abbreviation (input) "PORT_XSCALE \<equiv> (15 :: u32)"
abbreviation (input) "PORT_RM9000 \<equiv> (16 :: u32)"
abbreviation (input) "UPIO_RM9000 \<equiv> (7 :: u8)"

text \<open>\<open>reg & mask\<close> as a condition.\<close>

definition has8 :: "u8 \<Rightarrow> u8 \<Rightarrow> bool" where
  "has8 w m \<longleftrightarrow> w AND m \<noteq> 0"

section \<open>State of a port\<close>

record uart_caps =
  cap_fifo :: bool
  cap_efr :: bool
  cap_sleep :: bool
  cap_afe :: bool
  cap_uue :: bool
  cap_natsemi :: bool

definition no_caps :: uart_caps where
  "no_caps = \<lparr>cap_fifo = False, cap_efr = False, cap_sleep = False, cap_afe = False, cap_uue = False, cap_natsemi = False\<rparr>"

text \<open>
  \<open>linked\<close> tells whether the port is on the chain of its interrupt or, without one, on its timer: that is where the
  handler finds it. \<open>backup_timer\<close> tells which function the timer has. \<open>rx\<close> collects what was handed to the terminal.
\<close>

record 'd uart_8250 =
  caps :: uart_caps
  bug_quot :: bool
  bug_txen :: bool
  bug_nomsr :: bool
  bug_thre :: bool
  tx_loadsz :: u32
  acr :: u8
  ier :: u8
  lcr :: u8
  mcr :: u8
  mcr_mask :: u8
  mcr_force :: u8
  cur_iotype :: u8
  lsr_saved_flags :: u8
  msr_saved_flags :: u8
  read_status_mask :: u8
  ignore_status_mask :: u8
  linked :: bool
  backup_timer :: bool
  timer_armed :: bool
  rx :: "(u8 \<times> u8 \<times> nat) list"
  dev :: 'd

type_synonym 'd port8250 = "'d uart_8250 uart_port"
type_synonym 'd line8250 = "'d uart_8250 uart_state"

abbreviation on_hw :: "('d uart_8250 \<Rightarrow> 'd uart_8250) \<Rightarrow> 'd port8250 \<Rightarrow> 'd port8250" where
  "on_hw f p \<equiv> p\<lparr>hw := f (hw p)\<rparr>"

text \<open>The default parameters of each type of chip.\<close>

record serial8250_config =
  cfg_name :: string
  cfg_fifo_size :: u32
  cfg_tx_loadsz :: u32
  cfg_fcr :: u8
  cfg_caps :: uart_caps

definition plain_config :: "string \<Rightarrow> serial8250_config" where
  "plain_config name = \<lparr>cfg_name = name, cfg_fifo_size = 1, cfg_tx_loadsz = 1, cfg_fcr = 0, cfg_caps = no_caps\<rparr>"

definition uart_config :: "serial8250_config list" where
  "uart_config =
     [plain_config ''unknown'', plain_config ''8250'', plain_config ''16450'', plain_config ''16550'',
      \<lparr>cfg_name = ''16550A'', cfg_fifo_size = 16, cfg_tx_loadsz = 16, cfg_fcr = 0x81, cfg_caps = no_caps\<lparr>cap_fifo := True\<rparr>\<rparr>,
      plain_config ''Cirrus'',
      (plain_config ''ST16650'')\<lparr>cfg_caps := no_caps\<lparr>cap_fifo := True, cap_efr := True, cap_sleep := True\<rparr>\<rparr>,
      \<lparr>cfg_name = ''ST16650V2'', cfg_fifo_size = 32, cfg_tx_loadsz = 16, cfg_fcr = 0x41,
       cfg_caps = no_caps\<lparr>cap_fifo := True, cap_efr := True, cap_sleep := True\<rparr>\<rparr>,
      \<lparr>cfg_name = ''TI16750'', cfg_fifo_size = 64, cfg_tx_loadsz = 64, cfg_fcr = 0xA1,
       cfg_caps = no_caps\<lparr>cap_fifo := True, cap_sleep := True, cap_afe := True\<rparr>\<rparr>,
      plain_config ''Startech'',
      \<lparr>cfg_name = ''16C950/954'', cfg_fifo_size = 128, cfg_tx_loadsz = 128, cfg_fcr = 0x81, cfg_caps = no_caps\<lparr>cap_fifo := True\<rparr>\<rparr>,
      \<lparr>cfg_name = ''ST16654'', cfg_fifo_size = 64, cfg_tx_loadsz = 32, cfg_fcr = 0x61,
       cfg_caps = no_caps\<lparr>cap_fifo := True, cap_efr := True, cap_sleep := True\<rparr>\<rparr>,
      \<lparr>cfg_name = ''XR16850'', cfg_fifo_size = 128, cfg_tx_loadsz = 128, cfg_fcr = 0x81,
       cfg_caps = no_caps\<lparr>cap_fifo := True, cap_efr := True, cap_sleep := True\<rparr>\<rparr>,
      \<lparr>cfg_name = ''RSA'', cfg_fifo_size = 2048, cfg_tx_loadsz = 2048, cfg_fcr = 0xC1, cfg_caps = no_caps\<lparr>cap_fifo := True\<rparr>\<rparr>,
      \<lparr>cfg_name = ''NS16550A'', cfg_fifo_size = 16, cfg_tx_loadsz = 16, cfg_fcr = 0x81,
       cfg_caps = no_caps\<lparr>cap_fifo := True, cap_natsemi := True\<rparr>\<rparr>,
      \<lparr>cfg_name = ''XScale'', cfg_fifo_size = 32, cfg_tx_loadsz = 32, cfg_fcr = 0x81,
       cfg_caps = no_caps\<lparr>cap_fifo := True, cap_uue := True\<rparr>\<rparr>,
      \<lparr>cfg_name = ''RM9000'', cfg_fifo_size = 16, cfg_tx_loadsz = 16, cfg_fcr = 0x81, cfg_caps = no_caps\<lparr>cap_fifo := True\<rparr>\<rparr>,
      \<lparr>cfg_name = ''OCTEON'', cfg_fifo_size = 64, cfg_tx_loadsz = 64, cfg_fcr = 0x81, cfg_caps = no_caps\<lparr>cap_fifo := True\<rparr>\<rparr>,
      \<lparr>cfg_name = ''AR7'', cfg_fifo_size = 16, cfg_tx_loadsz = 16, cfg_fcr = 0x01,
       cfg_caps = no_caps\<lparr>cap_fifo := True, cap_afe := True\<rparr>\<rparr>]"

text \<open>The entry of a port; the types in use are within the table.\<close>

definition config_of :: "'d port8250 \<Rightarrow> serial8250_config" where
  "config_of p = (if unat (type p) < length uart_config then uart_config ! unat (type p) else hd uart_config)"

section \<open>The kernel's side\<close>

text \<open>What a change of the line CTS makes the core do: nothing, start or stop the transmitter.\<close>

datatype cts_reaction = Cts_none | Cts_start | Cts_stop

text \<open>
  The bus functions and the read of the DesignWare status register act on the device. The others are: what happens in a delay, the result of probing for an interrupt,
  the error of joining the interrupt's chain (zero for success), whether a region can be claimed and where it is
  mapped, the reaction to CTS, the counters after a change of CTS or DCD, whether the terminal is stopped, whether a break or a character is taken by the
  system request facility, the number of interrupts, \<open>skip_txen_test\<close>, the conversions of baud rates,
  \<open>UART_ENABLE_MS\<close>, and the \<open>pm\<close> hook of the port.
\<close>

record 'd env8250 =
  e_inb :: "u32 \<Rightarrow> 'd \<Rightarrow> u8 \<times> 'd"
  e_outb :: "u8 \<Rightarrow> u32 \<Rightarrow> 'd \<Rightarrow> 'd"
  e_readb :: "u32 \<Rightarrow> 'd \<Rightarrow> u8 \<times> 'd"
  e_writeb :: "u8 \<Rightarrow> u32 \<Rightarrow> 'd \<Rightarrow> 'd"
  e_readl :: "u32 \<Rightarrow> 'd \<Rightarrow> u32 \<times> 'd"
  e_writel :: "u32 \<Rightarrow> u32 \<Rightarrow> 'd \<Rightarrow> 'd"
  e_read_usr :: "'d \<Rightarrow> 'd"
  e_delay :: "nat \<Rightarrow> 'd \<Rightarrow> 'd"
  e_probe_irq :: "'d \<Rightarrow> int"
  e_link_error :: "'d port8250 \<Rightarrow> nat"
  e_claim :: "u32 \<Rightarrow> u32 \<Rightarrow> bool"
  e_remap :: "u32 \<Rightarrow> u32 \<Rightarrow> u32"
  e_cts :: "bool \<Rightarrow> 'd line8250 \<Rightarrow> cts_reaction"
  e_cts_count :: "uart_icount \<Rightarrow> uart_icount"
  e_dcd_count :: "uart_icount \<Rightarrow> uart_icount"
  e_tx_stopped :: "tty_struct \<Rightarrow> bool"
  e_handle_break :: "'d port8250 \<Rightarrow> bool"
  e_sysrq_char :: "u8 \<Rightarrow> 'd port8250 \<Rightarrow> bool"
  e_rx_enable :: bool
  e_nr_irqs :: int
  e_skip_txen :: bool
  e_baud :: "ktermios \<Rightarrow> u32"
  e_encode :: "ktermios \<Rightarrow> u32 \<Rightarrow> u32 \<Rightarrow> ktermios"
  e_enable_ms :: "u32 \<Rightarrow> u32 \<Rightarrow> bool"
  e_pm :: "int \<Rightarrow> int \<Rightarrow> 'd \<Rightarrow> 'd"

section \<open>Registers\<close>

definition on_dev :: "('d \<Rightarrow> 'd) \<Rightarrow> 'd port8250 \<Rightarrow> 'd port8250" where
  "on_dev f p = on_hw (\<lambda>h. h\<lparr>dev := f (dev h)\<rparr>) p"

definition from_dev :: "('d \<Rightarrow> 'a \<times> 'd) \<Rightarrow> 'd port8250 \<Rightarrow> 'a \<times> 'd port8250" where
  "from_dev f p = (case f (dev (hw p)) of (v, d) \<Rightarrow> (v, on_hw (\<lambda>h. h\<lparr>dev := d\<rparr>) p))"

definition reg_offset :: "nat \<Rightarrow> 'd port8250 \<Rightarrow> u32" where
  "reg_offset off p = push_bit (unat (regshift p)) (of_nat off)"

text \<open>
  The access functions that \<open>set_io_from_upio\<close> chose: those of the I/O type it remembered in \<open>cur_iotype\<close>. A 32-bit access
  is cut to the byte that the callers use.
\<close>

definition serial_in :: "'d env8250 \<Rightarrow> nat \<Rightarrow> 'd port8250 \<Rightarrow> u8 \<times> 'd port8250" where
  "serial_in e off p =
     (let o' = reg_offset off p; io = cur_iotype (hw p)
      in if io = UPIO_HUB6 then
           from_dev (e_inb e (iobase p + 1)) (on_dev (e_outb e (hub6 p - 1 + ucast o') (iobase p)) p)
         else if io = UPIO_MEM \<or> io = UPIO_DWAPB then from_dev (e_readb e (membase p + o')) p
         else if io = UPIO_MEM32 \<or> io = UPIO_RM9000 then
           (case from_dev (e_readl e (membase p + o')) p of (v, p') \<Rightarrow> (ucast v, p'))
         else if io = UPIO_TSI then
           if o' = of_nat REG_IIR then
             (case from_dev (e_readl e (membase p)) p of (v, p') \<Rightarrow> (ucast (drop_bit 16 v), p'))
           else from_dev (e_readb e (membase p + o')) p
         else from_dev (e_inb e (iobase p + o')) p)"

definition serial_out :: "'d env8250 \<Rightarrow> nat \<Rightarrow> u8 \<Rightarrow> 'd port8250 \<Rightarrow> 'd port8250" where
  "serial_out e off v p =
     (let o' = reg_offset off p; io = cur_iotype (hw p)
      in if io = UPIO_HUB6 then
           on_dev (e_outb e v (iobase p + 1)) (on_dev (e_outb e (hub6 p - 1 + ucast o') (iobase p)) p)
         else if io = UPIO_MEM then on_dev (e_writeb e v (membase p + o')) p
         else if io = UPIO_MEM32 \<or> io = UPIO_RM9000 then on_dev (e_writel e (ucast v) (membase p + o')) p
         else if io = UPIO_TSI then
           if o' = of_nat REG_IER \<and> has8 v IER_UUE then p else on_dev (e_writeb e v (membase p + o')) p
         else if io = UPIO_DWAPB then
           let p1 = (if off = REG_LCR then on_hw (\<lambda>h. h\<lparr>lcr := v\<rparr>) p else p);
               p2 = on_dev (e_writeb e v (membase p1 + o')) p1
           in if off = REG_TX \<or> off = REG_IER then snd (serial_in e REG_IER p2) else p2
         else on_dev (e_outb e v (iobase p + o')) p)"

text \<open>Several writes in a row, and several reads whose values are not used.\<close>

definition serial_outs :: "'d env8250 \<Rightarrow> (nat \<times> u8) list \<Rightarrow> 'd port8250 \<Rightarrow> 'd port8250" where
  "serial_outs e ws p = fold (\<lambda>(r, v). serial_out e r v) ws p"

definition serial_ins :: "'d env8250 \<Rightarrow> nat list \<Rightarrow> 'd port8250 \<Rightarrow> 'd port8250" where
  "serial_ins e rs p = fold (\<lambda>r q. snd (serial_in e r q)) rs p"

definition set_io_from_upio :: "'d port8250 \<Rightarrow> 'd port8250" where
  "set_io_from_upio p = on_hw (\<lambda>h. h\<lparr>cur_iotype := iotype p\<rparr>) p"

definition serial_out_sync :: "'d env8250 \<Rightarrow> nat \<Rightarrow> u8 \<Rightarrow> 'd port8250 \<Rightarrow> 'd port8250" where
  "serial_out_sync e off v p =
     (if iotype p \<in> {UPIO_MEM, UPIO_MEM32, UPIO_DWAPB} then snd (serial_in e REG_LCR (serial_out e off v p))
      else serial_out e off v p)"

definition serial_dl_read :: "'d env8250 \<Rightarrow> 'd port8250 \<Rightarrow> u16 \<times> 'd port8250" where
  "serial_dl_read e p =
     (let (l, p1) = serial_in e REG_DLL p; (m, p2) = serial_in e REG_DLM p1
      in (ucast l OR push_bit 8 (ucast m), p2))"

definition serial_dl_write :: "'d env8250 \<Rightarrow> u32 \<Rightarrow> 'd port8250 \<Rightarrow> 'd port8250" where
  "serial_dl_write e v p = serial_outs e [(REG_DLL, ucast v), (REG_DLM, ucast (drop_bit 8 v))] p"

definition serial_icr_write :: "'d env8250 \<Rightarrow> u8 \<Rightarrow> u8 \<Rightarrow> 'd port8250 \<Rightarrow> 'd port8250" where
  "serial_icr_write e off v p = serial_outs e [(REG_SCR, off), (REG_ICR, v)] p"

definition serial_icr_read :: "'d env8250 \<Rightarrow> u8 \<Rightarrow> 'd port8250 \<Rightarrow> u8 \<times> 'd port8250" where
  "serial_icr_read e off p =
     (let p1 = serial_icr_write e ICR_ACR (acr (hw p) OR ACR_ICRRD) p;
          (v, p2) = serial_in e REG_ICR (serial_out e REG_SCR off p1)
      in (v, serial_icr_write e ICR_ACR (acr (hw p2)) p2))"

definition serial8250_clear_fifos :: "'d env8250 \<Rightarrow> 'd port8250 \<Rightarrow> 'd port8250" where
  "serial8250_clear_fifos e p =
     (if cap_fifo (caps (hw p))
      then serial_outs e [(REG_FCR, FCR_ENABLE), (REG_FCR, FCR_ENABLE OR FCR_CLEAR), (REG_FCR, 0)] p
      else p)"

definition serial8250_set_sleep :: "'d env8250 \<Rightarrow> bool \<Rightarrow> 'd port8250 \<Rightarrow> 'd port8250" where
  "serial8250_set_sleep e sleep p =
     (if cap_sleep (caps (hw p)) then
        let p1 = (if cap_efr (caps (hw p)) then serial_outs e [(REG_LCR, 0xBF), (REG_EFR, EFR_ECB), (REG_LCR, 0)] p else p);
            p2 = serial_out e REG_IER (if sleep then IER_SLEEP else 0) p1
        in if cap_efr (caps (hw p2)) then serial_outs e [(REG_LCR, 0xBF), (REG_EFR, 0), (REG_LCR, 0)] p2 else p2
      else p)"

section \<open>Recognising the chip\<close>

fun drain_rx :: "'d env8250 \<Rightarrow> nat \<Rightarrow> nat \<Rightarrow> 'd port8250 \<Rightarrow> nat \<times> 'd port8250" where
  "drain_rx e 0 n p = (n, snd (serial_in e REG_LSR p))"
| "drain_rx e (Suc k) n p =
     (case serial_in e REG_LSR p of
        (v, p1) \<Rightarrow> if has8 v LSR_DR then drain_rx e k (n + 1) (snd (serial_in e REG_RX p1)) else (n, p1))"

definition size_fifo :: "'d env8250 \<Rightarrow> 'd port8250 \<Rightarrow> nat \<times> 'd port8250" where
  "size_fifo e p0 =
     (let (old_lcr, p1) = serial_in e REG_LCR p0;
          p2 = serial_out e REG_LCR 0 p1;
          (old_fcr, p3) = serial_in e REG_FCR p2;
          (old_mcr, p4) = serial_in e REG_MCR p3;
          p5 = serial_outs e [(REG_FCR, FCR_ENABLE OR FCR_CLEAR), (REG_MCR, MCR_LOOP), (REG_LCR, LCR_DLAB)] p4;
          (old_dl, p6) = serial_dl_read e p5;
          p7 = serial_out e REG_LCR 0x03 (serial_dl_write e 1 p6);
          p8 = serial_outs e (map (\<lambda>c. (REG_TX, of_nat c)) [0..<256]) p7;
          (n, p9) = drain_rx e 256 0 (on_dev (e_delay e 20000) p8);
          p10 = serial_outs e [(REG_FCR, old_fcr), (REG_MCR, old_mcr), (REG_LCR, LCR_DLAB)] p9
      in (n, serial_out e REG_LCR old_lcr (serial_dl_write e (ucast old_dl) p10)))"

definition autoconfig_read_divisor_id :: "'d env8250 \<Rightarrow> 'd port8250 \<Rightarrow> u16 \<times> 'd port8250" where
  "autoconfig_read_divisor_id e p0 =
     (let (old_lcr, p1) = serial_in e REG_LCR p0;
          (old_dll, p2) = serial_in e REG_DLL (serial_out e REG_LCR LCR_DLAB p1);
          (old_dlm, p3) = serial_in e REG_DLM p2;
          (v, p4) = serial_dl_read e (serial_outs e [(REG_DLL, 0), (REG_DLM, 0)] p3)
      in (v, serial_outs e [(REG_DLL, old_dll), (REG_DLM, old_dlm), (REG_LCR, old_lcr)] p4))"

definition autoconfig_has_efr :: "'d env8250 \<Rightarrow> 'd port8250 \<Rightarrow> 'd port8250" where
  "autoconfig_has_efr e p0 =
     (let p1 = on_hw (\<lambda>h. h\<lparr>caps := (caps h)\<lparr>cap_efr := True, cap_sleep := True\<rparr>, acr := 0\<rparr>) p0;
          p2 = serial_outs e [(REG_LCR, 0xBF), (REG_EFR, EFR_ECB), (REG_LCR, 0)] p1;
          (id1, p3) = serial_icr_read e ICR_ID1 p2;
          (id2, p4) = serial_icr_read e ICR_ID2 p3;
          (id3, p5) = serial_icr_read e ICR_ID3 p4;
          (rev, p6) = serial_icr_read e ICR_REV p5
      in if id1 = 0x16 \<and> id2 = 0xC9 \<and> id3 \<in> {0x50, 0x52, 0x54} then
           let p7 = p6\<lparr>type := PORT_16C950\<rparr>
           in if id3 = 0x52 \<and> rev = 0x01 then on_hw (\<lambda>h. h\<lparr>bug_quot := True\<rparr>) p7 else p7
         else
           let (dl, p7) = autoconfig_read_divisor_id e p6
           in if drop_bit 8 dl \<in> {0x10, 0x12, 0x14} then p7\<lparr>type := PORT_16850\<rparr>
              else let (n, p8) = size_fifo e p7
                   in p8\<lparr>type := (if n = 64 then PORT_16654 else PORT_16650V2)\<rparr>)"

definition autoconfig_8250 :: "'d env8250 \<Rightarrow> 'd port8250 \<Rightarrow> 'd port8250" where
  "autoconfig_8250 e p0 =
     (let (scratch, p1) = serial_in e REG_SCR (p0\<lparr>type := PORT_8250\<rparr>);
          (status1, p2) = serial_in e REG_SCR (serial_out e REG_SCR 0xA5 p1);
          (status2, p3) = serial_in e REG_SCR (serial_out e REG_SCR 0x5A p2);
          p4 = serial_out e REG_SCR scratch p3
      in if status1 = 0xA5 \<and> status2 = 0x5A then p4\<lparr>type := PORT_16450\<rparr> else p4)"

definition broken_efr :: "'d env8250 \<Rightarrow> 'd port8250 \<Rightarrow> bool \<times> 'd port8250" where
  "broken_efr e p0 =
     (let (v, p1) = autoconfig_read_divisor_id e p0
      in if v = 0x0201 then (case size_fifo e p1 of (n, p2) \<Rightarrow> (n = 16, p2)) else (False, p1))"

text \<open>\<open>autoconfig_16550a\<close> in four parts: the EFR, National's SuperIO, the TI16750, and the XScale.\<close>

definition probe_natsemi :: "'d env8250 \<Rightarrow> 'd port8250 \<Rightarrow> bool \<times> 'd port8250" where
  "probe_natsemi e p0 =
     (let (status1, p1) = serial_in e REG_MCR (serial_out e REG_LCR 0 p0);
          (status2, p2) = serial_in e 2 (serial_out e REG_LCR 0xE0 p1)
      in if has8 (status2 XOR status1) MCR_LOOP then (False, p2)
         else
           let (status2', p3) = serial_in e 2 (serial_outs e [(REG_LCR, 0), (REG_MCR, status1 XOR MCR_LOOP), (REG_LCR, 0xE0)] p2);
               p4 = serial_outs e [(REG_LCR, 0), (REG_MCR, status1)] p3
           in if has8 (status2' XOR status1) MCR_LOOP then
                let (quot, p5) = serial_dl_read e (serial_out e REG_LCR 0xE0 p4);
                    (st, p6) = serial_in e 4 p5;
                    p7 = serial_out e 4 ((st AND NOT 0xB0) OR 0x10) p6;
                    p8 = serial_out e REG_LCR 0 (serial_dl_write e (ucast (push_bit 3 quot)) p7)
                in (True, on_hw (\<lambda>h. h\<lparr>caps := (caps h)\<lparr>cap_natsemi := True\<rparr>\<rparr>) (p8\<lparr>uartclk := 921600 * 16, type := PORT_NS16550A\<rparr>))
              else (False, p4))"

definition probe_16750 :: "'d env8250 \<Rightarrow> 'd port8250 \<Rightarrow> bool \<times> 'd port8250" where
  "probe_16750 e p0 =
     (let (iir1, p1) = serial_in e REG_IIR (serial_outs e [(REG_LCR, 0), (REG_FCR, FCR_ENABLE OR FCR_64BYTE)] p0);
          (iir2, p2) = serial_in e REG_IIR
             (serial_outs e [(REG_FCR, FCR_ENABLE), (REG_LCR, LCR_DLAB), (REG_FCR, FCR_ENABLE OR FCR_64BYTE)] p1);
          p3 = serial_outs e [(REG_FCR, FCR_ENABLE), (REG_LCR, 0)] p2
      in if drop_bit 5 iir1 = 6 \<and> drop_bit 5 iir2 = 7
         then (True, on_hw (\<lambda>h. h\<lparr>caps := (caps h)\<lparr>cap_afe := True, cap_sleep := True\<rparr>\<rparr>) (p3\<lparr>type := PORT_16750\<rparr>))
         else (False, p3))"

definition probe_xscale :: "'d env8250 \<Rightarrow> 'd port8250 \<Rightarrow> 'd port8250" where
  "probe_xscale e p0 =
     (let (iersave, p1) = serial_in e REG_IER p0;
          (v1, p2) = serial_in e REG_IER (serial_out e REG_IER (iersave AND NOT IER_UUE) p1)
      in if has8 v1 IER_UUE then serial_out e REG_IER iersave p2
         else
           let (v2, p3) = serial_in e REG_IER (serial_out e REG_IER (iersave OR IER_UUE) p2)
           in if has8 v2 IER_UUE
              then on_hw (\<lambda>h. h\<lparr>caps := (caps h)\<lparr>cap_uue := True\<rparr>\<rparr>) (p3\<lparr>type := PORT_XSCALE\<rparr>)
              else serial_out e REG_IER iersave p3)"

definition autoconfig_16550a :: "'d env8250 \<Rightarrow> 'd port8250 \<Rightarrow> 'd port8250" where
  "autoconfig_16550a e p0 =
     (let p1 = on_hw (\<lambda>h. h\<lparr>caps := (caps h)\<lparr>cap_fifo := True\<rparr>\<rparr>) (p0\<lparr>type := PORT_16550A\<rparr>);
          (efr, p2) = serial_in e REG_EFR (serial_out e REG_LCR LCR_DLAB p1)
      in if efr = 0 then
           let (efr', p3) = serial_in e REG_EFR (serial_out e REG_EFR 0xA8 p2);
               p4 = (if efr' \<noteq> 0
                     then on_hw (\<lambda>h. h\<lparr>caps := (caps h)\<lparr>cap_efr := True, cap_sleep := True\<rparr>\<rparr>) (p3\<lparr>type := PORT_16650\<rparr>)
                     else p3)
           in serial_out e REG_EFR 0 p4
         else
           let (efr2, p3) = serial_in e REG_EFR (serial_out e REG_LCR 0xBF p2);
               (broken, p4) = (if efr2 = 0 then broken_efr e p3 else (True, p3))
           in if efr2 = 0 \<and> \<not> broken then autoconfig_has_efr e p4
              else
                let (nat_semi, p5) = probe_natsemi e p4
                in if nat_semi then p5
                   else let (ti, p6) = probe_16750 e p5
                        in if ti then p6 else probe_xscale e p6)"

end
