(* ===== verification/Uart_8250_Ops.thy ===== *)
theory Uart_8250_Ops
  imports Uart_8250
begin

text \<open>
  The operations of the 8250 driver: probing a port, its interrupt handler, and the functions it gives to the serial
  core.
\<close>

section \<open>Probing\<close>

text \<open>The existence test on the interrupt enable register, and the loopback test.\<close>

definition ier_test :: "'d env8250 \<Rightarrow> 'd port8250 \<Rightarrow> bool \<times> 'd port8250" where
  "ier_test e p0 =
     (let (scratch, p1) = serial_in e REG_IER p0;
          (scratch2, p2) = serial_in e REG_IER (serial_out e REG_IER 0 p1);
          (scratch3, p3) = serial_in e REG_IER (serial_out e REG_IER 0x0F p2);
          p4 = serial_out e REG_IER scratch p3
      in (scratch2 AND 0x0F = 0 \<and> scratch3 AND 0x0F = 0x0F, p4))"

definition loop_test :: "'d env8250 \<Rightarrow> u8 \<Rightarrow> 'd port8250 \<Rightarrow> bool \<times> 'd port8250" where
  "loop_test e save_mcr p0 =
     (let (status1, p1) = serial_in e REG_MSR (serial_out e REG_MCR (MCR_LOOP OR 0x0A) p0)
      in (status1 AND 0xF0 = 0x90, serial_out e REG_MCR save_mcr p1))"

text \<open>The type from the upper bits of IIR.\<close>

definition autoconfig_type :: "'d env8250 \<Rightarrow> 'd port8250 \<Rightarrow> 'd port8250" where
  "autoconfig_type e p0 =
     (let (iir, p1) = serial_in e REG_IIR (serial_outs e [(REG_LCR, 0xBF), (REG_EFR, 0), (REG_LCR, 0), (REG_FCR, FCR_ENABLE)] p0);
          k = drop_bit 6 iir
      in if k = 0 then autoconfig_8250 e p1
         else if k = 1 then p1\<lparr>type := PORT_UNKNOWN\<rparr>
         else if k = 2 then p1\<lparr>type := PORT_16550\<rparr>
         else autoconfig_16550a e p1)"

definition autoconfig_reset :: "'d env8250 \<Rightarrow> u8 \<Rightarrow> u8 \<Rightarrow> 'd port8250 \<Rightarrow> 'd port8250" where
  "autoconfig_reset e save_lcr save_mcr p0 =
     (let p1 = serial_out e REG_LCR save_lcr p0;
          c = config_of p1;
          p2 = on_hw (\<lambda>h. h\<lparr>caps := cfg_caps c, tx_loadsz := cfg_tx_loadsz c\<rparr>) (p1\<lparr>fifosize := cfg_fifo_size c\<rparr>)
      in if type p2 = PORT_UNKNOWN then p2
         else
           let p3 = serial8250_clear_fifos e (serial_out e REG_MCR save_mcr p2);
               p4 = snd (serial_in e REG_RX p3)
           in serial_out e REG_IER (if cap_uue (caps (hw p4)) then IER_UUE else 0) p4)"

definition autoconfig :: "'d env8250 \<Rightarrow> 'd port8250 \<Rightarrow> 'd port8250" where
  "autoconfig e p0 =
     (if iobase p0 = 0 \<and> mapbase p0 = 0 \<and> membase p0 = 0 then p0
      else
        let p1 = on_hw (\<lambda>h. h\<lparr>caps := no_caps, bug_quot := False, bug_txen := False, bug_nomsr := False, bug_thre := False\<rparr>) p0;
            (there, p2) = (if has_bits (flags p1) UPF_BUGGY_UART then (True, p1) else ier_test e p1)
        in if \<not> there then p2
           else
             let (save_mcr, p3) = serial_in e REG_MCR p2;
                 (save_lcr, p4) = serial_in e REG_LCR p3;
                 (loops, p5) = (if has_bits (flags p4) UPF_SKIP_TEST then (True, p4) else loop_test e save_mcr p4)
             in if \<not> loops then p5 else autoconfig_reset e save_lcr save_mcr (autoconfig_type e p5))"

text \<open>\<open>probe_irq_on\<close> and \<open>probe_irq_off\<close> are the kernel's; the result is taken when the device has been made to interrupt.\<close>

definition autoconfig_irq :: "'d env8250 \<Rightarrow> 'd port8250 \<Rightarrow> 'd port8250" where
  "autoconfig_irq e p0 =
     (let four = has_bits (flags p0) UPF_FOURPORT;
          icp = (iobase p0 AND 0xFE0) OR 0x1F;
          (save_icp, p1) = (if four then
              (case from_dev (e_inb e icp) p0 of
                 (v, q) \<Rightarrow> (v, snd (from_dev (e_inb e icp) (on_dev (e_outb e 0x80 icp) q)))) else (0, p0));
          (save_mcr, p2) = serial_in e REG_MCR p1;
          (save_ier, p3) = serial_in e REG_IER p2;
          p4 = on_dev (e_delay e 10) (serial_outs e [(REG_MCR, MCR_OUT1 OR MCR_OUT2), (REG_MCR, 0)] p3);
          p5 = serial_outs e [(REG_MCR, if four then MCR_DTR OR MCR_RTS else MCR_DTR OR MCR_RTS OR MCR_OUT2), (REG_IER, 0x0F)] p4;
          p6 = serial_ins e [REG_LSR, REG_RX, REG_IIR, REG_MSR] p5;
          p7 = on_dev (e_delay e 20) (serial_out e REG_TX 0xFF p6);
          irqn = e_probe_irq e (dev (hw p7));
          p8 = serial_outs e [(REG_MCR, save_mcr), (REG_IER, save_ier)] p7;
          p9 = (if four then on_dev (e_outb e save_icp icp) p8 else p8)
      in p9\<lparr>irq := (if irqn > 0 then word_of_int irqn else 0)\<rparr>)"

section \<open>Transmitting and receiving\<close>

text \<open>\<open>__stop_tx\<close>\<close>

definition stop_tx_ier :: "'d env8250 \<Rightarrow> 'd port8250 \<Rightarrow> 'd port8250" where
  "stop_tx_ier e p =
     (if has8 (ier (hw p)) IER_THRI then
        let p1 = on_hw (\<lambda>h. h\<lparr>ier := ier h AND NOT IER_THRI\<rparr>) p
        in serial_out e REG_IER (ier (hw p1)) p1
      else p)"

definition serial8250_stop_tx :: "'d env8250 \<Rightarrow> 'd port8250 \<Rightarrow> 'd port8250" where
  "serial8250_stop_tx e p =
     (let p1 = stop_tx_ier e p
      in if type p1 = PORT_16C950 then
           let p2 = on_hw (\<lambda>h. h\<lparr>acr := acr h OR ACR_TXDIS\<rparr>) p1
           in serial_icr_write e ICR_ACR (acr (hw p2)) p2
         else p1)"

definition count_tx :: "'d port8250 \<Rightarrow> 'd port8250" where
  "count_tx p = p\<lparr>icount := (icount p)\<lparr>ic_tx := ic_tx (icount p) + 1\<rparr>\<rparr>"

text \<open>The loop of \<open>transmit_chars\<close> with the passes that are left.\<close>

fun tx_loop :: "'d env8250 \<Rightarrow> u8 list \<Rightarrow> nat \<Rightarrow> 'd line8250 \<Rightarrow> 'd line8250" where
  "tx_loop e buf 0 s = s"
| "tx_loop e buf (Suc n) s =
     (let s1 = on_port (\<lambda>p. count_tx (serial_out e REG_TX (buf ! circ_tail (xmit s)) p)) s;
          s2 = s1\<lparr>xmit := (xmit s1)\<lparr>circ_tail := (circ_tail (xmit s1) + 1) mod UART_XMIT_SIZE\<rparr>\<rparr>
      in if uart_circ_empty (xmit s2) then s2 else tx_loop e buf n s2)"

abbreviation (input) "WAKEUP_CHARS \<equiv> (256 :: nat)"

text \<open>The counter is a signed integer; the first pass of the loop is made even when \<open>tx_loadsz\<close> is 0.\<close>

definition transmit_chars :: "'d env8250 \<Rightarrow> 'd line8250 \<Rightarrow> uart_fault + 'd line8250" where
  "transmit_chars e s =
     (if x_char (uport s) \<noteq> 0 then
        Inr (on_port (\<lambda>p. (count_tx (serial_out e REG_TX (x_char p) p))\<lparr>x_char := 0\<rparr>) s)
      else if \<not> has_state (uport s) then Inl Null_state
      else if \<not> port_tty s then Inl Null_tty
      else if e_tx_stopped e (tty s) then Inr (on_port (serial8250_stop_tx e) s)
      else if uart_circ_empty (xmit s) then Inr (on_port (stop_tx_ier e) s)
      else
        (case circ_data (xmit s) of
           None \<Rightarrow> Inl Null_state
         | Some buf \<Rightarrow>
             let s1 = tx_loop e buf (max 1 (nat (sint (tx_loadsz (hw (uport s)))))) s
             in (case (if uart_circ_chars_pending (xmit s1) < WAKEUP_CHARS then uart_write_wakeup s1 else Inr s1) of
                   Inl f \<Rightarrow> Inl f
                 | Inr s2 \<Rightarrow> Inr (if uart_circ_empty (xmit s2) then on_port (stop_tx_ier e) s2 else s2))))"

text \<open>A fault in the transmission is recorded, since the function has no result.\<close>

definition serial8250_start_tx :: "'d env8250 \<Rightarrow> 'd line8250 \<Rightarrow> 'd line8250" where
  "serial8250_start_tx e s =
     (let s1 =
        (if has8 (ier (hw (uport s))) IER_THRI then s
         else
           let sa = on_port (\<lambda>p. let q = on_hw (\<lambda>h. h\<lparr>ier := ier h OR IER_THRI\<rparr>) p in serial_out e REG_IER (ier (hw q)) q) s
           in if bug_txen (hw (uport sa)) then
                (case serial_in e REG_LSR (uport sa) of
                   (lsr, p) \<Rightarrow>
                     let sb = sa\<lparr>uport := on_hw (\<lambda>h. h\<lparr>lsr_saved_flags := lsr_saved_flags h OR (lsr AND LSR_BRK_ERROR)\<rparr>) p\<rparr>
                     in if has8 lsr (if type (uport sb) = PORT_RM9000 then LSR_THRE else LSR_TEMT)
                        then survive sb (transmit_chars e sb) else sb)
              else sa)
      in if type (uport s1) = PORT_16C950 \<and> has8 (acr (hw (uport s1))) ACR_TXDIS then
           on_port (\<lambda>p. let q = on_hw (\<lambda>h. h\<lparr>acr := acr h AND NOT ACR_TXDIS\<rparr>) p in serial_icr_write e ICR_ACR (acr (hw q)) q) s1
         else s1)"

definition serial8250_stop_rx :: "'d env8250 \<Rightarrow> 'd port8250 \<Rightarrow> 'd port8250" where
  "serial8250_stop_rx e p =
     (let q = on_hw (\<lambda>h. h\<lparr>ier := ier h AND NOT IER_RLSI, read_status_mask := read_status_mask h AND NOT LSR_DR\<rparr>) p
      in serial_out e REG_IER (ier (hw q)) q)"

definition serial8250_enable_ms :: "'d env8250 \<Rightarrow> 'd port8250 \<Rightarrow> 'd port8250" where
  "serial8250_enable_ms e p =
     (if bug_nomsr (hw p) then p
      else let q = on_hw (\<lambda>h. h\<lparr>ier := ier h OR IER_MSI\<rparr>) p in serial_out e REG_IER (ier (hw q)) q)"

text \<open>One pass of the loop of \<open>receive_chars\<close>. The last component of what is handed on is the flag of the terminal layer.\<close>

definition rx_error_count :: "u8 \<Rightarrow> uart_icount \<Rightarrow> uart_icount" where
  "rx_error_count lsr ic =
     (let ic1 = (if has8 lsr LSR_BI then ic
                 else if has8 lsr LSR_PE then ic\<lparr>ic_parity := ic_parity ic + 1\<rparr>
                 else if has8 lsr LSR_FE then ic\<lparr>ic_frame := ic_frame ic + 1\<rparr> else ic)
      in if has8 lsr LSR_OE then ic1\<lparr>ic_overrun := ic_overrun ic1 + 1\<rparr> else ic1)"

definition rx_flag :: "u8 \<Rightarrow> nat" where
  "rx_flag lsr = (if has8 lsr LSR_BI then 1 else if has8 lsr LSR_PE then 3 else if has8 lsr LSR_FE then 2 else 0)"

definition rx_char :: "'d env8250 \<Rightarrow> u8 \<Rightarrow> 'd port8250 \<Rightarrow> 'd port8250" where
  "rx_char e lsr0 p0 =
     (let (ch, p1) = (if has8 lsr0 LSR_DR then serial_in e REG_RX p0 else (0, p0));
          p2 = p1\<lparr>icount := (icount p1)\<lparr>ic_rx := ic_rx (icount p1) + 1\<rparr>\<rparr>;
          lsr1 = lsr0 OR lsr_saved_flags (hw p2);
          p3 = on_hw (\<lambda>h. h\<lparr>lsr_saved_flags := 0\<rparr>) p2;
          err = has8 lsr1 LSR_BRK_ERROR;
          brk = (err \<and> has8 lsr1 LSR_BI);
          lsr2 = (if brk then lsr1 AND NOT (LSR_FE OR LSR_PE) else lsr1);
          p4 = (if brk then p3\<lparr>icount := (icount p3)\<lparr>ic_brk := ic_brk (icount p3) + 1\<rparr>\<rparr> else p3)
      in if brk \<and> e_handle_break e p4 then p4
         else
           let p5 = (if err then p4\<lparr>icount := rx_error_count lsr2 (icount p4)\<rparr> else p4);
               lsr3 = (if err then lsr2 AND read_status_mask (hw p5) else lsr2);
               flag = (if err then rx_flag lsr3 else 0)
           in if ch = 0x7F \<or> \<not> e_rx_enable e \<or> e_sysrq_char e ch p5 then p5
              else on_hw (\<lambda>h. h\<lparr>rx := rx h @ [(ch, lsr3, flag)]\<rparr>) p5)"

fun rx_loop :: "'d env8250 \<Rightarrow> nat \<Rightarrow> u8 \<Rightarrow> 'd port8250 \<Rightarrow> u8 \<times> 'd port8250" where
  "rx_loop e n lsr p =
     (case serial_in e REG_LSR (rx_char e lsr p) of
        (lsr', p1) \<Rightarrow>
          if has8 lsr' (LSR_DR OR LSR_BI)
          then (case n of 0 \<Rightarrow> (lsr', p1) | Suc m \<Rightarrow> rx_loop e m lsr' p1)
          else (lsr', p1))"

declare rx_loop.simps [simp del]

text \<open>
  The terminal is taken from the state of the line on entry and gets the characters at the end, whether or not one
  was inserted.
\<close>

definition receive_chars :: "'d env8250 \<Rightarrow> u8 \<Rightarrow> 'd line8250 \<Rightarrow> uart_fault + u8 \<times> 'd line8250" where
  "receive_chars e status s =
     (if \<not> has_state (uport s) then Inl Null_state
      else if \<not> port_tty s then Inl Null_tty
      else (case rx_loop e 256 status (uport s) of (status', p) \<Rightarrow> Inr (status', s\<lparr>uport := p\<rparr>)))"

text \<open>
  The status with the flags saved before. The counting and the reaction to CTS and DCD are the core's; a reaction without a
  terminal follows a null pointer.
\<close>

definition cts_change :: "'d env8250 \<Rightarrow> bool \<Rightarrow> 'd line8250 \<Rightarrow> 'd line8250" where
  "cts_change e cts s =
     (let s1 = on_port (\<lambda>p. p\<lparr>icount := e_cts_count e (icount p)\<rparr>) s
      in if e_cts e cts s1 \<noteq> Cts_none \<and> \<not> port_tty s1 then s1\<lparr>crashed := True\<rparr>
         else (case e_cts e cts s1 of
                 Cts_none \<Rightarrow> s1
               | Cts_start \<Rightarrow>
                   let s2 = serial8250_start_tx e (on_tty (\<lambda>t. t\<lparr>hw_stopped := False\<rparr>) s1)
                   in survive s2 (uart_write_wakeup s2)
               | Cts_stop \<Rightarrow> on_port (serial8250_stop_tx e) (on_tty (\<lambda>t. t\<lparr>hw_stopped := True\<rparr>) s1)))"

definition check_modem_status :: "'d env8250 \<Rightarrow> 'd line8250 \<Rightarrow> u8 \<times> 'd line8250" where
  "check_modem_status e s =
     (let (v, p) = serial_in e REG_MSR (uport s);
          status = v OR msr_saved_flags (hw p);
          p1 = on_hw (\<lambda>h. h\<lparr>msr_saved_flags := 0\<rparr>) p;
          s1 = s\<lparr>uport := p1\<rparr>
      in if has8 status MSR_ANY_DELTA \<and> has8 (ier (hw p1)) IER_MSI \<and> has_state p1 then
           let s2 = (if has8 status MSR_TERI then on_port (\<lambda>q. q\<lparr>icount := (icount q)\<lparr>ic_rng := ic_rng (icount q) + 1\<rparr>\<rparr>) s1 else s1);
               s3 = (if has8 status MSR_DDSR then on_port (\<lambda>q. q\<lparr>icount := (icount q)\<lparr>ic_dsr := ic_dsr (icount q) + 1\<rparr>\<rparr>) s2 else s2);
               s4 = (if has8 status MSR_DDCD then on_port (\<lambda>q. q\<lparr>icount := e_dcd_count e (icount q)\<rparr>) s3 else s3);
               s5 = (if has8 status MSR_DCTS then cts_change e (has8 status MSR_CTS) s4 else s4)
           in (status, s5)
         else (status, s1))"

definition serial8250_handle_port :: "'d env8250 \<Rightarrow> 'd line8250 \<Rightarrow> uart_fault + 'd line8250" where
  "serial8250_handle_port e s =
     (let (status0, p) = serial_in e REG_LSR (uport s);
          s0 = s\<lparr>uport := p\<rparr>
      in (case (if has8 status0 (LSR_DR OR LSR_BI) then receive_chars e status0 s0 else Inr (status0, s0)) of
            Inl f \<Rightarrow> Inl f
          | Inr (status, s1) \<Rightarrow>
              let s2 = snd (check_modem_status e s1)
              in if has8 status LSR_THRE then transmit_chars e s2 else Inr s2))"

section \<open>The interrupt\<close>

abbreviation (input) "PASS_LIMIT \<equiv> (256 :: nat)"

text \<open>One port of the chain: whether it had something to do, and the line after it.\<close>

definition isr_port :: "'d env8250 \<Rightarrow> 'd line8250 \<Rightarrow> uart_fault + bool \<times> 'd line8250" where
  "isr_port e s =
     (case serial_in e REG_IIR (uport s) of
        (iir, p) \<Rightarrow>
          if \<not> has8 iir IIR_NO_INT then map_sum id (\<lambda>s'. (True, s')) (serial8250_handle_port e (s\<lparr>uport := p\<rparr>))
          else if iotype p = UPIO_DWAPB \<and> iir AND IIR_BUSY = IIR_BUSY then
            Inr (True, s\<lparr>uport := serial_out e REG_LCR (lcr (hw p)) (on_dev (e_read_usr e) p)\<rparr>)
          else Inr (False, s\<lparr>uport := p\<rparr>))"

text \<open>
  The loop over the chain, a circular list that starts at position 0. It ends at the port where a whole round without work
  began, or after too many rounds.
\<close>

function isr_loop :: "'d env8250 \<Rightarrow> nat \<Rightarrow> nat option \<Rightarrow> nat \<Rightarrow> bool \<Rightarrow> 'd line8250 list \<Rightarrow> uart_fault + bool \<times> 'd line8250 list" where
  "isr_loop e i stop pass handled ls =
     (if i \<ge> length ls then Inr (handled, ls)
      else
        (case isr_port e (ls ! i) of
           Inl f \<Rightarrow> Inl f
         | Inr (work, s) \<Rightarrow>
             let ls' = ls[i := s];
                 stop' = (if work then None else if stop = None then Some i else stop);
                 j = (if i + 1 = length ls then 0 else i + 1)
             in if j = 0 \<and> pass > PASS_LIMIT then Inr (handled \<or> work, ls')
                else if stop' = Some j then Inr (handled \<or> work, ls')
                else isr_loop e j stop' (if j = 0 then pass + 1 else pass) (handled \<or> work) ls'))"
  by pat_completeness auto
termination
  by (relation "measures [\<lambda>(e, i, stop, pass, handled, ls). 258 - pass, \<lambda>(e, i, stop, pass, handled, ls). length ls - i]")
    (auto split: if_splits)

declare isr_loop.simps [simp del]

definition serial8250_interrupt :: "'d env8250 \<Rightarrow> 'd line8250 list \<Rightarrow> uart_fault + bool \<times> 'd line8250 list" where
  "serial8250_interrupt e ls = isr_loop e 0 None 0 False ls"

section \<open>Timers\<close>

definition poll_timeout :: "int \<Rightarrow> int" where
  "poll_timeout t = (if t > 6 then t div 2 - 2 else 1)"

definition serial8250_timeout :: "'d env8250 \<Rightarrow> 'd line8250 \<Rightarrow> uart_fault + 'd line8250" where
  "serial8250_timeout e s =
     (case serial_in e REG_IIR (uport s) of
        (iir, p) \<Rightarrow>
          map_sum id (on_port (on_hw (\<lambda>h. h\<lparr>timer_armed := True\<rparr>)))
            (if iir \<noteq> IIR_NO_INT then serial8250_handle_port e (s\<lparr>uport := p\<rparr>) else Inr (s\<lparr>uport := p\<rparr>)))"

definition serial8250_backup_timeout :: "'d env8250 \<Rightarrow> 'd line8250 \<Rightarrow> uart_fault + 'd line8250" where
  "serial8250_backup_timeout e s =
     (let real = (irq (uport s) \<noteq> 0);
          (ierv, p1) = (if real then (case serial_in e REG_IER (uport s) of (v, q) \<Rightarrow> (v, serial_out e REG_IER 0 q)) else (0, uport s));
          (iir, p2) = serial_in e REG_IIR p1;
          (lsr, p3) = serial_in e REG_LSR p2;
          p4 = on_hw (\<lambda>h. h\<lparr>lsr_saved_flags := lsr_saved_flags h OR (lsr AND LSR_BRK_ERROR)\<rparr>) p3;
          s1 = s\<lparr>uport := p4\<rparr>;
          iir' = (if has8 iir IIR_NO_INT \<and> has8 (ier (hw p4)) IER_THRI \<and> (\<not> uart_circ_empty (xmit s1) \<or> x_char p4 \<noteq> 0)
                     \<and> has8 lsr LSR_THRE
                  then (iir AND NOT (IIR_ID OR IIR_NO_INT)) OR IIR_THRI else iir)
      in map_sum id (on_port (\<lambda>p. on_hw (\<lambda>h. h\<lparr>timer_armed := True\<rparr>) (if real then serial_out e REG_IER ierv p else p)))
           (if \<not> has8 iir' IIR_NO_INT then serial8250_handle_port e s1 else Inr s1))"

end
