(* ===== verification/Uart_8250_Port.thy ===== *)
theory Uart_8250_Port
  imports Uart_8250_Ops
begin

text \<open>
  The 8250 driver as the serial core sees it: modem lines, starting and shutting down a port, its settings and
  resources, and the table of operations. Then the console and the ports of the driver.
\<close>

section \<open>Status and modem lines\<close>

definition save_lsr :: "u8 \<Rightarrow> 'd port8250 \<Rightarrow> 'd port8250" where
  "save_lsr v p = on_hw (\<lambda>h. h\<lparr>lsr_saved_flags := lsr_saved_flags h OR (v AND LSR_BRK_ERROR)\<rparr>) p"

definition serial8250_tx_empty :: "'d env8250 \<Rightarrow> 'd port8250 \<Rightarrow> u32 \<times> 'd port8250" where
  "serial8250_tx_empty e p =
     (case serial_in e REG_LSR p of
        (lsr, p1) \<Rightarrow> (if lsr AND BOTH_EMPTY = BOTH_EMPTY then TIOCSER_TEMT else 0, save_lsr lsr p1))"

definition mctrl_of_msr :: "u8 \<Rightarrow> u32" where
  "mctrl_of_msr status =
     (if has8 status MSR_DCD then TIOCM_CAR else 0) OR (if has8 status MSR_RI then TIOCM_RNG else 0)
     OR (if has8 status MSR_DSR then TIOCM_DSR else 0) OR (if has8 status MSR_CTS then TIOCM_CTS else 0)"

definition serial8250_get_mctrl :: "'d env8250 \<Rightarrow> 'd line8250 \<Rightarrow> u32 \<times> 'd line8250" where
  "serial8250_get_mctrl e s = (case check_modem_status e s of (status, s') \<Rightarrow> (mctrl_of_msr status, s'))"

definition mcr_of_mctrl :: "u32 \<Rightarrow> u8" where
  "mcr_of_mctrl m =
     (if has_bits m TIOCM_RTS then MCR_RTS else 0) OR (if has_bits m TIOCM_DTR then MCR_DTR else 0)
     OR (if has_bits m TIOCM_OUT1 then MCR_OUT1 else 0) OR (if has_bits m TIOCM_OUT2 then MCR_OUT2 else 0)
     OR (if has_bits m TIOCM_LOOP then MCR_LOOP else 0)"

definition serial8250_set_mctrl :: "'d env8250 \<Rightarrow> u32 \<Rightarrow> 'd port8250 \<Rightarrow> 'd port8250" where
  "serial8250_set_mctrl e m p =
     serial_out e REG_MCR ((mcr_of_mctrl m AND mcr_mask (hw p)) OR mcr_force (hw p) OR mcr (hw p)) p"

definition serial8250_break_ctl :: "'d env8250 \<Rightarrow> int \<Rightarrow> 'd port8250 \<Rightarrow> 'd port8250" where
  "serial8250_break_ctl e break_state p =
     (let q = on_hw (\<lambda>h. h\<lparr>lcr := (if break_state = -1 then lcr h OR LCR_SBC else lcr h AND NOT LCR_SBC)\<rparr>) p
      in serial_out e REG_LCR (lcr (hw q)) q)"

text \<open>The two loops of \<open>wait_for_xmitr\<close>, with the tries that are left.\<close>

fun wait_lsr :: "'d env8250 \<Rightarrow> u8 \<Rightarrow> nat \<Rightarrow> 'd port8250 \<Rightarrow> 'd port8250" where
  "wait_lsr e bits 0 p = p"
| "wait_lsr e bits (Suc n) p =
     (case serial_in e REG_LSR p of
        (status, p1) \<Rightarrow>
          let p2 = save_lsr status p1
          in if n = 0 then p2
             else let p3 = on_dev (e_delay e 1) p2
                  in if status AND bits = bits then p3 else wait_lsr e bits n p3)"

fun wait_cts :: "'d env8250 \<Rightarrow> nat \<Rightarrow> 'd port8250 \<Rightarrow> 'd port8250" where
  "wait_cts e 0 p = p"
| "wait_cts e (Suc n) p =
     (case serial_in e REG_MSR p of
        (msr, p1) \<Rightarrow>
          let p2 = on_hw (\<lambda>h. h\<lparr>msr_saved_flags := msr_saved_flags h OR (msr AND MSR_ANY_DELTA)\<rparr>) p1
          in if has8 msr MSR_CTS then p2 else wait_cts e n (on_dev (e_delay e 1) p2))"

definition wait_for_xmitr :: "'d env8250 \<Rightarrow> u8 \<Rightarrow> 'd port8250 \<Rightarrow> 'd port8250" where
  "wait_for_xmitr e bits p =
     (let p1 = wait_lsr e bits 10000 p
      in if has_bits (flags p1) UPF_CONS_FLOW then wait_cts e 1000000 p1 else p1)"

text \<open>The busy loop of \<open>serial8250_get_poll_char\<close> has no limit: the result is \<open>None\<close> when the tries run out.\<close>

fun poll_lsr :: "'d env8250 \<Rightarrow> nat \<Rightarrow> 'd port8250 \<Rightarrow> 'd port8250 option" where
  "poll_lsr e 0 p = None"
| "poll_lsr e (Suc n) p = (case serial_in e REG_LSR p of (lsr, p1) \<Rightarrow> if has8 lsr LSR_DR then Some p1 else poll_lsr e n p1)"

definition serial8250_get_poll_char :: "'d env8250 \<Rightarrow> nat \<Rightarrow> 'd port8250 \<Rightarrow> (u8 \<times> 'd port8250) option" where
  "serial8250_get_poll_char e tries p = map_option (serial_in e REG_RX) (poll_lsr e tries p)"

definition serial8250_put_poll_char :: "'d env8250 \<Rightarrow> u8 \<Rightarrow> 'd port8250 \<Rightarrow> 'd port8250" where
  "serial8250_put_poll_char e c p0 =
     (let (ierv, p1) = serial_in e REG_IER p0;
          p2 = serial_out e REG_IER (if cap_uue (caps (hw p1)) then IER_UUE else 0) p1;
          p3 = serial_out e REG_TX c (wait_for_xmitr e BOTH_EMPTY p2);
          p4 = (if c = 10 then serial_out e REG_TX 13 (wait_for_xmitr e BOTH_EMPTY p3) else p3)
      in serial_out e REG_IER ierv (wait_for_xmitr e BOTH_EMPTY p4))"

section \<open>Starting and shutting down\<close>

text \<open>
  \<open>serial_link_irq_chain\<close> as the port sees it: the table that all ports share is in \<open>Uart_8250_Chain\<close>, where the error is computed;
  \<open>Uart_8250_Register\<close> shows that the port is linked exactly when the table has it on its chain. The error is negative.
\<close>

definition link_irq :: "'d env8250 \<Rightarrow> 'd port8250 \<Rightarrow> int \<times> 'd port8250" where
  "link_irq e p =
     (let err = e_link_error e p in (- int err, if err = 0 then on_hw (\<lambda>h. h\<lparr>linked := True\<rparr>) p else p))"

definition startup_wake :: "'d env8250 \<Rightarrow> 'd port8250 \<Rightarrow> 'd port8250" where
  "startup_wake e p0 =
     (let p1 = on_hw (\<lambda>h. h\<lparr>caps := cfg_caps (config_of p0), mcr := 0\<rparr>) p0;
          p2 = (if iotype p1 \<noteq> cur_iotype (hw p1) then set_io_from_upio p1 else p1);
          p3 = (if type p2 = PORT_16C950 then
                  serial_outs e [(REG_LCR, 0xBF), (REG_EFR, EFR_ECB), (REG_LCR, 0)]
                   (serial_icr_write e ICR_CSR 0
                     (serial_outs e [(REG_LCR, 0xBF), (REG_EFR, EFR_ECB), (REG_IER, 0), (REG_LCR, 0)]
                       (on_hw (\<lambda>h. h\<lparr>acr := 0\<rparr>) p2)))
                else p2)
      in serial_ins e [REG_LSR, REG_RX, REG_IIR, REG_MSR] (serial8250_clear_fifos e p3))"

definition startup_16850 :: "'d env8250 \<Rightarrow> 'd port8250 \<Rightarrow> 'd port8250" where
  "startup_16850 e p0 =
     (if type p0 = PORT_16850 then
        let (v, p1) = serial_in e REG_FCTR (serial_out e REG_LCR 0xBF p0);
            fctr = v AND NOT FCTR_TX
        in serial_outs e [(REG_FCTR, fctr OR FCTR_TRGD), (REG_TRG, TRG_96), (REG_FCTR, fctr OR FCTR_TRGD OR FCTR_TX),
             (REG_TRG, TRG_96), (REG_LCR, 0)] p1
      else p0)"

text \<open>Does the chip assert its transmit interrupt again? If not, it needs the backup timer.\<close>

definition startup_thre_test :: "'d env8250 \<Rightarrow> 'd port8250 \<Rightarrow> 'd port8250" where
  "startup_thre_test e p0 =
     (if irq p0 \<noteq> 0 then
        let p1 = on_dev (e_delay e 1) (serial_out_sync e REG_IER IER_THRI (wait_for_xmitr e LSR_THRE p0));
            (iir1, p2) = serial_in e REG_IIR p1;
            p3 = on_dev (e_delay e 1) (serial_out_sync e REG_IER IER_THRI (serial_out e REG_IER 0 p2));
            (iir, p4) = serial_in e REG_IIR p3;
            p5 = serial_out e REG_IER 0 p4
        in if \<not> has8 iir1 IIR_NO_INT \<and> has8 iir IIR_NO_INT then on_hw (\<lambda>h. h\<lparr>bug_thre := True\<rparr>) p5 else p5
      else p0)"

definition startup_timer :: "'d port8250 \<Rightarrow> 'd port8250" where
  "startup_timer p = (if bug_thre (hw p) then on_hw (\<lambda>h. h\<lparr>backup_timer := True, timer_armed := True\<rparr>) p else p)"

text \<open>A port without an interrupt is served by its timer.\<close>

definition startup_link :: "'d env8250 \<Rightarrow> 'd port8250 \<Rightarrow> int \<times> 'd port8250" where
  "startup_link e p =
     (if irq p = 0 then (0, on_hw (\<lambda>h. h\<lparr>timer_armed := True, linked := True\<rparr>) p) else link_irq e p)"

definition startup_txen_test :: "'d env8250 \<Rightarrow> 'd port8250 \<Rightarrow> 'd port8250" where
  "startup_txen_test e p0 =
     (if e_skip_txen e \<or> has_bits (flags p0) UPF_NO_TXEN_TEST then p0
      else
        let (lsr, p1) = serial_in e REG_LSR (serial_out e REG_IER IER_THRI p0);
            (iir, p2) = serial_in e REG_IIR p1;
            p3 = serial_out e REG_IER 0 p2
        in on_hw (\<lambda>h. h\<lparr>bug_txen := (has8 lsr LSR_TEMT \<and> has8 iir IIR_NO_INT)\<rparr>) p3)"

definition startup_init :: "'d env8250 \<Rightarrow> 'd port8250 \<Rightarrow> 'd port8250" where
  "startup_init e p0 =
     (let p1 = serial_out e REG_LCR 3 p0;
          p2 = (if has_bits (flags p1) UPF_FOURPORT
                then if irq p1 = 0 then p1\<lparr>mctrl := mctrl p1 OR TIOCM_OUT1\<rparr> else p1
                else if irq p1 \<noteq> 0 then p1\<lparr>mctrl := mctrl p1 OR TIOCM_OUT2\<rparr> else p1);
          p3 = startup_txen_test e (serial8250_set_mctrl e (mctrl p2) p2);
          p4 = on_hw (\<lambda>h. h\<lparr>lsr_saved_flags := 0, msr_saved_flags := 0, ier := IER_RLSI OR IER_RDI\<rparr>)
                 (serial_ins e [REG_LSR, REG_RX, REG_IIR, REG_MSR] p3);
          p5 = serial_out e REG_IER (ier (hw p4)) p4;
          icp = (iobase p5 AND 0xFE0) OR 0x1F
      in if has_bits (flags p5) UPF_FOURPORT then snd (from_dev (e_inb e icp) (on_dev (e_outb e 0x80 icp) p5)) else p5)"

definition serial8250_startup :: "'d env8250 \<Rightarrow> 'd port8250 \<Rightarrow> int \<times> 'd port8250" where
  "serial8250_startup e p0 =
     (let p1 = startup_wake e p0;
          (bad, p2) = (if has_bits (flags p1) UPF_BUGGY_UART then (False, p1)
                       else (case serial_in e REG_LSR p1 of (lsr, q) \<Rightarrow> (lsr = 0xFF, q)))
      in if bad then (- ENODEV, p2)
         else
           (case startup_link e (startup_timer (startup_thre_test e (startup_16850 e p2))) of
              (retval, p3) \<Rightarrow> if retval \<noteq> 0 then (retval, p3) else (0, startup_init e p3)))"

definition serial8250_shutdown :: "'d env8250 \<Rightarrow> 'd port8250 \<Rightarrow> 'd port8250" where
  "serial8250_shutdown e p0 =
     (let p1 = serial_out e REG_IER 0 (on_hw (\<lambda>h. h\<lparr>ier := 0\<rparr>) p0);
          p2 = (if has_bits (flags p1) UPF_FOURPORT
                then (snd (from_dev (e_inb e ((iobase p1 AND 0xFE0) OR 0x1F)) p1))\<lparr>mctrl := mctrl p1 OR TIOCM_OUT1\<rparr>
                else p1\<lparr>mctrl := mctrl p1 AND NOT TIOCM_OUT2\<rparr>);
          p3 = serial8250_set_mctrl e (mctrl p2) p2;
          (v, p4) = serial_in e REG_LCR p3;
          p5 = serial8250_clear_fifos e (serial_out e REG_LCR (v AND NOT LCR_SBC) p4);
          p6 = snd (serial_in e REG_RX p5)
      in on_hw (\<lambda>h. h\<lparr>timer_armed := False, backup_timer := False, linked := False\<rparr>) p6)"

section \<open>Settings\<close>

text \<open>The processor's division routine gives 0 for a division by zero.\<close>

definition serial8250_get_divisor :: "u32 \<Rightarrow> 'd port8250 \<Rightarrow> u32" where
  "serial8250_get_divisor baud p =
     (if has_bits (flags p) UPF_MAGIC_MULTIPLIER \<and> baud = uartclk p div 4 then 0x8001
      else if has_bits (flags p) UPF_MAGIC_MULTIPLIER \<and> baud = uartclk p div 8 then 0x8002
      else (case uart_get_divisor baud p of Inl _ \<Rightarrow> 0 | Inr q \<Rightarrow> q))"

definition lcr_of_cflag :: "u32 \<Rightarrow> u8" where
  "lcr_of_cflag c =
     (let size = c AND CSIZE
      in (if size = CS5 then 0 else if size = CS6 then 1 else if size = CS7 then 2 else 3)
         OR (if has_bits c CSTOPB then LCR_STOP else 0) OR (if has_bits c PARENB then LCR_PARITY else 0)
         OR (if has_bits c PARODD then 0 else LCR_EPAR) OR (if has_bits c 0x40000000 then LCR_SPAR else 0))"

definition read_mask_of :: "u32 \<Rightarrow> u8" where
  "read_mask_of iflag =
     (LSR_OE OR LSR_THRE OR LSR_DR) OR (if has_bits iflag 0x10 then LSR_FE OR LSR_PE else 0)
     OR (if has_bits iflag 0xA then LSR_BI else 0)"

definition ignore_mask_of :: "u32 \<Rightarrow> u32 \<Rightarrow> u8" where
  "ignore_mask_of iflag cflag =
     (if has_bits iflag 4 then LSR_PE OR LSR_FE else 0) OR (if has_bits iflag 1 then LSR_BI else 0)
     OR (if has_bits iflag 1 \<and> has_bits iflag 4 then LSR_OE else 0) OR (if has_bits cflag CREAD then 0 else LSR_DR)"

definition fcr_for :: "u32 \<Rightarrow> 'd port8250 \<Rightarrow> u8" where
  "fcr_for baud p =
     (if cap_fifo (caps (hw p)) \<and> fifosize p > 1 then (if baud < 2400 then FCR_ENABLE else cfg_fcr (config_of p)) else 0)"

definition set_timeout :: "u32 \<Rightarrow> u32 \<Rightarrow> 'd port8250 \<Rightarrow> 'd port8250" where
  "set_timeout cflag baud p =
     (case uart_update_timeout cflag baud p of Inl _ \<Rightarrow> p\<lparr>timeout := of_nat (HZ div 50)\<rparr> | Inr q \<Rightarrow> q)"

text \<open>The registers that carry the new speed and format.\<close>

definition program_line :: "'d env8250 \<Rightarrow> u32 \<Rightarrow> u8 \<Rightarrow> u8 \<Rightarrow> u32 \<Rightarrow> 'd port8250 \<Rightarrow> 'd port8250" where
  "program_line e cflag cval fcr quot p0 =
     (let p1 = (if cap_efr (caps (hw p0))
                then serial_outs e [(REG_LCR, 0xBF), (REG_EFR, if has_bits cflag CRTSCTS then EFR_CTS else 0)] p0 else p0);
          p2 = serial_dl_write e quot (serial_out e REG_LCR (if cap_natsemi (caps (hw p1)) then 0xE0 else cval OR LCR_DLAB) p1);
          p3 = (if type p2 = PORT_16750 then serial_out e REG_FCR fcr p2 else p2);
          p4 = on_hw (\<lambda>h. h\<lparr>lcr := cval\<rparr>) (serial_out e REG_LCR cval p3)
      in if type p4 \<noteq> PORT_16750
         then serial_out e REG_FCR fcr (if has8 fcr FCR_ENABLE then serial_out e REG_FCR FCR_ENABLE p4 else p4)
         else p4)"

definition serial8250_set_termios ::
  "'d env8250 \<Rightarrow> ktermios \<Rightarrow> ktermios option \<Rightarrow> 'd port8250 \<Rightarrow> ktermios \<times> 'd port8250" where
  "serial8250_set_termios e t0 old p0 =
     (let cval = lcr_of_cflag (c_cflag t0);
          (baud, t1) = uart_get_baud_rate (e_baud e) (e_encode e) p0 t0 old (uartclk p0 div 16 div 0xFFFF) (uartclk p0 div 16);
          quot0 = serial8250_get_divisor baud p0;
          quot = (if bug_quot (hw p0) \<and> quot0 AND 0xFF = 0 then quot0 + 1 else quot0);
          fcr = fcr_for baud p0;
          cflag = c_cflag t1;
          p1 = (if cap_afe (caps (hw p0)) \<and> fifosize p0 \<ge> 32
                then on_hw (\<lambda>h. h\<lparr>mcr := (if has_bits cflag CRTSCTS then mcr h OR MCR_AFE else mcr h AND NOT MCR_AFE)\<rparr>) p0 else p0);
          p2 = on_hw (\<lambda>h. h\<lparr>read_status_mask := read_mask_of (c_iflag t1), ignore_status_mask := ignore_mask_of (c_iflag t1) cflag\<rparr>)
                 (set_timeout cflag baud p1);
          ms = (\<not> bug_nomsr (hw p2) \<and> e_enable_ms e (flags p2) cflag);
          p3 = on_hw (\<lambda>h. h\<lparr>ier := (ier h AND NOT IER_MSI) OR (if ms then IER_MSI else 0)
                             OR (if cap_uue (caps h) then IER_UUE OR IER_RTOIE else 0)\<rparr>) p2;
          p4 = program_line e cflag cval fcr quot (serial_out e REG_IER (ier (hw p3)) p3);
          p5 = serial8250_set_mctrl e (mctrl p4) p4
      in (if e_baud e t1 \<noteq> 0 then e_encode e t1 baud baud else t1, p5))"

definition serial8250_pm :: "'d env8250 \<Rightarrow> int \<Rightarrow> int \<Rightarrow> 'd port8250 \<Rightarrow> 'd port8250" where
  "serial8250_pm e new old p = on_dev (e_pm e new old) (serial8250_set_sleep e (new \<noteq> 0) p)"

section \<open>Resources\<close>

definition serial8250_port_size :: "'d port8250 \<Rightarrow> u32" where
  "serial8250_port_size p = (if iotype p = UPIO_AU then 0x100000 else push_bit (unat (regshift p)) 8)"

definition mmio_port :: "'d port8250 \<Rightarrow> bool" where
  "mmio_port p \<longleftrightarrow> iotype p \<in> {UPIO_AU, UPIO_TSI, UPIO_MEM32, UPIO_MEM, UPIO_DWAPB}"

definition serial8250_request_std_resource :: "'d env8250 \<Rightarrow> 'd port8250 \<Rightarrow> int \<times> 'd port8250" where
  "serial8250_request_std_resource e p =
     (let size = serial8250_port_size p
      in if mmio_port p then
           if mapbase p = 0 then (0, p)
           else if \<not> e_claim e (mapbase p) size then (- EBUSY, p)
           else if has_bits (flags p) UPF_IOREMAP then
             let m = e_remap e (mapbase p) size
             in if m = 0 then (- ENOMEM, p\<lparr>membase := 0\<rparr>) else (0, p\<lparr>membase := m\<rparr>)
           else (0, p)
         else if iotype p = UPIO_HUB6 \<or> iotype p = UPIO_PORT then
           if e_claim e (iobase p) size then (0, p) else (- EBUSY, p)
         else (0, p))"

definition serial8250_release_std_resource :: "'d port8250 \<Rightarrow> 'd port8250" where
  "serial8250_release_std_resource p =
     (if mmio_port p \<and> mapbase p \<noteq> 0 \<and> has_bits (flags p) UPF_IOREMAP then p\<lparr>membase := 0\<rparr> else p)"

text \<open>RSA boards, the only ports with a second region, are not supported in this configuration.\<close>

definition serial8250_release_port :: "'d port8250 \<Rightarrow> 'd port8250" where
  "serial8250_release_port p = serial8250_release_std_resource p"

definition serial8250_request_port :: "'d env8250 \<Rightarrow> 'd port8250 \<Rightarrow> int \<times> 'd port8250" where
  "serial8250_request_port e p = serial8250_request_std_resource e p"

definition serial8250_config_port :: "'d env8250 \<Rightarrow> u32 \<Rightarrow> 'd port8250 \<Rightarrow> 'd port8250" where
  "serial8250_config_port e fl p0 =
     (case serial8250_request_std_resource e p0 of
        (ret, p1) \<Rightarrow>
          if ret < 0 then p1
          else
            let p2 = (if iotype p1 \<noteq> cur_iotype (hw p1) then set_io_from_upio p1 else p1);
                p3 = (if has_bits fl UART_CONFIG_TYPE then autoconfig e p2 else p2);
                p4 = (if type p3 \<noteq> PORT_UNKNOWN \<and> has_bits fl UART_CONFIG_IRQ then autoconfig_irq e p3 else p3)
            in if type p4 = PORT_UNKNOWN then serial8250_release_std_resource p4 else p4)"

definition serial8250_verify_port :: "'d env8250 \<Rightarrow> 'd port8250 \<Rightarrow> serial_struct \<Rightarrow> int" where
  "serial8250_verify_port e p ser =
     (if sint (ss_irq ser) \<ge> e_nr_irqs e \<or> sint (ss_irq ser) < 0 \<or> sint (ss_baud_base ser) < 9600
         \<or> sint (ss_type ser) < 0 \<or> unat (ss_type ser) \<ge> length uart_config \<or> ss_type ser = PORT_CIRRUS
         \<or> ss_type ser = PORT_STARTECH then - EINVAL else 0)"

definition serial8250_type :: "'d port8250 \<Rightarrow> string option" where
  "serial8250_type p = Some (cfg_name (config_of p))"

text \<open>The table of operations, without those that \<open>CONFIG_CONSOLE_POLL\<close> adds.\<close>

definition serial8250_pops :: "'d env8250 \<Rightarrow> 'd uart_8250 uart_ops" where
  "serial8250_pops e =
     \<lparr>ops_tx_empty = serial8250_tx_empty e, ops_set_mctrl = serial8250_set_mctrl e, ops_get_mctrl = serial8250_get_mctrl e,
      ops_stop_tx = serial8250_stop_tx e, ops_start_tx = serial8250_start_tx e, ops_send_xchar = None,
      ops_stop_rx = serial8250_stop_rx e, ops_enable_ms = serial8250_enable_ms e, ops_break_ctl = serial8250_break_ctl e,
      ops_startup = serial8250_startup e, ops_shutdown = serial8250_shutdown e, ops_flush_buffer = None,
      ops_set_termios = serial8250_set_termios e, ops_set_ldisc = None, ops_pm = Some (serial8250_pm e),
      ops_type = Some serial8250_type, ops_release_port = serial8250_release_port,
      ops_request_port = serial8250_request_port e, ops_config_port = serial8250_config_port e,
      ops_verify_port = Some (serial8250_verify_port e), ops_ioctl = None,
      ops_poll_put_char = None, ops_poll_get_char = None\<rparr>"

section \<open>Console\<close>

definition serial8250_console_putchar :: "'d env8250 \<Rightarrow> u8 \<Rightarrow> 'd port8250 \<Rightarrow> 'd port8250" where
  "serial8250_console_putchar e c p = serial_out e REG_TX c (wait_for_xmitr e LSR_THRE p)"

text \<open>The interrupts of the port are off while the message is written and then as they were.\<close>

definition serial8250_console_write ::
  "'d env8250 \<Rightarrow> u8 list \<Rightarrow> 'd line8250 \<times> uart_daemon \<Rightarrow> uart_fault + 'd line8250 \<times> uart_daemon" where
  "serial8250_console_write e str = (\<lambda>(s, d).
     let (ierv, p1) = serial_in e REG_IER (uport s);
         p2 = serial_out e REG_IER (if cap_uue (caps (hw p1)) then IER_UUE else 0) p1
     in (case uart_console_write (serial8250_console_putchar e) str (p2, d) of
           Inl f \<Rightarrow> Inl f
         | Inr (p3, d') \<Rightarrow>
             let s' = s\<lparr>uport := serial_out e REG_IER ierv (wait_for_xmitr e BOTH_EMPTY p3)\<rparr>
             in Inr (if msr_saved_flags (hw (uport s')) \<noteq> 0 then snd (check_modem_status e s') else s', d')))"

text \<open>\<open>ports\<close> are the ports of the driver, \<open>nr_uarts\<close> of them.\<close>

definition serial8250_console_setup ::
  "'d env8250 \<Rightarrow> string option \<Rightarrow> 'd port8250 list \<Rightarrow> console \<Rightarrow> int \<times> console \<times> 'd port8250 list" where
  "serial8250_console_setup e options ports co =
     (let idx = (if con_index co \<ge> int (length ports) \<or> con_index co < 0 then 0 else nat (con_index co));
          co1 = co\<lparr>con_index := int idx\<rparr>;
          p = ports ! idx
      in if iobase p = 0 \<and> membase p = 0 then (- ENODEV, co1, ports)
         else
           let v0 = \<lparr>opt_baud = 9600, opt_parity = 110, opt_bits = 8, opt_flow = 110\<rparr>;
               v = (case options of None \<Rightarrow> v0 | Some str \<Rightarrow> uart_parse_options str v0)
           in (case uart_set_options (serial8250_pops e) v (Some co1) p of
                 (r, co2, p') \<Rightarrow> (r, the co2, ports[idx := p'])))"

fun serial8250_find_port :: "'d port8250 \<Rightarrow> 'd port8250 list \<Rightarrow> nat \<Rightarrow> int" where
  "serial8250_find_port p [] n = - ENODEV"
| "serial8250_find_port p (q # qs) n = (if uart_match_port p q then int n else serial8250_find_port p qs (n + 1))"

end
