(* ===== verification/Uart_8250_Chain.thy ===== *)
theory Uart_8250_Chain
  imports Uart_8250_Port
begin

text \<open>
  The chains of ports that share an interrupt: the hash table of the 8250 driver, linking a port when it is started
  and unlinking it when it is shut down. The chain of an interrupt exists as long as a port is on it, and so does the
  handler.
\<close>

section \<open>The hash table\<close>

text \<open>
  A port is its index in \<open>serial8250_ports\<close>. The ring of a node is listed from \<open>head\<close> on; the empty list is a null pointer.
  \<open>installed\<close> has the interrupts whose handler \<open>request_irq\<close> (or \<open>request_fiq\<close>) has installed.
\<close>

record irq_info =
  ii_irq :: u32
  ii_ring :: "nat list"

record irq_table =
  irq_lists :: "irq_info list list"
  installed :: "u32 set"

datatype chain_fault = Bug_no_node | Bug_no_head | Bug_other_head | List_broken

abbreviation (input) "NR_IRQ_HASH \<equiv> (32 :: nat)"

definition irq_bucket :: "u32 \<Rightarrow> nat" where
  "irq_bucket n = unat n mod NR_IRQ_HASH"

definition find_info :: "u32 \<Rightarrow> irq_info list \<Rightarrow> irq_info option" where
  "find_info n = find (\<lambda>i. ii_irq i = n)"

text \<open>The ring of the first node of the interrupt is replaced; a node without a ring is thrown away.\<close>

fun store_ring :: "u32 \<Rightarrow> nat list \<Rightarrow> irq_info list \<Rightarrow> irq_info list" where
  "store_ring n ring [] = []"
| "store_ring n ring (i # h) =
     (if ii_irq i = n then if ring = [] then h else i\<lparr>ii_ring := ring\<rparr> # h else i # store_ring n ring h)"

section \<open>Linking and unlinking\<close>

text \<open>
  The ring after \<open>serial_do_unlink\<close>. \<open>list_empty\<close> on the head tells that the ring has one port; \<open>list_del\<close> on a port that is not on the
  ring breaks another list.
\<close>

definition serial_do_unlink :: "nat \<Rightarrow> nat list \<Rightarrow> chain_fault + nat list" where
  "serial_do_unlink up ring =
     (case ring of
        [] \<Rightarrow> Inl Bug_no_head
      | [x] \<Rightarrow> if x = up then Inr [] else Inl Bug_other_head
      | _ \<Rightarrow> if up \<in> set ring then Inr (remove1 up ring) else Inl List_broken)"

text \<open>\<open>mem\<close> tells whether \<open>kzalloc\<close> succeeds and \<open>req\<close> is the result of \<open>request_irq\<close>.\<close>

definition link_ring :: "int \<Rightarrow> nat \<Rightarrow> nat list \<Rightarrow> chain_fault + int \<times> nat list" where
  "link_ring req up ring =
     (case ring of
        x # xs \<Rightarrow> Inr (0, x # up # xs)
      | [] \<Rightarrow> if req < 0 then map_sum id (\<lambda>r. (req, r)) (serial_do_unlink up [up]) else Inr (req, [up]))"

definition serial_link_irq_chain :: "bool \<Rightarrow> int \<Rightarrow> u32 \<Rightarrow> nat \<Rightarrow> irq_table \<Rightarrow> chain_fault + int \<times> irq_table" where
  "serial_link_irq_chain mem req n up t =
     (let b = irq_bucket n; h = irq_lists t ! b
      in if find_info n h = None \<and> \<not> mem then Inr (- ENOMEM, t)
         else
           let h1 = (if find_info n h = None then \<lparr>ii_irq = n, ii_ring = []\<rparr> # h else h);
               ring = (case find_info n h1 of None \<Rightarrow> [] | Some i \<Rightarrow> ii_ring i)
           in (case link_ring req up ring of
                 Inl f \<Rightarrow> Inl f
               | Inr (ret, ring') \<Rightarrow>
                   Inr (ret, t\<lparr>irq_lists := (irq_lists t)[b := store_ring n ring' h1],
                             installed := (if ring = [] \<and> req \<ge> 0 then insert n (installed t) else installed t)\<rparr>)))"

definition serial_unlink_irq_chain :: "u32 \<Rightarrow> nat \<Rightarrow> irq_table \<Rightarrow> chain_fault + irq_table" where
  "serial_unlink_irq_chain n up t =
     (let b = irq_bucket n; h = irq_lists t ! b
      in (case find_info n h of
            None \<Rightarrow> Inl Bug_no_node
          | Some i \<Rightarrow>
              if ii_ring i = [] then Inl Bug_no_head
              else
                (case serial_do_unlink up (ii_ring i) of
                   Inl f \<Rightarrow> Inl f
                 | Inr ring' \<Rightarrow>
                     Inr (t\<lparr>irq_lists := (irq_lists t)[b := store_ring n ring' h],
                            installed := (if length (ii_ring i) = 1 then installed t - {n} else installed t)\<rparr>))))"

definition no_chains :: irq_table where
  "no_chains = \<lparr>irq_lists = replicate NR_IRQ_HASH [], installed = {}\<rparr>"

section \<open>The table as a function\<close>

definition ring_in :: "u32 \<Rightarrow> irq_info list \<Rightarrow> nat list" where
  "ring_in n h = (case find_info n h of None \<Rightarrow> [] | Some i \<Rightarrow> ii_ring i)"

definition chain_of :: "irq_table \<Rightarrow> u32 \<Rightarrow> nat list" where
  "chain_of t n = ring_in n (irq_lists t ! irq_bucket n)"

text \<open>Every node is in its bucket, has a ring without repetitions, and is the only one of its interrupt.\<close>

definition bucket_ok :: "nat \<Rightarrow> irq_info list \<Rightarrow> bool" where
  "bucket_ok b h \<longleftrightarrow> distinct (map ii_irq h) \<and> (\<forall>i \<in> set h. irq_bucket (ii_irq i) = b \<and> ii_ring i \<noteq> [] \<and> distinct (ii_ring i))"

definition chains_ok :: "irq_table \<Rightarrow> bool" where
  "chains_ok t \<longleftrightarrow> length (irq_lists t) = NR_IRQ_HASH \<and> (\<forall>b < NR_IRQ_HASH. bucket_ok b (irq_lists t ! b))
     \<and> (\<forall>n. n \<in> installed t \<longleftrightarrow> chain_of t n \<noteq> [])"

lemma irq_bucket_less [simp]: "irq_bucket n < 32"
  by (simp add: irq_bucket_def)

lemma find_info_simps [simp]:
  "find_info n [] = None" "find_info n (i # h) = (if ii_irq i = n then Some i else find_info n h)"
  by (simp_all add: find_info_def)

lemma ring_in_simps [simp]: "ring_in n [] = []" "ring_in n (i # h) = (if ii_irq i = n then ii_ring i else ring_in n h)"
  by (simp_all add: ring_in_def)

lemma ring_in_absent: "n \<notin> ii_irq ` set h \<Longrightarrow> ring_in n h = [] \<and> find_info n h = None"
  by (induction h) auto

lemma find_info_absent: "find_info n h = None \<longleftrightarrow> n \<notin> ii_irq ` set h"
  by (induction h) auto

lemma ring_in_store:
  assumes "distinct (map ii_irq h)" and "n \<in> ii_irq ` set h"
  shows "ring_in m (store_ring n ring h) = (if m = n then ring else ring_in m h)"
  using assms by (induction h) (auto simp: ring_in_absent)

lemma store_ring_nodes: "i \<in> set (store_ring n ring h) \<Longrightarrow> i \<in> set h \<or> ring \<noteq> [] \<and> (\<exists>j \<in> set h. ii_irq j = n \<and> i = j\<lparr>ii_ring := ring\<rparr>)"
  by (induction h) (auto split: if_splits)

lemma store_ring_irqs: "set (map ii_irq (store_ring n ring h)) \<subseteq> set (map ii_irq h)"
  by (induction h) auto

lemma store_ring_distinct: "distinct (map ii_irq h) \<Longrightarrow> distinct (map ii_irq (store_ring n ring h))"
proof (induction h)
  case (Cons i h)
  then show ?case
    using store_ring_irqs [of n ring h] by auto
qed simp

lemma bucket_ok_ring: "bucket_ok b h \<Longrightarrow> find_info n h = Some i \<Longrightarrow> ii_ring i \<noteq> [] \<and> distinct (ii_ring i)"
  by (auto simp: bucket_ok_def find_info_def find_Some_iff)

text \<open>The nodes of a bucket in which the ring of one interrupt may be wrong.\<close>

definition nodes_ok :: "nat \<Rightarrow> u32 \<Rightarrow> irq_info list \<Rightarrow> bool" where
  "nodes_ok b n h \<longleftrightarrow> distinct (map ii_irq h)
     \<and> (\<forall>i \<in> set h. irq_bucket (ii_irq i) = b \<and> (ii_irq i = n \<or> ii_ring i \<noteq> [] \<and> distinct (ii_ring i)))"

lemma bucket_ok_Cons [simp]:
  "bucket_ok b (i # h) \<longleftrightarrow> ii_irq i \<notin> ii_irq ` set h \<and> irq_bucket (ii_irq i) = b \<and> ii_ring i \<noteq> [] \<and> distinct (ii_ring i) \<and> bucket_ok b h"
  by (auto simp: bucket_ok_def)

lemma nodes_ok_Cons [simp]:
  "nodes_ok b n (i # h) \<longleftrightarrow> ii_irq i \<notin> ii_irq ` set h \<and> irq_bucket (ii_irq i) = b
     \<and> (ii_irq i = n \<or> ii_ring i \<noteq> [] \<and> distinct (ii_ring i)) \<and> nodes_ok b n h"
  by (auto simp: nodes_ok_def)

lemma nodes_ok_absent: "n \<notin> ii_irq ` set h \<Longrightarrow> nodes_ok b n h \<longleftrightarrow> bucket_ok b h"
  by (induction h) (auto simp: nodes_ok_def bucket_ok_def)

lemma store_ring_ok: "nodes_ok b n h \<Longrightarrow> distinct ring \<Longrightarrow> bucket_ok b (store_ring n ring h)"
proof (induction h)
  case (Cons i h)
  have "ii_irq i \<notin> ii_irq ` set (store_ring n ring h)"
    using Cons.prems(1) store_ring_irqs [of n ring h] by auto
  then show ?case
    using Cons nodes_ok_absent [of n h b] by (cases "ii_irq i = n") simp_all
qed (simp add: bucket_ok_def)

lemma chain_of_update:
  assumes "length (irq_lists t) = 32" and "\<And>m. ring_in m h' = (if m = n then ring else ring_in m (irq_lists t ! irq_bucket n))"
  shows "chain_of (t\<lparr>irq_lists := (irq_lists t)[irq_bucket n := h'], installed := ins\<rparr>) m = (if m = n then ring else chain_of t m)"
  using assms by (cases "irq_bucket m = irq_bucket n") (auto simp: chain_of_def)

text \<open>Replacing one chain in a good table, with the handler installed exactly when the chain is not empty.\<close>

lemma chains_ok_update:
  assumes "chains_ok t" and "nodes_ok (irq_bucket n) n h1" and "n \<in> ii_irq ` set h1" and "distinct ring"
    and "\<And>m. m \<noteq> n \<Longrightarrow> ring_in m h1 = ring_in m (irq_lists t ! irq_bucket n)"
    and "ins = (if ring = [] then installed t - {n} else insert n (installed t))"
  defines "t' \<equiv> t\<lparr>irq_lists := (irq_lists t)[irq_bucket n := store_ring n ring h1], installed := ins\<rparr>"
  shows "chains_ok t' \<and> (\<forall>m. chain_of t' m = (if m = n then ring else chain_of t m))"
proof -
  have len: "length (irq_lists t) = 32"
    using assms(1) by (simp add: chains_ok_def)
  have "ring_in m (store_ring n ring h1) = (if m = n then ring else ring_in m (irq_lists t ! irq_bucket n))" for m
    using assms(2,3,5) ring_in_store [of h1 n m ring] by (simp add: nodes_ok_def)
  then have chain: "chain_of t' m = (if m = n then ring else chain_of t m)" for m
    unfolding t'_def by (rule chain_of_update [OF len])
  have "bucket_ok b (irq_lists t' ! b)" if "b < 32" for b
    using that assms(1) len store_ring_ok [OF assms(2,4)] by (cases "b = irq_bucket n") (auto simp: t'_def chains_ok_def)
  moreover have "m \<in> installed t' \<longleftrightarrow> chain_of t' m \<noteq> []" for m
    using assms(1,6) by (auto simp: t'_def [symmetric] chain chains_ok_def) (auto simp: t'_def split: if_splits)
  ultimately show ?thesis
    using chain len by (simp add: chains_ok_def t'_def)
qed

section \<open>What linking and unlinking do to the chains\<close>

definition ring_add :: "nat \<Rightarrow> nat list \<Rightarrow> nat list" where
  "ring_add up ring = (case ring of [] \<Rightarrow> [up] | x # xs \<Rightarrow> x # up # xs)"

lemma ring_add_set: "set (ring_add up ring) = insert up (set ring)" "distinct (ring_add up ring) \<longleftrightarrow> up \<notin> set ring \<and> distinct ring"
  by (auto simp: ring_add_def split: list.split)

lemma chains_ok_bucket: "chains_ok t \<Longrightarrow> bucket_ok (irq_bucket n) (irq_lists t ! irq_bucket n)"
  by (simp add: chains_ok_def)

lemma chain_of_distinct: "chains_ok t \<Longrightarrow> distinct (chain_of t n)"
  using chains_ok_bucket [of t n] bucket_ok_ring [of _ _ n]
  by (auto simp: chain_of_def ring_in_def split: option.split)

lemma find_info_chain:
  assumes "chains_ok t"
  shows "find_info n (irq_lists t ! irq_bucket n) = None \<longleftrightarrow> chain_of t n = []"
  using bucket_ok_ring [OF chains_ok_bucket [OF assms, of n], of n]
  by (auto simp: chain_of_def ring_in_def split: option.split)

lemma do_unlink_ring: "up \<in> set ring \<Longrightarrow> serial_do_unlink up ring = Inr (remove1 up ring)"
  by (auto simp: serial_do_unlink_def split: list.split)

text \<open>Linking: without an error the port is on the chain of its interrupt, behind the head; with an error nothing changed.\<close>

lemma link_chain:
  assumes "chains_ok t" and "up \<notin> set (chain_of t n)" and "req \<le> 0"
  obtains r t' where "serial_link_irq_chain mem req n up t = Inr (r, t')" and "chains_ok t'" and "r \<le> 0"
    and "\<And>m. chain_of t' m = (if m = n \<and> r = 0 then ring_add up (chain_of t n) else chain_of t m)"
proof -
  define h where "h = irq_lists t ! irq_bucket n"
  have ok: "bucket_ok (irq_bucket n) h"
    using chains_ok_bucket [OF assms(1)] by (simp add: h_def)
  show ?thesis
  proof (cases "chain_of t n")
    case (Cons x xs)
    then obtain i where i: "find_info n h = Some i" "ii_ring i = x # xs"
      by (auto simp: chain_of_def ring_in_def h_def split: option.splits)
    have "n \<in> ii_irq ` set h"
      using find_info_absent [of n h] i(1) by simp
    moreover have "nodes_ok (irq_bucket n) n h"
      using ok by (auto simp: bucket_ok_def nodes_ok_def)
    ultimately have t': "chains_ok t' \<and> (\<forall>m. chain_of t' m = (if m = n then x # up # xs else chain_of t m))"
      if "t' = t\<lparr>irq_lists := (irq_lists t)[irq_bucket n := store_ring n (x # up # xs) h], installed := insert n (installed t)\<rparr>" for t'
      unfolding that using assms(1,2) chain_of_distinct [OF assms(1), of n] Cons
      by (intro chains_ok_update) (auto simp: h_def)
    have "n \<in> installed t"
      using assms(1) Cons by (simp add: chains_ok_def)
    then have "serial_link_irq_chain mem req n up t =
        Inr (0, t\<lparr>irq_lists := (irq_lists t)[irq_bucket n := store_ring n (x # up # xs) h], installed := insert n (installed t)\<rparr>)"
      using i by (simp add: serial_link_irq_chain_def link_ring_def Let_def h_def [symmetric] insert_absorb)
    then show ?thesis
      by (rule that) (use t' Cons in \<open>auto simp: ring_add_def\<close>)
  next
    case Nil
    then have none: "find_info n h = None"
      using find_info_chain [OF assms(1), of n] by (simp add: h_def)
    show ?thesis
    proof (cases mem)
      case False
      then have "serial_link_irq_chain mem req n up t = Inr (- ENOMEM, t)"
        using none by (simp add: serial_link_irq_chain_def Let_def h_def)
      then show ?thesis
        by (rule that) (use assms(1) in auto)
    next
      case True
      let ?h1 = "\<lparr>ii_irq = n, ii_ring = []\<rparr> # h"
      define ring where "ring = (if req < 0 then [] else [up])"
      define t' where "t' = t\<lparr>irq_lists := (irq_lists t)[irq_bucket n := store_ring n ring ?h1],
        installed := (if ring = [] then installed t - {n} else insert n (installed t))\<rparr>"
      have "nodes_ok (irq_bucket n) n ?h1"
        using ok none find_info_absent [of n h] by (auto simp: bucket_ok_def nodes_ok_def)
      then have t': "chains_ok t' \<and> (\<forall>m. chain_of t' m = (if m = n then ring else chain_of t m))"
        unfolding t'_def using assms(1) by (intro chains_ok_update) (auto simp: h_def ring_def)
      have "n \<notin> installed t"
        using assms(1) Nil by (simp add: chains_ok_def)
      then have "serial_link_irq_chain mem req n up t = Inr (req, t')"
        using none True assms(3)
        by (simp add: serial_link_irq_chain_def link_ring_def do_unlink_ring Let_def h_def [symmetric] t'_def ring_def)
      then show ?thesis
        by (rule that) (use t' Nil assms(3) in \<open>auto simp: ring_add_def ring_def\<close>)
    qed
  qed
qed

lemma unlink_chain:
  assumes "chains_ok t" and "up \<in> set (chain_of t n)"
  obtains t' where "serial_unlink_irq_chain n up t = Inr t'" and "chains_ok t'"
    and "\<And>m. chain_of t' m = (if m = n then remove1 up (chain_of t n) else chain_of t m)"
proof -
  define h where "h = irq_lists t ! irq_bucket n"
  have "find_info n h \<noteq> None"
    using assms(2) find_info_chain [OF assms(1), of n] by (auto simp: h_def)
  then obtain i where i: "find_info n h = Some i" "ii_ring i = chain_of t n"
    by (auto simp: chain_of_def ring_in_def h_def)
  define ring where "ring = remove1 up (chain_of t n)"
  define t' where "t' = t\<lparr>irq_lists := (irq_lists t)[irq_bucket n := store_ring n ring h],
    installed := (if ring = [] then installed t - {n} else insert n (installed t))\<rparr>"
  have "n \<in> ii_irq ` set h"
    using find_info_absent [of n h] i(1) by simp
  moreover have "nodes_ok (irq_bucket n) n h"
    using chains_ok_bucket [OF assms(1), of n] by (auto simp: h_def bucket_ok_def nodes_ok_def)
  ultimately have t': "chains_ok t' \<and> (\<forall>m. chain_of t' m = (if m = n then ring else chain_of t m))"
    unfolding t'_def using assms(1) chain_of_distinct [OF assms(1), of n]
    by (intro chains_ok_update) (auto simp: h_def ring_def)
  have "length ring = length (chain_of t n) - 1" "0 < length (chain_of t n)"
    using assms(2) length_pos_if_in_set [OF assms(2)] by (simp_all add: ring_def length_remove1)
  then have "length (chain_of t n) = 1 \<longleftrightarrow> ring = []"
    by (metis One_nat_def Suc_pred diff_is_0_eq' le_refl length_0_conv)
  moreover have "n \<in> installed t"
    using assms by (auto simp: chains_ok_def)
  ultimately have "serial_unlink_irq_chain n up t = Inr t'"
    using i assms(2) do_unlink_ring [OF assms(2)]
    by (auto simp: serial_unlink_irq_chain_def Let_def h_def [symmetric] t'_def ring_def insert_absorb)
  then show ?thesis
    by (rule that) (use t' in \<open>auto simp: ring_def\<close>)
qed

section \<open>Any sequence of starts and shut-downs\<close>

text \<open>
  \<open>where_up\<close> tells to which interrupt each port was linked: a port that is not linked may be started, one that is linked may be shut
  down, with the interrupt it was started with, which only changes while the port is shut down. The code's result of a start is 0
  or a negative error, and so is that of \<open>request_irq\<close>.
\<close>

inductive irq_step :: "irq_table \<times> (nat \<Rightarrow> u32 option) \<Rightarrow> irq_table \<times> (nat \<Rightarrow> u32 option) \<Rightarrow> bool" where
  Start: "where_up up = None \<Longrightarrow> req \<le> 0 \<Longrightarrow> serial_link_irq_chain mem req n up t = Inr (r, t')
     \<Longrightarrow> irq_step (t, where_up) (t', if r = 0 then where_up(up \<mapsto> n) else where_up)"
| Stop: "where_up up = Some n \<Longrightarrow> serial_unlink_irq_chain n up t = Inr t'
     \<Longrightarrow> irq_step (t, where_up) (t', where_up(up := None))"

definition table_inv :: "irq_table \<times> (nat \<Rightarrow> u32 option) \<Rightarrow> bool" where
  "table_inv = (\<lambda>(t, where_up). chains_ok t \<and> (\<forall>n. set (chain_of t n) = {up. where_up up = Some n}))"

lemma no_chains_inv: "table_inv (no_chains, \<lambda>_. None)"
  by (simp add: table_inv_def chains_ok_def no_chains_def bucket_ok_def chain_of_def)

lemma irq_step_inv: "irq_step c c' \<Longrightarrow> table_inv c \<Longrightarrow> table_inv c'"
proof (induction rule: irq_step.induct)
  case (Start where_up up req mem n t r t')
  have inv: "chains_ok t" "set (chain_of t m) = {up. where_up up = Some m}" for m
    using Start.prems by (simp_all add: table_inv_def)
  then have "up \<notin> set (chain_of t n)"
    using Start.hyps(1) by simp
  then have "chains_ok t'" "chain_of t' m = (if m = n \<and> r = 0 then ring_add up (chain_of t n) else chain_of t m)" for m
    by (rule link_chain [OF inv(1) _ Start.hyps(2), of up n mem]; use Start.hyps(3) in simp)+
  then show ?case
    using inv(2) Start.hyps(1) by (auto simp: table_inv_def ring_add_set)
next
  case (Stop where_up up n t t')
  have inv: "chains_ok t" "set (chain_of t m) = {up. where_up up = Some m}" for m
    using Stop.prems by (simp_all add: table_inv_def)
  then have "up \<in> set (chain_of t n)"
    using Stop.hyps(1) by simp
  then have "chains_ok t'" "chain_of t' m = (if m = n then remove1 up (chain_of t n) else chain_of t m)" for m
    by (rule unlink_chain [OF inv(1), of up n]; use Stop.hyps(2) in simp)+
  then show ?case
    using inv(2) Stop.hyps(1) chain_of_distinct [OF inv(1), of n] by (auto simp: table_inv_def set_remove1_eq)
qed

lemma irq_steps_inv: "irq_step\<^sup>*\<^sup>* c c' \<Longrightarrow> table_inv c \<Longrightarrow> table_inv c'"
  by (induction rule: rtranclp_induct) (auto dest: irq_step_inv)

text \<open>
  C15. The table of shared interrupts is exact: after any sequence of starts and shut-downs, failed ones included, the chain of
  every interrupt has the ports that were started with it, each of them once; the handler is installed for just the
  interrupts with a port; and no start or shut-down that may come next runs into one of the driver's \<open>BUG_ON\<close> or breaks a list.
\<close>

theorem irq_chains_exact:
  assumes "irq_step\<^sup>*\<^sup>* (no_chains, \<lambda>_. None) (t, where_up)"
  shows "distinct (chain_of t n) \<and> set (chain_of t n) = {up. where_up up = Some n}
    \<and> (n \<in> installed t \<longleftrightarrow> (\<exists>up. where_up up = Some n))
    \<and> (where_up up = None \<and> req \<le> 0 \<longrightarrow> (\<exists>r t'. serial_link_irq_chain mem req n up t = Inr (r, t')))
    \<and> (where_up up = Some n \<longrightarrow> (\<exists>t'. serial_unlink_irq_chain n up t = Inr t'))"
proof -
  have inv: "chains_ok t" "set (chain_of t m) = {up. where_up up = Some m}" for m
    using irq_steps_inv [OF assms no_chains_inv] by (simp_all add: table_inv_def)
  have "n \<in> installed t \<longleftrightarrow> set (chain_of t n) \<noteq> {}"
    using inv(1) by (simp add: chains_ok_def)
  moreover have "\<exists>r t'. serial_link_irq_chain mem req n up t = Inr (r, t')" if "where_up up = None" "req \<le> 0"
    by (rule link_chain [OF inv(1) _ that(2), of up n mem]) (use that(1) inv(2) in auto)
  moreover have "\<exists>t'. serial_unlink_irq_chain n up t = Inr t'" if "where_up up = Some n"
    by (rule unlink_chain [OF inv(1), of up n]) (use that inv(2) in auto)
  ultimately show ?thesis
    using inv(2) chain_of_distinct [OF inv(1)] by auto
qed

text \<open>Ports 0 and 1 share interrupt 4, and interrupt 3 is not used.\<close>

theorem irq_chains_exact_witness:
  "\<exists>t. irq_step\<^sup>*\<^sup>* (no_chains, \<lambda>_. None) (t, [0 \<mapsto> 4, 1 \<mapsto> 4]) \<and> set (chain_of t 4) = {0, 1} \<and> 4 \<in> installed t \<and> 3 \<notin> installed t"
proof -
  obtain t1 where t1: "irq_step (no_chains, \<lambda>_. None) (t1, [0 \<mapsto> 4])"
    using irq_step.Start [of "\<lambda>_. None" 0 0 True 4 no_chains 0]
    by (simp add: serial_link_irq_chain_def link_ring_def no_chains_def irq_bucket_def Let_def)
  then have inv: "table_inv (t1, [0 \<mapsto> 4])"
    using irq_step_inv no_chains_inv by blast
  then have "set (chain_of t1 4) = {0}"
    by (auto simp: table_inv_def split: if_splits)
  then obtain x xs where c: "chain_of t1 4 = x # xs"
    by (cases "chain_of t1 4") auto
  then obtain t2 where t2: "serial_link_irq_chain True 0 4 1 t1 = Inr (0, t2)"
    by (auto simp: serial_link_irq_chain_def link_ring_def chain_of_def ring_in_def Let_def split: option.splits)
  then have "irq_step (t1, [0 \<mapsto> 4]) (t2, [0 \<mapsto> 4, 1 \<mapsto> 4])"
    using irq_step.Start [of "[0 \<mapsto> 4]" 1 0 True 4 t1 0 t2] by simp
  then have run: "irq_step\<^sup>*\<^sup>* (no_chains, \<lambda>_. None) (t2, [0 \<mapsto> 4, 1 \<mapsto> 4])"
    using t1 by (meson r_into_rtranclp rtranclp.rtrancl_into_rtrancl)
  have "set (chain_of t2 4) = {0, 1}" "4 \<in> installed t2" "3 \<notin> installed t2"
    using irq_chains_exact [OF run, of 4] irq_chains_exact [OF run, of 3] by (auto split: if_splits)
  then show ?thesis
    using run by blast
qed

section \<open>The port's view of its chain\<close>

text \<open>
  The model of a port keeps of all this only whether the port is linked and the error of the start, see \<open>link_irq\<close>. This is the
  error that the table gives for the port.
\<close>

definition chain_error :: "bool \<Rightarrow> int \<Rightarrow> irq_table \<Rightarrow> 'd port8250 \<Rightarrow> nat" where
  "chain_error mem req t p =
     (case serial_link_irq_chain mem req (irq p) (unat (line p)) t of Inl _ \<Rightarrow> 0 | Inr (r, _) \<Rightarrow> nat (- r))"

end
