(* ===== verification/Uart_Queue.thy ===== *)
theory Uart_Queue
  imports Uart_Xmit Telnet_Ring
begin

text \<open>
  The transmit buffer of a line refines a byte queue: the contract of \<open>Telnet_Ring\<close> interpreted on the circular
  buffer, and what the loop of \<open>uart_write\<close> does to the queue.
\<close>

section \<open>Arithmetic of the indices\<close>

definition circ_ok :: "circ_buf \<Rightarrow> bool" where
  "circ_ok circ \<longleftrightarrow> circ_head circ < 4096 \<and> circ_tail circ < 4096
     \<and> (\<exists>buf. circ_data circ = Some buf \<and> length buf = 4096)"

lemma circ_cnt_eq:
  assumes "h < 4096" and "t < 4096"
  shows "circ_cnt h t = (if t \<le> h then h - t else h + 4096 - t)"
proof (cases "t \<le> h")
  case True
  then show ?thesis
    using assms by (simp add: circ_cnt_def)
next
  case False
  have "(int h - int t) mod 4096 = (int h - int t + 4096) mod 4096"
    by simp
  also have "\<dots> = int h - int t + 4096"
    using False assms by (intro mod_pos_pos_trivial) linarith+
  finally show ?thesis
    using False by (simp add: circ_cnt_def)
qed

lemma circ_cnt_le: "h < 4096 \<Longrightarrow> t < 4096 \<Longrightarrow> circ_cnt h t \<le> 4095"
  by (auto simp: circ_cnt_eq)

lemma circ_space_int: "int (circ_space h t) = (4095 - int h + int t) mod 4096"
proof -
  have "(int t - int (h + 1)) mod 4096 = (int t - int (h + 1) + 4096) mod 4096"
    by (simp only: mod_add_self2)
  then show ?thesis
    by (simp add: circ_space_def circ_cnt_def algebra_simps)
qed

lemma circ_space_eq:
  assumes "h < 4096" and "t < 4096"
  shows "circ_space h t = 4095 - circ_cnt h t"
proof -
  have "int (circ_space h t) = (if t \<le> h then 4095 - int h + int t else int t - int h - 1)"
  proof (cases "t \<le> h")
    case True
    then show ?thesis
      using assms unfolding circ_space_int by (simp add: mod_pos_pos_trivial)
  next
    case False
    have "(4095 - int h + int t) mod 4096 = (int t - int h - 1 + 4096) mod 4096"
      by (simp add: algebra_simps)
    also have "\<dots> = int t - int h - 1"
      using False assms by (simp only: mod_add_self2) (intro mod_pos_pos_trivial, linarith+)
    finally show ?thesis
      using False unfolding circ_space_int by simp
  qed
  then show ?thesis
    using assms by (auto simp: circ_cnt_eq split: if_splits)
qed

lemma circ_space_to_end_eq:
  assumes "h < 4096"
  shows "circ_space_to_end h t = int (min (circ_space h t) (4096 - h))"
proof -
  have "circ_space_to_end h t = (if int (circ_space h t) \<le> 4095 - int h then int (circ_space h t) else 4096 - int h)"
    by (simp add: circ_space_to_end_def circ_space_int Let_def)
  then show ?thesis
    using assms by (auto simp: min_def)
qed

section \<open>The buffer as a queue\<close>

definition circ_buf_of :: "circ_buf \<Rightarrow> u8 list" where
  "circ_buf_of circ = (case circ_data circ of None \<Rightarrow> [] | Some buf \<Rightarrow> buf)"

definition circ_bytes :: "circ_buf \<Rightarrow> u8 list" where
  "circ_bytes circ =
     map (\<lambda>i. circ_buf_of circ ! ((circ_tail circ + i) mod 4096)) [0..<uart_circ_chars_pending circ]"

text \<open>The bytes a driver finds in one piece at the tail, and their removal.\<close>

definition circ_front :: "circ_buf \<Rightarrow> u8 list" where
  "circ_front circ =
     take (min (uart_circ_chars_pending circ) (4096 - circ_tail circ)) (drop (circ_tail circ) (circ_buf_of circ))"

definition circ_take :: "nat \<Rightarrow> circ_buf \<Rightarrow> circ_buf" where
  "circ_take n circ = circ\<lparr>circ_tail := (circ_tail circ + n) mod 4096\<rparr>"

definition circ_room :: "circ_buf \<Rightarrow> nat" where
  "circ_room circ = nat (circ_space_to_end (circ_head circ) (circ_tail circ))"

lemma length_circ_bytes [simp]: "length (circ_bytes circ) = uart_circ_chars_pending circ"
  by (simp add: circ_bytes_def)

lemma nth_circ_bytes:
  "i < uart_circ_chars_pending circ \<Longrightarrow> circ_bytes circ ! i = circ_buf_of circ ! ((circ_tail circ + i) mod 4096)"
  by (simp add: circ_bytes_def)

lemma circ_free_pending: "circ_ok circ \<Longrightarrow> uart_circ_chars_free circ = 4095 - uart_circ_chars_pending circ"
  by (simp add: circ_ok_def uart_circ_chars_free_def uart_circ_chars_pending_def circ_space_eq)

lemma circ_pending_le: "circ_ok circ \<Longrightarrow> uart_circ_chars_pending circ \<le> 4095"
  by (simp add: circ_ok_def uart_circ_chars_pending_def circ_cnt_le)

lemma circ_room_eq: "circ_ok circ \<Longrightarrow> circ_room circ = min (uart_circ_chars_free circ) (4096 - circ_head circ)"
  by (simp add: circ_ok_def circ_room_def circ_space_to_end_eq uart_circ_chars_free_def)

lemma circ_room_le:
  assumes "circ_ok circ" and "n \<le> circ_room circ"
  shows "circ_head circ + n \<le> 4096" and "n \<le> 4095 - circ_cnt (circ_head circ) (circ_tail circ)"
proof -
  have "circ_head circ < 4096"
    using assms(1) by (simp add: circ_ok_def)
  then show "circ_head circ + n \<le> 4096"
    using assms by (auto simp: circ_room_eq)
  show "n \<le> 4095 - circ_cnt (circ_head circ) (circ_tail circ)"
    using assms by (simp add: circ_room_eq circ_free_pending uart_circ_chars_pending_def)
qed

lemma circ_buf_length: "circ_ok circ \<Longrightarrow> length (circ_buf_of circ) = 4096"
  by (auto simp: circ_ok_def circ_buf_of_def)

lemma circ_head_eq: "circ_ok circ \<Longrightarrow> circ_head circ = (circ_tail circ + uart_circ_chars_pending circ) mod 4096"
  by (auto simp: circ_ok_def uart_circ_chars_pending_def circ_cnt_eq)

lemma length_circ_front: "circ_ok circ \<Longrightarrow> length (circ_front circ) = min (uart_circ_chars_pending circ) (4096 - circ_tail circ)"
  by (simp add: circ_front_def circ_buf_length min_def)

lemma circ_front_prefix:
  assumes "circ_ok circ"
  shows "circ_front circ = take (length (circ_front circ)) (circ_bytes circ)"
proof (rule nth_equalityI)
  show "length (circ_front circ) = length (take (length (circ_front circ)) (circ_bytes circ))"
    using assms by (simp add: length_circ_front)
next
  fix i
  assume "i < length (circ_front circ)"
  then have "i < uart_circ_chars_pending circ" "circ_tail circ + i < 4096"
    using assms by (auto simp: length_circ_front)
  then show "circ_front circ ! i = take (length (circ_front circ)) (circ_bytes circ) ! i"
    using assms \<open>i < length (circ_front circ)\<close> circ_buf_length [OF assms]
    by (simp add: circ_front_def nth_circ_bytes)
qed

lemma circ_take_ok:
  assumes "circ_ok circ" and "n \<le> uart_circ_chars_pending circ"
  shows "circ_ok (circ_take n circ)" and "circ_bytes (circ_take n circ) = drop n (circ_bytes circ)"
proof -
  show "circ_ok (circ_take n circ)"
    using assms by (simp add: circ_ok_def circ_take_def)
  have p: "uart_circ_chars_pending (circ_take n circ) = uart_circ_chars_pending circ - n"
  proof -
    let ?h = "circ_head circ" and ?t = "circ_tail circ"
    have b: "?h < 4096" "?t < 4096" "n \<le> circ_cnt ?h ?t"
      using assms by (simp_all add: circ_ok_def uart_circ_chars_pending_def)
    have w: "(?t + n) mod 4096 = (if ?t + n < 4096 then ?t + n else ?t + n - 4096)"
      using b circ_cnt_le [of ?h ?t] by (intro mod_wrap) linarith
    show ?thesis
      using b w by (auto simp: uart_circ_chars_pending_def circ_take_def circ_cnt_eq split: if_splits)
  qed
  show "circ_bytes (circ_take n circ) = drop n (circ_bytes circ)"
  proof (rule nth_equalityI)
    show "length (circ_bytes (circ_take n circ)) = length (drop n (circ_bytes circ))"
      by (simp add: p)
  next
    fix i
    assume "i < length (circ_bytes (circ_take n circ))"
    then have i: "i < uart_circ_chars_pending circ - n"
      by (simp add: p)
    have "circ_bytes (circ_take n circ) ! i = circ_buf_of (circ_take n circ) ! ((circ_tail (circ_take n circ) + i) mod 4096)"
      using i by (intro nth_circ_bytes) (simp add: p)
    also have "\<dots> = circ_buf_of circ ! ((circ_tail circ + (n + i)) mod 4096)"
      by (simp add: circ_take_def circ_buf_of_def mod_simps add.assoc)
    finally show "circ_bytes (circ_take n circ) ! i = drop n (circ_bytes circ) ! i"
      using i by (simp add: nth_circ_bytes)
  qed
qed

lemma circ_store_pending:
  assumes "circ_ok circ" and "length d \<le> circ_room circ"
  shows "uart_circ_chars_pending (circ_store d circ) = uart_circ_chars_pending circ + length d"
proof -
  let ?h = "circ_head circ" and ?t = "circ_tail circ"
  have b: "?h < 4096" "?t < 4096" "length d \<le> 4095 - circ_cnt ?h ?t" "?h + length d \<le> 4096"
    using assms(1) circ_room_le [OF assms] by (simp_all add: circ_ok_def)
  have w: "(?h + length d) mod 4096 = (if ?h + length d < 4096 then ?h + length d else ?h + length d - 4096)"
    using b by (intro mod_wrap) linarith
  show ?thesis
    using b w by (auto simp: uart_circ_chars_pending_def circ_store_def circ_cnt_eq split: if_splits)
qed

lemma circ_store_old_index:
  assumes "circ_ok circ" and "i < uart_circ_chars_pending circ" and "k < circ_room circ"
  shows "(circ_tail circ + i) mod 4096 \<noteq> circ_head circ + k"
proof -
  let ?h = "circ_head circ" and ?t = "circ_tail circ"
  have b: "?h < 4096" "?t < 4096" "i < circ_cnt ?h ?t" "k < 4095 - circ_cnt ?h ?t" "?h + k < 4096"
    using assms(1,2) circ_room_le [OF assms(1), of "Suc k"] assms(3)
    by (simp_all add: circ_ok_def uart_circ_chars_pending_def)
  have w: "(?t + i) mod 4096 = (if ?t + i < 4096 then ?t + i else ?t + i - 4096)"
    using b circ_cnt_le [of ?h ?t] by (intro mod_wrap) linarith
  show ?thesis
    using b unfolding w by (auto simp: circ_cnt_eq split: if_splits)
qed

lemma circ_store_new_index:
  assumes "circ_ok circ" and "k < circ_room circ"
  shows "(circ_tail circ + (uart_circ_chars_pending circ + k)) mod 4096 = circ_head circ + k"
proof -
  have "(circ_tail circ + (uart_circ_chars_pending circ + k)) mod 4096 = (circ_head circ + k) mod 4096"
    unfolding circ_head_eq [OF assms(1)] by (simp add: mod_simps add.assoc)
  then show ?thesis
    using circ_room_le(1) [OF assms(1), of "Suc k"] assms(2) by simp
qed

lemma circ_store_ok:
  assumes "circ_ok circ" and "length d \<le> circ_room circ"
  shows "circ_ok (circ_store d circ)" and "circ_bytes (circ_store d circ) = circ_bytes circ @ d"
proof -
  obtain buf where buf: "circ_data circ = Some buf" "length buf = 4096"
    using assms(1) by (auto simp: circ_ok_def)
  have room: "circ_head circ + length d \<le> 4096"
    using assms by (rule circ_room_le)
  show "circ_ok (circ_store d circ)"
    using assms(1) buf room by (simp add: circ_ok_def circ_store_def)
  show "circ_bytes (circ_store d circ) = circ_bytes circ @ d"
  proof (rule nth_equalityI)
    show "length (circ_bytes (circ_store d circ)) = length (circ_bytes circ @ d)"
      using assms by (simp add: circ_store_pending)
  next
    fix i
    assume "i < length (circ_bytes (circ_store d circ))"
    then have i: "i < uart_circ_chars_pending circ + length d"
      using assms by (simp add: circ_store_pending)
    let ?j = "(circ_tail circ + i) mod 4096"
    have nth: "circ_bytes (circ_store d circ) ! i = buf_store (circ_head circ) d buf ! ?j"
      using i assms by (simp add: nth_circ_bytes circ_store_pending) (simp add: circ_buf_of_def circ_store_def buf)
    show "circ_bytes (circ_store d circ) ! i = (circ_bytes circ @ d) ! i"
    proof (cases "i < uart_circ_chars_pending circ")
      case True
      have "?j \<noteq> circ_head circ + k" if "k < length d" for k
        using that circ_store_old_index [OF assms(1) True, of k] assms(2) by simp
      then have "\<not> (circ_head circ \<le> ?j \<and> ?j < circ_head circ + length d)"
        by (metis add_less_cancel_left le_Suc_ex)
      then show ?thesis
        using True room buf
        by (auto simp: nth nth_buf_store nth_append nth_circ_bytes circ_buf_of_def)
    next
      case False
      then obtain k where k: "i = uart_circ_chars_pending circ + k" "k < length d"
        using i by (metis add_less_cancel_left le_Suc_ex not_less)
      have "?j = circ_head circ + k"
        unfolding k(1) using circ_store_new_index [OF assms(1), of k] k(2) assms(2) by simp
      then show ?thesis
        unfolding nth using k room buf by (simp add: nth_buf_store nth_append)
    qed
  qed
qed

interpretation uq: byte_queue circ_ok circ_bytes circ_front circ_room "\<lambda>d n. circ_store (take n d)" circ_take "\<lambda>q. q"
proof unfold_locales
  show "circ_front q = take (length (circ_front q)) (circ_bytes q)" if "circ_ok q" for q
    using that by (rule circ_front_prefix)
  show "circ_front q = []" if "circ_ok q" "circ_bytes q = []" for q
    using that length_circ_front [of q] length_circ_bytes [of q] by simp
qed (simp_all add: circ_store_ok circ_take_ok length_circ_front)

section \<open>The write loop\<close>

lemma write_chunk_eq: "circ_ok circ \<Longrightarrow> write_chunk circ n = min n (circ_room circ)"
  by (simp add: write_chunk_def circ_room_def circ_ok_def circ_space_to_end_eq)

lemma circ_write_rec:
  "circ_write buf ret circ =
     (let c = write_chunk circ (length buf)
      in if c = 0 then (ret, circ) else circ_write (drop c buf) (ret + c) (circ_store (take c buf) circ))"
  by (rule circ_write.simps)

lemma circ_write_queue:
  assumes "circ_ok circ"
  shows "\<exists>x. circ_write buf ret circ = (ret + min (length buf) (uart_circ_chars_free circ), x) \<and> circ_ok x
    \<and> circ_bytes x = circ_bytes circ @ take (uart_circ_chars_free circ) buf"
  using assms
proof (induction buf ret circ rule: circ_write.induct)
  case (1 buf ret circ)
  let ?c = "write_chunk circ (length buf)"
  have c: "?c = min (length buf) (circ_room circ)"
    using 1 by (simp add: write_chunk_eq)
  show ?case
  proof (cases "?c = 0")
    case True
    then have "length buf = 0 \<or> uart_circ_chars_free circ = 0"
      using 1(2) c circ_room_eq [OF 1(2)] by (auto simp: circ_ok_def min_def split: if_splits)
    then show ?thesis
      using True 1(2) by (subst circ_write_rec) (auto simp: Let_def)
  next
    case False
    let ?x = "circ_store (take ?c buf) circ"
    have len: "length (take ?c buf) = ?c" "length (take ?c buf) \<le> circ_room circ"
      using c by simp_all
    note ok = circ_store_ok [OF 1(2) len(2)]
    have free: "uart_circ_chars_free ?x = uart_circ_chars_free circ - ?c" "?c \<le> uart_circ_chars_free circ"
      unfolding circ_free_pending [OF ok(1)] circ_free_pending [OF 1(2)] circ_store_pending [OF 1(2) len(2)] len(1)
      using circ_room_le(2) [OF 1(2) len(2)] len(1) by (simp_all add: uart_circ_chars_pending_def)
    obtain x where x: "circ_write (drop ?c buf) (ret + ?c) ?x =
        (ret + ?c + min (length (drop ?c buf)) (uart_circ_chars_free ?x), x)" "circ_ok x"
      "circ_bytes x = circ_bytes ?x @ take (uart_circ_chars_free ?x) (drop ?c buf)"
      using 1(1) [OF refl False ok(1)] by auto
    have "take (uart_circ_chars_free circ) buf = take ?c buf @ take (uart_circ_chars_free circ - ?c) (drop ?c buf)"
      using take_add [of ?c "uart_circ_chars_free circ - ?c" buf] free(2) by simp
    then have "circ_bytes x = circ_bytes circ @ take (uart_circ_chars_free circ) buf"
      unfolding x(3) ok(2) free(1) by simp
    moreover have "circ_write buf ret circ = circ_write (drop ?c buf) (ret + ?c) ?x"
      using False by (subst circ_write_rec) (simp only: Let_def if_False)
    moreover have "ret + ?c + min (length (drop ?c buf)) (uart_circ_chars_free ?x) =
        ret + min (length buf) (uart_circ_chars_free circ)"
      using free c unfolding length_drop by linarith
    ultimately show ?thesis
      using x(1,2) by simp
  qed
qed

end
