(* ===== verification/Uart_Contract.thy ===== *)
theory Uart_Contract
  imports Uart_Driver Uart_Queue
begin

text \<open>
  What the serial core relies on from a low-level driver, as a locale: \<open>startup\<close> and \<open>shutdown\<close> turn the hardware on and
  off, provided they are called in the right state, and nothing else does. Inside the locale: every operation
  of the core keeps the invariant of a line, in which the hardware runs exactly while the line is marked as
  initialised.
\<close>

section \<open>The invariant of a line\<close>

text \<open>\<open>running\<close> tells from the driver's own data whether the hardware was started.\<close>

definition xmit_ok :: "circ_buf \<Rightarrow> bool" where
  "xmit_ok circ \<longleftrightarrow> circ_head circ < 4096 \<and> circ_tail circ < 4096
     \<and> (\<forall>buf. circ_data circ = Some buf \<longrightarrow> length buf = 4096)"

definition line_inv :: "('h \<Rightarrow> bool) \<Rightarrow> 'h uart_state \<Rightarrow> bool" where
  "line_inv running s \<longleftrightarrow> (initialized s \<longleftrightarrow> running (hw (uport s)))
     \<and> (initialized s \<longrightarrow> port_tty s \<and> circ_data (xmit s) \<noteq> None)
     \<and> (tlet s \<longrightarrow> port_tty s) \<and> xmit_ok (xmit s)"

lemma xmit_ok_circ: "xmit_ok circ \<Longrightarrow> circ_data circ \<noteq> None \<Longrightarrow> circ_ok circ"
  by (auto simp: xmit_ok_def circ_ok_def)

lemma circ_ok_xmit: "circ_ok circ \<Longrightarrow> xmit_ok circ \<and> circ_data circ \<noteq> None"
  by (auto simp: xmit_ok_def circ_ok_def)

lemma xmit_ok_clear [simp]: "xmit_ok circ \<Longrightarrow> xmit_ok (uart_circ_clear circ)"
  by (simp add: xmit_ok_def uart_circ_clear_def)

lemma xmit_ok_free [simp]: "xmit_ok circ \<Longrightarrow> xmit_ok (circ\<lparr>circ_data := None\<rparr>)"
  by (simp add: xmit_ok_def)

lemma xmit_ok_new [simp]: "xmit_ok circ \<Longrightarrow> xmit_ok (uart_circ_clear (circ\<lparr>circ_data := Some (replicate 4096 0)\<rparr>))"
  by (simp add: xmit_ok_def uart_circ_clear_def)

lemma clear_data [simp]: "circ_data (uart_circ_clear circ) = circ_data circ"
  by (simp add: uart_circ_clear_def)

text \<open>
  A line with everything that the transmitter follows: the pointers between the terminal, the state of the line and the port,
  and the page of the buffer. In every state that can be reached the port knows its line, only a line with a terminal has a page,
  and the terminal of a line knows the line.
\<close>

definition steady :: "'h uart_state \<Rightarrow> bool" where
  "steady s \<longleftrightarrow> driver_data (tty s) \<and> port_tty s \<and> has_state (uport s) \<and> circ_data (xmit s) \<noteq> None"

definition line_tied :: "'h uart_state \<Rightarrow> bool" where
  "line_tied s \<longleftrightarrow> has_state (uport s) \<and> (circ_data (xmit s) \<noteq> None \<longrightarrow> port_tty s) \<and> (port_tty s \<longrightarrow> driver_data (tty s))"

text \<open>
  An operation that leaves the line as it is, except that it may transmit characters from the buffer and
  schedule the tasklet of a line that has a terminal. It does not fault on a line that has everything.
\<close>

definition same_line :: "('h \<Rightarrow> bool) \<Rightarrow> 'h uart_state \<Rightarrow> 'h uart_state \<Rightarrow> bool" where
  "same_line running s s' \<longleftrightarrow> initialized s' = initialized s \<and> running (hw (uport s')) = running (hw (uport s))
     \<and> port_tty s' = port_tty s \<and> circ_data (xmit s') = circ_data (xmit s) \<and> circ_head (xmit s') = circ_head (xmit s)
     \<and> (xmit_ok (xmit s) \<longrightarrow> xmit_ok (xmit s')) \<and> (tlet s' \<longrightarrow> tlet s \<or> port_tty s)
     \<and> count s' = count s \<and> blocked_open s' = blocked_open s \<and> tty_count (tty s') = tty_count (tty s)
     \<and> driver_data (tty s') = driver_data (tty s) \<and> normal_active s' = normal_active s
     \<and> async_suspended s' = async_suspended s \<and> has_state (uport s') = has_state (uport s) \<and> (steady s \<and> crashed s' \<longrightarrow> crashed s)"

lemma same_line_inv: "same_line running s s' \<Longrightarrow> line_inv running s \<Longrightarrow> line_inv running s'"
  by (auto simp: same_line_def line_inv_def)

lemma same_line_tied: "same_line running s s' \<Longrightarrow> line_tied s' = line_tied s"
  by (simp add: same_line_def line_tied_def)

lemma same_trans: "same_line running s s' \<Longrightarrow> same_line running s' s'' \<Longrightarrow> same_line running s s''"
  by (auto simp: same_line_def steady_def)

lemma same_refl [simp]: "same_line running s s"
  by (simp add: same_line_def)

lemma same_ifI: "same_line running s a \<Longrightarrow> same_line running s b \<Longrightarrow> same_line running s (if c then a else b)"
  by simp

lemma same_with_state:
  assumes "driver_data (tty s) \<Longrightarrow> same_line running s (f s)"
  shows "same_line running s (with_state f s)"
  using assms by (cases "driver_data (tty s)") (simp_all add: same_line_def steady_def)

lemma same_crashed: "\<not> driver_data (tty s) \<Longrightarrow> same_line running s (s\<lparr>crashed := True\<rparr>)"
  by (simp add: same_line_def steady_def)

lemma map_sum_Inr_iff: "map_sum f g x = Inr y \<longleftrightarrow> (\<exists>z. x = Inr z \<and> y = g z)"
  by (cases x) auto

section \<open>The contract\<close>

locale uart_lowlevel =
  fixes ops :: "'h uart_ops" and running :: "'h \<Rightarrow> bool"
  assumes startup_runs: "\<not> running (hw p) \<Longrightarrow> ops_startup ops p = (r, q) \<Longrightarrow> running (hw q) \<longleftrightarrow> r = 0"
    and startup_state: "has_state (snd (ops_startup ops p)) = has_state p"
    and shutdown_stops: "running (hw p) \<Longrightarrow> \<not> running (hw (ops_shutdown ops p))"
    and shutdown_state: "has_state (ops_shutdown ops p) = has_state p"
    and keeps_set_mctrl: "running (hw (ops_set_mctrl ops m p)) \<longleftrightarrow> running (hw p)"
      "has_state (ops_set_mctrl ops m p) = has_state p"
    and keeps_stop_tx: "running (hw (ops_stop_tx ops p)) \<longleftrightarrow> running (hw p)"
      "has_state (ops_stop_tx ops p) = has_state p"
    and keeps_start_tx: "same_line running s (ops_start_tx ops s)"
    and keeps_get_mctrl: "same_line running s (snd (ops_get_mctrl ops s))"
    and keeps_tx_empty: "running (hw (snd (ops_tx_empty ops p))) \<longleftrightarrow> running (hw p)"
      "has_state (snd (ops_tx_empty ops p)) = has_state p"
    and keeps_stop_rx: "running (hw (ops_stop_rx ops p)) \<longleftrightarrow> running (hw p)"
      "has_state (ops_stop_rx ops p) = has_state p"
    and keeps_enable_ms: "running (hw (ops_enable_ms ops p)) \<longleftrightarrow> running (hw p)"
      "has_state (ops_enable_ms ops p) = has_state p"
    and keeps_break_ctl: "running (hw (ops_break_ctl ops b p)) \<longleftrightarrow> running (hw p)"
      "has_state (ops_break_ctl ops b p) = has_state p"
    and keeps_set_termios: "running (hw (snd (ops_set_termios ops t old p))) \<longleftrightarrow> running (hw p)"
      "has_state (snd (ops_set_termios ops t old p)) = has_state p"
    and keeps_release: "running (hw (ops_release_port ops p)) \<longleftrightarrow> running (hw p)"
      "has_state (ops_release_port ops p) = has_state p"
    and keeps_request: "running (hw (snd (ops_request_port ops p))) \<longleftrightarrow> running (hw p)"
      "has_state (snd (ops_request_port ops p)) = has_state p"
    and keeps_config: "running (hw (ops_config_port ops fl p)) \<longleftrightarrow> running (hw p)"
      "has_state (ops_config_port ops fl p) = has_state p"
    and keeps_send_xchar: "ops_send_xchar ops = Some f \<Longrightarrow> running (hw (f c p)) \<longleftrightarrow> running (hw p)"
      "ops_send_xchar ops = Some f \<Longrightarrow> has_state (f c p) = has_state p"
    and keeps_flush: "ops_flush_buffer ops = Some g \<Longrightarrow> running (hw (g p)) \<longleftrightarrow> running (hw p)"
      "ops_flush_buffer ops = Some g \<Longrightarrow> has_state (g p) = has_state p"
    and keeps_set_ldisc: "ops_set_ldisc ops = Some g \<Longrightarrow> running (hw (g p)) \<longleftrightarrow> running (hw p)"
      "ops_set_ldisc ops = Some g \<Longrightarrow> has_state (g p) = has_state p"
    and keeps_pm: "ops_pm ops = Some h \<Longrightarrow> running (hw (h a b p)) \<longleftrightarrow> running (hw p)"
      "ops_pm ops = Some h \<Longrightarrow> has_state (h a b p) = has_state p"
    and keeps_ioctl: "ops_ioctl ops = Some i \<Longrightarrow> running (hw (snd (i p cmd arg))) \<longleftrightarrow> running (hw p)"
      "ops_ioctl ops = Some i \<Longrightarrow> has_state (snd (i p cmd arg)) = has_state p"
begin

lemmas keeps = keeps_set_mctrl keeps_stop_tx keeps_tx_empty keeps_stop_rx keeps_enable_ms keeps_break_ctl
  keeps_set_termios keeps_release keeps_request keeps_config

lemma keeps_opt_flush:
  "running (hw (opt_call (ops_flush_buffer ops) p)) \<longleftrightarrow> running (hw p)" "has_state (opt_call (ops_flush_buffer ops) p) = has_state p"
  by (cases "ops_flush_buffer ops"; simp add: keeps_flush)+

lemma keeps_opt_ldisc:
  "running (hw (opt_call (ops_set_ldisc ops) p)) \<longleftrightarrow> running (hw p)" "has_state (opt_call (ops_set_ldisc ops) p) = has_state p"
  by (cases "ops_set_ldisc ops"; simp add: keeps_set_ldisc)+

lemma keeps_opt_pm:
  "running (hw (opt_call (map_option (\<lambda>f. f a b) (ops_pm ops)) p)) \<longleftrightarrow> running (hw p)"
  "has_state (opt_call (map_option (\<lambda>f. f a b) (ops_pm ops)) p) = has_state p"
  by (cases "ops_pm ops"; simp add: keeps_pm)+

lemma keeps_mctrl:
  "running (hw (uart_update_mctrl ops sb cb p)) \<longleftrightarrow> running (hw p)" "has_state (uart_update_mctrl ops sb cb p) = has_state p"
  by (simp_all add: uart_update_mctrl_def Let_def keeps)

lemmas keeps_all = keeps keeps_opt_flush keeps_opt_ldisc keeps_opt_pm keeps_mctrl

lemma same_stop: "same_line running s (uart_stop ops s)"
  unfolding uart_stop_def by (rule same_with_state) (simp add: same_line_def keeps)

lemma same_start: "same_line running s (fst (uart_start ops (s, d)))"
  by (simp add: uart_start_def uart_start_locked_def keeps_start_tx same_crashed)

lemma same_speed: "same_line running s (uart_change_speed ops old s)"
  using keeps_set_termios [of "termios (tty s)" old "uport s"]
  by (auto simp: same_line_def uart_change_speed_def Let_def split: prod.split)

lemma same_mctrl: "same_line running s (on_port (uart_update_mctrl ops sb cb) s)"
  by (simp add: same_line_def keeps_mctrl)

lemma same_pm: "same_line running s (uart_change_pm ops new s)"
  by (simp add: same_line_def uart_change_pm_def keeps_opt_pm)

lemma same_x_char: "same_line running s (on_port (\<lambda>p. p\<lparr>x_char := c\<rparr>) s)"
  by (simp add: same_line_def)

lemma same_xchar: "same_line running s (uart_send_xchar ops c s)"
  unfolding uart_send_xchar_def
proof (rule same_with_state, cases "ops_send_xchar ops")
  case None
  then show "same_line running s (case ops_send_xchar ops of Some f \<Rightarrow> on_port (f c) s
      | None \<Rightarrow> let s1 = on_port (\<lambda>p. p\<lparr>x_char := c\<rparr>) s in if c \<noteq> 0 then ops_start_tx ops s1 else s1)"
    using same_trans [OF same_x_char keeps_start_tx] same_x_char by (simp add: Let_def)
next
  case (Some f)
  then show "same_line running s (case ops_send_xchar ops of Some f \<Rightarrow> on_port (f c) s
      | None \<Rightarrow> let s1 = on_port (\<lambda>p. p\<lparr>x_char := c\<rparr>) s in if c \<noteq> 0 then ops_start_tx ops s1 else s1)"
    by (simp add: same_line_def keeps_send_xchar)
qed

lemma same_state_mctrl: "same_line running s (with_state (on_port (uart_update_mctrl ops sb cb)) s)"
  by (rule same_with_state [OF same_mctrl])

lemmas same_intros = same_ifI same_trans [OF _ same_state_mctrl] same_trans [OF _ same_mctrl] same_trans [OF _ same_pm] same_xchar same_x_char same_refl

lemma same_throttle: "same_line running s (uart_throttle ops s)"
  unfolding uart_throttle_def Let_def by (intro same_intros)

lemma same_unthrottle: "same_line running s (uart_unthrottle ops s)"
  unfolding uart_unthrottle_def Let_def by (intro same_with_state same_intros)

lemma same_b0: "same_line running s (termios_b0 ops oc c s)"
  unfolding termios_b0_def Let_def by (intro same_intros)

lemma same_hw_stopped: "same_line running s (on_tty (\<lambda>t. t\<lparr>hw_stopped := b\<rparr>) s)"
  by (simp add: same_line_def)

lemma same_get_mctrl: "ops_get_mctrl ops s = (m, s') \<Longrightarrow> same_line running s s'"
  using keeps_get_mctrl [of s] by simp

lemma same_start_locked: "same_line running s (fst (uart_start_locked ops (s, d)))"
  by (simp add: uart_start_locked_def keeps_start_tx same_crashed)

lemma same_crtscts: "same_line running s (fst (termios_crtscts ops oc c (s, d)))"
proof -
  obtain s1 d1 where 1: "(if has_bits oc CRTSCTS \<and> \<not> has_bits c CRTSCTS
      then uart_start_locked ops (on_tty (\<lambda>t. t\<lparr>hw_stopped := False\<rparr>) s, d) else (s, d)) = (s1, d1)"
    by fastforce
  have s1: "same_line running s s1"
    using 1 same_trans [OF same_hw_stopped same_start_locked, of s False d] by (auto split: if_splits)
  obtain m s2 where 2: "ops_get_mctrl ops s1 = (m, s2)"
    by fastforce
  have s2: "same_line running s s2"
    by (rule same_trans [OF s1 same_get_mctrl [OF 2]])
  have "same_line running s (on_port (ops_stop_tx ops) (on_tty (\<lambda>t. t\<lparr>hw_stopped := True\<rparr>) s2))"
    by (rule same_trans [OF s2]) (simp add: same_line_def keeps)
  then show ?thesis
    using s1 s2 by (simp add: termios_crtscts_def 1 2 Let_def)
qed

lemma same_set_termios: "same_line running s (fst (uart_set_termios ops old (s, d)))"
  using same_trans [OF same_trans [OF same_speed same_b0] same_crtscts]
  by (simp add: uart_set_termios_def Let_def same_crashed)

section \<open>Operations that start, stop and transmit\<close>

text \<open>An operation that keeps the invariant, the terminal and the counts of openers.\<close>

definition tame :: "'h uart_state \<Rightarrow> 'h uart_state \<Rightarrow> bool" where
  "tame s s' \<longleftrightarrow> (line_inv running s \<longrightarrow> line_inv running s') \<and> port_tty s' = port_tty s
     \<and> count s' = count s \<and> blocked_open s' = blocked_open s \<and> tty_count (tty s') = tty_count (tty s)
     \<and> driver_data (tty s') = driver_data (tty s) \<and> normal_active s' = normal_active s
     \<and> async_suspended s' = async_suspended s \<and> has_state (uport s') = has_state (uport s) \<and> (line_tied s \<longrightarrow> line_tied s')"

lemma same_tame: "same_line running s s' \<Longrightarrow> tame s s'"
  by (simp add: tame_def same_line_inv same_line_tied) (simp add: same_line_def)

lemma tame_trans: "tame s s' \<Longrightarrow> tame s' s'' \<Longrightarrow> tame s s''"
  by (simp add: tame_def)

lemma tame_refl [simp]: "tame s s"
  by (simp add: tame_def)

text \<open>An operation that besides does not fault on a line with a terminal, not even when the line has no page.\<close>

definition calm :: "'h uart_state \<Rightarrow> 'h uart_state \<Rightarrow> bool" where
  "calm s s' \<longleftrightarrow> tame s s' \<and> (driver_data (tty s) \<and> port_tty s \<and> has_state (uport s) \<and> crashed s' \<longrightarrow> crashed s)"

lemma calm_tame: "calm s s' \<Longrightarrow> tame s s'"
  by (simp add: calm_def)

lemma calm_trans: "calm s s' \<Longrightarrow> calm s' s'' \<Longrightarrow> calm s s''"
  by (auto simp: calm_def tame_def)

lemma calm_refl [simp]: "calm s s"
  by (simp add: calm_def)

lemma calm_ifI: "calm s a \<Longrightarrow> calm s b \<Longrightarrow> calm s (if c then a else b)"
  by simp

lemma calm_same: "same_line running s s' \<Longrightarrow> crashed s' = crashed s \<Longrightarrow> calm s s'"
  by (simp add: calm_def same_tame)

lemma crashed_speed [simp]: "crashed (uart_change_speed ops old s) = crashed s"
  by (simp add: uart_change_speed_def Let_def split_beta)

lemma tame_ifI: "tame s a \<Longrightarrow> tame s b \<Longrightarrow> tame s (if c then a else b)"
  by simp

lemma calm_xmit:
  assumes "xmit_ok (xmit s) \<Longrightarrow> xmit_ok x \<and> (circ_data (xmit s) \<noteq> None \<longrightarrow> circ_data x \<noteq> None)"
    and "circ_data x \<noteq> None \<Longrightarrow> circ_data (xmit s) \<noteq> None"
  shows "calm s (s\<lparr>xmit := x\<rparr>)"
  using assms by (auto simp: calm_def tame_def line_inv_def line_tied_def)

lemma calm_put_char: "calm s (snd (uart_put_char c s))"
proof (cases "driver_data (tty s)")
  case True
  have "xmit_ok (snd (circ_put_char c x)) \<and> (circ_data x \<noteq> None \<longrightarrow> circ_data (snd (circ_put_char c x)) \<noteq> None)"
    if "xmit_ok x" for x
    using that by (auto simp: circ_put_char_def xmit_ok_def split: option.splits)
  moreover have "circ_data (snd (circ_put_char c x)) \<noteq> None \<Longrightarrow> circ_data x \<noteq> None" for x
    by (auto simp: circ_put_char_def split: option.splits)
  ultimately show ?thesis
    using True by (auto simp: uart_put_char_def split_beta intro!: calm_xmit)
next
  case False
  then show ?thesis
    using same_tame [OF same_crashed [OF False]] by (simp add: uart_put_char_def calm_def)
qed

lemma calm_flush_buffer: "calm s (uart_flush_buffer ops s)"
proof -
  have "calm s (s\<lparr>xmit := uart_circ_clear (xmit s)\<rparr>)"
    by (rule calm_xmit) simp_all
  moreover have "calm s (tty_wakeup (on_port (opt_call (ops_flush_buffer ops)) s))" for s
    by (rule calm_same) (simp_all add: same_line_def tty_wakeup_def keeps_opt_flush)
  ultimately have "calm s (tty_wakeup (on_port (opt_call (ops_flush_buffer ops)) (s\<lparr>xmit := uart_circ_clear (xmit s)\<rparr>)))"
    by (rule calm_trans)
  then show ?thesis
    by (simp add: uart_flush_buffer_def)
qed

lemma same_init: "same_line running a b \<Longrightarrow> same_line running (a\<lparr>initialized := v\<rparr>) (b\<lparr>initialized := v\<rparr>)"
  by (auto simp: same_line_def steady_def)

lemma startup_hw_same:
  "same_line running (s\<lparr>initialized := True\<rparr>) (startup_hw ops init_hw s)"
proof -
  let ?s' = "uart_change_speed ops None s"
  define s1 where "s1 = (if init_hw then if has_bits (c_cflag (termios (tty ?s'))) CBAUD
               then on_port (uart_set_mctrl ops (TIOCM_RTS OR TIOCM_DTR)) ?s' else ?s' else s)"
  have 1: "same_line running s s1"
    unfolding s1_def by (intro same_ifI same_trans [OF same_speed same_mctrl] same_speed same_refl)
  define s2 where "s2 = (if cts_flow s1 then (case ops_get_mctrl ops s1 of (m, s') \<Rightarrow>
      if has_bits m TIOCM_CTS then s' else on_tty (\<lambda>t. t\<lparr>hw_stopped := True\<rparr>) s') else s1)"
  have 2: "same_line running s s2"
    unfolding s2_def split_beta
    by (intro same_ifI same_trans [OF 1 keeps_get_mctrl] same_trans [OF same_trans [OF 1 keeps_get_mctrl] same_hw_stopped] 1)
  have 3: "same_line running (s2\<lparr>initialized := True\<rparr>) (on_tty (\<lambda>t. t\<lparr>io_error := False\<rparr>) (s2\<lparr>initialized := True\<rparr>))"
    by (simp add: same_line_def)
  from same_trans [OF same_init [OF 2] 3] show ?thesis
    unfolding startup_hw_def Let_def s1_def [symmetric] s2_def [symmetric] .
qed

lemma calm_startup:
  assumes "uart_startup ops page admin init_hw s = Inr (r, s')"
  shows "calm s s'"
proof (cases "initialized s \<or> type (uport s) = PORT_UNKNOWN \<or> circ_data (xmit s) = None \<and> \<not> page")
  case True
  then show ?thesis
    using assms by (auto simp: uart_startup_def calm_def tame_def line_inv_def line_tied_def Let_def split: if_splits)
next
  case False
  define s2 where "s2 = (on_tty (\<lambda>t. t\<lparr>io_error := True\<rparr>) s)\<lparr>xmit := (if circ_data (xmit s) = None
    then uart_circ_clear ((xmit s)\<lparr>circ_data := Some (replicate 4096 0)\<rparr>) else xmit s)\<rparr>"
  obtain ret q where q: "ops_startup ops (uport s2) = (ret, q)"
    by fastforce
  have tty: "port_tty s" and s': "s' = (if ret = 0 then startup_hw ops init_hw (s2\<lparr>uport := q\<rparr>) else s2\<lparr>uport := q\<rparr>)"
    using assms False q by (auto simp: uart_startup_def s2_def Let_def split: if_splits)
  have s2: "same_line running (s\<lparr>xmit := xmit s2\<rparr>) s2"
    by (simp add: same_line_def steady_def s2_def)
  have q_state: "has_state q = has_state (uport s)"
    using startup_state [of "uport s2"] q s2 by (simp add: same_line_def)
  have x: "xmit_ok (xmit s) \<Longrightarrow> xmit_ok (xmit s2)" "circ_data (xmit s2) \<noteq> None"
    using False by (auto simp: s2_def)
  have run: "line_inv running s \<Longrightarrow> running (hw q) \<longleftrightarrow> ret = 0"
    using startup_runs [OF _ q] False s2 by (simp add: line_inv_def same_line_def)
  have tame: "tame s (s2\<lparr>uport := q, initialized := (ret = 0)\<rparr>)"
    using s2 x run tty False q_state by (auto simp: tame_def line_inv_def line_tied_def same_line_def)
  have same: "same_line running (s2\<lparr>uport := q, initialized := (ret = 0)\<rparr>) s'"
    using startup_hw_same [of "s2\<lparr>uport := q\<rparr>" init_hw] s' s2 False by (simp add: same_line_def steady_def)
  have "driver_data (tty s) \<and> port_tty s \<and> has_state (uport s) \<and> crashed s' \<longrightarrow> crashed s"
    using same x(2) q_state by (auto simp: same_line_def steady_def s2_def)
  then show ?thesis
    using tame_trans [OF tame same_tame [OF same]] by (simp add: calm_def)
qed

lemma startup_returns: "port_tty s \<Longrightarrow> \<exists>r s'. uart_startup ops page admin init_hw s = Inr (r, s')"
  by (auto simp: uart_startup_def Let_def split: prod.split)

lemma shutdown_fields:
  "port_tty (uart_shutdown ops s) = port_tty s" "initialized (uart_shutdown ops s) = False"
  "tlet (uart_shutdown ops s) = False" "circ_data (xmit (uart_shutdown ops s)) = None"
  "circ_head (xmit (uart_shutdown ops s)) = circ_head (xmit s)" "circ_tail (xmit (uart_shutdown ops s)) = circ_tail (xmit s)"
  "count (uart_shutdown ops s) = count s" "blocked_open (uart_shutdown ops s) = blocked_open s"
  "tty_count (tty (uart_shutdown ops s)) = tty_count (tty s)" "driver_data (tty (uart_shutdown ops s)) = driver_data (tty s)"
  "normal_active (uart_shutdown ops s) = normal_active s" "async_suspended (uart_shutdown ops s) = async_suspended s"
  "has_state (uport (uart_shutdown ops s)) = has_state (uport s)" "crashed (uart_shutdown ops s) = crashed s"
  "line_inv running s \<Longrightarrow> \<not> running (hw (uport (uart_shutdown ops s)))"
  by (simp_all add: uart_shutdown_def Let_def line_inv_def shutdown_stops shutdown_state keeps_all)

lemma calm_shutdown: "calm s (uart_shutdown ops s)"
  by (auto simp: calm_def tame_def line_inv_def [of _ "uart_shutdown ops s"] line_tied_def shutdown_fields xmit_ok_def)
    (auto simp: line_inv_def xmit_ok_def)

section \<open>Configuration\<close>

lemma keeps_requestD: "ops_request_port ops p = (r, q) \<Longrightarrow> (running (hw q) \<longleftrightarrow> running (hw p)) \<and> has_state q = has_state p"
  using keeps_request [of p] by simp

lemma keeps_relocate:
  "(running (hw (snd (relocate_port ops new p))) \<longleftrightarrow> running (hw p)) \<and> has_state (snd (relocate_port ops new p)) = has_state p"
proof -
  let ?p2 = "move_port new (if type p \<noteq> PORT_UNKNOWN then ops_release_port ops p else p)"
  obtain r3 p3 where r3: "(if type ?p2 \<noteq> PORT_UNKNOWN then ops_request_port ops ?p2 else (0, ?p2)) = (r3, p3)"
    by fastforce
  have 3: "(running (hw p3) \<longleftrightarrow> running (hw p)) \<and> has_state p3 = has_state p"
    using r3 by (auto simp: move_port_def keeps dest: keeps_requestD split: if_splits)
  obtain r4 p4 where r4: "ops_request_port ops (restore_port p p3) = (r4, p4)"
    by fastforce
  have "(running (hw p4) \<longleftrightarrow> running (hw p3)) \<and> has_state p4 = has_state p3"
    using r4 keeps_request [of "restore_port p p3"] by (simp add: restore_port_def)
  then show ?thesis
    using 3 unfolding relocate_port_def Let_def r3 case_prod_conv r4 by simp
qed

lemma same_store: "same_line running s (store_settings ci new s)"
  by (simp add: same_line_def store_settings_def Let_def)

lemma crashed_store [simp]: "crashed (store_settings ci new s) = crashed s"
  by (simp add: store_settings_def Let_def)

lemma calm_check_exit:
  assumes "check_and_exit ops env ofl odv s = Inr (r, s')"
  shows "calm s s'"
  using assms calm_startup calm_same [OF same_speed]
  by (auto simp: check_and_exit_def split: if_splits)

lemma check_exit_returns: "port_tty s \<Longrightarrow> \<exists>r s'. check_and_exit ops env ofl odv s = Inr (r, s')"
  using startup_returns by (auto simp: check_and_exit_def)

lemma calm_on_port:
  "running (hw p) = running (hw (uport s)) \<Longrightarrow> has_state p = has_state (uport s) \<Longrightarrow> calm s (s\<lparr>uport := p\<rparr>)"
  by (rule calm_same) (simp_all add: same_line_def)

text \<open>The state on which \<open>uart_set_info\<close> continues when the request needs new resources or not.\<close>

lemma calm_relocated:
  assumes "(if cp then relocate_port ops new (uport s1) else (True, uport s1)) = (go, p2)"
  shows "calm s1 (s1\<lparr>uport := p2\<rparr>)"
  using assms keeps_relocate [of new "uport s1"] by (intro calm_on_port) (auto split: if_splits)

lemma set_info_cases:
  assumes "uart_set_info ops env user s = res"
  obtains (stay) r where "res = Inr (r, s)"
  | (quit) s2 where "res = Inr (- EBUSY, s2)" "calm s s2"
  | (check) ofl odv s2 where "res = check_and_exit ops env ofl odv s2" "calm s s2"
proof (cases user)
  case None
  then show ?thesis
    using assms by (auto simp: uart_set_info_def intro: stay)
next
  case (Some new0)
  define new where "new = new0\<lparr>ss_irq := env_irq_canon env (ss_irq new0)\<rparr>"
  let ?p = "uport s"
  let ?chg = "change_port new ?p \<or> change_irq new ?p"
  let ?s1 = "if ?chg then uart_shutdown ops s else s"
  obtain go p2 where go: "(if change_port new ?p then relocate_port ops new (uport ?s1) else (True, uport ?s1)) = (go, p2)"
    by fastforce
  define s2 where "s2 = ?s1\<lparr>uport := p2\<rparr>"
  have 1: "calm s s2"
    unfolding s2_def by (rule calm_trans [OF calm_ifI [OF calm_shutdown calm_refl] calm_relocated [OF go]])
  have 2: "calm s (store_settings (change_irq new ?p) new s2)"
    by (rule calm_trans [OF 1 calm_same [OF same_store crashed_store]])
  have 3: "calm s (on_port (\<lambda>p. p\<lparr>flags := fl p, custom_divisor := cd\<rparr>) s)" for fl cd
    by (rule calm_on_port) simp_all
  from assms [symmetric, unfolded uart_set_info_def Some option.case new_def [symmetric] Let_def go case_prod_conv
      s2_def [symmetric]]
  obtain A B C D R where "res = (if A then if B then Inr (- EPERM, s)
      else check_and_exit ops env (flags ?p) (custom_divisor ?p)
        (on_port (\<lambda>p. p\<lparr>flags := (flags p AND NOT UPF_USR_MASK) OR (ss_flags new AND UPF_USR_MASK),
          custom_divisor := ss_custom_divisor new\<rparr>) s)
      else if C then Inr (R, s) else if D then Inr (- EBUSY, s)
      else if go then check_and_exit ops env (flags ?p) (custom_divisor ?p) (store_settings (change_irq new ?p) new s2)
      else Inr (- EBUSY, s2))"
    by (rule that)
  then show ?thesis
    by (cases A; cases B; cases C; cases D; cases go) (simp_all only: if_True if_False stay quit [OF _ 1] check [OF _ 2] check [OF _ 3])
qed

lemma calm_set_info:
  assumes "uart_set_info ops env user s = Inr (r, s')"
  shows "calm s s'"
  using assms by (cases rule: set_info_cases) (auto dest: calm_check_exit [OF sym] intro: calm_trans)

lemma set_info_returns:
  assumes "port_tty s"
  shows "\<exists>r s'. uart_set_info ops env user s = Inr (r, s')"
  using refl [of "uart_set_info ops env user s"]
proof (cases rule: set_info_cases)
  case (check ofl odv s2)
  then show ?thesis
    using assms check_exit_returns [of s2] by (simp add: calm_def tame_def)
qed auto

lemma autoconfig_cases:
  assumes "uart_do_autoconfig ops env intr s = res"
  obtains r where "res = Inr (r, s)" | s3 where "res = uart_startup ops (env_page env) (env_admin env) True s3" "calm s s3"
proof -
  let ?s1 = "uart_shutdown ops s"
  let ?s2 = "if type (uport ?s1) \<noteq> PORT_UNKNOWN then on_port (ops_release_port ops) ?s1 else ?s1"
  have "calm s ?s2"
    by (rule calm_trans [OF calm_shutdown calm_ifI [OF calm_on_port calm_refl]]) (simp_all only: keeps)
  then have 1: "calm s (on_port (ops_config_port ops fl) ?s2)" for fl
    by (rule calm_trans [OF _ calm_on_port]) (simp_all only: keeps)
  from assms [symmetric, unfolded uart_do_autoconfig_def Let_def]
  obtain A B C fl where "res = (if A then Inr (- EPERM, s) else if B then Inr (- ERESTARTSYS, s)
      else if C then uart_startup ops (env_page env) (env_admin env) True (on_port (ops_config_port ops fl) ?s2)
      else Inr (- EBUSY, s))"
    by (rule that)
  then show ?thesis
    by (cases A; cases B; cases C) (simp_all only: if_True if_False that(1) that(2) [OF _ 1])
qed

lemma calm_autoconfig:
  assumes "uart_do_autoconfig ops env intr s = Inr (r, s')"
  shows "calm s s'"
  using assms by (cases rule: autoconfig_cases) (auto dest: calm_startup [OF sym] intro: calm_trans)

lemma autoconfig_returns:
  assumes "port_tty s"
  shows "\<exists>r s'. uart_do_autoconfig ops env intr s = Inr (r, s')"
  using refl [of "uart_do_autoconfig ops env intr s"]
proof (cases rule: autoconfig_cases)
  case (2 s3)
  then show ?thesis
    using assms startup_returns [of s3] by (simp add: calm_def tame_def)
qed auto

lemma lsr_tame:
  assumes "uart_get_lsr_info ops fault s = Inr (r, v, s')"
  shows "tame s s'"
proof -
  obtain e p where e: "ops_tx_empty ops (uport s) = (e, p)"
    by fastforce
  then have "s' = s\<lparr>uport := p\<rparr>"
    using assms by (auto simp: uart_get_lsr_info_def Let_def split: if_splits)
  then show ?thesis
    using e keeps_tx_empty [of "uport s"] by (simp add: calm_tame [OF calm_on_port])
qed

lemma ioctl_hardware_tame:
  assumes "ioctl_hardware ops uc cmd arg s = Inr (r, out, s')"
  shows "tame s s'"
proof (cases "uc_hung_up uc \<or> cmd = TIOCSERGETLSR \<or> ops_ioctl ops = None")
  case True
  then show ?thesis
    using assms lsr_tame by (auto simp: ioctl_hardware_def map_sum_Inr_iff split: if_splits)
next
  case False
  then obtain f where f: "ops_ioctl ops = Some f"
    by auto
  obtain r' p where p: "f (uport s) cmd arg = (r', p)"
    by fastforce
  have "s' = s\<lparr>uport := p\<rparr>"
    using assms False f p by (auto simp: ioctl_hardware_def)
  then show ?thesis
    using keeps_ioctl [OF f, of "uport s" cmd arg] p by (simp add: calm_tame [OF calm_on_port])
qed

lemma ioctl_tame:
  assumes "uart_ioctl ops env uc cmd arg s = Inr (r, out, s')"
  shows "tame s s'"
proof -
  obtain r1 out1 s1 where 1: "ioctl_config ops env uc cmd s = Inr (r1, out1, s1)"
    using assms by (auto simp: uart_ioctl_def split: sum.splits if_splits)
  have t1: "tame s s1"
    using 1 calm_tame [OF calm_set_info, of env "uc_info uc" s] calm_tame [OF calm_autoconfig, of env "uc_interrupted uc" s]
    by (auto simp: ioctl_config_def Let_def map_sum_Inr_iff split: if_splits prod.splits)
  obtain r2 out2 s2 where 2: "ioctl_status ops uc cmd arg s1 = (r2, out2, s2)"
    by (cases "ioctl_status ops uc cmd arg s1") auto
  have t2: "tame s1 s2"
    using 2 keeps_enable_ms [of "uport s1"]
    by (auto simp: ioctl_status_def uart_wait_modem_status_def intro: calm_tame [OF calm_on_port] split: if_splits prod.splits)
  have t3: "tame s2 s'" if "ioctl_hardware ops uc cmd arg s2 = Inr (r, out, s')"
    using that by (rule ioctl_hardware_tame)
  show ?thesis
    using assms t1 t2 t3 tame_trans unfolding uart_ioctl_def 1 sum.case 2 case_prod_conv
    by (auto split: if_splits)
qed

end

end
