(* ===== verification/Uart_8250_View.thy ===== *)
theory Uart_8250_View
  imports Uart_8250_Port Uart_Contract
begin

text \<open>
  What the driver's work on the registers leaves alone. A view of a port is anything that depends neither on
  the driver's own data, apart from the port's place on a chain, nor on counters, modem lines and timeouts; the
  locale shows once that every register access, the transmitter, the modem lines and the settings keep every view. It is
  interpreted on being linked and on the place and type of the port; two extensions cover starting and configuring it.
\<close>

section \<open>Views\<close>

locale port_view =
  fixes view :: "'d port8250 \<Rightarrow> 'v"
  assumes view_hw: "linked h = linked (hw p) \<Longrightarrow> view (p\<lparr>hw := h\<rparr>) = view p"
    and view_icount: "view (p\<lparr>icount := c\<rparr>) = view p"
    and view_mctrl: "view (p\<lparr>mctrl := m\<rparr>) = view p"
    and view_timeout: "view (p\<lparr>timeout := t\<rparr>) = view p"
    and view_x_char: "view (p\<lparr>x_char := x\<rparr>) = view p"
begin

lemmas view_simps [simp] = view_hw view_icount view_mctrl view_timeout view_x_char

lemma view_dev [simp]: "view (on_dev f p) = view p" "view (snd (from_dev g p)) = view p"
  by (simp_all add: on_dev_def from_dev_def split_beta)

lemma view_in [simp]: "view (snd (serial_in e r p)) = view p"
  by (simp add: serial_in_def Let_def split_beta)

lemma view_inD: "serial_in e r p = (v, q) \<Longrightarrow> view q = view p"
  by (metis view_in snd_conv)

lemma view_ifI: "view a = v \<Longrightarrow> view b = v \<Longrightarrow> view (if c then a else b) = v"
  by simp

lemma view_lcr: "view (if c then on_hw (\<lambda>h. h\<lparr>lcr := v\<rparr>) p else p) = view p"
  by simp

lemma view_out [simp]: "view (serial_out e r v p) = view p"
  unfolding serial_out_def Let_def by (intro view_ifI) (simp_all only: view_dev view_in view_lcr)

lemma view_outs [simp]: "view (serial_outs e ws p) = view p"
  unfolding serial_outs_def by (induction ws arbitrary: p) (simp_all only: fold_simps comp_apply split_beta view_out)

lemma view_ins [simp]: "view (serial_ins e rs p) = view p"
  unfolding serial_ins_def by (induction rs arbitrary: p) (simp_all only: fold_simps comp_apply view_in)

lemma view_access [simp]:
  "view (set_io_from_upio p) = view p" "view (serial_out_sync e r v p) = view p"
  "view (snd (serial_dl_read e p)) = view p" "view (serial_dl_write e q p) = view p"
  "view (serial_icr_write e i v p) = view p" "view (serial8250_clear_fifos e p) = view p"
  "view (serial8250_set_sleep e b p) = view p"
  by (simp_all add: set_io_from_upio_def serial_out_sync_def serial_dl_read_def serial_dl_write_def serial_icr_write_def
      serial8250_clear_fifos_def serial8250_set_sleep_def Let_def split_beta)

lemma view_stop [simp]:
  "view (stop_tx_ier e p) = view p" "view (serial8250_stop_tx e p) = view p"
  "view (serial8250_stop_rx e p) = view p" "view (serial8250_enable_ms e p) = view p"
  "view (serial8250_break_ctl e b p) = view p" "view (serial8250_set_mctrl e m p) = view p"
  "view (count_tx p) = view p" "view (save_lsr v p) = view p"
  by (simp_all add: stop_tx_ier_def serial8250_stop_tx_def serial8250_stop_rx_def serial8250_enable_ms_def
      serial8250_break_ctl_def serial8250_set_mctrl_def count_tx_def save_lsr_def Let_def)

lemma view_wait_lsr [simp]: "view (wait_lsr e b n p) = view p"
  by (induction n arbitrary: p) (simp_all add: split_beta Let_def)

lemma view_wait_cts [simp]: "view (wait_cts e n p) = view p"
  by (induction n arbitrary: p) (simp_all add: split_beta Let_def)

lemma view_wait [simp]: "view (wait_for_xmitr e b p) = view p"
  unfolding wait_for_xmitr_def Let_def by simp

lemma view_startup_parts [simp]:
  "view (startup_wake e p) = view p" "view (startup_16850 e p) = view p"
  "view (startup_timer p) = view p" "view (startup_txen_test e p) = view p"
  by (simp_all add: startup_wake_def startup_16850_def startup_timer_def startup_txen_test_def Let_def split_beta)

lemma view_thre_test [simp]: "view (startup_thre_test e p) = view p"
  by (simp add: startup_thre_test_def Let_def split_beta)

lemma view_startup_init [simp]: "view (startup_init e p) = view p"
  by (simp add: startup_init_def Let_def)

lemma view_set_timeout [simp]: "view (set_timeout c b p) = view p"
  by (auto simp: set_timeout_def uart_update_timeout_def Let_def split: sum.splits if_splits)

lemma view_program_line [simp]: "view (program_line e c v f q p) = view p"
  by (simp add: program_line_def Let_def)

lemma view_set_termios [simp]: "view (snd (serial8250_set_termios e t old p)) = view p"
  by (simp add: serial8250_set_termios_def Let_def split_beta)

lemma view_rx_char [simp]: "view (rx_char e v p) = view p"
  by (simp add: rx_char_def Let_def split_beta)

lemma view_rx_loop [simp]: "view (snd (rx_loop e n v p)) = view p"
proof (induction e n v p rule: rx_loop.induct)
  case (1 e n v p)
  obtain v' p1 where 2: "serial_in e REG_LSR (rx_char e v p) = (v', p1)"
    by fastforce
  have "view p1 = view p"
    using view_inD [OF 2] by simp
  then show ?case
    using 1 [OF 2 [symmetric]] by (subst rx_loop.simps) (simp add: 2 split: nat.split)
qed

section \<open>Lines\<close>

text \<open>The transmitter and the modem status work on a line.\<close>

lemma view_tx_loop [simp]: "view (uport (tx_loop e buf n s)) = view (uport s)"
  by (induction n arbitrary: s) (simp_all add: Let_def)

lemma view_transmit: "transmit_chars e s = Inr s' \<Longrightarrow> view (uport s') = view (uport s)"
  by (auto simp: transmit_chars_def uart_write_wakeup_def Let_def split: if_splits option.splits)

lemma view_crashed [simp]: "view (uport (s\<lparr>crashed := b\<rparr>)) = view (uport s)"
  by simp

lemma view_survive: "(\<And>s'. r = Inr s' \<Longrightarrow> view (uport s') = view (uport s)) \<Longrightarrow> view (uport (survive s r)) = view (uport s)"
  by (cases r) simp_all

lemma view_wakeup: "uart_write_wakeup s = Inr s' \<Longrightarrow> view (uport s') = view (uport s)"
  by (auto simp: uart_write_wakeup_def split: if_splits)

lemma view_start_tx [simp]: "view (uport (serial8250_start_tx e s)) = view (uport s)"
proof -
  have t: "view (uport (survive s (transmit_chars e s))) = view (uport s)" for s
    by (rule view_survive [OF view_transmit])
  show ?thesis
    by (simp add: serial8250_start_tx_def Let_def split_beta t)
qed

lemma view_cts_change [simp]: "view (uport (cts_change e b s)) = view (uport s)"
  by (simp add: cts_change_def Let_def view_survive [OF view_wakeup] split: cts_reaction.split)

lemma view_modem_status [simp]: "view (uport (snd (check_modem_status e s))) = view (uport s)"
  by (simp add: check_modem_status_def Let_def split_beta)

lemma view_get_mctrl [simp]: "view (uport (snd (serial8250_get_mctrl e s))) = view (uport s)"
  by (simp add: serial8250_get_mctrl_def split_beta)

end

text \<open>A view that does not show the driver's data and the mapped address at all also survives starting and shutting down.\<close>

locale place_view = port_view view for view :: "'d port8250 \<Rightarrow> 'v" +
  assumes view_any_hw: "view (p\<lparr>hw := h\<rparr>) = view p"
    and view_membase: "view (p\<lparr>membase := a\<rparr>) = view p"
begin

lemmas place_simps [simp] = view_any_hw view_membase

lemma place_startup [simp]: "view (snd (serial8250_startup e p)) = view p"
proof -
  have "view (snd (startup_link e q)) = view q" for q
    by (simp add: startup_link_def link_irq_def Let_def)
  then show ?thesis
    by (simp add: serial8250_startup_def Let_def split_beta)
qed

lemma place_shutdown [simp]: "view (serial8250_shutdown e p) = view p"
  by (simp add: serial8250_shutdown_def Let_def split_beta)

lemma place_resources [simp]:
  "view (snd (serial8250_request_std_resource e p)) = view p" "view (serial8250_release_std_resource p) = view p"
  by (simp_all add: serial8250_request_std_resource_def serial8250_release_std_resource_def Let_def)

lemma place_ops [simp]:
  "view (snd (ops_startup (serial8250_pops e) p)) = view p" "view (ops_shutdown (serial8250_pops e) p) = view p"
  "view (snd (ops_set_termios (serial8250_pops e) t old p)) = view p" "view (ops_set_mctrl (serial8250_pops e) m p) = view p"
  "view (uport (snd (ops_get_mctrl (serial8250_pops e) s))) = view (uport s)"
  by (simp_all add: serial8250_pops_def)

lemma place_update_mctrl [simp]: "view (uart_update_mctrl (serial8250_pops e) sb cb p) = view p"
  by (simp add: uart_update_mctrl_def Let_def)

lemma place_change_speed [simp]: "view (uport (uart_change_speed (serial8250_pops e) old s)) = view (uport s)"
  by (simp add: uart_change_speed_def Let_def split_beta)

lemma place_startup_hw [simp]: "view (uport (startup_hw (serial8250_pops e) b s)) = view (uport s)"
  by (simp add: startup_hw_def Let_def split_beta)

lemma place_uart_shutdown [simp]: "view (uport (uart_shutdown (serial8250_pops e) s)) = view (uport s)"
  by (simp add: uart_shutdown_def Let_def)

lemma place_uart_startup: "uart_startup (serial8250_pops e) page admin b s = Inr (r, s') \<Longrightarrow> view (uport s') = view (uport s)"
  by (auto simp: uart_startup_def Let_def split_beta split: if_splits)

lemma place_check_exit: "check_and_exit (serial8250_pops e) env fl dv s = Inr (r, s') \<Longrightarrow> view (uport s') = view (uport s)"
  by (auto simp: check_and_exit_def dest: place_uart_startup split: if_splits)

end

text \<open>
  A view that shows being on a chain but not what the probing of the chip finds out (type, FIFO size, clock and
  interrupt) nor the mapped address survives the whole configuration of a port.
\<close>

locale config_view = port_view view for view :: "'d port8250 \<Rightarrow> 'v" +
  assumes view_type: "view (p\<lparr>type := ty\<rparr>) = view p"
    and view_fifosize: "view (p\<lparr>fifosize := n\<rparr>) = view p"
    and view_uartclk: "view (p\<lparr>uartclk := n\<rparr>) = view p"
    and view_irq: "view (p\<lparr>irq := n\<rparr>) = view p"
    and view_mapped: "view (p\<lparr>membase := a\<rparr>) = view p"
begin

lemmas config_simps [simp] = view_type view_fifosize view_uartclk view_irq view_mapped

lemma config_icr_read [simp]: "view (snd (serial_icr_read e i p)) = view p"
  by (simp add: serial_icr_read_def Let_def split_beta)

lemma config_drain_rx [simp]: "view (snd (drain_rx e k n p)) = view p"
  by (induction k arbitrary: n p) (simp_all add: split_beta)

lemma config_ids [simp]:
  "view (snd (size_fifo e p)) = view p" "view (snd (autoconfig_read_divisor_id e p)) = view p" "view (autoconfig_has_efr e p) = view p"
  by (simp_all add: size_fifo_def autoconfig_read_divisor_id_def autoconfig_has_efr_def Let_def split_beta)

lemma config_probes [simp]:
  "view (autoconfig_8250 e p) = view p" "view (snd (broken_efr e p)) = view p" "view (snd (probe_natsemi e p)) = view p"
  "view (snd (probe_16750 e p)) = view p" "view (probe_xscale e p) = view p" "view (snd (ier_test e p)) = view p"
  "view (snd (loop_test e m p)) = view p"
  by (simp_all add: autoconfig_8250_def broken_efr_def probe_natsemi_def probe_16750_def probe_xscale_def ier_test_def
      loop_test_def Let_def split_beta)

lemma config_16550a [simp]: "view (autoconfig_16550a e p) = view p"
  by (simp add: autoconfig_16550a_def Let_def split_beta)

lemma config_autoconfig_type [simp]: "view (autoconfig_type e p) = view p"
  by (simp add: autoconfig_type_def Let_def split_beta)

lemma config_autoconfig_reset [simp]: "view (autoconfig_reset e l m p) = view p"
  by (simp add: autoconfig_reset_def Let_def)

lemma config_autoconfig [simp]: "view (autoconfig e p) = view p"
  by (simp add: autoconfig_def Let_def split_beta)

lemma config_autoconfig_irq [simp]: "view (autoconfig_irq e p) = view p"
  by (simp add: autoconfig_irq_def Let_def split_beta)

lemma config_resources [simp]:
  "view (snd (serial8250_request_std_resource e p)) = view p" "view (serial8250_release_std_resource p) = view p"
  by (simp_all add: serial8250_request_std_resource_def serial8250_release_std_resource_def Let_def)

lemma config_port_view [simp]: "view (serial8250_config_port e fl p) = view p"
  by (simp add: serial8250_config_port_def Let_def split_beta)

end

interpretation lk: config_view "\<lambda>p. linked (hw p)"
  by unfold_locales simp_all

text \<open>The pointer from the port to its line, which starting and shutting down leave alone too.\<close>

interpretation hs: config_view has_state
  by unfold_locales simp_all

interpretation hp: place_view has_state
  by unfold_locales simp_all

text \<open>Where a port is, and its number.\<close>

definition port_spot :: "'d port8250 \<Rightarrow> u32 \<times> u32 \<times> u8 \<times> u8 \<times> u8 \<times> u32" where
  "port_spot p = (iobase p, mapbase p, iotype p, hub6 p, regshift p, line p)"

interpretation sp: config_view port_spot
  by unfold_locales (simp_all add: port_spot_def)

text \<open>Where a port is and what it is.\<close>

definition port_place :: "'d port8250 \<Rightarrow> (u32 \<times> u32 \<times> u8 \<times> u8 \<times> u8) \<times> u32 \<times> u32 \<times> u32 \<times> u32" where
  "port_place p = ((iobase p, mapbase p, iotype p, hub6 p, regshift p), irq p, uartclk p, type p, fifosize p)"

interpretation pl: place_view port_place
  by unfold_locales (simp_all add: port_place_def)

interpretation fg: place_view flags
  by unfold_locales simp_all

end
