(* ===== verification/Uart_Runs.thy ===== *)
theory Uart_Runs
  imports Uart_Contract Serial_Props
begin

text \<open>
  A line in use: any number of processes open, use and close it, sleep in \<open>uart_open\<close> until the carrier comes,
  and lose it when the terminal is hung up, interleaved with the interrupts of the hardware. Operations are atomic as
  the port's lock makes them; an open that sleeps is split where it gives the lock up.
\<close>

section \<open>Steps\<close>

text \<open>
  Besides the line, the console and the log, the system counts the files of the terminal: open ones, hung up
  ones that are not closed yet, and those of processes that sleep in \<open>uart_open\<close>, hung up meanwhile or not. It also
  remembers how many opens \<open>uart_get\<close> has refused.
\<close>

record 'h tty_sys =
  sy_line :: "'h uart_state"
  sy_cons :: "console option"
  sy_daemon :: uart_daemon
  sy_files :: nat
  sy_hung :: nat
  sy_sleeping :: nat
  sy_hung_sleeping :: nat
  sy_refused :: nat

definition sy_all :: "'h tty_sys \<Rightarrow> nat" where
  "sy_all sy = sy_files sy + sy_hung sy + sy_sleeping sy + sy_hung_sleeping sy"

text \<open>The terminal layer keeps \<open>tty->count\<close>.\<close>

abbreviation add_tty :: "int \<Rightarrow> 'h uart_state \<Rightarrow> 'h uart_state" where
  "add_tty n s \<equiv> on_tty (\<lambda>t. t\<lparr>tty_count := tty_count t + n\<rparr>) s"

text \<open>A close during whose waits only interrupts happen.\<close>

definition close_quiet :: "('h \<Rightarrow> bool) \<Rightarrow> 'h close_env \<Rightarrow> bool" where
  "close_quiet running ce \<longleftrightarrow> (\<forall>s. same_line running s (ce_drain ce s))
     \<and> (\<forall>(f, ticks, signal) \<in> set (ce_naps ce). \<forall>s. same_line running s (f s))"

text \<open>What a process with an open file, or the terminal layer on its behalf, does to the line.\<close>

inductive tty_op :: "'h uart_ops \<Rightarrow> 'h line \<Rightarrow> 'h line \<Rightarrow> bool" for ops where
  Op_write: "uart_write ops buf (s, d) = Inr (r, s', d') \<Longrightarrow> tty_op ops (s, d) (s', d')"
| Op_put: "uart_put_char c s = (r, s') \<Longrightarrow> tty_op ops (s, d) (s', d)"
| Op_flush_chars: "uart_flush_chars ops (s, d) = (s', d') \<Longrightarrow> tty_op ops (s, d) (s', d')"
| Op_flush_buffer: "tty_op ops (s, d) (uart_flush_buffer ops s, d)"
| Op_stop: "tty_op ops (s, d) (uart_stop ops s, d)"
| Op_start: "uart_start ops (s, d) = (s', d') \<Longrightarrow> tty_op ops (s, d) (s', d')"
| Op_throttle: "tty_op ops (s, d) (uart_throttle ops s, d)"
| Op_unthrottle: "tty_op ops (s, d) (uart_unthrottle ops s, d)"
| Op_xchar: "tty_op ops (s, d) (uart_send_xchar ops c s, d)"
| Op_set_termios: "uart_set_termios ops old (s, d) = (s', d') \<Longrightarrow> tty_op ops (s, d) (s', d')"
| Op_set_ldisc: "tty_op ops (s, d) (uart_set_ldisc ops s, d)"
| Op_break: "uart_break_ctl ops b s = (r, s') \<Longrightarrow> tty_op ops (s, d) (s', d)"
| Op_tiocmset: "uart_tiocmset ops h sb cb s = (r, s') \<Longrightarrow> tty_op ops (s, d) (s', d)"
| Op_tiocmget: "uart_tiocmget ops h s = (r, s') \<Longrightarrow> tty_op ops (s, d) (s', d)"
| Op_ioctl: "uart_ioctl ops env uc cmd arg s = Inr (r, out, s') \<Longrightarrow> tty_op ops (s, d) (s', d)"
| Op_layer: "tty_count t = tty_count (tty s) \<Longrightarrow> driver_data t = driver_data (tty s) \<Longrightarrow> tty_op ops (s, d) (s\<lparr>tty := t\<rparr>, d)"

text \<open>
  The steps of the system. An open that fails is followed by the close of its file, as the code's comment on \<open>uart_open\<close>
  says: \<open>Open_fail\<close> is an open that has counted itself in \<open>uart_get\<close>, \<open>Open_refused\<close> one that has not, because the number of the line
  was wrong, a signal interrupted the lock, or the port is gone or dead. A terminal that is hung up has files. An interrupt
  may do whatever leaves the line as it is in the sense of the contract, see \<open>Uart_8250_Contract\<close> for the 8250's handler.
\<close>

inductive tty_step :: "'h uart_ops \<Rightarrow> ('h \<Rightarrow> bool) \<Rightarrow> 'h tty_sys \<Rightarrow> 'h tty_sys \<Rightarrow> bool" for ops running where
  New_tty:
    "sy_all sy = 0 \<Longrightarrow> \<not> port_tty (sy_line sy) \<Longrightarrow> tty_count t = 0 \<Longrightarrow> \<not> driver_data t
     \<Longrightarrow> tty_step ops running sy (sy\<lparr>sy_line := (sy_line sy)\<lparr>tty := t\<rparr>\<rparr>)"
| Open_ok:
    "oe_wakes oe = [] \<Longrightarrow> uart_open ops (sy_cons sy) oe (add_tty 1 (sy_line sy)) = Inr (Some (0, cons, s))
     \<Longrightarrow> tty_step ops running sy (sy\<lparr>sy_line := s, sy_cons := cons, sy_files := sy_files sy + 1\<rparr>)"
| Open_fail:
    "oe_wakes oe = [] \<Longrightarrow> oe_line_ok oe \<Longrightarrow> uart_get (oe_interrupted oe) (add_tty 1 (sy_line sy)) = Inr s0
     \<Longrightarrow> uart_open ops (sy_cons sy) oe (add_tty 1 (sy_line sy)) = Inr (Some (r, cons, s)) \<Longrightarrow> r \<noteq> 0
     \<Longrightarrow> ce_hung_up ce = oe_hung_up oe \<Longrightarrow> close_quiet running ce \<Longrightarrow> uart_close ops cons ce s = Some s'
     \<Longrightarrow> tty_step ops running sy (sy\<lparr>sy_line := add_tty (-1) s', sy_cons := cons\<rparr>)"
| Open_refused:
    "\<not> oe_line_ok oe \<or> uart_get (oe_interrupted oe) (add_tty 1 (sy_line sy)) = Inl err
     \<Longrightarrow> uart_open ops (sy_cons sy) oe (add_tty 1 (sy_line sy)) = Inr (Some (r, cons, s))
     \<Longrightarrow> close_quiet running ce \<Longrightarrow> uart_close ops cons ce s = Some s'
     \<Longrightarrow> tty_step ops running sy (sy\<lparr>sy_line := add_tty (-1) s', sy_cons := cons, sy_refused := sy_refused sy + 1\<rparr>)"
| Open_sleep:
    "uart_get False (add_tty 1 (sy_line sy)) = Inr s0
     \<Longrightarrow> uart_startup ops page admin False
           (if count (open_attach s0) = 1 then uart_change_pm ops 0 (open_attach s0) else open_attach s0) = Inr (0, s1)
     \<Longrightarrow> btr_pass ops nonblock False (btr_enter s1) = (False, s2)
     \<Longrightarrow> tty_step ops running sy (sy\<lparr>sy_line := s2, sy_sleeping := sy_sleeping sy + 1\<rparr>)"
| Wake_again:
    "sy_sleeping sy > 0 \<Longrightarrow> btr_pass ops nonblock False (sy_line sy) = (False, s)
     \<Longrightarrow> tty_step ops running sy (sy\<lparr>sy_line := s\<rparr>)"
| Wake_ok:
    "sy_sleeping sy > 0 \<Longrightarrow> btr_pass ops nonblock False (sy_line sy) = (True, s)
     \<Longrightarrow> btr_leave signal False s = (0, s1) \<Longrightarrow> open_adjust ops (sy_cons sy) 0 s1 = Inr (Some (0, cons, s2))
     \<Longrightarrow> tty_step ops running sy (sy\<lparr>sy_line := s2, sy_cons := cons, sy_sleeping := sy_sleeping sy - 1,
           sy_files := sy_files sy + 1\<rparr>)"
| Wake_fail:
    "sy_sleeping sy > 0 \<Longrightarrow> signal \<and> s = sy_line sy \<or> btr_pass ops nonblock False (sy_line sy) = (True, s)
     \<Longrightarrow> btr_leave signal False s = (r, s1) \<Longrightarrow> r \<noteq> 0
     \<Longrightarrow> \<not> ce_hung_up ce \<Longrightarrow> close_quiet running ce \<Longrightarrow> uart_close ops (sy_cons sy) ce s1 = Some s2
     \<Longrightarrow> tty_step ops running sy (sy\<lparr>sy_line := add_tty (-1) s2, sy_sleeping := sy_sleeping sy - 1\<rparr>)"
| Wake_hung:
    "sy_hung_sleeping sy > 0 \<Longrightarrow> btr_leave signal True (sy_line sy) = (r, s1)
     \<Longrightarrow> ce_hung_up ce \<Longrightarrow> uart_close ops (sy_cons sy) ce s1 = Some s2
     \<Longrightarrow> tty_step ops running sy (sy\<lparr>sy_line := add_tty (-1) s2, sy_hung_sleeping := sy_hung_sleeping sy - 1\<rparr>)"
| Close:
    "sy_files sy > 0 \<Longrightarrow> \<not> ce_hung_up ce \<Longrightarrow> close_quiet running ce \<Longrightarrow> uart_close ops (sy_cons sy) ce (sy_line sy) = Some s
     \<Longrightarrow> tty_step ops running sy (sy\<lparr>sy_line := add_tty (-1) s, sy_files := sy_files sy - 1\<rparr>)"
| Close_hung:
    "sy_hung sy > 0 \<Longrightarrow> ce_hung_up ce \<Longrightarrow> uart_close ops (sy_cons sy) ce (sy_line sy) = Some s
     \<Longrightarrow> tty_step ops running sy (sy\<lparr>sy_line := add_tty (-1) s, sy_hung := sy_hung sy - 1\<rparr>)"
| Hangup:
    "0 < sy_all sy
     \<Longrightarrow> tty_step ops running sy (sy\<lparr>sy_line := uart_hangup ops (sy_line sy), sy_hung := sy_hung sy + sy_files sy, sy_files := 0,
       sy_hung_sleeping := sy_hung_sleeping sy + sy_sleeping sy, sy_sleeping := 0\<rparr>)"
| Op:
    "sy_files sy > 0 \<Longrightarrow> tty_op ops (sy_line sy, sy_daemon sy) (s, d)
     \<Longrightarrow> tty_step ops running sy (sy\<lparr>sy_line := s, sy_daemon := d\<rparr>)"
| Irq:
    "same_line running (sy_line sy) s \<Longrightarrow> tty_step ops running sy (sy\<lparr>sy_line := s\<rparr>)"
| Irq_wakeup:
    "running (hw (uport (sy_line sy))) \<Longrightarrow> uart_write_wakeup (sy_line sy) = Inr s \<Longrightarrow> tty_step ops running sy (sy\<lparr>sy_line := s\<rparr>)"
| Tasklet:
    "tlet (sy_line sy) \<Longrightarrow> uart_tasklet_action (sy_line sy) = Inr s \<Longrightarrow> tty_step ops running sy (sy\<lparr>sy_line := s\<rparr>)"

section \<open>The invariant of the system\<close>

text \<open>
  The last part holds only until \<open>uart_get\<close> refuses an open: the close that follows takes an opener from the count all the
  same, and may shut the line down under the files that are open.
\<close>

definition sys_inv :: "('h \<Rightarrow> bool) \<Rightarrow> 'h tty_sys \<Rightarrow> bool" where
  "sys_inv running sy \<longleftrightarrow> line_inv running (sy_line sy) \<and> line_tied (sy_line sy) \<and> sd_inv (sy_daemon sy)
     \<and> blocked_open (sy_line sy) = int (sy_sleeping sy + sy_hung_sleeping sy)
     \<and> tty_count (tty (sy_line sy)) = int (sy_all sy)
     \<and> (0 < sy_all sy \<longrightarrow> driver_data (tty (sy_line sy)))
     \<and> (sy_refused sy = 0 \<longrightarrow> int (sy_files sy) \<le> count (sy_line sy)
          \<and> (0 < sy_files sy \<longrightarrow> port_tty (sy_line sy) \<and> normal_active (sy_line sy)))"

end
