(* ===== verification/Uart_Run_Inv.thy ===== *)
theory Uart_Run_Inv
  imports Uart_Runs
begin

text \<open>
  Every step of a line in use keeps the invariant of the system, for every low-level driver that meets the contract.
\<close>

context uart_lowlevel begin

section \<open>Output and interrupts\<close>

lemma write_cases:
  assumes "uart_write ops buf (s, d) = Inr (r, s', d')"
  obtains "s' = s" "d' = d"
  | x k d1 where "circ_data (xmit s) \<noteq> None" "circ_write buf 0 (xmit s) = (nat r, x)" "0 \<le> r"
      "serial_daemon_write (take (nat r) buf) d = Inr (k, d1)"
      "(s', d') = uart_start ops (s\<lparr>xmit := x\<rparr>, d1)"
proof (cases "driver_data (tty s) \<and> circ_data (xmit s) \<noteq> None")
  case True
  obtain ret x where x: "circ_write buf 0 (xmit s) = (ret, x)"
    by fastforce
  show ?thesis
    using assms True x that(2)
    by (auto simp: uart_write_def split: sum.splits)
next
  case False
  then show ?thesis
    using assms that(1) by (auto simp: uart_write_def split: if_splits)
qed

text \<open>Starting the transmitter follows nothing when the line has no page.\<close>

lemma calm_start: "calm s (fst (uart_start ops (s, d)))"
proof -
  let ?s' = "fst (uart_start ops (s, d))"
  have same: "same_line running s ?s'"
    by (rule same_start)
  have "circ_data (xmit s) = None \<Longrightarrow> driver_data (tty s) \<Longrightarrow> ?s' = s"
    by (simp add: uart_start_def uart_start_locked_def)
  then have "driver_data (tty s) \<and> port_tty s \<and> has_state (uport s) \<and> crashed ?s' \<longrightarrow> crashed s"
    using same unfolding same_line_def steady_def by (metis)
  then show ?thesis
    using same_tame [OF same] by (simp add: calm_def)
qed

lemma calm_write:
  assumes "uart_write ops buf (s, d) = Inr (r, s', d')"
  shows "calm s s'"
  using assms
proof (cases rule: write_cases)
  case (2 x k d1)
  have "calm s (s\<lparr>xmit := x\<rparr>)"
    using circ_write_queue [OF xmit_ok_circ, of "xmit s" buf 0] circ_ok_xmit 2(1,2) by (intro calm_xmit) auto
  moreover have "calm (s\<lparr>xmit := x\<rparr>) s'"
    using calm_start [of "s\<lparr>xmit := x\<rparr>" d1] 2(5) by (metis fst_conv)
  ultimately show ?thesis
    by (rule calm_trans)
qed simp

lemma sd_complete_inv [simp]: "sd_inv (serial_daemon_complete d) = sd_inv d"
  by (simp add: serial_daemon_complete_def sd_inv_def)

lemma sd_write_inv:
  assumes "sd_inv d" and "length data \<le> 4096"
  shows "\<exists>d'. serial_daemon_write data d = Inr (length data, d') \<and> sd_inv d'"
  using copy_room_inv [OF assms] assms(1) by (auto simp: serial_daemon_write_def)

lemma start_daemon: "snd (uart_start ops (s, d)) = d \<or> snd (uart_start ops (s, d)) = serial_daemon_complete d"
  by (simp add: uart_start_def uart_start_locked_def)

lemma start_inv: "sd_inv d \<Longrightarrow> sd_inv (snd (uart_start ops (s, d)))"
  using start_daemon [of s d] by auto

lemma circ_free_le: "circ_ok circ \<Longrightarrow> uart_circ_chars_free circ \<le> 4095"
  by (simp add: circ_free_pending)

lemma write_daemon:
  assumes "uart_write ops buf (s, d) = Inr (r, s', d')" and "sd_inv d" and "xmit_ok (xmit s)"
  shows "sd_inv d'"
  using assms(1)
proof (cases rule: write_cases)
  case (2 x k d1)
  have ok: "circ_ok (xmit s)"
    using assms(3) 2(1) by (rule xmit_ok_circ)
  have "nat r = min (length buf) (uart_circ_chars_free (xmit s))"
    using circ_write_queue [OF ok, of buf 0] 2(2) by auto
  then have "length (take (nat r) buf) \<le> 4096"
    using circ_free_le [OF ok] by simp
  then have "sd_inv d1"
    using sd_write_inv [OF assms(2), of "take (nat r) buf"] 2(4) by auto
  then show ?thesis
    using start_inv [of d1] 2(5) by (metis snd_conv)
qed (use assms in simp)

lemma write_returns:
  assumes "sd_inv d" and "xmit_ok (xmit s)"
  shows "\<exists>r s' d'. uart_write ops buf (s, d) = Inr (r, s', d')"
proof (cases "driver_data (tty s) \<and> circ_data (xmit s) \<noteq> None")
  case True
  have ok: "circ_ok (xmit s)"
    using assms(2) True by (auto intro: xmit_ok_circ)
  obtain x where x: "circ_write buf 0 (xmit s) = (min (length buf) (uart_circ_chars_free (xmit s)), x)"
    using circ_write_queue [OF ok, of buf 0] by auto
  have "length (take (min (length buf) (uart_circ_chars_free (xmit s))) buf) \<le> 4096"
    using circ_free_le [OF ok] by simp
  from sd_write_inv [OF assms(1) this] show ?thesis
    using True x by (auto simp: uart_write_def)
qed (auto simp: uart_write_def)

lemma op_tame:
  assumes "tty_op ops (s, d) (s', d')"
  shows "tame s s'"
  using assms
proof (cases rule: tty_op.cases)
  case (Op_put c r)
  then show ?thesis
    using calm_tame [OF calm_put_char, of s c] by simp
next
  case Op_flush_chars
  then show ?thesis
    using same_tame [OF same_start [of s d]] by (simp add: uart_flush_chars_def)
next
  case Op_start
  then show ?thesis
    using same_tame [OF same_start [of s d]] by simp
next
  case (Op_set_termios old)
  then show ?thesis
    using same_tame [OF same_set_termios [of s old d]] by simp
next
  case Op_set_ldisc
  then show ?thesis
    by (auto simp: uart_set_ldisc_def same_line_def keeps_opt_ldisc intro!: same_tame same_with_state)
next
  case Op_break
  then show ?thesis
    by (auto simp: uart_break_ctl_def same_line_def keeps intro!: same_tame same_with_state)
next
  case Op_tiocmset
  then show ?thesis
    using same_tame [OF same_crashed] by (auto simp: uart_tiocmset_def intro: same_tame same_mctrl split: if_splits)
next
  case (Op_tiocmget h r)
  then show ?thesis
    using same_tame [OF same_get_mctrl] same_tame [OF same_crashed]
    by (auto simp: uart_tiocmget_def split: if_splits prod.splits)
next
  case Op_layer
  then show ?thesis
    by (auto simp: tame_def line_inv_def line_tied_def)
qed (auto intro: calm_tame [OF calm_write] calm_tame [OF calm_flush_buffer] ioctl_tame same_tame same_stop same_throttle same_unthrottle same_xchar)

lemma op_daemon:
  assumes "tty_op ops (s, d) (s', d')" and "sd_inv d" and "xmit_ok (xmit s)"
  shows "sd_inv d'"
  using assms(1)
proof (cases rule: tty_op.cases)
  case Op_write
  then show ?thesis
    using write_daemon assms by blast
next
  case Op_flush_chars
  then show ?thesis
    using start_inv [OF assms(2), of s] by (simp add: uart_flush_chars_def)
next
  case Op_start
  then show ?thesis
    using start_inv [OF assms(2), of s] by simp
next
  case (Op_set_termios old)
  have "snd (termios_crtscts ops oc c (t, d)) \<in> {d, serial_daemon_complete d}" for oc c t
    by (simp add: termios_crtscts_def uart_start_locked_def Let_def split: prod.split)
  then have "snd (uart_set_termios ops old (s, d)) \<in> {d, serial_daemon_complete d}"
    by (simp add: uart_set_termios_def Let_def)
  then show ?thesis
    using Op_set_termios assms(2) by auto
qed (use assms(2) in simp_all)

section \<open>Closing and hanging up\<close>

lemma drain_tame:
  assumes "drain_wait ops expire now naps s = Some s'"
    and "\<And>f ticks signal. (f, ticks, signal) \<in> set naps \<Longrightarrow> \<forall>s. same_line running s (f s)"
  shows "tame s s'"
  using assms
proof (induction naps arbitrary: now s)
  case (Cons nap naps)
  obtain f ticks signal where nap: "nap = (f, ticks, signal)"
    by (cases nap) auto
  obtain e p where e: "ops_tx_empty ops (uport s) = (e, p)"
    by fastforce
  let ?s1 = "s\<lparr>uport := p\<rparr>"
  have 1: "tame s ?s1"
    using e keeps_tx_empty [of "uport s"] by (simp add: calm_tame [OF calm_on_port])
  have f: "tame s (f ?s1)"
    using Cons(3) [of f ticks signal] by (auto simp: nap intro: tame_trans [OF 1 same_tame])
  show ?case
  proof (cases "e \<noteq> 0 \<or> signal \<or> time_after (now + ticks) expire")
    case True
    then show ?thesis
      using Cons(2) f 1 e by (auto simp: nap Let_def split: if_splits)
  next
    case False
    then have "drain_wait ops expire (now + ticks) naps (f ?s1) = Some s'"
      using Cons(2) e by (simp add: nap)
    then have "tame (f ?s1) s'"
      using Cons(3) by (intro Cons.IH) auto
    then show ?thesis
      by (rule tame_trans [OF f])
  qed
next
  case Nil
  then show ?case
    using keeps_tx_empty [of "uport s"] by (auto simp: calm_tame [OF calm_on_port] split: if_splits prod.splits)
qed

lemma close_drained_tame:
  assumes "close_drained ops ce s = Some s'" and "close_quiet running ce"
  shows "tame s s'"
proof -
  have 1: "tame s (on_port (ops_stop_rx ops) s)"
    by (rule calm_tame [OF calm_on_port]) (simp_all add: keeps)
  have "tame t s'" if "uart_wait_until_sent ops l n (ce_naps ce) t = Some s'" for t l n
    using that drain_tame [of _ n "ce_naps ce" t s'] assms(2) same_tame [OF same_crashed, of t]
    by (fastforce simp: uart_wait_until_sent_def close_quiet_def split: if_splits)
  then show ?thesis
    using assms(1) 1 tame_trans unfolding close_drained_def by (metis option.inject tame_refl)
qed

text \<open>What both ways to give a line up do: shut it down, empty the buffer and forget the terminal.\<close>

lemma close_finish_fields:
  assumes "line_inv running s"
  shows "line_inv running (close_finish ops cons s)" "line_tied s \<Longrightarrow> line_tied (close_finish ops cons s)"
    "count (close_finish ops cons s) = count s"
    "blocked_open (close_finish ops cons s) = blocked_open s" "tty_count (tty (close_finish ops cons s)) = tty_count (tty s)"
    "driver_data (tty (close_finish ops cons s)) = driver_data (tty s)"
    "\<not> initialized (close_finish ops cons s)" "circ_data (xmit (close_finish ops cons s)) = None"
proof -
  let ?s1 = "uart_flush_buffer ops (uart_shutdown ops s)"
  have 1: "tame s ?s1"
    by (rule tame_trans [OF calm_tame [OF calm_shutdown] calm_tame [OF calm_flush_buffer]])
  have 2: "\<not> initialized ?s1" "\<not> tlet ?s1" "circ_data (xmit ?s1) = None"
    by (simp_all add: uart_flush_buffer_def tty_wakeup_def shutdown_fields)
  define s2 where "s2 = (on_tty (\<lambda>t. t\<lparr>closing := False\<rparr>) ?s1)\<lparr>port_tty := False\<rparr>"
  define s3 where "s3 = (if blocked_open s2 = 0 \<and> \<not> uart_console cons (uport s2) then uart_change_pm ops 3 s2 else s2)"
  have 3: "same_line running s2 s3"
    unfolding s3_def by (intro same_ifI same_pm same_refl)
  have eq: "close_finish ops cons s = s3\<lparr>normal_active := False\<rparr>"
    by (simp add: close_finish_def s2_def s3_def Let_def)
  have 4: "\<not> initialized s2" "\<not> tlet s2" "circ_data (xmit s2) = None" "line_inv running s2" "count s2 = count s"
    "blocked_open s2 = blocked_open s" "tty_count (tty s2) = tty_count (tty s)" "driver_data (tty s2) = driver_data (tty s)"
    "has_state (uport s2) = has_state (uport s)" "\<not> port_tty s2"
    using 1 2 assms by (auto simp: s2_def tame_def line_inv_def)
  have 5: "line_inv running s3"
    using same_line_inv [OF 3] 4(4) by simp
  show "line_inv running (close_finish ops cons s)"
    using 5 by (simp add: eq line_inv_def)
  show "line_tied s \<Longrightarrow> line_tied (close_finish ops cons s)"
    using 3 4 by (simp add: eq same_line_def line_tied_def)
  show "count (close_finish ops cons s) = count s"
    "blocked_open (close_finish ops cons s) = blocked_open s" "tty_count (tty (close_finish ops cons s)) = tty_count (tty s)"
    "driver_data (tty (close_finish ops cons s)) = driver_data (tty s)"
    "\<not> initialized (close_finish ops cons s)" "circ_data (xmit (close_finish ops cons s)) = None"
    using 3 4 by (simp_all add: eq same_line_def)
qed

lemma close_hung_stays: "uart_close ops cons ce s = Some s' \<Longrightarrow> ce_hung_up ce \<Longrightarrow> s' = s"
  by (simp add: uart_close_def)

lemma close_open_file:
  assumes "uart_close ops cons ce s = Some s'" and "\<not> ce_hung_up ce" and "close_quiet running ce"
    and "driver_data (tty s)" and "line_inv running s"
  shows "line_inv running s' \<and> (line_tied s \<longrightarrow> line_tied s') \<and> count s' = close_count s \<and> blocked_open s' = blocked_open s
    \<and> tty_count (tty s') = tty_count (tty s) \<and> driver_data (tty s')
    \<and> (if close_count s \<noteq> 0 then s' = s\<lparr>count := close_count s\<rparr>
        else \<not> initialized s' \<and> \<not> running (hw (uport s')) \<and> circ_data (xmit s') = None)"
proof (cases "close_count s = 0")
  case False
  then show ?thesis
    using assms by (auto simp: uart_close_def line_inv_def line_tied_def)
next
  case True
  let ?s1 = "s\<lparr>count := close_count s\<rparr>"
  let ?s2 = "on_tty (\<lambda>t. t\<lparr>closing := True\<rparr>) ?s1"
  define s3 where "s3 = (if closing_wait ?s2 \<noteq> CLOSING_WAIT_NONE then ce_drain ce ?s2 else ?s2)"
  have "tame ?s2 (ce_drain ce ?s2)"
    using assms(3) by (intro same_tame) (simp add: close_quiet_def)
  moreover have "same_line running ?s1 ?s2"
    by (simp add: same_line_def)
  ultimately have 3: "tame ?s1 s3"
    unfolding s3_def by (intro tame_ifI) (auto intro: tame_trans same_tame)
  have "uart_close ops cons ce s = map_option (close_finish ops cons) (close_drained ops ce s3)"
    using assms(2,4) True by (simp add: uart_close_def s3_def Let_def)
  then have "map_option (close_finish ops cons) (close_drained ops ce s3) = Some s'"
    using assms(1) by simp
  then obtain s4 where s4: "close_drained ops ce s3 = Some s4" "s' = close_finish ops cons s4"
    by auto
  have t: "tame ?s1 s4"
    by (rule tame_trans [OF 3 close_drained_tame [OF s4(1) assms(3)]])
  have "line_inv running ?s1"
    using assms(5) by (simp add: line_inv_def)
  then have inv: "line_inv running s4"
    using t by (simp add: tame_def)
  have "line_inv running s'"
    unfolding s4(2) by (rule close_finish_fields [OF inv])
  moreover have "\<not> initialized s'"
    unfolding s4(2) by (rule close_finish_fields [OF inv])
  moreover have "line_tied s \<longrightarrow> line_tied s'"
    using t close_finish_fields(2) [OF inv, of cons] unfolding s4(2) by (auto simp: tame_def line_tied_def [of s] line_tied_def [of ?s1])
  ultimately show ?thesis
    using close_finish_fields [OF inv, of cons] t assms(4) True by (simp add: s4(2) tame_def line_inv_def)
qed

lemma hangup_fields:
  assumes "line_inv running s" and "driver_data (tty s)"
  shows "line_inv running (uart_hangup ops s)" "line_tied s \<Longrightarrow> line_tied (uart_hangup ops s)" "blocked_open (uart_hangup ops s) = blocked_open s"
    "tty_count (tty (uart_hangup ops s)) = tty_count (tty s)" "driver_data (tty (uart_hangup ops s)) = driver_data (tty s)"
    "count (uart_hangup ops s) = (if normal_active s then 0 else count s)"
proof -
  let ?s1 = "uart_shutdown ops (uart_flush_buffer ops s)"
  have 1: "tame s ?s1"
    by (rule tame_trans [OF calm_tame [OF calm_flush_buffer] calm_tame [OF calm_shutdown]])
  have "line_inv running ?s1"
    using 1 assms by (simp add: tame_def)
  then show "line_inv running (uart_hangup ops s)"
    using assms by (simp add: uart_hangup_def line_inv_def shutdown_fields)
  show "line_tied s \<Longrightarrow> line_tied (uart_hangup ops s)"
    using 1 assms(2) by (simp add: uart_hangup_def line_tied_def tame_def shutdown_fields)
  show "blocked_open (uart_hangup ops s) = blocked_open s"
    "tty_count (tty (uart_hangup ops s)) = tty_count (tty s)" "driver_data (tty (uart_hangup ops s)) = driver_data (tty s)"
    "count (uart_hangup ops s) = (if normal_active s then 0 else count s)"
    using 1 assms(2) by (simp_all add: uart_hangup_def tame_def)
qed

section \<open>Opening\<close>

lemma update_termios_same:
  assumes "uart_update_termios ops cons s = Inr (cons', s')"
  shows "same_line running s s'"
proof -
  define cs where "cs = (case cons of
      Some c \<Rightarrow> if uart_console cons (uport s) \<and> con_cflag c \<noteq> 0
        then (Some (c\<lparr>con_cflag := 0\<rparr>), on_tty (\<lambda>t. t\<lparr>termios := (termios t)\<lparr>c_cflag := con_cflag c\<rparr>\<rparr>) s)
        else (cons, s)
    | None \<Rightarrow> (cons, s))"
  have 1: "same_line running s (snd cs)"
    by (auto simp: cs_def same_line_def steady_def split: option.split)
  have "s' = snd cs \<or> (let s2 = uart_change_speed ops None (snd cs) in s' = s2 \<or>
      s' = on_port (uart_set_mctrl ops (TIOCM_DTR OR TIOCM_RTS)) s2)"
    using assms unfolding uart_update_termios_def cs_def [symmetric]
    by (auto simp: Let_def split: if_splits prod.splits)
  then show ?thesis
    using 1 same_trans [OF 1 same_speed] same_trans [OF same_trans [OF 1 same_speed] same_mctrl]
    by (auto simp: Let_def)
qed

lemma adjust_fields:
  assumes "open_adjust ops cons r s = Inr (Some (r', cons', s'))"
  shows "r' = r \<and> same_line running (s\<lparr>normal_active := (r = 0 \<or> normal_active s)\<rparr>) s'"
proof (cases "r = 0 \<and> \<not> normal_active s")
  case True
  then show ?thesis
    using assms update_termios_same by (auto simp: open_adjust_def map_sum_Inr_iff)
next
  case False
  then have "s' = s" "r' = r"
    using assms by (auto simp: open_adjust_def)
  then show ?thesis
    using False by (auto simp: same_line_def)
qed

lemma pass_same: "btr_pass ops nonblock hu s = (b, s') \<Longrightarrow> same_line running s s'"
proof -
  assume pass: "btr_pass ops nonblock hu s = (b, s')"
  define s2 where "s2 = on_port (ops_enable_ms ops) (if has_bits (c_cflag (termios (tty s))) CBAUD
      then on_port (uart_set_mctrl ops TIOCM_DTR) s else s)"
  have "same_line running s s2"
    by (simp add: s2_def same_line_def keeps keeps_mctrl)
  then have "same_line running s (snd (ops_get_mctrl ops s2))"
    by (rule same_trans [OF _ keeps_get_mctrl])
  then show ?thesis
    using pass unfolding btr_pass_def Let_def s2_def [symmetric] by (auto simp: split_beta split: if_splits)
qed

lemma attach_fields:
  "port_tty (open_attach s)" "driver_data (tty (open_attach s))" "count (open_attach s) = count s"
  "blocked_open (open_attach s) = blocked_open s" "tty_count (tty (open_attach s)) = tty_count (tty s)"
  "normal_active (open_attach s) = normal_active s" "line_inv running s \<Longrightarrow> line_inv running (open_attach s)" "line_tied (open_attach s)"
  by (auto simp: open_attach_def line_inv_def line_tied_def)

text \<open>The line after it was started for a new opener.\<close>

lemma started_fields:
  assumes "uart_get intr s = Inr s0" and "line_inv running s"
    and "uart_startup ops page admin False
      (if count (open_attach s0) = 1 then uart_change_pm ops 0 (open_attach s0) else open_attach s0) = Inr (r, s1)"
  shows "line_inv running s1 \<and> line_tied s1 \<and> port_tty s1 \<and> driver_data (tty s1) \<and> count s1 = count s + 1
    \<and> blocked_open s1 = blocked_open s \<and> tty_count (tty s1) = tty_count (tty s) \<and> normal_active s1 = normal_active s"
proof -
  have s0: "s0 = s\<lparr>count := count s + 1\<rparr>"
    using assms(1) by (auto simp: uart_get_def split: if_splits)
  have inv: "line_inv running (open_attach s0)"
    using assms(2) s0 by (intro attach_fields) (simp add: line_inv_def)
  have "tame (open_attach s0) s1"
    by (rule tame_trans [OF same_tame [OF same_ifI [OF same_pm same_refl]] calm_tame [OF calm_startup [OF assms(3)]]])
  then show ?thesis
    using inv s0 by (simp add: tame_def attach_fields)
qed

lemma btr_loop_nil:
  "btr_loop ops nonblock signal hu [] s =
     (case btr_pass ops nonblock hu s of (b, s1) \<Rightarrow> if b then Some (signal, hu, s1) else None)"
  by (subst btr_loop.simps) (simp split: prod.split bool.split)

lemma block_now:
  assumes "uart_block_til_ready ops nonblock signal hu [] s = Some (r, s')"
  shows "same_line running s s' \<and> (r = 0 \<longrightarrow> port_tty s')"
proof -
  obtain b s1 where p: "btr_pass ops nonblock hu (btr_enter s) = (b, s1)"
    by fastforce
  have b: b
    using assms p by (cases b) (simp_all add: uart_block_til_ready_def btr_loop_nil)
  have e: "btr_leave signal hu s1 = (r, s')"
    using assms p b by (simp add: uart_block_til_ready_def btr_loop_nil)
  have s1: "same_line running (btr_enter s) s1"
    using p by (rule pass_same)
  have s': "s' = s1\<lparr>count := count s1 + 1, blocked_open := blocked_open s1 - 1\<rparr>"
    using e by (simp add: btr_leave_def)
  have "r = 0 \<longrightarrow> port_tty s1"
    using e by (auto simp: btr_leave_def split: if_splits)
  then show ?thesis
    using s1 by (simp add: s' btr_enter_def same_line_def steady_def)
qed

lemma open_fields:
  assumes "oe_wakes oe = []" and "oe_line_ok oe" and "uart_get (oe_interrupted oe) s = Inr s0"
    and "uart_open ops cons oe s = Inr (Some (r, cons', s'))" and "line_inv running s"
  shows "line_inv running s' \<and> line_tied s' \<and> port_tty s' \<and> driver_data (tty s') \<and> count s' = count s + (if oe_hung_up oe then 0 else 1)
    \<and> blocked_open s' = blocked_open s \<and> tty_count (tty s') = tty_count (tty s)
    \<and> normal_active s' = (r = 0 \<or> normal_active s) \<and> (oe_hung_up oe \<longrightarrow> r \<noteq> 0)"
proof (cases "oe_hung_up oe")
  case True
  have s0: "s0 = s\<lparr>count := count s + 1\<rparr>"
    using assms(3) by (auto simp: uart_get_def split: if_splits)
  have "line_inv running (open_attach s0)"
    using assms(5) s0 by (intro attach_fields) (simp add: line_inv_def)
  then have "line_inv running ((open_attach s0)\<lparr>count := count s\<rparr>)"
    by (simp add: line_inv_def)
  moreover have "line_tied ((open_attach s0)\<lparr>count := count s\<rparr>)"
    using attach_fields(8) [of s0] by (simp add: line_tied_def)
  moreover have "r = - EAGAIN" "s' = (open_attach s0)\<lparr>count := count s\<rparr>"
    using assms(2,3,4) True s0 by (auto simp: uart_open_def Let_def attach_fields)
  ultimately show ?thesis
    using True s0 by (simp add: attach_fields)
next
  case False
  let ?s1 = "if count (open_attach s0) = 1 then uart_change_pm ops 0 (open_attach s0) else open_attach s0"
  obtain r2 s2 where st: "uart_startup ops (env_page (oe_env oe)) (env_admin (oe_env oe)) False ?s1 = Inr (r2, s2)"
    using assms(2,3,4) False by (auto simp: uart_open_def Let_def split: sum.splits)
  note f = started_fields [OF assms(3,5) st]
  have "\<exists>r3 s3. same_line running s2 s3 \<and> open_adjust ops cons r3 s3 = Inr (Some (r, cons', s'))"
  proof (cases "r2 = 0")
    case True
    obtain r3 s3 where "uart_block_til_ready ops (oe_nonblock oe) (oe_signal oe) False [] s2 = Some (r3, s3)"
      "open_adjust ops cons r3 s3 = Inr (Some (r, cons', s'))"
      using assms(1-4) False st True by (auto simp: uart_open_def Let_def split: option.splits)
    then show ?thesis
      using block_now by blast
  next
    case False
    then show ?thesis
      using assms(1-4) st \<open>\<not> oe_hung_up oe\<close> by (auto simp: uart_open_def Let_def intro!: exI [of _ s2])
  qed
  then obtain r3 s3 where 3: "same_line running s2 s3" "open_adjust ops cons r3 s3 = Inr (Some (r, cons', s'))"
    by blast
  have "same_line running (s3\<lparr>normal_active := (r = 0 \<or> normal_active s3)\<rparr>) s'"
    using adjust_fields [OF 3(2)] by simp
  then show ?thesis
    using 3(1) f False by (simp add: same_line_def line_inv_def line_tied_def)
qed

section \<open>Steps\<close>

text \<open>
  Closing one of \<open>n + 1\<close> users of the line, next to \<open>k\<close> other files of the terminal. \<open>exact\<close> tells whether the count of openers can be relied on.
\<close>

lemma closed_fields:
  assumes "uart_close ops cons ce s = Some s'" and "\<not> ce_hung_up ce" and "close_quiet running ce"
    and "driver_data (tty s)" and "line_inv running s" and "line_tied s" and "tty_count (tty s) = int (n + k) + 1"
    and "exact \<longrightarrow> int n + 1 \<le> count s \<and> (0 < n \<longrightarrow> port_tty s \<and> normal_active s)"
  shows "line_inv running s' \<and> line_tied s' \<and> blocked_open s' = blocked_open s \<and> tty_count (tty s') = tty_count (tty s)
    \<and> driver_data (tty s') \<and> (exact \<longrightarrow> int n \<le> count s' \<and> (0 < n \<longrightarrow> port_tty s' \<and> normal_active s'))"
proof -
  note c = close_open_file [OF assms(1-5)]
  have n: "exact \<longrightarrow> int n \<le> close_count s"
    using assms(7,8) by (auto simp: close_count_def Let_def)
  show ?thesis
  proof (cases "close_count s = 0")
    case True
    then show ?thesis
      using c n assms(6) by simp
  next
    case False
    then have s': "s' = s\<lparr>count := close_count s\<rparr>"
      using c by simp
    show ?thesis
      using n assms(4,5,6,8) c unfolding s' by simp
  qed
qed

lemma tty_inv [simp]:
  "line_inv running (s\<lparr>tty := t\<rparr>) = line_inv running s"
  "driver_data t = driver_data (tty s) \<Longrightarrow> line_tied (s\<lparr>tty := t\<rparr>) = line_tied s"
  by (simp_all add: line_inv_def line_tied_def)

lemma leave_fields:
  assumes "btr_leave signal hu s = (r, s')"
  shows "s' = s\<lparr>count := count s + 1, blocked_open := blocked_open s - 1\<rparr>" "r = 0 \<Longrightarrow> port_tty s"
  using assms by (auto simp: btr_leave_def split: if_splits)

lemma inv_counts [simp]:
  "line_inv running (s\<lparr>count := a, blocked_open := b\<rparr>) = line_inv running s"
  "line_tied (s\<lparr>count := a, blocked_open := b\<rparr>) = line_tied s"
  by (simp_all add: line_inv_def line_tied_def)

lemma open_fail_inv:
  assumes "sys_inv running sy" and "oe_wakes oe = []" and "oe_line_ok oe"
    and "uart_get (oe_interrupted oe) (add_tty 1 (sy_line sy)) = Inr s0"
    and "uart_open ops (sy_cons sy) oe (add_tty 1 (sy_line sy)) = Inr (Some (r, cons, s))" and "r \<noteq> 0"
    and "ce_hung_up ce = oe_hung_up oe" and "close_quiet running ce" and "uart_close ops cons ce s = Some s'"
  shows "sys_inv running (sy\<lparr>sy_line := add_tty (-1) s', sy_cons := cons\<rparr>)"
proof -
  have f: "line_inv running s \<and> line_tied s \<and> port_tty s \<and> driver_data (tty s)
      \<and> count s = count (sy_line sy) + (if oe_hung_up oe then 0 else 1)
      \<and> blocked_open s = blocked_open (sy_line sy) \<and> tty_count (tty s) = tty_count (tty (sy_line sy)) + 1
      \<and> normal_active s = normal_active (sy_line sy)"
    using open_fields [OF assms(2-5)] assms(1,6) by (simp add: sys_inv_def)
  show ?thesis
  proof (cases "oe_hung_up oe")
    case True
    then have "s' = s"
      using assms(7,9) close_hung_stays by simp
    then show ?thesis
      using assms(1) f True by (simp add: sys_inv_def sy_all_def)
  next
    case False
    have "line_inv running s' \<and> line_tied s' \<and> blocked_open s' = blocked_open s \<and> tty_count (tty s') = tty_count (tty s)
        \<and> driver_data (tty s') \<and> (sy_refused sy = 0 \<longrightarrow> int (sy_files sy) \<le> count s'
          \<and> (0 < sy_files sy \<longrightarrow> port_tty s' \<and> normal_active s'))"
      using f False assms(1,7)
      by (intro closed_fields [OF assms(9) _ assms(8), where k = "sy_hung sy + sy_sleeping sy + sy_hung_sleeping sy"])
        (simp_all add: sys_inv_def sy_all_def)
    then show ?thesis
      using assms(1) f by (simp add: sys_inv_def sy_all_def)
  qed
qed

text \<open>A refused open does not touch the line; its close may.\<close>

lemma refused_stays:
  assumes "\<not> oe_line_ok oe \<or> uart_get (oe_interrupted oe) s = Inl err"
    and "uart_open ops cons oe s = Inr (Some (r, cons', s'))"
  shows "s' = s" "cons' = cons" "r \<noteq> 0"
  using assms by (auto simp: uart_open_def uart_get_def split: if_splits)

lemma open_refused_inv:
  assumes "sys_inv running sy" and "close_quiet running ce" and "uart_close ops cons ce (add_tty 1 (sy_line sy)) = Some s'"
  shows "sys_inv running (sy\<lparr>sy_line := add_tty (-1) s', sy_cons := cons, sy_refused := sy_refused sy + 1\<rparr>)"
proof (cases "driver_data (tty (sy_line sy)) \<and> \<not> ce_hung_up ce")
  case True
  have "line_inv running s' \<and> line_tied s' \<and> blocked_open s' = blocked_open (add_tty 1 (sy_line sy))
      \<and> tty_count (tty s') = tty_count (tty (add_tty 1 (sy_line sy))) \<and> driver_data (tty s') \<and> (False \<longrightarrow> int (sy_all sy) \<le> count s'
        \<and> (0 < sy_all sy \<longrightarrow> port_tty s' \<and> normal_active s'))"
    using True assms(1) by (intro closed_fields [OF assms(3) _ assms(2), where k = 0]) (simp_all add: sys_inv_def)
  then show ?thesis
    using assms(1) True by (simp add: sys_inv_def sy_all_def)
next
  case False
  then have "s' = add_tty 1 (sy_line sy)"
    using assms(3) by (auto simp: uart_close_def)
  then show ?thesis
    using assms(1) by (simp add: sys_inv_def sy_all_def)
qed

lemma sys_inv_tame:
  assumes "sys_inv running sy" and "tame (sy_line sy) s" and "sd_inv d"
  shows "sys_inv running (sy\<lparr>sy_line := s, sy_daemon := d\<rparr>)"
  using assms by (simp add: sys_inv_def tame_def sy_all_def)

lemma sys_inv_line:
  assumes "sys_inv running sy" and "tame (sy_line sy) s"
  shows "sys_inv running (sy\<lparr>sy_line := s\<rparr>)"
  using assms by (simp add: sys_inv_def tame_def sy_all_def)

lemma tty_step_inv:
  assumes "tty_step ops running sy sy'" and "sys_inv running sy"
  shows "sys_inv running sy'"
  using assms
proof (cases rule: tty_step.cases)
  case (New_tty t)
  then show ?thesis
    using assms(2) by (auto simp: sys_inv_def sy_all_def line_inv_def line_tied_def)
next
  case (Open_ok oe cons s)
  obtain s0 where get: "oe_line_ok oe" "uart_get (oe_interrupted oe) (add_tty 1 (sy_line sy)) = Inr s0"
    using Open_ok(3) by (auto simp: uart_open_def uart_get_def split: if_splits sum.splits)
  from open_fields [OF Open_ok(2) get Open_ok(3)] show ?thesis
    using assms(2) unfolding Open_ok(1) by (auto simp: sys_inv_def sy_all_def split: if_splits)
next
  case (Open_fail oe s0 r cons s ce s')
  then show ?thesis
    using open_fail_inv [OF assms(2)] by blast
next
  case (Open_refused oe err r cons s ce s')
  have "s = add_tty 1 (sy_line sy)"
    using refused_stays(1) [OF Open_refused(2,3)] .
  then show ?thesis
    using open_refused_inv [OF assms(2) Open_refused(4)] Open_refused(1,5) by simp
next
  case (Open_sleep s0 page admin s1 nonblock s2)
  have "line_inv running (add_tty 1 (sy_line sy))"
    using assms(2) by (simp add: sys_inv_def)
  note f = started_fields [OF Open_sleep(2) this Open_sleep(3)]
  have "same_line running (btr_enter s1) s2"
    using Open_sleep(4) by (rule pass_same)
  then show ?thesis
    using f assms(2) unfolding Open_sleep(1) by (auto simp: sys_inv_def sy_all_def same_line_def btr_enter_def line_inv_def line_tied_def)
next
  case (Wake_again nonblock s)
  then show ?thesis
    using sys_inv_line [OF assms(2) same_tame [OF pass_same]] by blast
next
  case (Wake_ok nonblock s signal s1 cons s2)
  have 1: "same_line running (sy_line sy) s"
    using Wake_ok(3) by (rule pass_same)
  note l = leave_fields [OF Wake_ok(4)]
  have 2: "same_line running (s1\<lparr>normal_active := True\<rparr>) s2"
    using adjust_fields [OF Wake_ok(5)] by simp
  have "int (sy_sleeping sy - 1) = int (sy_sleeping sy) - 1"
    using Wake_ok(2) by simp
  then show ?thesis
    using 1 2 l(2) assms(2) Wake_ok(2) unfolding Wake_ok(1) l(1)
    by (simp add: sys_inv_def sy_all_def same_line_def line_inv_def line_tied_def)
next
  case (Wake_fail signal s nonblock r s1 ce s2)
  have 1: "same_line running (sy_line sy) s"
    using Wake_fail(3) pass_same by auto
  note l = leave_fields(1) [OF Wake_fail(4)]
  have k: "int (sy_sleeping sy - 1) = int (sy_sleeping sy) - 1"
    using Wake_fail(2) by simp
  have inv: "line_inv running s1"
    using assms(2) same_line_inv [OF 1] by (simp add: l sys_inv_def)
  have tied: "line_tied s1"
    using assms(2) same_line_tied [OF 1] by (simp add: l sys_inv_def)
  have "line_inv running s2 \<and> line_tied s2 \<and> blocked_open s2 = blocked_open s1
      \<and> tty_count (tty s2) = tty_count (tty s1) \<and> driver_data (tty s2)
      \<and> (sy_refused sy = 0 \<longrightarrow> int (sy_files sy) \<le> count s2 \<and> (0 < sy_files sy \<longrightarrow> port_tty s2 \<and> normal_active s2))"
    using 1 assms(2) Wake_fail(2) k
    by (intro closed_fields [OF Wake_fail(8,6,7) _ inv tied, where k = "sy_hung sy + (sy_sleeping sy - 1) + sy_hung_sleeping sy"])
      (simp_all add: l sys_inv_def sy_all_def same_line_def)
  then show ?thesis
    using 1 k assms(2) Wake_fail(2) unfolding Wake_fail(1) by (simp add: l sys_inv_def sy_all_def same_line_def)
next
  case (Wake_hung signal r s1 ce s2)
  have k: "int (sy_hung_sleeping sy - 1) = int (sy_hung_sleeping sy) - 1"
    using Wake_hung(2) by simp
  have "s2 = s1"
    using close_hung_stays Wake_hung(4,5) by blast
  then show ?thesis
    using assms(2) k Wake_hung(2) leave_fields(1) [OF Wake_hung(3)] unfolding Wake_hung(1)
    by (auto simp: sys_inv_def sy_all_def)
next
  case (Close ce s)
  have k: "int (sy_files sy - 1) = int (sy_files sy) - 1"
    using Close(2) by simp
  have "line_inv running s \<and> line_tied s \<and> blocked_open s = blocked_open (sy_line sy)
      \<and> tty_count (tty s) = tty_count (tty (sy_line sy)) \<and> driver_data (tty s)
      \<and> (sy_refused sy = 0 \<longrightarrow> int (sy_files sy - 1) \<le> count s \<and> (0 < sy_files sy - 1 \<longrightarrow> port_tty s \<and> normal_active s))"
    using assms(2) Close(2) k
    by (intro closed_fields [OF Close(5,3,4), where k = "sy_hung sy + sy_sleeping sy + sy_hung_sleeping sy"])
      (simp_all add: sys_inv_def sy_all_def)
  then show ?thesis
    using assms(2) k Close(2) unfolding Close(1) by (simp add: sys_inv_def sy_all_def)
next
  case (Close_hung ce s)
  have k: "int (sy_hung sy - 1) = int (sy_hung sy) - 1"
    using Close_hung(2) by simp
  have "s = sy_line sy"
    using close_hung_stays Close_hung(3,4) by blast
  then show ?thesis
    using assms(2) k Close_hung(2) unfolding Close_hung(1) by (simp add: sys_inv_def sy_all_def)
next
  case Hangup
  have "line_inv running (sy_line sy)" "driver_data (tty (sy_line sy))"
    using assms(2) Hangup(2) by (simp_all add: sys_inv_def)
  from hangup_fields [OF this] show ?thesis
    using assms(2) unfolding Hangup(1) by (auto simp: sys_inv_def sy_all_def)
next
  case (Op s d)
  have "sd_inv d"
    using op_daemon [OF Op(3)] assms(2) by (simp add: sys_inv_def line_inv_def)
  then show ?thesis
    using sys_inv_tame [OF assms(2) op_tame [OF Op(3)]] Op(1) by simp
next
  case (Irq s)
  then show ?thesis
    using sys_inv_line [OF assms(2) same_tame] by blast
next
  case (Irq_wakeup s)
  then have "tame (sy_line sy) s"
    by (auto simp: uart_write_wakeup_def tame_def line_inv_def line_tied_def split: if_splits)
  then show ?thesis
    using sys_inv_line [OF assms(2)] Irq_wakeup(1) by simp
next
  case (Tasklet s)
  then have "tame (sy_line sy) s"
    by (auto simp: uart_tasklet_action_def tty_wakeup_def tame_def line_inv_def line_tied_def split: if_splits)
  then show ?thesis
    using sys_inv_line [OF assms(2)] Tasklet(1) by simp
qed

lemma tty_steps_inv:
  assumes "(tty_step ops running)\<^sup>*\<^sup>* sy sy'" and "sys_inv running sy"
  shows "sys_inv running sy'"
  using assms by (induction rule: rtranclp_induct) (auto intro: tty_step_inv)

section \<open>A port that was just added\<close>

lemma same_configure: "same_line running s (snd (uart_configure_port ops reg cons s))"
proof -
  define s1 where "s1 = on_port (autoconf_port ops) s"
  have 1: "same_line running s s1"
    by (simp add: s1_def same_line_def autoconf_port_def keeps)
  define s3 where "s3 = on_port (\<lambda>p. ops_set_mctrl ops (mctrl p AND TIOCM_DTR) p) (uart_change_pm ops 0 s1)"
  have "same_line running (uart_change_pm ops 0 s1) s3"
    by (simp add: s3_def same_line_def keeps)
  from same_trans [OF same_trans [OF 1 same_pm] this] have 3: "same_line running s s3" .
  have 4: "same_line running s (uart_change_pm ops 3 s3)"
    by (rule same_trans [OF 3 same_pm])
  show ?thesis
    unfolding uart_configure_port_def Let_def s1_def [symmetric] s3_def [symmetric] if_distrib [of snd] snd_conv
    by (intro same_ifI same_refl 1 3 4)
qed

lemma add_port_inv:
  assumes "\<not> running (hw p)"
  shows "line_inv running (snd (add_port_line ops reg cons p (fresh_line q)))"
    "line_tied (snd (add_port_line ops reg cons p (fresh_line q)))"
    "count (snd (add_port_line ops reg cons p (fresh_line q))) = 0"
    "blocked_open (snd (add_port_line ops reg cons p (fresh_line q))) = 0"
    "tty_count (tty (snd (add_port_line ops reg cons p (fresh_line q)))) = 0"
proof -
  define s where "s = (fresh_line q)\<lparr>port_present := True, pm_state := -1,
    uport := p\<lparr>has_cons := (cons \<noteq> None), has_state := True\<rparr>\<rparr>"
  have "line_inv running s"
    using assms by (simp add: s_def fresh_line_def line_inv_def xmit_ok_def)
  moreover have "same_line running (snd (uart_configure_port ops reg cons s)) (snd (add_port_line ops reg cons p (fresh_line q)))"
    by (simp add: add_port_line_def s_def Let_def split_beta same_line_def)
  from same_trans [OF same_configure this]
  have same: "same_line running s (snd (add_port_line ops reg cons p (fresh_line q)))" .
  ultimately show "line_inv running (snd (add_port_line ops reg cons p (fresh_line q)))"
    using same_line_inv by blast
  show "line_tied (snd (add_port_line ops reg cons p (fresh_line q)))"
    using same_line_tied [OF same] by (simp add: s_def fresh_line_def line_tied_def)
  show "count (snd (add_port_line ops reg cons p (fresh_line q))) = 0"
    "blocked_open (snd (add_port_line ops reg cons p (fresh_line q))) = 0"
    "tty_count (tty (snd (add_port_line ops reg cons p (fresh_line q)))) = 0"
    using same by (simp_all add: same_line_def s_def fresh_line_def zero_tty_def)
qed

end

end
