(* ===== verification/Uart_8250_Contract.thy ===== *)
theory Uart_8250_Contract
  imports Uart_8250_View Uart_Run_Inv
begin

text \<open>
  The 8250 driver meets the contract of the serial core, whatever the device does and the kernel answers: a port is on
  its interrupt's chain exactly after a start that succeeded and until it is shut down.
\<close>

section \<open>What keeps a port on its chain\<close>

lemma linked_startup_link: "\<not> linked (hw p) \<Longrightarrow> linked (hw (snd (startup_link e p))) \<longleftrightarrow> fst (startup_link e p) = 0"
  by (simp add: startup_link_def link_irq_def Let_def)

lemma linked_startup:
  assumes "\<not> linked (hw p)" and "serial8250_startup e p = (r, q)"
  shows "linked (hw q) \<longleftrightarrow> r = 0"
proof -
  obtain bad p2 where 2: "(if has_bits (flags (startup_wake e p)) UPF_BUGGY_UART then (False, startup_wake e p)
      else (case serial_in e REG_LSR (startup_wake e p) of (lsr, q) \<Rightarrow> (lsr = 0xFF, q))) = (bad, p2)"
    by fastforce
  have p2: "\<not> linked (hw p2)"
    using assms(1) arg_cong [OF 2, of "\<lambda>x. linked (hw (snd x))"] by (simp add: split_beta split: if_splits)
  define p3 where "p3 = startup_timer (startup_thre_test e (startup_16850 e p2))"
  have p3: "\<not> linked (hw p3)"
    using p2 by (simp add: p3_def)
  obtain r' p4 where 4: "startup_link e p3 = (r', p4)"
    by fastforce
  have "(r, q) = (if bad then (- ENODEV, p2) else if r' \<noteq> 0 then (r', p4) else (0, startup_init e p4))"
    using assms(2) unfolding serial8250_startup_def Let_def 2 case_prod_conv p3_def [symmetric] 4 by simp
  moreover have "linked (hw p4) \<longleftrightarrow> r' = 0"
    using linked_startup_link [OF p3, of e] 4 by simp
  ultimately show ?thesis
    using p2 by (auto split: if_splits)
qed

lemma linked_shutdown: "\<not> linked (hw (serial8250_shutdown e p))"
  by (simp add: serial8250_shutdown_def Let_def split_beta)

section \<open>What keeps a line\<close>

lemma same_on_port:
  "linked (hw (f (uport s))) = linked (hw (uport s)) \<Longrightarrow> has_state (f (uport s)) = has_state (uport s) \<Longrightarrow> same_line linked s (on_port f s)"
  by (simp add: same_line_def)

lemma same_new_port:
  "linked (hw p) = linked (hw (uport s)) \<Longrightarrow> has_state p = has_state (uport s) \<Longrightarrow> same_line linked s (s\<lparr>uport := p\<rparr>)"
  by (simp add: same_line_def)

lemma same_wakeup: "uart_write_wakeup s = Inr s' \<Longrightarrow> port_tty s \<Longrightarrow> same_line linked s s'"
  by (auto simp: uart_write_wakeup_def same_line_def split: if_splits)

lemma same_unsteady: "\<not> steady s \<Longrightarrow> same_line linked s (s\<lparr>crashed := True\<rparr>)"
  by (simp add: same_line_def)

lemma same_survive:
  assumes "\<And>s'. r = Inr s' \<Longrightarrow> same_line linked s s'" and "\<And>f. r = Inl f \<Longrightarrow> \<not> steady s"
  shows "same_line linked s (survive s r)"
  using assms same_unsteady by (cases r) simp_all

lemma same_port_tty: "same_line running s s' \<Longrightarrow> port_tty s' = port_tty s"
  by (simp add: same_line_def)

lemma same_tx_loop: "same_line linked s (tx_loop e buf n s)"
proof (induction n arbitrary: s)
  case (Suc n)
  define s1 where "s1 = on_port (\<lambda>p. count_tx (serial_out e REG_TX (buf ! circ_tail (xmit s)) p)) s"
  have 1: "same_line linked s s1"
    unfolding s1_def by (rule same_on_port) (simp_all only: lk.view_stop lk.view_out hs.view_stop hs.view_out)
  define s2 where "s2 = s1\<lparr>xmit := (xmit s1)\<lparr>circ_tail := (circ_tail (xmit s1) + 1) mod UART_XMIT_SIZE\<rparr>\<rparr>"
  have "same_line linked s1 s2"
    by (simp add: s2_def same_line_def xmit_ok_def)
  from same_trans [OF 1 this] have 2: "same_line linked s s2" .
  have "tx_loop e buf (Suc n) s = (if uart_circ_empty (xmit s2) then s2 else tx_loop e buf n s2)"
    by (simp only: tx_loop.simps Let_def s1_def s2_def)
  then show ?case
    using 2 same_trans [OF 2 Suc.IH] by (simp only: same_ifI)
qed simp

lemma same_transmit:
  assumes "transmit_chars e s = Inr s'"
  shows "same_line linked s s'"
proof (cases "x_char (uport s) \<noteq> 0 \<or> e_tx_stopped e (tty s) \<or> uart_circ_empty (xmit s)")
  case True
  then show ?thesis
    using assms by (auto simp: transmit_chars_def intro!: same_on_port split: if_splits)
next
  case False
  with assms obtain buf where tty: "port_tty s" and st: "has_state (uport s)" and buf: "circ_data (xmit s) = Some buf"
    by (auto simp: transmit_chars_def split: if_splits option.splits)
  define s1 where "s1 = tx_loop e buf (max 1 (nat (sint (tx_loadsz (hw (uport s)))))) s"
  have 1: "same_line linked s s1"
    unfolding s1_def by (rule same_tx_loop)
  define w where "w = (if uart_circ_chars_pending (xmit s1) < WAKEUP_CHARS then uart_write_wakeup s1 else Inr s1)"
  have eq: "transmit_chars e s = (case w of Inl f \<Rightarrow> Inl f
      | Inr s2 \<Rightarrow> Inr (if uart_circ_empty (xmit s2) then on_port (stop_tx_ier e) s2 else s2))"
    using False tty st unfolding transmit_chars_def Let_def buf option.case s1_def [symmetric] w_def [symmetric] by simp
  with assms obtain s2 where w: "w = Inr s2" and s': "s' = (if uart_circ_empty (xmit s2) then on_port (stop_tx_ier e) s2 else s2)"
    by (auto split: sum.splits)
  have "same_line linked s1 s2"
    using w same_wakeup [of s1 s2] tty same_port_tty [OF 1] by (auto simp: w_def split: if_splits)
  from same_trans [OF 1 this] have 2: "same_line linked s s2" .
  show ?thesis
    using 2 same_trans [OF 2 same_on_port, of "stop_tx_ier e"] s' by simp
qed

lemma transmit_returns:
  assumes "port_tty s" and "has_state (uport s)" and "circ_data (xmit s) \<noteq> None"
  shows "\<exists>s'. transmit_chars e s = Inr s'"
  using assms by (auto simp: transmit_chars_def uart_write_wakeup_def Let_def split: sum.splits)

lemma same_start_tx: "same_line linked s (serial8250_start_tx e s)"
proof -
  define sa where "sa = on_port (\<lambda>p. let q = on_hw (\<lambda>h. h\<lparr>ier := ier h OR IER_THRI\<rparr>) p in serial_out e REG_IER (ier (hw q)) q) s"
  have sa: "same_line linked s sa"
    unfolding sa_def Let_def by (rule same_on_port) simp_all
  obtain lsr p where p: "serial_in e REG_LSR (uport sa) = (lsr, p)"
    by fastforce
  define sb where "sb = sa\<lparr>uport := on_hw (\<lambda>h. h\<lparr>lsr_saved_flags := lsr_saved_flags h OR (lsr AND LSR_BRK_ERROR)\<rparr>) p\<rparr>"
  have sb: "same_line linked s sb"
    unfolding sb_def
    by (rule same_trans [OF sa same_new_port]) (use lk.view_in [of e REG_LSR "uport sa"] hs.view_in [of e REG_LSR "uport sa"] p in simp_all)
  define sc where "sc = survive sb (transmit_chars e sb)"
  have sc: "same_line linked s sc"
    unfolding sc_def
    by (rule same_trans [OF sb same_survive]) (use same_transmit [of e sb] transmit_returns [of sb e] in \<open>force simp: steady_def\<close>)+
  have last: "same_line linked s (on_port (\<lambda>p. let q = on_hw (\<lambda>h. h\<lparr>acr := acr h AND NOT ACR_TXDIS\<rparr>) p
      in serial_icr_write e ICR_ACR (acr (hw q)) q) s')" if "same_line linked s s'" for s'
    unfolding Let_def by (rule same_trans [OF that same_on_port]) simp_all
  show ?thesis
    unfolding serial8250_start_tx_def Let_def sa_def [symmetric, unfolded Let_def] p case_prod_conv sb_def [symmetric] sc_def [symmetric]
    by (intro same_ifI last [unfolded Let_def] sa sb sc same_refl)
qed

lemma same_hw_flow: "same_line linked s (on_tty (\<lambda>t. t\<lparr>hw_stopped := b\<rparr>) s)"
  by (simp add: same_line_def)

lemma same_cts_change: "same_line linked s (cts_change e cts s)"
proof -
  define s1 where "s1 = on_port (\<lambda>p. p\<lparr>icount := e_cts_count e (icount p)\<rparr>) s"
  have 1: "same_line linked s s1"
    unfolding s1_def by (rule same_on_port) simp_all
  define s2 where "s2 = serial8250_start_tx e (on_tty (\<lambda>t. t\<lparr>hw_stopped := False\<rparr>) s1)"
  have 2: "same_line linked s1 s2"
    unfolding s2_def by (rule same_trans [OF same_hw_flow same_start_tx])
  have wake: "same_line linked s1 (survive s2 (uart_write_wakeup s2))" if "port_tty s1"
    using that same_port_tty [OF 2]
    by (intro same_trans [OF 2 same_survive] same_wakeup) (auto simp: uart_write_wakeup_def steady_def split: if_splits)
  have stop: "same_line linked s1 (on_port (serial8250_stop_tx e) (on_tty (\<lambda>t. t\<lparr>hw_stopped := True\<rparr>) s1))"
    by (rule same_trans [OF same_hw_flow same_on_port]) simp_all
  have "same_line linked s1 (if e_cts e cts s1 \<noteq> Cts_none \<and> \<not> port_tty s1 then s1\<lparr>crashed := True\<rparr> else (case e_cts e cts s1 of
        Cts_none \<Rightarrow> s1
      | Cts_start \<Rightarrow> survive s2 (uart_write_wakeup s2)
      | Cts_stop \<Rightarrow> on_port (serial8250_stop_tx e) (on_tty (\<lambda>t. t\<lparr>hw_stopped := True\<rparr>) s1)))"
    using wake stop same_unsteady [of s1] by (cases "e_cts e cts s1"; cases "port_tty s1") (simp_all add: steady_def)
  from same_trans [OF 1 this] show ?thesis
    unfolding cts_change_def Let_def s1_def s2_def .
qed

lemma same_modem_status: "same_line linked s (snd (check_modem_status e s))"
proof -
  obtain v p where p: "serial_in e REG_MSR (uport s) = (v, p)"
    by fastforce
  define p1 where "p1 = on_hw (\<lambda>h. h\<lparr>msr_saved_flags := 0\<rparr>) p"
  have 1: "same_line linked s (s\<lparr>uport := p1\<rparr>)"
    by (rule same_new_port) (use lk.view_in [of e REG_MSR "uport s"] hs.view_in [of e REG_MSR "uport s"] p in \<open>simp_all add: p1_def\<close>)
  have cnt: "same_line linked s (if c then on_port (\<lambda>q. q\<lparr>icount := f (icount q)\<rparr>) s' else s')"
    if "same_line linked s s'" for c f s'
    using that same_trans [OF that same_on_port, of "\<lambda>q. q\<lparr>icount := f (icount q)\<rparr>"] by simp
  have cts: "same_line linked s (if c then cts_change e b s' else s')" if "same_line linked s s'" for c b s'
    using that same_trans [OF that same_cts_change] by (simp only: same_ifI)
  show ?thesis
    unfolding check_modem_status_def Let_def p case_prod_conv p1_def [symmetric] if_distrib [of snd] snd_conv
    by (intro same_ifI cts cnt 1)
qed

section \<open>The driver meets the contract\<close>

interpretation s8250: uart_lowlevel "serial8250_pops e" linked for e :: "'d env8250"
proof unfold_locales
  show "same_line linked s (ops_start_tx (serial8250_pops e) s)" for s
    by (simp add: serial8250_pops_def same_start_tx)
  show "same_line linked s (snd (ops_get_mctrl (serial8250_pops e) s))" for s
    using same_modem_status [of s e] by (simp add: serial8250_pops_def serial8250_get_mctrl_def split_beta)
  show "linked (hw q) = (r = 0)" if "\<not> linked (hw p)" "ops_startup (serial8250_pops e) p = (r, q)" for p r q
    using linked_startup [OF that(1)] that(2) by (simp add: serial8250_pops_def)
  show "linked (hw (h a b p)) = linked (hw p)" if "ops_pm (serial8250_pops e) = Some h" for h a b p
    using that by (auto simp: serial8250_pops_def serial8250_pm_def)
  show "has_state (h a b p) = has_state p" if "ops_pm (serial8250_pops e) = Some h" for h a b p
    using that by (auto simp: serial8250_pops_def serial8250_pm_def)
qed (simp_all add: serial8250_pops_def linked_shutdown lk.view_set_termios serial8250_tx_empty_def split_beta
    serial8250_release_port_def serial8250_request_port_def)

section \<open>The interrupt handler\<close>

text \<open>A line with a terminal, a page and the pointer from its port.\<close>

lemma receive_returns:
  assumes "port_tty s" and "has_state (uport s)"
  obtains v' p where "receive_chars e v s = Inr (v', s\<lparr>uport := p\<rparr>)" and "same_line linked s (s\<lparr>uport := p\<rparr>)"
proof -
  obtain v' p where p: "rx_loop e 256 v (uport s) = (v', p)"
    by fastforce
  show ?thesis
  proof (rule that)
    show "receive_chars e v s = Inr (v', s\<lparr>uport := p\<rparr>)"
      using assms p by (simp add: receive_chars_def)
    show "same_line linked s (s\<lparr>uport := p\<rparr>)"
      using lk.view_rx_loop [of e 256 v "uport s"] hs.view_rx_loop [of e 256 v "uport s"] p by (intro same_new_port) simp_all
  qed
qed

lemma handle_port_line:
  assumes "port_tty s" and "has_state (uport s)" and "circ_data (xmit s) \<noteq> None"
  obtains s' where "serial8250_handle_port e s = Inr s'" and "same_line linked s s'"
proof -
  obtain v p where 0: "serial_in e REG_LSR (uport s) = (v, p)"
    by fastforce
  define s0 where "s0 = s\<lparr>uport := p\<rparr>"
  have s0: "same_line linked s s0"
    unfolding s0_def by (rule same_new_port) (use lk.view_inD [OF 0] hs.view_inD [OF 0] in simp_all)
  have ok: "port_tty t \<and> has_state (uport t) \<and> circ_data (xmit t) \<noteq> None" if "same_line linked s t" for t
    using assms that by (simp add: same_line_def)
  obtain v1 s1 where 1: "(if has8 v (LSR_DR OR LSR_BI) then receive_chars e v s0 else Inr (v, s0)) = Inr (v1, s1)"
    and s1: "same_line linked s s1"
    using receive_returns [of s0 e v] ok [OF s0] same_trans [OF s0] s0 by metis
  define s2 where "s2 = snd (check_modem_status e s1)"
  have s2: "same_line linked s s2"
    unfolding s2_def by (rule same_trans [OF s1 same_modem_status])
  obtain s3 where s3: "transmit_chars e s2 = Inr s3"
    using transmit_returns [of s2 e] ok [OF s2] by blast
  have eq: "serial8250_handle_port e s = Inr (if has8 v1 LSR_THRE then s3 else s2)"
    unfolding serial8250_handle_port_def Let_def 0 case_prod_conv s0_def [symmetric] 1 sum.case s2_def [symmetric] s3 by simp
  show ?thesis
    by (rule that [OF eq]) (use s2 same_trans [OF s2 same_transmit [OF s3]] in simp)
qed

lemma isr_port_line:
  assumes "line_inv linked s" and "has_state (uport s)" and "linked (hw (uport s))"
  obtains work s' where "isr_port e s = Inr (work, s')" and "same_line linked s s'"
proof -
  obtain v p where 0: "serial_in e REG_IIR (uport s) = (v, p)"
    by fastforce
  have p: "linked (hw p) = linked (hw (uport s))" "has_state p = has_state (uport s)"
    using lk.view_inD [OF 0] hs.view_inD [OF 0] .
  then have 1: "same_line linked s (s\<lparr>uport := p\<rparr>)"
    by (rule same_new_port)
  have "port_tty (s\<lparr>uport := p\<rparr>)" "has_state (uport (s\<lparr>uport := p\<rparr>))" "circ_data (xmit (s\<lparr>uport := p\<rparr>)) \<noteq> None"
    using assms p by (simp_all add: line_inv_def)
  from handle_port_line [OF this] obtain s2 where 2: "serial8250_handle_port e (s\<lparr>uport := p\<rparr>) = Inr s2"
      "same_line linked (s\<lparr>uport := p\<rparr>) s2"
    by metis
  have 3: "same_line linked s (s\<lparr>uport := serial_out e REG_LCR (lcr (hw p)) (on_dev (e_read_usr e) p)\<rparr>)"
    by (rule same_new_port) (simp_all add: p)
  from isr_port_def [of e s, unfolded 0 case_prod_conv 2(1) map_sum.simps id_apply]
  obtain A B where "isr_port e s = (if A then Inr (True, s2) else if B
      then Inr (True, s\<lparr>uport := serial_out e REG_LCR (lcr (hw p)) (on_dev (e_read_usr e) p)\<rparr>) else Inr (False, s\<lparr>uport := p\<rparr>))"
    by (rule that)
  then show ?thesis
    by (cases A; cases B)
      (simp_all only: if_True if_False that [OF _ same_trans [OF 1 2(2)]] that [OF _ 3] that [OF _ 1])
qed

section \<open>What an interrupt does\<close>

text \<open>
  The chain without its end marker: the ports are served one after the other, round and round, and the work is over when as many visits in
  a row as there are ports have found nothing to do. \<open>n\<close> is the number of visits that are left.
\<close>

fun serve_ports :: "'d env8250 \<Rightarrow> nat \<Rightarrow> nat \<Rightarrow> nat \<Rightarrow> bool \<Rightarrow> 'd line8250 list \<Rightarrow> uart_fault + bool \<times> 'd line8250 list" where
  "serve_ports e 0 i quiet handled ls = Inr (handled, ls)"
| "serve_ports e (Suc n) i quiet handled ls =
     (if length ls \<le> quiet then Inr (handled, ls)
      else
        (case isr_port e (ls ! i) of
           Inl f \<Rightarrow> Inl f
         | Inr (work, s) \<Rightarrow>
             serve_ports e n (Suc i mod length ls) (if work then 0 else Suc quiet) (handled \<or> work) (ls[i := s])))"

lemma serve_quiet: "length ls \<le> quiet \<Longrightarrow> serve_ports e n i quiet handled ls = Inr (handled, ls)"
  by (cases n) simp_all

text \<open>
  How the end marker of the code counts: it stands where the current run of quiet visits began. The number of visits
  that are left follows from the number of rounds.
\<close>

definition marks :: "nat \<Rightarrow> nat \<Rightarrow> nat option \<Rightarrow> nat \<Rightarrow> bool" where
  "marks n i stop quiet \<longleftrightarrow>
     (case stop of None \<Rightarrow> quiet = 0 | Some t \<Rightarrow> t < n \<and> 0 < quiet \<and> quiet < n \<and> (t + quiet) mod n = i)"

lemma marks_next:
  fixes work :: bool
  assumes "marks n i stop quiet" and "i < n"
  defines "stop' \<equiv> (if work then None else if stop = None then Some i else stop)"
    and "quiet' \<equiv> (if work then 0 else Suc quiet)"
  shows "if stop' = Some (Suc i mod n) then n \<le> quiet' else marks n (Suc i mod n) stop' quiet'"
proof (cases "work \<or> stop = None")
  case True
  have "Suc i mod n = i \<longleftrightarrow> n = 1"
    using assms(2) by (cases "Suc i = n") auto
  then show ?thesis
    using True assms(1,2) by (auto simp: stop'_def quiet'_def marks_def)
next
  case False
  then obtain t where t: "stop = Some t" "t < n" "0 < quiet" "quiet < n" "(t + quiet) mod n = i"
    using assms(1) by (auto simp: marks_def split: option.splits)
  have next_mod: "Suc i mod n = (t + Suc quiet) mod n"
    using t(5) by (metis add_Suc_right mod_Suc_eq)
  show ?thesis
  proof (cases "Suc quiet = n")
    case True
    then show ?thesis
      using t next_mod False by (simp add: stop'_def quiet'_def)
  next
    case False
    then have less: "Suc quiet < n"
      using t(4) by simp
    have "(t + Suc quiet) mod n \<noteq> t"
    proof (cases "t + Suc quiet < n")
      case False
      then have "(t + Suc quiet) mod n = t + Suc quiet - n"
        using less t(2) by (simp add: le_mod_geq)
      then show ?thesis
        using less False by linarith
    qed simp
    then show ?thesis
      using t less next_mod \<open>\<not> (work \<or> stop = None)\<close> by (simp add: stop'_def quiet'_def marks_def)
  qed
qed

lemma isr_loop_serves:
  assumes "i < length ls" and "pass \<le> Suc PASS_LIMIT" and "marks (length ls) i stop quiet" and "quiet < length ls"
  shows "isr_loop e i stop pass handled ls = serve_ports e ((258 - pass) * length ls - i) i quiet handled ls"
  using assms
proof (induction e i stop pass handled ls arbitrary: quiet rule: isr_loop.induct)
  case (1 e i stop pass handled ls)
  let ?n = "length ls"
  define m where "m = (258 - pass) * ?n - Suc i"
  have "1 \<le> 258 - pass"
    using "1.prems"(2) by linarith
  then have "1 * ?n \<le> (258 - pass) * ?n"
    by (rule mult_le_mono1)
  then have m: "(258 - pass) * ?n - i = Suc m"
    using "1.prems"(1) unfolding m_def by linarith
  have in_range: "\<not> ?n \<le> i"
    using "1.prems"(1) by simp
  show ?case
  proof (cases "isr_port e (ls ! i)")
    case (Inl f)
    then show ?thesis
      using "1.prems" by (subst isr_loop.simps) (simp add: m)
  next
    case (Inr r)
    then obtain work s where s: "isr_port e (ls ! i) = Inr (work, s)"
      by (cases r) simp
    define stop' where "stop' = (if work then None else if stop = None then Some i else stop)"
    define quiet' where "quiet' = (if work then 0 else Suc quiet)"
    define j where "j = (if i + 1 = ?n then 0 else i + 1)"
    have j: "j = Suc i mod ?n"
      using "1.prems"(1) by (simp add: j_def)
    define pass' where "pass' = (if j = 0 then pass + 1 else pass)"
    have loop: "isr_loop e i stop pass handled ls =
        (if j = 0 \<and> pass > PASS_LIMIT then Inr (handled \<or> work, ls[i := s])
         else if stop' = Some j then Inr (handled \<or> work, ls[i := s])
         else isr_loop e j stop' pass' (handled \<or> work) (ls[i := s]))"
      unfolding isr_loop.simps [of e i] if_not_P [OF in_range] s sum.case case_prod_conv Let_def stop'_def j_def pass'_def by (rule refl)
    have serve: "serve_ports e (Suc m) i quiet handled ls = serve_ports e m j quiet' (handled \<or> work) (ls[i := s])"
      using "1.prems"(4) s by (simp add: quiet'_def j)
    note marked = marks_next [OF "1.prems"(3,1), of work, folded stop'_def quiet'_def j]
    consider (gives_up) "j = 0" "pass = 257" | (quiet) "stop' = Some j" | (goes_on) "\<not> (j = 0 \<and> pass > PASS_LIMIT)" "stop' \<noteq> Some j"
      using "1.prems"(2) by force
    then show ?thesis
    proof cases
      case gives_up
      then have "m = 0"
        using "1.prems"(1) by (simp add: m_def j_def split: if_splits)
      then show ?thesis
        using gives_up unfolding loop m serve by simp
    next
      case quiet
      then have "length (ls[i := s]) \<le> quiet'"
        using marked by simp
      from serve_quiet [OF this] show ?thesis
        using quiet unfolding loop m serve by simp
    next
      case goes_on
      have j_less: "j < ?n"
        using "1.prems"(1) by (auto simp: j_def)
      have p': "pass' \<le> Suc PASS_LIMIT"
        using goes_on(1) "1.prems"(2) by (auto simp: pass'_def)
      have mk: "marks ?n j stop' quiet'"
        using marked goes_on(2) by simp
      have q': "quiet' < ?n"
        using mk "1.prems"(1) by (auto simp: marks_def split: option.splits)
      have rest: "(258 - pass') * ?n - j = m"
      proof (cases "j = 0")
        case True
        then have "Suc i = ?n"
          using "1.prems"(1) by (simp add: j_def split: if_splits)
        moreover have "258 - pass = Suc (258 - pass')"
          using True p' by (simp add: pass'_def)
        ultimately show ?thesis
          using True by (simp add: m_def)
      next
        case False
        then show ?thesis
          by (simp add: m_def j_def pass'_def split: if_splits)
      qed
      have "isr_loop e j stop' pass' (handled \<or> work) (ls[i := s]) =
          serve_ports e ((258 - pass') * length (ls[i := s]) - j) j quiet' (handled \<or> work) (ls[i := s])"
        unfolding pass'_def
        by (rule "1.IH" [OF in_range s refl refl stop'_def j_def]) (use goes_on j_less p' mk q' in \<open>simp_all add: pass'_def\<close>)
      then show ?thesis
        unfolding loop m serve if_not_P [OF goes_on(1)] if_not_P [OF goes_on(2)] by (simp add: rest)
    qed
  qed
qed

lemma interrupt_serves: "serial8250_interrupt e ls = serve_ports e (258 * length ls) 0 0 False ls"
proof (cases "ls = []")
  case True
  then show ?thesis
    unfolding serial8250_interrupt_def by (subst isr_loop.simps) simp
next
  case False
  then show ?thesis
    unfolding serial8250_interrupt_def by (subst isr_loop_serves) (simp_all add: marks_def)
qed

abbreviation ready_line :: "'d line8250 \<Rightarrow> bool" where
  "ready_line s \<equiv> line_inv linked s \<and> has_state (uport s) \<and> linked (hw (uport s))"

lemma same_ready: "same_line linked s s' \<Longrightarrow> ready_line s \<Longrightarrow> ready_line s'"
  using same_line_inv [of linked s s'] by (simp add: same_line_def)

lemma serve_lines:
  assumes "\<forall>s \<in> set ls. ready_line s" and "i < length ls"
  shows "\<exists>handled' ls'. serve_ports e n i quiet handled ls = Inr (handled', ls') \<and> list_all2 (same_line linked) ls ls'"
  using assms
proof (induction n arbitrary: i quiet handled ls)
  case (Suc n)
  obtain work s where s: "isr_port e (ls ! i) = Inr (work, s)" and same: "same_line linked (ls ! i) s"
    using isr_port_line [of "ls ! i" e] Suc.prems by (metis nth_mem)
  have ls': "list_all2 (same_line linked) ls (ls[i := s])"
    using same Suc.prems(2) by (auto simp: list_all2_conv_all_nth nth_list_update)
  have "ready_line s"
    using same_ready [OF same] Suc.prems by simp
  then have "\<forall>s' \<in> set (ls[i := s]). ready_line s'"
    using Suc.prems(1) set_update_subset_insert [of ls i s] by blast
  moreover have "Suc i mod length ls < length (ls[i := s])"
    using Suc.prems(2) by (metis length_list_update mod_less_divisor not_less_zero neq0_conv)
  ultimately obtain h2 ls2 where
      "serve_ports e n (Suc i mod length ls) (if work then 0 else Suc quiet) (handled \<or> work) (ls[i := s]) = Inr (h2, ls2)"
      "list_all2 (same_line linked) (ls[i := s]) ls2"
    using Suc.IH [of "ls[i := s]" "Suc i mod length ls" "if work then 0 else Suc quiet" "handled \<or> work"] by blast
  moreover from list_all2_trans [OF same_trans ls' this(2)] have "list_all2 (same_line linked) ls ls2" .
  ultimately show ?case
    using s list_all2_refl [of "same_line linked" ls] by auto
qed (simp add: list_all2_refl)

end
