(* ===== verification/Uart_Props.thy ===== *)
theory Uart_Props
  imports Uart_8250_Contract
begin

text \<open>
  Properties of the serial core on its own: output, waiting for the transmitter, speed, and the console.
\<close>

section \<open>A line to try things on\<close>

text \<open>A device that answers 0 to every read, a 16550A on it, an open line and an attached log.\<close>

definition example_env :: "unit env8250" where
  "example_env =
     \<lparr>e_inb = \<lambda>a d. (0, d), e_outb = \<lambda>v a d. d, e_readb = \<lambda>a d. (0, d), e_writeb = \<lambda>v a d. d, e_readl = \<lambda>a d. (0, d),
      e_writel = \<lambda>v a d. d, e_read_usr = \<lambda>d. d, e_delay = \<lambda>n d. d, e_probe_irq = \<lambda>d. 0, e_link_error = \<lambda>p. 0,
      e_claim = \<lambda>a n. True, e_remap = \<lambda>a n. a, e_cts = \<lambda>b s. Cts_none, e_cts_count = \<lambda>c. c, e_dcd_count = \<lambda>c. c,
      e_tx_stopped = \<lambda>t. stopped t \<or> hw_stopped t, e_handle_break = \<lambda>p. False, e_sysrq_char = \<lambda>c p. False,
      e_rx_enable = True, e_nr_irqs = 64, e_skip_txen = True, e_baud = c_ospeed, e_encode = \<lambda>t i r. t\<lparr>c_ospeed := r\<rparr>,
      e_enable_ms = \<lambda>f c. False, e_pm = \<lambda>a b d. d\<rparr>"

definition example_hw :: "unit uart_8250" where
  "example_hw =
     \<lparr>caps = no_caps, bug_quot = False, bug_txen = False, bug_nomsr = False, bug_thre = False, tx_loadsz = 16, acr = 0, ier = 0,
      lcr = 0, mcr = 0, mcr_mask = 255, mcr_force = 0, cur_iotype = 0, lsr_saved_flags = 0, msr_saved_flags = 0,
      read_status_mask = 0, ignore_status_mask = 0, linked = False, backup_timer = False, timer_armed = False, rx = [],
      dev = ()\<rparr>"

definition example_port :: "unit port8250" where
  "example_port =
     \<lparr>iobase = 0x3F8, mapbase = 0, membase = 0, irq = 4, uartclk = 1843200, fifosize = 16, x_char = 0, regshift = 0,
      iotype = 0, hub6 = 0, icount = \<lparr>ic_cts = 0, ic_dsr = 0, ic_rng = 0, ic_dcd = 0, ic_rx = 0, ic_tx = 0, ic_frame = 0,
        ic_overrun = 0, ic_parity = 0, ic_brk = 0, ic_buf_overrun = 0\<rparr>, has_cons = False, flags = 0, mctrl = 0,
      timeout = 3, type = PORT_16550A, custom_divisor = 0, line = 0, suspended = False, has_state = True, hw = example_hw\<rparr>"

definition example_line :: "unit line8250" where
  "example_line = (fresh_line example_port)\<lparr>count := 1, port_tty := True, tty := zero_tty\<lparr>tty_count := 1, driver_data := True\<rparr>,
     normal_active := True, port_present := True,
     xmit := \<lparr>circ_data = Some (replicate 4096 0), circ_head = 0, circ_tail = 0\<rparr>\<rparr>"

definition example_log :: uart_daemon where
  "example_log = (snd (serial_daemon_init True True True))\<lparr>sd_pid := 7\<rparr>"

lemma example_log_ok: "sd_inv example_log" "attached example_log" "sd_length example_log = 0" "pending example_log = []"
  by (simp_all add: example_log_def attached_def sd_inv_def serial_daemon_init_def pending_def)

lemma example_line_ok: "circ_ok (xmit example_line)" "driver_data (tty example_line)" "circ_bytes (xmit example_line) = []"
  by (simp_all add: example_line_def fresh_line_def circ_ok_def circ_bytes_def uart_circ_chars_pending_def circ_cnt_def)

section \<open>Output is a byte queue\<close>

lemma daemon_write_full:
  assumes "sd_inv d" and "length x \<le> 4096"
  shows "\<exists>d'. serial_daemon_write x d = Inr (length x, d') \<and> sd_inv d'
    \<and> (attached d \<and> sd_length d + length x \<le> 4096 \<longrightarrow> pending d' = pending d @ x)"
proof (cases "attached d \<and> sd_length d + length x \<le> 4096")
  case True
  then show ?thesis
    using write_appends [OF _ assms(1), of x] by auto
next
  case False
  then show ?thesis
    using assms copy_room_inv [OF assms] by (auto simp: serial_daemon_write_def)
qed

lemma put_char_queue:
  assumes "circ_ok (xmit s)" and "driver_data (tty s)"
  shows "\<exists>x. uart_put_char c s = (if length (circ_bytes (xmit s)) < 4095 then 1 else 0, s\<lparr>xmit := x\<rparr>) \<and> circ_ok x
    \<and> circ_bytes x = circ_bytes (xmit s) @ take (4095 - length (circ_bytes (xmit s))) [c]"
proof -
  let ?n = "length (circ_bytes (xmit s))"
  have free: "uart_circ_chars_free (xmit s) = 4095 - ?n"
    using circ_free_pending [OF assms(1)] by simp
  obtain b where b: "circ_data (xmit s) = Some b" "length b = 4096"
    using assms(1) by (auto simp: circ_ok_def)
  show ?thesis
  proof (cases "?n < 4095")
    case True
    have h: "circ_head (xmit s) < 4096"
      using assms by (simp add: circ_ok_def)
    have room: "length [c] \<le> circ_room (xmit s)"
      using True h circ_room_eq [OF assms(1)] free by (simp add: Suc_le_eq)
    have "circ_store [c] (xmit s) = (xmit s)\<lparr>circ_data := Some (b[circ_head (xmit s) := c]),
        circ_head := (circ_head (xmit s) + 1) mod 4096\<rparr>"
      using b h by (simp add: circ_store_def buf_store_def upd_conv_take_nth_drop)
    then have "uart_put_char c s = (1, s\<lparr>xmit := circ_store [c] (xmit s)\<rparr>)"
      using True free b assms(2) by (simp add: uart_put_char_def circ_put_char_def)
    then show ?thesis
      using True circ_store_ok [OF assms(1) room] by (intro exI [of _ "circ_store [c] (xmit s)"]) simp
  next
    case False
    then show ?thesis
      using assms free b by (intro exI [of _ "xmit s"]) (simp add: uart_put_char_def circ_put_char_def)
  qed
qed

text \<open>
  C7. The output operations of a line refine a queue of at most 4095 bytes, and the serial log sees what goes into it.
  The room and the number of waiting characters that are reported are those of the queue; \<open>uart_put_char\<close> appends its
  character or refuses it when the queue is full; and \<open>uart_write\<close>, whose loop copies around the end of the page, appends as
  many bytes as there is room for, returns their number, hands exactly these bytes to the log, and starts the
  transmitter on the result. None of it faults.
\<close>

theorem uart_output_refines:
  assumes "circ_ok (xmit s)" and "driver_data (tty s)" and "sd_inv d"
  shows "uart_chars_in_buffer s = Inr (int (length (circ_bytes (xmit s))))
    \<and> uart_write_room s = Inr (4095 - int (length (circ_bytes (xmit s))))
    \<and> (\<exists>x. uart_put_char c s = (if length (circ_bytes (xmit s)) < 4095 then 1 else 0, s\<lparr>xmit := x\<rparr>) \<and> circ_ok x
        \<and> circ_bytes x = circ_bytes (xmit s) @ take (4095 - length (circ_bytes (xmit s))) [c])
    \<and> (\<exists>x d'. uart_write ops buf (s, d) =
           Inr (int (min (length buf) (4095 - length (circ_bytes (xmit s)))), uart_start ops (s\<lparr>xmit := x\<rparr>, d'))
        \<and> circ_ok x \<and> circ_bytes x = circ_bytes (xmit s) @ take (4095 - length (circ_bytes (xmit s))) buf \<and> sd_inv d'
        \<and> (attached d \<and> sd_length d + min (length buf) (4095 - length (circ_bytes (xmit s))) \<le> 4096
             \<longrightarrow> pending d' = pending d @ take (4095 - length (circ_bytes (xmit s))) buf))"
proof (intro conjI)
  let ?n = "length (circ_bytes (xmit s))"
  have free: "uart_circ_chars_free (xmit s) = 4095 - ?n"
    using circ_free_pending [OF assms(1)] by simp
  show "uart_chars_in_buffer s = Inr (int ?n)"
    using assms(2) by (simp add: uart_chars_in_buffer_def)
  show "uart_write_room s = Inr (4095 - int ?n)"
    using free circ_pending_le [OF assms(1)] assms(2) by (simp add: uart_write_room_def)
  obtain b where b: "circ_data (xmit s) = Some b" "length b = 4096"
    using assms(1) by (auto simp: circ_ok_def)
  show "\<exists>x. uart_put_char c s = (if ?n < 4095 then 1 else 0, s\<lparr>xmit := x\<rparr>) \<and> circ_ok x
      \<and> circ_bytes x = circ_bytes (xmit s) @ take (4095 - ?n) [c]"
    by (rule put_char_queue [OF assms(1,2)])
  obtain x where x: "circ_write buf 0 (xmit s) = (min (length buf) (4095 - ?n), x)" "circ_ok x"
    "circ_bytes x = circ_bytes (xmit s) @ take (4095 - ?n) buf"
    using circ_write_queue [OF assms(1), of buf 0] free by auto
  let ?w = "take (min (length buf) (4095 - ?n)) buf"
  have tk: "take (min (length buf) k) buf = take k buf" for k
    by (simp add: min_def)
  have w: "?w = take (4095 - ?n) buf" "length ?w = min (length buf) (4095 - ?n)"
    by (simp_all add: tk min.commute)
  have "length ?w \<le> 4096"
    unfolding w(2) by linarith
  then obtain d' where "serial_daemon_write ?w d = Inr (length ?w, d')" "sd_inv d'"
    "attached d \<and> sd_length d + length ?w \<le> 4096 \<longrightarrow> pending d' = pending d @ ?w"
    using daemon_write_full [OF assms(3), of ?w] by blast
  then show "\<exists>x d'. uart_write ops buf (s, d) = Inr (int (min (length buf) (4095 - ?n)), uart_start ops (s\<lparr>xmit := x\<rparr>, d'))
      \<and> circ_ok x \<and> circ_bytes x = circ_bytes (xmit s) @ take (4095 - ?n) buf \<and> sd_inv d'
      \<and> (attached d \<and> sd_length d + min (length buf) (4095 - ?n) \<le> 4096 \<longrightarrow> pending d' = pending d @ take (4095 - ?n) buf)"
    using x assms(2) b unfolding w by (intro exI [of _ x] exI [of _ d']) (simp add: uart_write_def tk)
qed

theorem uart_output_refines_witness:
  "uart_write_room example_line = Inr 4095
   \<and> (\<exists>x d'. uart_write (serial8250_pops example_env) [104, 105] (example_line, example_log) =
        Inr (2, uart_start (serial8250_pops example_env) (example_line\<lparr>xmit := x\<rparr>, d'))
      \<and> circ_bytes x = [104, 105] \<and> pending d' = [104, 105])"
  using uart_output_refines [OF example_line_ok(1,2) example_log_ok(1), where ops = "serial8250_pops example_env" and buf = "[104, 105]" and c = 1]
  by (auto simp: example_line_ok example_log_ok)

section \<open>Waiting for the transmitter\<close>

lemma sint_negative:
  assumes "2 ^ 31 \<le> unat (w :: u32)"
  shows "sint w < 0"
proof -
  have "unat w < 2 ^ LENGTH(32)"
    by (rule unsigned_less)
  then have "unat w div 2 ^ 31 = 1"
    using assms by (intro div_nat_eqI) simp_all
  then have "bit (unat w) 31"
    by (simp add: bit_iff_odd)
  then have "bit w 31"
    by (simp add: bit_unsigned_iff)
  then show ?thesis
    using bit_last_iff [of w] by simp
qed

lemma time_after_passed:
  assumes "unat (expire - now) < 2 ^ 31" and "unat ticks < 2 ^ 31" and "\<not> time_after (now + ticks) expire"
  shows "unat (expire - (now + ticks)) + unat ticks = unat (expire - now)"
proof -
  have e: "unat (expire - (now + ticks)) = (if unat ticks \<le> unat (expire - now) then unat (expire - now) - unat ticks
      else unat (expire - now) + 2 ^ 32 - unat ticks)"
    using unat_sub_if' [of "expire - now" ticks] by (simp add: diff_diff_eq)
  have "\<not> 2 ^ 31 \<le> unat (expire - (now + ticks))"
    using assms(3) sint_negative by (auto simp: time_after_def)
  then show ?thesis
    using assms(1,2) unfolding e by (auto split: if_splits)
qed

lemma drain_wait_ends:
  assumes "unat (expire - now) < 2 ^ 31" and "\<forall>(f, ticks, signal) \<in> set naps. 0 < ticks \<and> unat ticks < 2 ^ 31"
    and "unat (expire - now) < length naps"
  shows "\<exists>s'. drain_wait ops expire now naps s = Some s'"
  using assms
proof (induction naps arbitrary: now s)
  case (Cons nap naps)
  obtain f ticks signal where nap: "nap = (f, ticks, signal)"
    by (cases nap)
  show ?case
  proof (cases "signal \<or> time_after (now + ticks) expire")
    case True
    then show ?thesis
      by (simp add: nap Let_def split_beta)
  next
    case False
    have t: "0 < ticks" "unat ticks < 2 ^ 31"
      using Cons.prems(2) by (auto simp: nap)
    have "unat (expire - (now + ticks)) + unat ticks = unat (expire - now)"
      using False time_after_passed [OF Cons.prems(1) t(2)] by simp
    moreover have "0 < unat ticks"
      using t(1) by (simp add: unat_gt_0 word_neq_0_conv)
    ultimately have "\<exists>s'. drain_wait ops expire (now + ticks) naps s1 = Some s'" for s1
      using Cons.prems by (intro Cons.IH) auto
    then show ?thesis
      using False by (simp add: nap Let_def split_beta)
  qed
qed simp

text \<open>
  C34. Waiting for the transmitter ends, although the loop runs until the driver says that all is sent: each nap takes at
  least one tick and fewer than 2 ^ 31, and after at most one nap more than the limit has ticks, whatever happens meanwhile and also when the
  counter of ticks wraps around, \<open>uart_wait_until_sent\<close> returns. The limit is the caller's or twice the time that
  the FIFO takes, whichever is less; this time, computed in 32 bits, must be below 2 ^ 31 ticks.
\<close>

theorem wait_until_sent_ends:
  assumes "unat (2 * timeout (uport s)) < 2 ^ 31"
    and "\<forall>(f, ticks, signal) \<in> set naps. 0 < ticks \<and> unat ticks < 2 ^ 31"
    and "unat (if limit = 0 then 2 * timeout (uport s) else min limit (2 * timeout (uport s))) < length naps"
  shows "\<exists>s'. uart_wait_until_sent ops limit now naps s = Some s'"
proof -
  have l: "wait_limit limit (uport s) = (if limit = 0 then 2 * timeout (uport s) else min limit (2 * timeout (uport s)))"
    by (auto simp: wait_limit_def min_def)
  have "wait_limit limit (uport s) \<le> 2 * timeout (uport s)"
    by (simp add: wait_limit_def not_less)
  then have "unat (wait_limit limit (uport s)) < 2 ^ 31"
    using assms(1) by (simp add: word_le_nat_alt)
  then show ?thesis
    using drain_wait_ends [OF _ assms(2), of "now + wait_limit limit (uport s)" now] assms(3)
    by (simp add: uart_wait_until_sent_def l)
qed

theorem wait_until_sent_ends_witness:
  "\<exists>s'. uart_wait_until_sent (serial8250_pops example_env) 4 (- 2) (replicate 5 (\<lambda>s. s, 1, False)) example_line = Some s'"
  by (rule wait_until_sent_ends) (simp_all add: example_line_def fresh_line_def example_port_def)

section \<open>Speed\<close>






text \<open>
  C36. The divisor is the nearest one: for a rate between 1 and a sixteenth of the clock (below 2 ^ 31), without a custom divisor, it
  is at least 1, the rate it gives is off by at most half a step, and it fits the 16 bits of the divisor
  latch exactly when the clock is below 16 * 65535.5 times the rate.
\<close>

theorem divisor_nearest:
  assumes "0 < baud" and "baud \<le> uartclk p div 16" and "unat (uartclk p) < 2 ^ 31"
    and "\<not> (baud = 38400 \<and> flags p AND UPF_SPD_MASK = UPF_SPD_CUST)"
  shows "\<exists>q. uart_get_divisor baud p = Inr q \<and> 1 \<le> unat q
    \<and> \<bar>int (unat (uartclk p)) - 16 * int (unat baud) * int (unat q)\<bar> \<le> 8 * int (unat baud)
    \<and> (unat q \<le> 65535 \<longleftrightarrow> unat (uartclk p) < (16 * 65535 + 8) * unat baud)"
proof -
  let ?c = "unat (uartclk p)" and ?b = "unat baud"
  have b: "0 < ?b"
    using assms(1) by (simp add: unat_gt_0 word_neq_0_conv)
  have le: "16 * ?b \<le> ?c"
    using assms(2) by (simp add: word_le_nat_alt unat_div)
  have m: "unat (16 * baud) = 16 * ?b"
    using le assms(3) by (simp add: unat_word_ariths)
  have n: "unat (uartclk p + 8 * baud) = ?c + 8 * ?b"
    using le assms(3) by (simp add: unat_word_ariths mod_add_right_eq)
  let ?q = "(uartclk p + 8 * baud) div (16 * baud)"
  have q: "unat ?q = (?c + 8 * ?b) div (16 * ?b)"
    by (simp add: unat_div m n)
  define k where "k = (?c + 8 * ?b) div (16 * ?b)"
  define r where "r = (?c + 8 * ?b) mod (16 * ?b)"
  have kr: "?c + 8 * ?b = 16 * ?b * k + r" "r < 16 * ?b"
    using b by (simp_all add: k_def r_def)
  have "1 \<le> k"
    using le b by (simp add: k_def div_greater_zero_iff Suc_le_eq)
  moreover have "\<bar>int ?c - 16 * int ?b * int k\<bar> \<le> 8 * int ?b"
  proof -
    have "int ?c - 16 * int ?b * int k = int r - 8 * int ?b"
      using arg_cong [OF kr(1), of int] by simp
    moreover have "int r < 16 * int ?b"
      using kr(2) by (metis of_nat_less_iff of_nat_mult of_nat_numeral)
    ultimately show ?thesis
      unfolding abs_le_iff by linarith
  qed
  moreover have "k \<le> 65535 \<longleftrightarrow> ?c < (16 * 65535 + 8) * ?b"
  proof -
    have "k \<le> 65535 \<longleftrightarrow> ?c + 8 * ?b < 65536 * (16 * ?b)"
      using b by (simp add: k_def less_eq_iff_succ_less div_less_iff_less_mult)
    also have "\<dots> \<longleftrightarrow> ?c < (16 * 65535 + 8) * ?b"
      by arith
    finally show ?thesis .
  qed
  moreover have "16 * baud \<noteq> 0"
    using m b by (metis mult_eq_0_iff not_gr_zero unsigned_0 zero_neq_numeral)
  ultimately show ?thesis
    using assms(4) unfolding k_def q [symmetric] by (auto simp: uart_get_divisor_def)
qed

theorem divisor_nearest_witness: "\<exists>q. uart_get_divisor 9600 example_port = Inr q \<and> unat q \<le> 65535"
  using divisor_nearest [of 9600 example_port] by (auto simp: example_port_def)

section \<open>The console\<close>

text \<open>What a message is on the line: a carriage return before every line feed.\<close>

definition crlf :: "u8 list \<Rightarrow> u8 list" where
  "crlf cs = concat (map (\<lambda>c. if c = 10 then [13, 10] else [c]) cs)"

lemma crlf_simps [simp]: "crlf [] = []" "crlf (c # cs) = (if c = 10 then [13, 10] else [c]) @ crlf cs"
  by (simp_all add: crlf_def)

text \<open>The log takes one character; \<open>logged d xs d'\<close> says that \<open>xs\<close> is appended as long as the page has room.\<close>

definition logged :: "uart_daemon \<Rightarrow> u8 list \<Rightarrow> uart_daemon \<Rightarrow> bool" where
  "logged d xs d' \<longleftrightarrow> sd_inv d' \<and> (attached d' \<longleftrightarrow> attached d)
     \<and> (attached d \<and> sd_length d + length xs \<le> 4096
          \<longrightarrow> pending d' = pending d @ xs \<and> sd_length d' = sd_length d + length xs)"

lemma logged_trans: "logged d xs d1 \<Longrightarrow> logged d1 ys d2 \<Longrightarrow> logged d (xs @ ys) d2"
  by (auto simp: logged_def)

lemma putc_logged:
  assumes "sd_inv d"
  obtains d' where "console_putc putc c (p, d) = Inr (putc c p, d')" and "logged d [c] d'"
proof (cases "attached d")
  case True
  have eq: "serial_daemon_putchar c d = map_sum id (\<lambda>(_, d'). (0, d')) (serial_daemon_write [c] d)"
    by (simp add: serial_daemon_putchar_def serial_daemon_write_def split: sum.split)
  obtain d1 where d1: "serial_daemon_write [c] d = Inr (1, d1)" "sd_inv d1"
    using daemon_write_full [OF assms, of "[c]"] by auto
  have "attached d1"
    using d1(1) True by (auto simp: serial_daemon_write_def sd_copy_def sd_make_room_def attached_def split: sum.splits option.splits if_splits)
  moreover have "pending d1 = pending d @ [c] \<and> sd_length d1 = sd_length d + 1" if "sd_length d + 1 \<le> 4096"
    using write_appends [OF True assms, of "[c]"] that d1(1) by auto
  ultimately have "logged d [c] d1"
    using True d1(2) by (simp add: logged_def)
  then show ?thesis
    by (rule that [rotated]) (simp add: console_putc_def eq d1)
next
  case False
  then show ?thesis
    using assms by (intro that [of d]) (simp_all add: console_putc_def serial_daemon_putchar_def logged_def)
qed

lemma console_chars_expand:
  assumes "sd_inv d"
  shows "\<exists>d'. console_chars putc cs (p, d) = Inr (fold putc (crlf cs) p, d') \<and> logged d (crlf cs) d'"
  using assms
proof (induction cs arbitrary: p d)
  case Nil
  then show ?case
    by (simp add: logged_def)
next
  case (Cons c cs)
  let ?pre = "if c = 10 then [13] else []"
  obtain d1 where 1: "(if c = 10 then console_putc putc 13 (p, d) else Inr (p, d)) = Inr (fold putc ?pre p, d1)" "logged d ?pre d1"
  proof (cases "c = 10")
    case True
    obtain d1 where "console_putc putc 13 (p, d) = Inr (putc 13 p, d1)" "logged d [13] d1"
      by (rule putc_logged [OF Cons.prems])
    then show ?thesis
      using that True by simp
  next
    case False
    then show ?thesis
      using that [of d] Cons.prems by (simp add: logged_def)
  qed
  then have "sd_inv d1"
    by (simp add: logged_def)
  obtain d2 where 2: "console_putc putc c (fold putc ?pre p, d1) = Inr (putc c (fold putc ?pre p), d2)" "logged d1 [c] d2"
    by (rule putc_logged [OF \<open>sd_inv d1\<close>])
  then have "sd_inv d2"
    by (simp add: logged_def)
  obtain d3 where 3: "console_chars putc cs (putc c (fold putc ?pre p), d2) = Inr (fold putc (crlf cs) (putc c (fold putc ?pre p)), d3)"
    "logged d2 (crlf cs) d3"
    using Cons.IH [OF \<open>sd_inv d2\<close>] by blast
  have "logged d ((?pre @ [c]) @ crlf cs) d3"
    by (intro logged_trans [OF logged_trans [OF 1(2) 2(2)] 3(2)])
  moreover have "console_chars putc (c # cs) (p, d) = Inr (fold putc (crlf cs) (putc c (fold putc ?pre p)), d3)"
    by (simp only: console_chars.simps 1(1) 2(1) 3(1) sum.case)
  ultimately show ?case
    by (cases "c = 10") auto
qed

text \<open>
  C37. Writing a console message equals sending its expansion: the port gets exactly the characters of the message in
  order, with a carriage return before every line feed, the serial log gets the same characters as long as its
  page has room, its thread is woken up when it is attached, and nothing faults.
\<close>

theorem console_write_expands:
  assumes "sd_inv d"
  shows "\<exists>d'. uart_console_write putc cs (p, d) = Inr (fold putc (crlf cs) p, serial_daemon_complete d')
    \<and> sd_inv d' \<and> (attached d' \<longleftrightarrow> attached d)
    \<and> (attached d \<and> sd_length d + length (crlf cs) \<le> 4096 \<longrightarrow> pending d' = pending d @ crlf cs)"
  using console_chars_expand [OF assms, of putc cs p] by (auto simp: uart_console_write_def logged_def)

theorem console_write_expands_witness:
  "\<exists>d'. uart_console_write (serial8250_console_putchar example_env) [104, 10] (example_port, example_log) =
      Inr (fold (serial8250_console_putchar example_env) [104, 13, 10] example_port, serial_daemon_complete d')
    \<and> pending d' = [104, 13, 10]"
  using console_write_expands [OF example_log_ok(1), of "serial8250_console_putchar example_env" "[104, 10]" example_port]
  by (auto simp: example_log_ok)

text \<open>Options as a user writes them, as in \<open>115200n8r\<close>.\<close>

definition options_text :: "u32 \<Rightarrow> char \<Rightarrow> nat \<Rightarrow> char \<Rightarrow> string" where
  "options_text baud par bits flow = nat_digits (unat baud) @ [par, char_of (48 + bits), flow]"

lemma parse_print:
  assumes "par \<in> {CHR ''n'', CHR ''o'', CHR ''e''}" and "bits < 10"
  shows "uart_parse_options (options_text baud par bits flow) v =
    \<lparr>opt_baud = baud, opt_parity = of_char par, opt_bits = int bits, opt_flow = of_char flow\<rparr>"
proof -
  have par: "\<not> is_digit par"
    using assms(1) by (auto simp: is_digit_def)
  have "list_all is_digit (nat_digits (unat baud))"
    by (rule digits_all)
  then have "takeWhile is_digit (options_text baud par bits flow) = nat_digits (unat baud)"
    "dropWhile is_digit (options_text baud par bits flow) = [par, char_of (48 + bits), flow]"
    using par by (auto simp: options_text_def list_all_iff)
  moreover have "(of_char (char_of (48 + bits)) :: int) - 48 = int bits"
    by (subst of_nat_of_char [symmetric]) (simp only: of_char_digit [OF assms(2)] of_nat_add of_nat_numeral add_diff_cancel_left')
  ultimately show ?thesis
    by (simp add: uart_parse_options_def digits_value_digits)
qed

text \<open>
  Console options survive the way from the string to the settings: for every rate of the table, parity, 7 or 8 bits and
  flow control character, decoding the printed options gives back the values, whatever the variables held before, and
  the settings that \<open>uart_set_options\<close> derives from them have the code of exactly this rate, this number of bits,
  this parity, and hardware flow control exactly for \<open>r\<close>.
\<close>

theorem console_options_roundtrip:
  assumes "(rate, code) \<in> set (butlast baud_rates)" and "par \<in> {CHR ''n'', CHR ''o'', CHR ''e''}" and "bits \<in> {7, 8}"
  shows "let v' = uart_parse_options (options_text rate par bits flow) v; c = options_cflag v'
    in v' = \<lparr>opt_baud = rate, opt_parity = of_char par, opt_bits = int bits, opt_flow = of_char flow\<rparr>
       \<and> c AND CBAUD = code \<and> c AND CSIZE = (if bits = 7 then CS7 else CS8)
       \<and> (has_bits c PARENB \<longleftrightarrow> par \<noteq> CHR ''n'') \<and> (has_bits c PARODD \<longleftrightarrow> par = CHR ''o'')
       \<and> (has_bits c CRTSCTS \<longleftrightarrow> flow = CHR ''r'')"
proof -
  have bits: "bits < 10"
    using assms(3) by auto
  have "list_all (\<lambda>(r, c). find_rate r baud_rates = c \<and> c AND CBAUD = c \<and> c AND CSIZE = 0 \<and> c AND PARENB = 0
      \<and> c AND PARODD = 0 \<and> c AND CRTSCTS = 0) (butlast baud_rates)"
    by code_simp
  then have w: "find_rate rate baud_rates = code" "code AND CBAUD = code" "code AND CSIZE = 0" "code AND PARENB = 0"
    "code AND PARODD = 0" "code AND CRTSCTS = 0"
    using assms(1) by (auto simp: list_all_iff)
  have fl: "of_char flow = (114 :: int) \<longleftrightarrow> flow = CHR ''r''"
  proof -
    have "of_char flow = (114 :: int) \<longleftrightarrow> of_char flow = (of_char (CHR ''r'') :: int)"
      by simp
    then show ?thesis
      unfolding of_char_eq_iff .
  qed
  show ?thesis
    unfolding Let_def parse_print [OF assms(2) bits]
    using assms(2,3) by (auto simp: options_cflag_def Let_def has_bits_def word_ao_dist fl w)
qed

theorem console_options_roundtrip_witness:
  "let v' = uart_parse_options (options_text 115200 (CHR ''e'') 7 (CHR ''r'')) \<lparr>opt_baud = 0, opt_parity = 0, opt_bits = 0, opt_flow = 0\<rparr>
   in opt_baud v' = 115200 \<and> options_cflag v' AND CBAUD = 0x1002 \<and> has_bits (options_cflag v') CRTSCTS"
proof -
  have "(115200, 0x1002) \<in> set (butlast baud_rates)"
    by (simp add: baud_rates_def)
  from console_options_roundtrip [OF this, of "CHR ''e''" 7 "CHR ''r''" "\<lparr>opt_baud = 0, opt_parity = 0, opt_bits = 0, opt_flow = 0\<rparr>"]
  show ?thesis
    unfolding Let_def by (auto elim!: conjE)
qed

end
