(* ===== verification/Uart_8250_Props.thy ===== *)
theory Uart_8250_Props
  imports Uart_Props
begin

text \<open>
  Properties of a line that the 8250 driver serves: in every state it can reach, and of the driver's transmitter,
  interrupt handler and configuration.
\<close>

section \<open>Every reachable state\<close>

text \<open>A line right after its port was added to a registered driver, before anyone opens it.\<close>

definition tty_start :: "'d env8250 \<Rightarrow> (console \<Rightarrow> console) \<Rightarrow> console option \<Rightarrow> 'd port8250 \<Rightarrow> uart_daemon \<Rightarrow> 'd uart_8250 tty_sys" where
  "tty_start e reg cons p d =
     (case add_port_line (serial8250_pops e) reg cons p (fresh_line p) of
        (cons', s) \<Rightarrow> \<lparr>sy_line = s, sy_cons = cons', sy_daemon = d, sy_files = 0, sy_hung = 0, sy_sleeping = 0, sy_hung_sleeping = 0,
          sy_refused = 0\<rparr>)"

abbreviation tty_runs :: "'d env8250 \<Rightarrow> 'd uart_8250 tty_sys \<Rightarrow> 'd uart_8250 tty_sys \<Rightarrow> bool" where
  "tty_runs e \<equiv> (tty_step (serial8250_pops e) linked)\<^sup>*\<^sup>*"

lemma tty_start_inv: "\<not> linked (hw p) \<Longrightarrow> sd_inv d \<Longrightarrow> sys_inv linked (tty_start e reg cons p d)"
  using s8250.add_port_inv [of p e reg cons p]
  by (simp add: tty_start_def sys_inv_def sy_all_def split_beta)

lemma tty_runs_inv:
  assumes "tty_runs e (tty_start e reg cons p d) sy" and "\<not> linked (hw p)" and "sd_inv d"
  shows "sys_inv linked sy"
  using s8250.tty_steps_inv [OF assms(1) tty_start_inv [OF assms(2,3)]] .

section \<open>An example run\<close>

text \<open>Opening a line whose chip was not recognised, which succeeds so that it can be configured.\<close>

definition bare_port :: "unit port8250" where
  "bare_port = example_port\<lparr>type := PORT_UNKNOWN\<rparr>"

definition example_start :: "unit uart_8250 tty_sys" where
  "example_start = tty_start example_env (\<lambda>c. c) None bare_port example_log"

definition example_open :: "unit uart_8250 open_env" where
  "example_open = \<lparr>oe_env = \<lparr>env_page = True, env_admin = False, env_nr_irqs = 64, env_irq_canon = \<lambda>i. i\<rparr>, oe_line_ok = True,
     oe_interrupted = False, oe_hung_up = False, oe_nonblock = True, oe_signal = False, oe_wakes = []\<rparr>"

definition example_close :: "unit uart_8250 close_env" where
  "example_close = \<lparr>ce_hung_up = False, ce_drain = \<lambda>s. s, ce_now = 0, ce_naps = []\<rparr>"

lemma example_opens:
  "\<exists>s. uart_open (serial8250_pops example_env) (sy_cons example_start) example_open (add_tty 1 (sy_line example_start)) =
    Inr (Some (0, None, s)) \<and> circ_data (xmit s) = None \<and> count s = 1"
  by (simp add: example_start_def tty_start_def add_port_line_def uart_configure_port_def autoconf_port_def bare_port_def
      example_port_def fresh_line_def zero_tty_def zero_termios_def example_open_def uart_open_def uart_get_def open_attach_def
      has_bits_def uart_change_pm_def serial8250_pops_def serial8250_pm_def serial8250_set_sleep_def example_hw_def no_caps_def
      on_dev_def uart_startup_def uart_block_til_ready_def btr_enter_def btr_loop.simps btr_pass_def btr_leave_def
      open_adjust_def uart_update_termios_def Let_def)

lemma bare_port_off: "\<not> linked (hw bare_port)"
  by (simp add: bare_port_def example_port_def example_hw_def)

lemma example_start_files:
  "sy_files example_start = 0" "sy_hung example_start = 0" "sy_sleeping example_start = 0" "sy_hung_sleeping example_start = 0"
  "sy_refused example_start = 0"
  by (simp_all add: example_start_def tty_start_def split_beta)

lemma example_run:
  obtains sy where "tty_runs example_env example_start sy" and "sy_files sy = 1"
    and "sy_hung sy + sy_sleeping sy + sy_hung_sleeping sy = 0" and "circ_data (xmit (sy_line sy)) = None"
    and "sy_refused sy = 0" and "count (sy_line sy) = 1"
proof -
  obtain s where s: "uart_open (serial8250_pops example_env) (sy_cons example_start) example_open (add_tty 1 (sy_line example_start)) =
      Inr (Some (0, None, s))" "circ_data (xmit s) = None" "count s = 1"
    using example_opens by blast
  let ?sy = "example_start\<lparr>sy_line := s, sy_cons := None, sy_files := sy_files example_start + 1\<rparr>"
  have "tty_step (serial8250_pops example_env) linked example_start ?sy"
    by (rule tty_step.Open_ok [OF _ s(1)]) (simp add: example_open_def)
  then have "tty_runs example_env example_start ?sy"
    by (rule r_into_rtranclp)
  then show ?thesis
    by (rule that) (simp_all add: example_start_files s(2,3))
qed

lemmas example_hyps = bare_port_off example_log_ok(1)

section \<open>Properties of reachable states\<close>

text \<open>
  C3. In every state a line of the 8250 driver can reach, however opens (successful, failed, refused or asleep), closes, hang-ups,
  transmissions, changes of settings, new probes, signals and interrupts interleave: the line is marked as initialised exactly when
  its port is on the chain of its interrupt (or timer); then it has a terminal and a transmit buffer with good indices; only a line
  with a terminal has a buffer; the count of blocked opens is the number of processes that sleep in \<open>uart_open\<close>, the terminal counts
  every file and knows the line, and the page of the serial log is intact. As long as \<open>uart_get\<close> has not refused an open (a signal while it waits
  for the lock, or a dead port), also: the count of openers covers the open files, and every open file has its terminal. The
  close after a refused open takes an opener too many, so this last part is lost then.
\<close>

theorem line_reachable_states:
  assumes "tty_runs e (tty_start e reg cons p d) sy" and "\<not> linked (hw p)" and "sd_inv d"
  shows "let s = sy_line sy
    in (initialized s \<longleftrightarrow> linked (hw (uport s))) \<and> (initialized s \<longrightarrow> port_tty s \<and> circ_ok (xmit s))
       \<and> (circ_data (xmit s) \<noteq> None \<longrightarrow> port_tty s) \<and> blocked_open s = int (sy_sleeping sy + sy_hung_sleeping sy)
       \<and> tty_count (tty s) = int (sy_files sy + sy_hung sy + sy_sleeping sy + sy_hung_sleeping sy)
       \<and> (0 < sy_files sy \<longrightarrow> driver_data (tty s)) \<and> sd_inv (sy_daemon sy)
       \<and> (sy_refused sy = 0 \<longrightarrow> int (sy_files sy) \<le> count s \<and> (0 < sy_files sy \<longrightarrow> port_tty s \<and> normal_active s))"
  using tty_runs_inv [OF assms] xmit_ok_circ [of "xmit (sy_line sy)"]
  by (auto simp: sys_inv_def line_inv_def line_tied_def sy_all_def Let_def)

theorem line_reachable_states_witness:
  "\<exists>sy. tty_runs example_env example_start sy \<and> sy_files sy = 1 \<and> 1 \<le> count (sy_line sy) \<and> port_tty (sy_line sy)"
proof -
  obtain sy where sy: "tty_runs example_env example_start sy" "sy_files sy = 1" "sy_refused sy = 0"
    using example_run by metis
  show ?thesis
    using line_reachable_states [OF sy(1) [unfolded example_start_def] example_hyps] sy by (auto simp: Let_def)
qed

text \<open>
  C20. Every operation on a line keeps its type: after any write, put, flush, stop, start, throttle, change of settings, break,
  modem control or ioctl that returns, the indices of the transmit buffer are below 4096 and its page, if there is
  one, has 4096 bytes; the marks of the line still agree with the hardware; and the log still has its page.
\<close>

theorem operations_keep_types:
  assumes "tty_op (serial8250_pops e) (s, d) (s', d')" and "line_inv linked s" and "sd_inv d"
  shows "circ_head (xmit s') < 4096 \<and> circ_tail (xmit s') < 4096
    \<and> (\<forall>buf. circ_data (xmit s') = Some buf \<longrightarrow> length buf = 4096)
    \<and> (initialized s' \<longleftrightarrow> linked (hw (uport s'))) \<and> (initialized s' \<longrightarrow> port_tty s' \<and> circ_data (xmit s') \<noteq> None) \<and> sd_inv d'"
proof -
  have "xmit_ok (xmit s)"
    using assms(2) by (simp add: line_inv_def)
  then have "sd_inv d'"
    by (rule s8250.op_daemon [OF assms(1,3)])
  moreover have "line_inv linked s'"
    using s8250.op_tame [OF assms(1)] assms(2) by (simp add: s8250.tame_def)
  ultimately show ?thesis
    by (simp add: line_inv_def xmit_ok_def)
qed

theorem operations_keep_types_witness: "circ_head (xmit (snd (uart_put_char 7 example_line))) < 4096"
proof -
  have "line_inv linked example_line"
    by (simp add: line_inv_def example_line_def fresh_line_def xmit_ok_def example_port_def example_hw_def)
  moreover have "tty_op (serial8250_pops example_env) (example_line, example_log) (snd (uart_put_char 7 example_line), example_log)"
    by (rule tty_op.Op_put [OF surjective_pairing])
  ultimately show ?thesis
    using operations_keep_types [OF _ _ example_log_ok(1)] by blast
qed

text \<open>
  C8. Configuring and transmitting follow no null pointer. In every reachable state with an open file, as long as \<open>uart_get\<close> has not refused an
  open, \<open>uart_set_info\<close>, \<open>uart_do_autoconfig\<close>, \<open>uart_put_char\<close>, \<open>uart_start\<close> and \<open>uart_flush_buffer\<close> return without a fault, whatever they are given; and in every
  reachable state, also after refused opens, \<open>uart_write\<close> returns without a fault, the transmission it may start included, a scheduled
  tasklet finds its terminal, and the handler of a port on its chain returns without a fault, also when nobody has the line open any more.
\<close>

theorem open_line_no_fault:
  assumes "tty_runs e (tty_start e reg cons p d) sy" and "\<not> linked (hw p)" and "sd_inv d"
  shows "let s = sy_line sy; quiet = (\<lambda>s'. crashed s' \<longrightarrow> crashed s)
    in (0 < sy_files sy \<and> sy_refused sy = 0 \<longrightarrow>
          (\<exists>r s'. uart_set_info (serial8250_pops e) env user s = Inr (r, s') \<and> quiet s')
        \<and> (\<exists>r s'. uart_do_autoconfig (serial8250_pops e) env intr s = Inr (r, s') \<and> quiet s')
        \<and> quiet (snd (uart_put_char c s)) \<and> quiet (fst (uart_start (serial8250_pops e) (s, sy_daemon sy)))
        \<and> quiet (uart_flush_buffer (serial8250_pops e) s))
    \<and> (\<exists>r s' d'. uart_write (serial8250_pops e) buf (s, sy_daemon sy) = Inr (r, s', d') \<and> quiet s')
    \<and> (tlet s \<longrightarrow> (\<exists>s'. uart_tasklet_action s = Inr s' \<and> quiet s'))
    \<and> (linked (hw (uport s)) \<longrightarrow> (\<exists>s'. serial8250_handle_port e s = Inr s' \<and> quiet s'))"
proof -
  let ?s = "sy_line sy"
  have inv: "sys_inv linked sy"
    by (rule tty_runs_inv [OF assms])
  then have line: "line_inv linked ?s" "line_tied ?s" "sd_inv (sy_daemon sy)"
    by (simp_all add: sys_inv_def)
  have open_file: "driver_data (tty ?s) \<and> port_tty ?s \<and> has_state (uport ?s)" if "0 < sy_files sy \<and> sy_refused sy = 0"
    using inv that by (auto simp: sys_inv_def line_tied_def sy_all_def)
  have quiet: "crashed s' \<longrightarrow> crashed ?s" if "s8250.calm ?s s'" "port_tty ?s" for s'
    using that line(2) by (auto simp: s8250.calm_def line_tied_def)
  obtain r s' d' where w: "uart_write (serial8250_pops e) buf (?s, sy_daemon sy) = Inr (r, s', d')"
    using s8250.write_returns [of "sy_daemon sy" ?s e buf] line by (auto simp: line_inv_def)
  have "circ_data (xmit ?s) = None \<Longrightarrow> s' = ?s"
    using w by (auto simp: uart_write_def split: if_splits)
  then have w_quiet: "crashed s' \<longrightarrow> crashed ?s"
    using quiet [OF s8250.calm_write [OF w]] line(2) by (auto simp: line_tied_def)
  have irq: "\<exists>s'. serial8250_handle_port e ?s = Inr s' \<and> (crashed s' \<longrightarrow> crashed ?s)" if "linked (hw (uport ?s))"
  proof -
    have st: "steady ?s"
      using line(1,2) that by (auto simp: line_inv_def line_tied_def steady_def)
    then obtain s' where "serial8250_handle_port e ?s = Inr s'" "same_line linked ?s s'"
      using handle_port_line [of ?s e] by (auto simp: steady_def)
    then show ?thesis
      using st by (auto simp: same_line_def)
  qed
  have tasklet: "tlet ?s \<longrightarrow> (\<exists>s'. uart_tasklet_action ?s = Inr s' \<and> (crashed s' \<longrightarrow> crashed ?s))"
    using line(1) by (simp add: line_inv_def uart_tasklet_action_def tty_wakeup_def)
  have config: "(\<exists>r s'. uart_set_info (serial8250_pops e) env user ?s = Inr (r, s') \<and> (crashed s' \<longrightarrow> crashed ?s))
      \<and> (\<exists>r s'. uart_do_autoconfig (serial8250_pops e) env intr ?s = Inr (r, s') \<and> (crashed s' \<longrightarrow> crashed ?s))" if "port_tty ?s"
    using s8250.set_info_returns [OF that, of e env user] s8250.autoconfig_returns [OF that, of e env intr]
      quiet [OF s8250.calm_set_info that] quiet [OF s8250.calm_autoconfig that] by metis
  have queue: "(crashed (snd (uart_put_char c ?s)) \<longrightarrow> crashed ?s)
      \<and> (crashed (fst (uart_start (serial8250_pops e) (?s, sy_daemon sy))) \<longrightarrow> crashed ?s)
      \<and> (crashed (uart_flush_buffer (serial8250_pops e) ?s) \<longrightarrow> crashed ?s)" if "port_tty ?s"
    using quiet [OF s8250.calm_put_char that] quiet [OF s8250.calm_start that] quiet [OF s8250.calm_flush_buffer that] by blast
  show ?thesis
    using open_file config queue w w_quiet tasklet irq by (simp add: Let_def)
qed

theorem open_line_no_fault_witness:
  "\<exists>sy r s'. tty_runs example_env example_start sy
    \<and> uart_set_info (serial8250_pops example_env) (oe_env example_open) None (sy_line sy) = Inr (r, s')"
proof -
  obtain sy where sy: "tty_runs example_env example_start sy" "sy_files sy = 1" "sy_refused sy = 0"
    using example_run by metis
  show ?thesis
    using open_line_no_fault [OF sy(1) [unfolded example_start_def] example_hyps, of "oe_env example_open" None False 0 "[]"] sy
    by (auto simp: Let_def)
qed

lemma close_forgets_tty: "\<not> port_tty (close_finish ops cons s)"
  by (simp add: close_finish_def Let_def uart_change_pm_def)

text \<open>
  C13. Closing the last file turns the line off: when the only file of a reachable line is closed, and only interrupts happen
  while the close waits, the port is off its chain, the line is not initialised, has no buffer, no terminal and no
  opener left, even if earlier hang-ups left the count of openers too high.
\<close>

theorem last_close_shuts_down:
  assumes "tty_runs e (tty_start e reg cons p d) sy" and "\<not> linked (hw p)" and "sd_inv d"
    and "sy_files sy = 1" and "sy_hung sy + sy_sleeping sy + sy_hung_sleeping sy = 0"
    and "\<not> ce_hung_up ce" and "close_quiet linked ce"
    and "uart_close (serial8250_pops e) (sy_cons sy) ce (sy_line sy) = Some s'"
  shows "\<not> linked (hw (uport s')) \<and> \<not> initialized s' \<and> circ_data (xmit s') = None \<and> count s' = 0 \<and> \<not> port_tty s'"
proof -
  have inv: "sys_inv linked sy"
    by (rule tty_runs_inv [OF assms(1-3)])
  have line: "line_inv linked (sy_line sy)" "driver_data (tty (sy_line sy))" "tty_count (tty (sy_line sy)) = 1"
    using inv assms(4,5) by (simp_all add: sys_inv_def sy_all_def)
  have zero: "close_count (sy_line sy) = 0"
    using line(3) by (simp add: close_count_def)
  have "\<not> port_tty s'"
    using assms(6,8) line(2) zero by (auto simp: uart_close_def Let_def close_forgets_tty)
  then show ?thesis
    using s8250.close_open_file [OF assms(8,6,7) line(2,1)] zero by simp
qed

theorem last_close_shuts_down_witness:
  "\<exists>sy s'. tty_runs example_env example_start sy \<and> sy_files sy = 1
    \<and> uart_close (serial8250_pops example_env) (sy_cons sy) example_close (sy_line sy) = Some s' \<and> count s' = 0"
proof -
  obtain sy where sy: "tty_runs example_env example_start sy" "sy_files sy = 1"
      "sy_hung sy + sy_sleeping sy + sy_hung_sleeping sy = 0" "circ_data (xmit (sy_line sy)) = None"
    by (rule example_run)
  have "line_inv linked (sy_line sy)"
    using tty_runs_inv [OF sy(1) [unfolded example_start_def] example_hyps] by (simp add: sys_inv_def)
  then have "\<not> initialized (sy_line sy)"
    using sy(4) by (auto simp: line_inv_def)
  then have "\<exists>s'. uart_close (serial8250_pops example_env) (sy_cons sy) example_close (sy_line sy) = Some s'"
    by (simp add: uart_close_def close_drained_def example_close_def Let_def)
  then obtain s' where s': "uart_close (serial8250_pops example_env) (sy_cons sy) example_close (sy_line sy) = Some s'" ..
  have "\<not> ce_hung_up example_close" "close_quiet linked example_close"
    by (simp_all add: example_close_def close_quiet_def same_refl)
  from last_close_shuts_down [OF sy(1) [unfolded example_start_def] example_hyps sy(2,3) this s'] show ?thesis
    using sy(1,2) s' by blast
qed

text \<open>
  C17. An interrupted open cuts the line of another process. When a reachable line has one opener and one file, and a second open is interrupted by a
  signal in \<open>uart_get\<close>, the close that the terminal layer makes for it, with only interrupts while it waits, takes the opener of the first file away: the line is shut down,
  off its chain, without terminal, buffer and opener, while the first file is still open; and a request of that file to start the
  line again, as \<open>TIOCSSERIAL\<close> makes it on a port of a known type, follows a null pointer.
\<close>

theorem interrupted_open_cuts_line:
  assumes "tty_runs e (tty_start e reg cons p d) sy" and "\<not> linked (hw p)" and "sd_inv d"
    and "sy_files sy = 1" and "count (sy_line sy) = 1" and "oe_line_ok oe" and "oe_interrupted oe"
    and "uart_open (serial8250_pops e) (sy_cons sy) oe (add_tty 1 (sy_line sy)) = Inr (Some (r, cons', s))"
    and "\<not> ce_hung_up ce" and "close_quiet linked ce" and "uart_close (serial8250_pops e) cons' ce s = Some s'"
  shows "r = - ERESTARTSYS \<and> count s' = 0 \<and> \<not> port_tty s' \<and> \<not> linked (hw (uport s')) \<and> circ_data (xmit s') = None
    \<and> tty_step (serial8250_pops e) linked sy (sy\<lparr>sy_line := add_tty (-1) s', sy_cons := cons', sy_files := 1, sy_refused := sy_refused sy + 1\<rparr>)
    \<and> (type (uport s') \<noteq> PORT_UNKNOWN \<longrightarrow> check_and_exit (serial8250_pops e) env fl dv s' = Inl Null_tty)"
proof -
  have inv: "sys_inv linked sy"
    by (rule tty_runs_inv [OF assms(1-3)])
  have s: "s = add_tty 1 (sy_line sy)" "cons' = sy_cons sy" "r = - ERESTARTSYS"
    using assms(6-8) by (auto simp: uart_open_def uart_get_def)
  have line: "line_inv linked s" "driver_data (tty s)" "1 < tty_count (tty s)" "count s = 1"
    using inv assms(4,5) by (simp_all add: s sys_inv_def sy_all_def line_inv_def)
  have zero: "close_count s = 0"
    using line(3,4) by (simp add: close_count_def)
  have gone: "\<not> port_tty s'"
    using assms(9,11) line(2) zero by (auto simp: uart_close_def Let_def close_forgets_tty)
  have off: "\<not> linked (hw (uport s'))" "\<not> initialized s'" "circ_data (xmit s') = None" "count s' = 0"
    using s8250.close_open_file [OF assms(11,9,10) line(2,1)] zero by simp_all
  have "sy\<lparr>sy_line := add_tty (-1) s', sy_cons := cons', sy_files := 1, sy_refused := sy_refused sy + 1\<rparr> =
      sy\<lparr>sy_line := add_tty (-1) s', sy_cons := cons', sy_refused := sy_refused sy + 1\<rparr>"
    using assms(4) by (cases sy) simp
  moreover have "uart_get (oe_interrupted oe) (add_tty 1 (sy_line sy)) = Inl (- ERESTARTSYS)"
    using assms(7) by (simp add: uart_get_def)
  ultimately have "tty_step (serial8250_pops e) linked sy
      (sy\<lparr>sy_line := add_tty (-1) s', sy_cons := cons', sy_files := 1, sy_refused := sy_refused sy + 1\<rparr>)"
    using tty_step.Open_refused [OF disjI2 assms(8,10,11)] by simp
  moreover have "check_and_exit (serial8250_pops e) env fl dv s' = Inl Null_tty" if "type (uport s') \<noteq> PORT_UNKNOWN"
    using that off(2) gone by (simp add: check_and_exit_def uart_startup_def)
  ultimately show ?thesis
    using s(3) off gone by blast
qed

theorem interrupted_open_cuts_line_witness:
  "\<exists>sy s'. tty_runs example_env example_start sy \<and> sy_files sy = 1 \<and> count s' = 0
    \<and> uart_close (serial8250_pops example_env) (sy_cons sy) example_close (add_tty 1 (sy_line sy)) = Some s' \<and> \<not> port_tty s'"
proof -
  obtain sy where sy: "tty_runs example_env example_start sy" "sy_files sy = 1" "circ_data (xmit (sy_line sy)) = None"
      "count (sy_line sy) = 1"
    using example_run by metis
  let ?oe = "example_open\<lparr>oe_interrupted := True\<rparr>"
  let ?s = "add_tty 1 (sy_line sy)"
  have "line_inv linked (sy_line sy)"
    using tty_runs_inv [OF sy(1) [unfolded example_start_def] example_hyps] by (simp add: sys_inv_def)
  then have "\<not> initialized (sy_line sy)"
    using sy(3) by (auto simp: line_inv_def)
  then have "\<exists>s'. uart_close (serial8250_pops example_env) (sy_cons sy) example_close ?s = Some s'"
    by (simp add: uart_close_def close_drained_def example_close_def Let_def)
  then obtain s' where s': "uart_close (serial8250_pops example_env) (sy_cons sy) example_close ?s = Some s'" ..
  have op: "uart_open (serial8250_pops example_env) (sy_cons sy) ?oe ?s = Inr (Some (- ERESTARTSYS, sy_cons sy, ?s))"
    by (simp add: uart_open_def uart_get_def example_open_def)
  have env: "oe_line_ok ?oe" "oe_interrupted ?oe" "\<not> ce_hung_up example_close" "close_quiet linked example_close"
    by (simp_all add: example_open_def example_close_def close_quiet_def same_refl)
  show ?thesis
    using interrupted_open_cuts_line [OF sy(1) [unfolded example_start_def] example_hyps sy(2,4) env(1,2) op env(3,4) s'] sy(1,2) s' by blast
qed

text \<open>
  C14. One interrupt serves its whole chain until it is quiet: for any number of ports that share it, the handler with its end marker
  does exactly what serving the ports one after the other, round and round, does, up to the point where as many visits in a row as
  there are ports have found nothing to do, or 258 rounds are over; the result tells whether any visit found work. If all lines are linked
  and in a good state it returns without a fault, and every line keeps its marks, its terminal, its openers and its buffer apart from what was sent.
\<close>

theorem interrupt_serves_chain:
  "serial8250_interrupt e ls = serve_ports e (258 * length ls) 0 0 False ls
   \<and> ((\<forall>s \<in> set ls. ready_line s)
      \<longrightarrow> (\<exists>handled ls'. serial8250_interrupt e ls = Inr (handled, ls') \<and> list_all2 (same_line linked) ls ls' \<and> (\<forall>s \<in> set ls'. ready_line s)))"
proof (rule conjI [OF interrupt_serves], rule impI)
  assume ready: "\<forall>s \<in> set ls. ready_line s"
  obtain handled ls' where run: "serial8250_interrupt e ls = Inr (handled, ls')" and same: "list_all2 (same_line linked) ls ls'"
    using serve_lines [OF ready, of 0 e "258 * length ls" 0 False] by (cases "ls = []") (auto simp: interrupt_serves)
  have "ready_line s'" if "s' \<in> set ls'" for s'
  proof -
    from that obtain s where s: "s \<in> set ls" "same_line linked s s'"
      using same by (metis in_set_conv_nth list_all2_conv_all_nth)
    then show ?thesis
      using same_ready [OF s(2)] ready by simp
  qed
  then show "\<exists>handled ls'. serial8250_interrupt e ls = Inr (handled, ls') \<and> list_all2 (same_line linked) ls ls' \<and> (\<forall>s \<in> set ls'. ready_line s)"
    using run same by blast
qed

theorem interrupt_serves_chain_witness:
  "\<exists>handled ls'. serial8250_interrupt example_env
      [example_line\<lparr>initialized := True, uport := example_port\<lparr>hw := example_hw\<lparr>linked := True\<rparr>\<rparr>\<rparr>] = Inr (handled, ls')"
proof -
  let ?s = "example_line\<lparr>initialized := True, uport := example_port\<lparr>hw := example_hw\<lparr>linked := True\<rparr>\<rparr>\<rparr>"
  have "\<forall>s \<in> set [?s]. ready_line s"
    by (simp add: line_inv_def example_line_def fresh_line_def xmit_ok_def example_port_def example_hw_def)
  then show ?thesis
    using interrupt_serves_chain [of example_env "[?s]"] by blast
qed

section \<open>The transmitter\<close>

text \<open>Bytes written to the transmit register one after the other, each of them counted.\<close>

definition send_bytes :: "'d env8250 \<Rightarrow> u8 list \<Rightarrow> 'd port8250 \<Rightarrow> 'd port8250" where
  "send_bytes e = fold (\<lambda>b p. count_tx (serial_out e REG_TX b p))"

lemma circ_empty_pending: "circ_ok circ \<Longrightarrow> uart_circ_empty circ \<longleftrightarrow> uart_circ_chars_pending circ = 0"
  by (auto simp: uart_circ_empty_def uart_circ_chars_pending_def circ_ok_def circ_cnt_eq)

lemma circ_bytes_first: "0 < uart_circ_chars_pending circ \<Longrightarrow> circ_data circ = Some buf \<Longrightarrow> circ_tail circ < 4096
  \<Longrightarrow> circ_bytes circ ! 0 = buf ! circ_tail circ"
  by (simp add: nth_circ_bytes circ_buf_of_def)

lemma tx_loop_fifo:
  assumes "circ_ok (xmit s)" and "circ_data (xmit s) = Some buf" and "0 < uart_circ_chars_pending (xmit s)"
  shows "tx_loop e buf n s =
    s\<lparr>uport := send_bytes e (take n (circ_bytes (xmit s))) (uport s), xmit := circ_take (min n (uart_circ_chars_pending (xmit s))) (xmit s)\<rparr>"
  using assms
proof (induction n arbitrary: s)
  case 0
  then show ?case
    by (simp add: send_bytes_def circ_take_def circ_ok_def)
next
  case (Suc n)
  let ?m = "uart_circ_chars_pending (xmit s)"
  define x where "x = circ_take 1 (xmit s)"
  define s2 where "s2 = s\<lparr>uport := send_bytes e [circ_bytes (xmit s) ! 0] (uport s), xmit := x\<rparr>"
  have tail: "circ_tail (xmit s) < 4096"
    using Suc.prems(1) by (simp add: circ_ok_def)
  have x: "circ_ok x" "circ_bytes x = tl (circ_bytes (xmit s))" "circ_data x = Some buf" "circ_data (xmit s2) = Some buf"
    using Suc.prems circ_take_ok [of "xmit s" 1] by (simp_all add: x_def s2_def drop_Suc) (simp_all add: circ_take_def)
  then have pend: "uart_circ_chars_pending x = ?m - 1"
    using length_circ_bytes [of x] by simp
  have bytes: "take (Suc n) (circ_bytes (xmit s)) = circ_bytes (xmit s) ! 0 # take n (circ_bytes x)"
    using Suc.prems(3) x(2) by (metis length_circ_bytes length_greater_0_conv hd_conv_nth list.collapse take_Suc_Cons)
  have step: "tx_loop e buf (Suc n) s = (if uart_circ_empty x then s2 else tx_loop e buf n s2)"
    using circ_bytes_first [OF Suc.prems(3,2) tail] by (simp add: Let_def s2_def x_def send_bytes_def circ_take_def)
  have tail_sum: "circ_take k x = circ_take (Suc k) (xmit s)" for k
    by (simp add: x_def circ_take_def mod_simps)
  show ?case
  proof (cases "uart_circ_empty x")
    case True
    then have "uart_circ_chars_pending x = 0"
      using circ_empty_pending [OF x(1)] by simp
    then have "?m = 1" "circ_bytes x = []"
      using pend Suc.prems(3) length_circ_bytes [of x] by (simp, metis length_0_conv)
    then show ?thesis
      using True step by (simp add: bytes s2_def x_def)
  next
    case False
    then have "0 < uart_circ_chars_pending x"
      using circ_empty_pending [OF x(1)] by simp
    then have "tx_loop e buf n s2 = s2\<lparr>uport := send_bytes e (take n (circ_bytes x)) (uport s2), xmit := circ_take (min n (?m - 1)) x\<rparr>"
      using Suc.IH [of s2] x pend by (simp add: s2_def)
    moreover have "Suc (min n (?m - 1)) = min (Suc n) ?m"
      using Suc.prems(3) by simp
    ultimately show ?thesis
      using False step by (simp add: bytes s2_def tail_sum) (simp add: send_bytes_def)
  qed
qed

text \<open>
  C19. The transmitter of the 8250 empties the buffer first in, first out: with no flow control character to send, a terminal
  that is not stopped and bytes in the buffer, one call writes the oldest bytes to the transmit register, as many as the
  chip's FIFO takes (at least one, though the field may hold 0), and takes just them from the buffer; the
  interrupt of the transmitter goes off exactly when the buffer became empty, and the writers are woken when fewer
  than 256 bytes are left. A port without a pointer to its line makes it fault at once.
\<close>

theorem transmit_fifo:
  assumes "circ_ok (xmit s)" and "circ_bytes (xmit s) \<noteq> []" and "x_char (uport s) = 0" and "port_tty s" and "\<not> e_tx_stopped e (tty s)"
  shows "if \<not> has_state (uport s) then transmit_chars e s = Inl Null_state else \<exists>s'. transmit_chars e s = Inr s' \<and> circ_ok (xmit s')
    \<and> circ_bytes (xmit s) = take (max 1 (nat (sint (tx_loadsz (hw (uport s)))))) (circ_bytes (xmit s)) @ circ_bytes (xmit s')
    \<and> uport s' = (if circ_bytes (xmit s') = [] then stop_tx_ier e else id)
        (send_bytes e (take (max 1 (nat (sint (tx_loadsz (hw (uport s)))))) (circ_bytes (xmit s))) (uport s))
    \<and> (tlet s' \<longleftrightarrow> tlet s \<or> length (circ_bytes (xmit s')) < 256)"
proof (cases "has_state (uport s)")
  case True
  define n where "n = max (Suc 0) (nat (sint (tx_loadsz (hw (uport s)))))"
  define x where "x = circ_take (min n (uart_circ_chars_pending (xmit s))) (xmit s)"
  have pend: "0 < uart_circ_chars_pending (xmit s)"
    using assms(2) length_circ_bytes [of "xmit s"] by (metis length_greater_0_conv)
  obtain buf where buf: "circ_data (xmit s) = Some buf"
    using assms(1) by (auto simp: circ_ok_def)
  have x: "circ_ok x" "circ_bytes x = drop n (circ_bytes (xmit s))"
    using circ_take_ok [OF assms(1), of "min n (uart_circ_chars_pending (xmit s))"] by (auto simp: x_def min_def)
  have empty: "uart_circ_empty x \<longleftrightarrow> circ_bytes x = []"
    using circ_empty_pending [OF x(1)] length_circ_bytes [of x] by (metis length_0_conv)
  have st: "has_state (send_bytes e bs q) = has_state q" for bs q
    unfolding send_bytes_def by (induction bs arbitrary: q) simp_all
  have "transmit_chars e s = (let s1 = s\<lparr>uport := send_bytes e (take n (circ_bytes (xmit s))) (uport s), xmit := x\<rparr>;
      s2 = (if uart_circ_chars_pending x < 256 then s1\<lparr>tlet := True\<rparr> else s1)
    in Inr (if uart_circ_empty x then on_port (stop_tx_ier e) s2 else s2))"
    using assms(3-5) pend circ_empty_pending [OF assms(1)] tx_loop_fifo [OF assms(1) buf pend, of e n] True
    by (simp add: transmit_chars_def buf n_def [symmetric] x_def [symmetric] Let_def uart_write_wakeup_def st)
  then show ?thesis
    using x empty True by (simp add: Let_def n_def [symmetric])
qed (use assms in \<open>simp add: transmit_chars_def\<close>)

theorem transmit_fifo_witness:
  "\<exists>s'. transmit_chars example_env (snd (uart_put_char 7 example_line)) = Inr s' \<and> circ_bytes (xmit s') = []"
proof -
  let ?s = "snd (uart_put_char 7 example_line)"
  obtain x where x: "?s = example_line\<lparr>xmit := x\<rparr>" "circ_ok x" "circ_bytes x = [7]"
    using put_char_queue [OF example_line_ok(1,2), of 7] example_line_ok(3) by auto
  have "\<exists>s'. transmit_chars example_env ?s = Inr s' \<and> [7] = take 16 [7] @ circ_bytes (xmit s')"
    using transmit_fifo [of ?s example_env] x
    by (simp add: example_line_def fresh_line_def example_port_def example_hw_def example_env_def zero_tty_def) blast
  then show ?thesis
    by (simp add: eq_commute)
qed

section \<open>Configuration without privilege\<close>

definition delays :: "'h uart_state \<Rightarrow> u32 \<times> u32" where
  "delays s = (close_delay s, closing_wait s)"

lemma delays_update [simp]:
  "delays (s\<lparr>uport := p\<rparr>) = delays s" "delays (s\<lparr>xmit := x\<rparr>) = delays s" "delays (s\<lparr>tty := t\<rparr>) = delays s"
  "delays (s\<lparr>tlet := b\<rparr>) = delays s" "delays (s\<lparr>initialized := b\<rparr>) = delays s" "delays (s\<lparr>cts_flow := b\<rparr>) = delays s"
  "delays (s\<lparr>check_cd := b\<rparr>) = delays s" "delays (s\<lparr>crashed := b\<rparr>) = delays s"
  by (simp_all add: delays_def)

lemma delays_tx_loop [simp]: "delays (tx_loop e buf n s) = delays s"
  by (induction n arbitrary: s) (simp_all add: Let_def)

lemma delays_wakeup: "uart_write_wakeup s = Inr s' \<Longrightarrow> delays s' = delays s"
  by (auto simp: uart_write_wakeup_def split: if_splits)

lemma delays_survive: "(\<And>s'. r = Inr s' \<Longrightarrow> delays s' = delays s) \<Longrightarrow> delays (survive s r) = delays s"
  by (cases r) simp_all

lemma delays_transmit: "transmit_chars e s = Inr s' \<Longrightarrow> delays s' = delays s"
  by (auto simp: transmit_chars_def Let_def dest: delays_wakeup split: if_splits option.splits sum.splits)

lemma delays_start_tx [simp]: "delays (serial8250_start_tx e s) = delays s"
proof -
  have t: "delays (survive s (transmit_chars e s)) = delays s" for s
    by (rule delays_survive [OF delays_transmit])
  show ?thesis
    by (simp add: serial8250_start_tx_def Let_def split_beta t)
qed

lemma delays_get_mctrl [simp]: "delays (snd (serial8250_get_mctrl e s)) = delays s"
proof -
  have cts: "delays (cts_change e b s) = delays s" for b s
    by (simp add: cts_change_def Let_def delays_survive [OF delays_wakeup] split: cts_reaction.split)
  have "delays (snd (check_modem_status e s)) = delays s" for s
    by (simp add: check_modem_status_def Let_def split_beta cts)
  then show ?thesis
    by (simp add: serial8250_get_mctrl_def split_beta)
qed

lemma delays_change_speed [simp]: "delays (uart_change_speed ops old s) = delays s"
  by (simp add: uart_change_speed_def Let_def split_beta)

lemma delays_check_exit: "check_and_exit (serial8250_pops e) env fl dv s = Inr (r, s') \<Longrightarrow> delays s' = delays s"
proof -
  have hw: "delays (startup_hw (serial8250_pops e) b s) = delays s" for b s
    by (simp add: startup_hw_def serial8250_pops_def Let_def split_beta)
  have "delays s' = delays s" if "uart_startup (serial8250_pops e) page admin b s = Inr (r, s')" for page admin b
    using that by (auto simp: uart_startup_def hw Let_def split_beta split: if_splits)
  then show "check_and_exit (serial8250_pops e) env fl dv s = Inr (r, s') \<Longrightarrow> delays s' = delays s"
    by (auto simp: check_and_exit_def split: if_splits)
qed

lemma merge_bits_outside: "((w AND NOT m) OR (v AND m)) AND NOT m = w AND NOT (m :: u32)"
  by (rule bit_word_eqI) (auto simp: bit_and_iff bit_or_iff bit_not_iff)

text \<open>
  C40. A caller without the capability cannot touch the hardware set-up of a port: \<open>uart_set_info\<close> answers \<open>-EPERM\<close> and
  changes nothing when the request asks, of a port that is not fixed, for another interrupt, address, hub, access method, register spacing or
  type, or, of any port, for another base speed, closing delay, closing wait, FIFO size or privileged flag; and whatever it is asked, when it returns the port is where it was, with its clock, type and FIFO size, the delays of the line are as before, and
  the flags of the port differ at most in the bits that select a special speed or the low latency.
\<close>

theorem unprivileged_set_info:
  assumes "\<not> env_admin env" and "uart_set_info (serial8250_pops e) env (Some new) s = Inr (r, s')"
  shows "port_place (uport s') = port_place (uport s)
    \<and> flags (uport s') AND NOT UPF_USR_MASK = flags (uport s) AND NOT UPF_USR_MASK
    \<and> delays s' = delays s
    \<and> (\<not> has_bits (flags (uport s)) UPF_FIXED_PORT
          \<and> (env_irq_canon env (ss_irq new) \<noteq> irq (uport s) \<or> ss_port new \<noteq> iobase (uport s) \<or> ss_iomem_base new \<noteq> mapbase (uport s)
             \<or> ss_hub6 new \<noteq> ucast (hub6 (uport s)) \<or> ss_io_type new \<noteq> iotype (uport s)
             \<or> ss_iomem_reg_shift new \<noteq> ucast (regshift (uport s)) \<or> ss_type new \<noteq> type (uport s))
        \<or> ss_baud_base new \<noteq> uartclk (uport s) div 16
        \<or> ucast (ss_close_delay new) * 10 \<noteq> close_delay s
        \<or> (if ss_closing_wait new = 65535 then 65535 else ucast (ss_closing_wait new) * 10) \<noteq> closing_wait s
        \<or> ss_xmit_fifo_size new \<notin> {0, fifosize (uport s)}
        \<or> (ss_flags new XOR flags (uport s)) AND NOT UPF_USR_MASK \<noteq> 0
        \<longrightarrow> r = - EPERM \<and> s' = s)"
proof (cases "needs_admin (new\<lparr>ss_irq := env_irq_canon env (ss_irq new)\<rparr>) s")
  case True
  then show ?thesis
    using assms by (simp add: uart_set_info_def Let_def)
next
  case False
  define s1 where "s1 = on_port (\<lambda>p. p\<lparr>flags := (flags p AND NOT UPF_USR_MASK) OR (ss_flags new AND UPF_USR_MASK),
    custom_divisor := ss_custom_divisor new\<rparr>) s"
  have exit: "check_and_exit (serial8250_pops e) env (flags (uport s)) (custom_divisor (uport s)) s1 = Inr (r, s')"
    using assms False by (simp add: uart_set_info_def Let_def s1_def)
  have "port_place (uport s') = port_place (uport s1)" "flags (uport s') = flags (uport s1)"
    "delays s' = delays s1"
    using pl.place_check_exit [OF exit] fg.place_check_exit [OF exit] delays_check_exit [OF exit] .
  moreover have "port_place (uport s1) = port_place (uport s)"
    by (simp add: s1_def port_place_def)
  moreover have "flags (uport s1) AND NOT UPF_USR_MASK = flags (uport s) AND NOT UPF_USR_MASK"
    using merge_bits_outside [of "flags (uport s)" UPF_USR_MASK "ss_flags new"] by (simp add: s1_def)
  ultimately show ?thesis
    using False by (auto simp: s1_def delays_def needs_admin_def change_irq_def change_port_def new_close_delay_def new_closing_wait_def)
qed

definition example_request :: serial_struct where
  "example_request = the (snd (uart_get_info False example_line))"

theorem unprivileged_set_info_witness:
  "uart_set_info (serial8250_pops example_env) (oe_env example_open) (Some (example_request\<lparr>ss_irq := 7\<rparr>)) example_line = Inr (- EPERM, example_line)"
proof -
  have admin: "\<not> env_admin (oe_env example_open)"
    by (simp add: example_open_def)
  have needs: "needs_admin ((example_request\<lparr>ss_irq := 7\<rparr>)
      \<lparr>ss_irq := env_irq_canon (oe_env example_open) (ss_irq (example_request\<lparr>ss_irq := 7\<rparr>))\<rparr>) example_line"
    by (simp add: needs_admin_def change_irq_def example_open_def example_line_def fresh_line_def example_port_def has_bits_def)
  have differs: "irq (uport example_line) \<noteq> 7" "\<not> has_bits (flags (uport example_line)) UPF_FIXED_PORT"
    by (simp_all add: example_line_def fresh_line_def example_port_def has_bits_def)
  obtain r s' where "uart_set_info (serial8250_pops example_env) (oe_env example_open) (Some (example_request\<lparr>ss_irq := 7\<rparr>)) example_line =
      Inr (r, s')"
    using admin needs by (simp add: uart_set_info_def Let_def)
  then show ?thesis
    using unprivileged_set_info [OF admin, of example_env "example_request\<lparr>ss_irq := 7\<rparr>" example_line r s'] differs by (simp add: example_open_def)
qed

end
