(* ===== verification/Uart_8250_Register.thy ===== *)
theory Uart_8250_Register
  imports Uart_8250_Chain Uart_8250_Props
begin

text \<open>
  The ports of the 8250 driver: the table of built-in ports, registration and removal of ports at run time, platform
  devices, power management, loading and unloading, and the proc file that turns the receiver off.
\<close>

section \<open>Built-in ports\<close>

abbreviation (input) "ENOSPC \<equiv> (28 :: int)"

text \<open>
  An entry of \<open>old_serial_port\<close> as \<open>asm/serial.h\<close> gives it. \<open>kludge\<close> is \<open>ALPHA_KLUDGE_MCR\<close>, \<open>canon\<close> is \<open>irq_canonicalize\<close>. The
  flags for \<open>request_irq\<close>, which also depend on \<open>share_irqs\<close>, are left out: its result is a parameter.
\<close>

record old_port =
  op_port :: u32
  op_irq :: u32
  op_baud_base :: u32
  op_flags :: u32
  op_hub6 :: u8
  op_iomem_base :: u32
  op_io_type :: u8
  op_reg_shift :: u8

definition isa_init_port :: "u8 \<Rightarrow> nat \<Rightarrow> 'd port8250 \<Rightarrow> 'd port8250" where
  "isa_init_port kludge i p =
     on_hw (\<lambda>h. h\<lparr>backup_timer := False, timer_armed := False, mcr_mask := NOT kludge, mcr_force := kludge\<rparr>) (p\<lparr>line := of_nat i\<rparr>)"

definition old_port_settings :: "(u32 \<Rightarrow> u32) \<Rightarrow> old_port \<Rightarrow> 'd port8250 \<Rightarrow> 'd port8250" where
  "old_port_settings canon old p =
     set_io_from_upio (p\<lparr>iobase := op_port old, irq := canon (op_irq old), uartclk := op_baud_base old * 16,
       flags := op_flags old, hub6 := op_hub6 old, membase := op_iomem_base old, iotype := op_io_type old,
       regshift := op_reg_shift old\<rparr>)"

text \<open>The first \<open>nr\<close> ports of the array; \<open>first\<close> is the static variable of the function.\<close>

definition serial8250_isa_init_ports ::
  "u8 \<Rightarrow> (u32 \<Rightarrow> u32) \<Rightarrow> old_port list \<Rightarrow> nat \<Rightarrow> bool \<times> 'd port8250 list \<Rightarrow> bool \<times> 'd port8250 list" where
  "serial8250_isa_init_ports kludge canon olds nr = (\<lambda>(first, ps).
     if \<not> first then (first, ps)
     else
       let ps1 = map (\<lambda>i. if i < nr then isa_init_port kludge i (ps ! i) else ps ! i) [0..<length ps]
       in (False, map (\<lambda>i. if i < length olds \<and> i < nr then old_port_settings canon (olds ! i) (ps1 ! i) else ps1 ! i) [0..<length ps1]))"

text \<open>\<open>reg\<close> is what \<open>register_console\<close> does to the console and the ports.\<close>

definition serial8250_console_init ::
  "u8 \<Rightarrow> (u32 \<Rightarrow> u32) \<Rightarrow> old_port list \<Rightarrow> (bool \<times> 'd port8250 list \<Rightarrow> bool \<times> 'd port8250 list) \<Rightarrow> nat \<times> bool \<times> 'd port8250 list \<Rightarrow>
   nat \<times> bool \<times> 'd port8250 list" where
  "serial8250_console_init kludge canon olds reg = (\<lambda>(nr, first, ps).
     let nr' = min nr (length ps) in (nr', reg (serial8250_isa_init_ports kludge canon olds nr' (first, ps))))"

text \<open>What \<open>early_serial_setup\<close> and \<open>serial8250_register_port\<close> both take from a template.\<close>

definition copy_template :: "'d port8250 \<Rightarrow> 'd port8250 \<Rightarrow> 'd port8250" where
  "copy_template p q =
     q\<lparr>iobase := iobase p, membase := membase p, irq := irq p, uartclk := uartclk p, fifosize := fifosize p,
       regshift := regshift p, iotype := iotype p, mapbase := mapbase p\<rparr>"

definition early_serial_setup ::
  "u8 \<Rightarrow> (u32 \<Rightarrow> u32) \<Rightarrow> old_port list \<Rightarrow> nat \<Rightarrow> 'd port8250 \<Rightarrow> bool \<times> 'd port8250 list \<Rightarrow> int \<times> bool \<times> 'd port8250 list" where
  "early_serial_setup kludge canon olds nr p = (\<lambda>(first, ps).
     if unat (line p) \<ge> length ps then (- ENODEV, first, ps)
     else
       (case serial8250_isa_init_ports kludge canon olds nr (first, ps) of
          (first', ps1) \<Rightarrow>
            let q = (copy_template p (ps1 ! unat (line p)))\<lparr>flags := flags p, type := type p, line := line p\<rparr>
            in (0, first', ps1[unat (line p) := set_io_from_upio q])))"

section \<open>The table of ports\<close>

text \<open>
  From \<open>serial8250_init\<close> on the ports are those of the lines of the driver \<open>serial8250_reg\<close>. \<open>pt_dev\<close> has the device of each
  port, \<open>pt_isa\<close> is \<open>serial8250_isa_devs\<close>. The parameters \<open>reg\<close> and \<open>vh\<close> are \<open>register_console\<close> and \<open>tty_vhangup\<close>.
\<close>

record 'd port_table =
  pt_drv :: "'d uart_8250 uart_driver"
  pt_nr :: nat
  pt_dev :: "nat option list"
  pt_isa :: "nat option"

definition with_lines :: "('d line8250 list \<Rightarrow> uart_fault + 'a) \<Rightarrow> 'd port_table \<Rightarrow> uart_fault + 'a" where
  "with_lines f t = (case drv_state (pt_drv t) of State_lines ls \<Rightarrow> f ls | _ \<Rightarrow> Inl Freed_state)"

text \<open>A change of the port of line \<open>i\<close>, made directly in the structure.\<close>

definition on_slot :: "nat \<Rightarrow> ('d port8250 \<Rightarrow> 'd port8250) \<Rightarrow> 'd line8250 list \<Rightarrow> 'd uart_8250 uart_driver \<Rightarrow> 'd uart_8250 uart_driver" where
  "on_slot i f ls drv = drv\<lparr>drv_state := State_lines (ls[i := on_port f (ls ! i)])\<rparr>"

definition find_slot :: "('d port8250 \<Rightarrow> bool) \<Rightarrow> nat \<Rightarrow> 'd line8250 list \<Rightarrow> nat option" where
  "find_slot P nr ls = find (\<lambda>i. P (uport (ls ! i))) [0..<nr]"

definition serial8250_find_match_or_unused :: "'d port8250 \<Rightarrow> nat \<Rightarrow> 'd line8250 list \<Rightarrow> nat option" where
  "serial8250_find_match_or_unused p nr ls =
     (case find_slot (\<lambda>q. uart_match_port q p) nr ls of
        Some i \<Rightarrow> Some i
      | None \<Rightarrow>
          (case find_slot (\<lambda>q. type q = PORT_UNKNOWN \<and> iobase q = 0) nr ls of
             Some i \<Rightarrow> Some i
           | None \<Rightarrow> find_slot (\<lambda>q. type q = PORT_UNKNOWN) nr ls))"

text \<open>The structure that is added: the template in the place of the old port.\<close>

definition register_settings :: "'d port8250 \<Rightarrow> 'd port8250 \<Rightarrow> 'd port8250" where
  "register_settings p q =
     (let q1 = (copy_template p q)\<lparr>flags := flags p OR UPF_BOOT_AUTOCONF\<rparr>;
          q2 = (if has_bits (flags p) UPF_FIXED_TYPE
                then on_hw (\<lambda>h. h\<lparr>caps := cfg_caps (config_of p), tx_loadsz := cfg_tx_loadsz (config_of p)\<rparr>)
                       (q1\<lparr>type := type p, fifosize := cfg_fifo_size (config_of p)\<rparr>)
                else q1)
      in set_io_from_upio q2)"

text \<open>\<open>dv\<close> is the device of the template, if it has one.\<close>

definition serial8250_register_port ::
  "'d env8250 \<Rightarrow> (console \<Rightarrow> console) \<Rightarrow> ('d line8250 \<Rightarrow> 'd line8250) \<Rightarrow> nat option \<Rightarrow> 'd port8250 \<Rightarrow> 'd port_table \<Rightarrow>
   uart_fault + int \<times> 'd port_table" where
  "serial8250_register_port e reg vh dv p t =
     (if uartclk p = 0 then Inr (- EINVAL, t)
      else with_lines (\<lambda>ls.
        case serial8250_find_match_or_unused p (pt_nr t) ls of
          None \<Rightarrow> Inr (- ENOSPC, t)
        | Some i \<Rightarrow>
            (case uart_remove_one_port (serial8250_pops e) vh (unat (line (uport (ls ! i)))) (pt_drv t) of
               Inl f \<Rightarrow> Inl f
             | Inr (_, drv1) \<Rightarrow>
                 with_lines (\<lambda>ls1.
                   let q = register_settings p (uport (ls1 ! i));
                       t1 = t\<lparr>pt_drv := on_slot i (\<lambda>_. q) ls1 drv1, pt_dev := (if dv = None then pt_dev t else (pt_dev t)[i := dv])\<rparr>
                   in (case uart_add_one_port (serial8250_pops e) reg q (pt_drv t1) of
                         Inl f \<Rightarrow> Inl f
                       | Inr (ret, drv2) \<Rightarrow>
                           Inr (if ret = 0 then sint (line q) else ret, t1\<lparr>pt_drv := drv2\<rparr>))) (t\<lparr>pt_drv := drv1\<rparr>))) t)"

definition serial8250_unregister_port ::
  "'d env8250 \<Rightarrow> (console \<Rightarrow> console) \<Rightarrow> ('d line8250 \<Rightarrow> 'd line8250) \<Rightarrow> nat \<Rightarrow> 'd port_table \<Rightarrow> uart_fault + 'd port_table" where
  "serial8250_unregister_port e reg vh i t =
     with_lines (\<lambda>ls.
       case uart_remove_one_port (serial8250_pops e) vh (unat (line (uport (ls ! i)))) (pt_drv t) of
         Inl f \<Rightarrow> Inl f
       | Inr (_, drv1) \<Rightarrow>
           if pt_isa t = None then Inr (t\<lparr>pt_drv := drv1, pt_dev := (pt_dev t)[i := None]\<rparr>)
           else with_lines (\<lambda>ls1.
             let q = (uport (ls1 ! i))\<lparr>flags := flags (uport (ls1 ! i)) AND NOT UPF_BOOT_AUTOCONF, type := PORT_UNKNOWN\<rparr>;
                 t1 = t\<lparr>pt_drv := on_slot i (\<lambda>_. q) ls1 drv1, pt_dev := (pt_dev t)[i := pt_isa t]\<rparr>
             in (case uart_add_one_port (serial8250_pops e) reg q (pt_drv t1) of
                   Inl f \<Rightarrow> Inl f
                 | Inr (_, drv2) \<Rightarrow> Inr (t1\<lparr>pt_drv := drv2\<rparr>))) (t\<lparr>pt_drv := drv1\<rparr>)) t"

section \<open>Platform devices\<close>

text \<open>A loop over indices whose body may fault.\<close>

fun each_port :: "(nat \<Rightarrow> 's \<Rightarrow> uart_fault + 's) \<Rightarrow> nat list \<Rightarrow> 's \<Rightarrow> uart_fault + 's" where
  "each_port f [] s = Inr s"
| "each_port f (i # ns) s = (case f i s of Inl x \<Rightarrow> Inl x | Inr s' \<Rightarrow> each_port f ns s')"

text \<open>\<open>ps\<close> is the array \<open>serial8250_ports\<close> before its ports are added; errors of \<open>uart_add_one_port\<close> are ignored.\<close>

definition serial8250_register_ports ::
  "'d env8250 \<Rightarrow> (console \<Rightarrow> console) \<Rightarrow> u8 \<Rightarrow> (u32 \<Rightarrow> u32) \<Rightarrow> old_port list \<Rightarrow> nat option \<Rightarrow> bool \<times> 'd port8250 list \<Rightarrow>
   'd port_table \<Rightarrow> uart_fault + 'd port_table" where
  "serial8250_register_ports e reg kludge canon olds dv = (\<lambda>(first, ps) t.
     let ps1 = map (\<lambda>i. if i < pt_nr t then on_hw (\<lambda>h. h\<lparr>cur_iotype := 0xFF\<rparr>) (ps ! i) else ps ! i) [0..<length ps];
         ps2 = snd (serial8250_isa_init_ports kludge canon olds (pt_nr t) (first, ps1))
     in each_port (\<lambda>i t. map_sum id (\<lambda>(_, drv). t\<lparr>pt_drv := drv, pt_dev := (pt_dev t)[i := dv]\<rparr>)
                           (uart_add_one_port (serial8250_pops e) reg (ps2 ! i) (pt_drv t))) [0..<pt_nr t] t)"

text \<open>An entry of the platform data of a device, as the loop of \<open>serial8250_probe\<close> copies it into the template.\<close>

record plat_port =
  pp_iobase :: u32
  pp_membase :: u32
  pp_irq :: u32
  pp_uartclk :: u32
  pp_regshift :: u8
  pp_iotype :: u8
  pp_flags :: u32
  pp_mapbase :: u32
  pp_hub6 :: u8
  pp_type :: u32

definition probe_template :: "plat_port \<Rightarrow> 'd port8250 \<Rightarrow> 'd port8250" where
  "probe_template pp p =
     p\<lparr>iobase := pp_iobase pp, membase := pp_membase pp, irq := pp_irq pp, uartclk := pp_uartclk pp, regshift := pp_regshift pp,
       iotype := pp_iotype pp, flags := pp_flags pp, mapbase := pp_mapbase pp, hub6 := pp_hub6 pp, type := pp_type pp\<rparr>"

text \<open>The list ends at an entry without flags; \<open>p\<close> is the template, zeroed at first. A failed registration is only reported.\<close>

fun serial8250_probe ::
  "'d env8250 \<Rightarrow> (console \<Rightarrow> console) \<Rightarrow> ('d line8250 \<Rightarrow> 'd line8250) \<Rightarrow> nat \<Rightarrow> 'd port8250 \<Rightarrow> plat_port list \<Rightarrow> 'd port_table \<Rightarrow>
   uart_fault + 'd port_table" where
  "serial8250_probe e reg vh dv p [] t = Inr t"
| "serial8250_probe e reg vh dv p (pp # pps) t =
     (if pp_flags pp = 0 then Inr t
      else
        (case serial8250_register_port e reg vh (Some dv) (probe_template pp p) t of
           Inl f \<Rightarrow> Inl f
         | Inr (_, t') \<Rightarrow> serial8250_probe e reg vh dv (probe_template pp p) pps t'))"

definition serial8250_remove ::
  "'d env8250 \<Rightarrow> (console \<Rightarrow> console) \<Rightarrow> ('d line8250 \<Rightarrow> 'd line8250) \<Rightarrow> nat \<Rightarrow> 'd port_table \<Rightarrow> uart_fault + 'd port_table" where
  "serial8250_remove e reg vh dv t =
     each_port (\<lambda>i t. if pt_dev t ! i = Some dv then serial8250_unregister_port e reg vh i t else Inr t) [0..<pt_nr t] t"

section \<open>Power management\<close>

text \<open>The parameters of \<open>uart_suspend_port\<close> and \<open>uart_resume_port\<close>.\<close>

record 'd pm_env =
  pe_con_suspend :: bool
  pe_may_wakeup :: bool
  pe_nap :: "'d line8250 \<Rightarrow> 'd line8250"
  pe_irate :: "ktermios \<Rightarrow> u32"
  pe_rate :: "ktermios \<Rightarrow> u32"
  pe_stack :: ktermios

definition serial8250_suspend_port :: "'d env8250 \<Rightarrow> 'd pm_env \<Rightarrow> nat \<Rightarrow> 'd port_table \<Rightarrow> uart_fault + 'd port_table" where
  "serial8250_suspend_port e pe i t =
     with_lines (\<lambda>ls.
       case uart_suspend_port (serial8250_pops e) (pe_con_suspend pe) (pe_may_wakeup pe) (pe_nap pe) (drv_cons (pt_drv t)) (ls ! i) of
         (cons, s) \<Rightarrow> Inr (t\<lparr>pt_drv := (pt_drv t)\<lparr>drv_state := State_lines (ls[i := s]), drv_cons := cons\<rparr>\<rparr>)) t"

text \<open>A National Semiconductor chip is put back into its fast mode.\<close>

definition resume_natsemi :: "'d env8250 \<Rightarrow> 'd port8250 \<Rightarrow> 'd port8250" where
  "resume_natsemi e p =
     (if cap_natsemi (caps (hw p)) then
        (case serial_in e 4 (serial_out e REG_LCR 0xE0 p) of
           (tmp, p1) \<Rightarrow> serial_out e REG_LCR 0 (serial_out e 4 ((tmp AND NOT 0xB0) OR 0x10) p1))
      else p)"

definition serial8250_resume_port :: "'d env8250 \<Rightarrow> 'd pm_env \<Rightarrow> nat \<Rightarrow> 'd port_table \<Rightarrow> uart_fault + 'd port_table" where
  "serial8250_resume_port e pe i t =
     with_lines (\<lambda>ls.
       case uart_resume_port (serial8250_pops e) (pe_con_suspend pe) (pe_may_wakeup pe) (pe_irate pe) (pe_rate pe) (pe_stack pe)
              (drv_cons (pt_drv t)) (on_port (resume_natsemi e) (ls ! i)) of
         Inl f \<Rightarrow> Inl f
       | Inr (cons, s) \<Rightarrow> Inr (t\<lparr>pt_drv := (pt_drv t)\<lparr>drv_state := State_lines (ls[i := s]), drv_cons := cons\<rparr>\<rparr>)) t"

text \<open>All ports of the array that a device has.\<close>

definition device_ports ::
  "(nat \<Rightarrow> 'd port_table \<Rightarrow> uart_fault + 'd port_table) \<Rightarrow> nat \<Rightarrow> 'd port_table \<Rightarrow> uart_fault + 'd port_table" where
  "device_ports f dv t =
     each_port (\<lambda>i t. with_lines (\<lambda>ls. if type (uport (ls ! i)) \<noteq> PORT_UNKNOWN \<and> pt_dev t ! i = Some dv then f i t else Inr t) t)
       [0..<length (pt_dev t)] t"

definition serial8250_suspend :: "'d env8250 \<Rightarrow> 'd pm_env \<Rightarrow> nat \<Rightarrow> 'd port_table \<Rightarrow> uart_fault + 'd port_table" where
  "serial8250_suspend e pe = device_ports (serial8250_suspend_port e pe)"

definition serial8250_resume :: "'d env8250 \<Rightarrow> 'd pm_env \<Rightarrow> nat \<Rightarrow> 'd port_table \<Rightarrow> uart_fault + 'd port_table" where
  "serial8250_resume e pe = device_ports (serial8250_resume_port e pe)"

section \<open>Loading and unloading\<close>

text \<open>
  What the kernel answers while the driver is loaded: whether the memory of \<open>uart_register_driver\<close> is there and what
  \<open>tty_register_driver\<close> returns, whether the device for the built-in ports can be allocated and what adding it and
  registering the platform driver return; then the devices that the driver is bound to, with their platform data.
  A zeroed port stands for the entries that have not been set up.
\<close>

record 'd init_env =
  ie_state :: bool
  ie_tty :: bool
  ie_tty_ret :: int
  ie_isa :: "nat option"
  ie_dev_add :: int
  ie_drv_ret :: int
  ie_devices :: "(nat \<times> plat_port list) list"
  ie_zero :: "'d port8250"

fun probe_devices ::
  "'d env8250 \<Rightarrow> (console \<Rightarrow> console) \<Rightarrow> ('d line8250 \<Rightarrow> 'd line8250) \<Rightarrow> 'd port8250 \<Rightarrow> (nat \<times> plat_port list) list \<Rightarrow> 'd port_table \<Rightarrow>
   uart_fault + 'd port_table" where
  "probe_devices e reg vh zero [] t = Inr t"
| "probe_devices e reg vh zero ((dv, pps) # ds) t =
     (case serial8250_probe e reg vh dv zero pps t of Inl f \<Rightarrow> Inl f | Inr t' \<Rightarrow> probe_devices e reg vh zero ds t')"

text \<open>
  The labels at the end of \<open>serial8250_init\<close>: the driver is unregistered, the pointer to the device and the ports that were added are
  left as they are.
\<close>

definition init_fail :: "int \<Rightarrow> 'd port_table \<Rightarrow> uart_fault + int \<times> 'd port_table" where
  "init_fail ret t = Inr (ret, t\<lparr>pt_drv := uart_unregister_driver (pt_drv t)\<rparr>)"

definition serial8250_init ::
  "'d init_env \<Rightarrow> 'd env8250 \<Rightarrow> (console \<Rightarrow> console) \<Rightarrow> ('d line8250 \<Rightarrow> 'd line8250) \<Rightarrow> u8 \<Rightarrow> (u32 \<Rightarrow> u32) \<Rightarrow> old_port list \<Rightarrow>
   bool \<times> 'd port8250 list \<Rightarrow> 'd port_table \<Rightarrow> uart_fault + int \<times> 'd port_table" where
  "serial8250_init ie e reg vh kludge canon olds ports t =
     (let uart_nr = length (snd ports); drv0 = (pt_drv t)\<lparr>drv_nr := uart_nr\<rparr>
      in (case uart_register_driver (ie_zero ie) (ie_state ie) (ie_tty ie) (ie_tty_ret ie) drv0 of
            Inl f \<Rightarrow> Inl f
          | Inr (ret, drv1) \<Rightarrow>
              let t1 = t\<lparr>pt_nr := min (pt_nr t) uart_nr, pt_drv := drv1\<rparr>; t2 = t1\<lparr>pt_isa := ie_isa ie\<rparr>
              in if ret \<noteq> 0 then Inr (ret, t1)
                 else if ie_isa ie = None then init_fail (- ENOMEM) t2
                 else if ie_dev_add ie \<noteq> 0 then init_fail (ie_dev_add ie) t2
                 else
                   (case serial8250_register_ports e reg kludge canon olds (ie_isa ie) ports t2 of
                      Inl f \<Rightarrow> Inl f
                    | Inr t3 \<Rightarrow>
                        if ie_drv_ret ie \<noteq> 0 then init_fail (ie_drv_ret ie) t3
                        else map_sum id (\<lambda>t4. (0, t4)) (probe_devices e reg vh (ie_zero ie) (ie_devices ie) t3))))"

text \<open>The devices that are bound are removed one after the other; without \<open>pt_isa\<close> their ports are not added again.\<close>

fun remove_devices ::
  "'d env8250 \<Rightarrow> (console \<Rightarrow> console) \<Rightarrow> ('d line8250 \<Rightarrow> 'd line8250) \<Rightarrow> nat list \<Rightarrow> 'd port_table \<Rightarrow> uart_fault + 'd port_table" where
  "remove_devices e reg vh [] t = Inr t"
| "remove_devices e reg vh (dv # ds) t =
     (case serial8250_remove e reg vh dv t of Inl f \<Rightarrow> Inl f | Inr t' \<Rightarrow> remove_devices e reg vh ds t')"

definition serial8250_exit ::
  "'d env8250 \<Rightarrow> (console \<Rightarrow> console) \<Rightarrow> ('d line8250 \<Rightarrow> 'd line8250) \<Rightarrow> nat list \<Rightarrow> 'd port_table \<Rightarrow> uart_fault + 'd port_table" where
  "serial8250_exit e reg vh bound t =
     map_sum id (\<lambda>t'. t'\<lparr>pt_drv := uart_unregister_driver (pt_drv t')\<rparr>) (remove_devices e reg vh bound (t\<lparr>pt_isa := None\<rparr>))"

section \<open>The switch of the receiver\<close>

text \<open>\<open>buffer\<close> is what the code finds in memory up to a NUL; it reads the caller's memory in place.\<close>

definition serial_console_rx_read_proc :: "'d env8250 \<Rightarrow> string" where
  "serial_console_rx_read_proc e = int_digits (if e_rx_enable e then 1 else 0) @ [CHR 0x0A]"

definition serial_console_rx_write_proc :: "string \<Rightarrow> int \<Rightarrow> 'd env8250 \<Rightarrow> int \<times> 'd env8250" where
  "serial_console_rx_write_proc buffer n e =
     (case sscanf_int buffer of None \<Rightarrow> (- EINVAL, e) | Some v \<Rightarrow> (n, e\<lparr>e_rx_enable := (v \<noteq> 0)\<rparr>))"

definition serial8250_create_procfs_entry :: "bool \<Rightarrow> int" where
  "serial8250_create_procfs_entry entry = (if entry then 0 else - ENOENT)"

section \<open>Registration\<close>

lemma find_slot_None: "find_slot P nr ls = None \<Longrightarrow> i < nr \<Longrightarrow> \<not> P (uport (ls ! i))"
  by (auto simp: find_slot_def find_None_iff)

lemma find_slot_Some: "find_slot P nr ls = Some i \<Longrightarrow> i < nr \<and> P (uport (ls ! i))"
  by (auto simp: find_slot_def find_Some_iff)

lemma find_match_None:
  "serial8250_find_match_or_unused p nr ls = None \<Longrightarrow> i < nr
   \<Longrightarrow> \<not> uart_match_port (uport (ls ! i)) p \<and> type (uport (ls ! i)) \<noteq> PORT_UNKNOWN"
  by (auto simp: serial8250_find_match_or_unused_def split: option.splits dest: find_slot_None)

lemma find_match_Some:
  "serial8250_find_match_or_unused p nr ls = Some i \<Longrightarrow> i < nr \<and> (uart_match_port (uport (ls ! i)) p
     \<or> type (uport (ls ! i)) = PORT_UNKNOWN \<and> (\<forall>j < nr. \<not> uart_match_port (uport (ls ! j)) p))"
  by (auto simp: serial8250_find_match_or_unused_def split: option.splits dest: find_slot_None find_slot_Some)

lemma spot_update [simp]:
  "port_spot (p\<lparr>flags := f\<rparr>) = port_spot p" "port_spot (p\<lparr>has_cons := b\<rparr>) = port_spot p" "port_spot (p\<lparr>has_state := b\<rparr>) = port_spot p"
  by (simp_all add: port_spot_def)

lemma spot_change_pm [simp]: "port_spot (uport (uart_change_pm (serial8250_pops e) st s)) = port_spot (uport s)"
  by (simp add: uart_change_pm_def serial8250_pops_def serial8250_pm_def)

lemma spot_configure: "port_spot (uport (snd (uart_configure_port (serial8250_pops e) reg cons s))) = port_spot (uport s)"
proof -
  have "port_spot (autoconf_port (serial8250_pops e) p) = port_spot p" for p
    by (simp add: autoconf_port_def serial8250_pops_def)
  moreover have "port_spot (ops_set_mctrl (serial8250_pops e) m p) = port_spot p" for m p
    by (simp add: serial8250_pops_def)
  ultimately show ?thesis
    by (simp add: uart_configure_port_def Let_def)
qed

lemma present_configure: "port_present (snd (uart_configure_port ops reg cons s)) = port_present s"
  by (simp add: uart_configure_port_def uart_change_pm_def Let_def)

lemma add_line:
  assumes "add_port_line (serial8250_pops e) reg cons p s = (cons', s')"
  shows "port_spot (uport s') = port_spot p \<and> port_present s'"
proof -
  define s1 where "s1 = s\<lparr>port_present := True, pm_state := -1, uport := p\<lparr>has_cons := (cons \<noteq> None), has_state := True\<rparr>\<rparr>"
  obtain c2 s2 where 2: "uart_configure_port (serial8250_pops e) reg cons s1 = (c2, s2)"
    by fastforce
  have "s' = on_port (\<lambda>q. q\<lparr>flags := flags q AND NOT UPF_DEAD\<rparr>) s2"
    using assms unfolding add_port_line_def Let_def s1_def [symmetric] 2 by simp
  moreover have "port_spot (uport s1) = port_spot p" "port_present s1"
    by (simp_all add: s1_def)
  then have "port_spot (uport s2) = port_spot p" "port_present s2"
    using spot_configure [of e reg cons s1] present_configure [of "serial8250_pops e" reg cons s1] by (simp_all add: 2)
  ultimately show ?thesis
    by simp
qed

lemma remove_line:
  assumes "\<forall>s. line (uport (vh s)) = line (uport s)"
  shows "\<not> port_present (remove_port_line ops vh s)"
    and "line (uport (remove_port_line (serial8250_pops e) vh s)) = line (uport s)"
proof -
  show "\<not> port_present (remove_port_line ops vh s)"
    by (simp add: remove_port_line_def Let_def)
  have "line (ops_release_port (serial8250_pops e) p) = line p" for p
    using sp.config_resources(2) [of p] by (simp add: serial8250_pops_def serial8250_release_port_def port_spot_def)
  then show "line (uport (remove_port_line (serial8250_pops e) vh s)) = line (uport s)"
    using assms by (simp add: remove_port_line_def Let_def)
qed

lemma register_settings_spot:
  "port_spot (register_settings p q) = (iobase p, mapbase p, iotype p, hub6 q, regshift p, line q)"
  by (simp add: register_settings_def copy_template_def set_io_from_upio_def port_spot_def Let_def)

lemma sint_small: "unat (w :: u32) < 2 ^ 31 \<Longrightarrow> sint w = int (unat w)"
proof -
  assume "unat w < 2 ^ 31"
  then have "int (unat w) < int (2 ^ 31)"
    by (simp only: of_nat_less_iff)
  then have "uint w < 2 ^ 31"
    by simp
  moreover have "- (2 ^ 31) \<le> uint w"
    using unsigned_greater_eq [of w] order_trans [of "- (2 ^ 31)" 0 "uint w"] by simp
  ultimately show ?thesis
    using signed_take_bit_int_eq_self [of 31 "uint w"] by (simp add: sint_uint)
qed

lemma uart_match_spot: "iotype p \<in> {UPIO_PORT, UPIO_MEM, UPIO_MEM32, UPIO_AU, UPIO_TSI, UPIO_DWAPB}
  \<Longrightarrow> port_spot q = (iobase p, mapbase p, iotype p, h, r, l) \<Longrightarrow> uart_match_port q p"
  by (auto simp: port_spot_def uart_match_port_def)

lemma find_slot_first: "find_slot P nr ls = Some i \<longleftrightarrow> i < nr \<and> P (uport (ls ! i)) \<and> (\<forall>j < i. \<not> P (uport (ls ! j)))"
  unfolding find_slot_def find_Some_iff by (auto intro: exI [of _ i])

lemma find_slot_none: "find_slot P nr ls = None \<longleftrightarrow> (\<forall>j < nr. \<not> P (uport (ls ! j)))"
  unfolding find_slot_def find_None_iff by auto

lemma find_match_again:
  assumes "serial8250_find_match_or_unused p nr ls = Some i" and "i < length ls" and "uart_match_port (uport s') p"
  shows "serial8250_find_match_or_unused p nr (ls[i := s']) = Some i"
proof -
  have i: "i < nr" "\<forall>j < i. \<not> uart_match_port (uport (ls ! j)) p"
    using assms(1) by (auto simp: serial8250_find_match_or_unused_def find_slot_first find_slot_none split: option.splits)
  then have "find_slot (\<lambda>q. uart_match_port q p) nr (ls[i := s']) = Some i"
    using assms(2,3) by (simp add: find_slot_first)
  then show ?thesis
    by (simp add: serial8250_find_match_or_unused_def)
qed

text \<open>
  C38. Registration finds the right line: a template whose place a port of the table has already gets the line of that port, another
  one a line without a recognised chip, and \<open>-ENOSPC\<close> is returned only when there is neither. The line's number is the result, whatever
  the probing finds, although the comment on the function promises an error if it fails; the port is added and stands at the place of
  the template under the same number, so that registering the template again finds the same line; and no other line
  changes. (The last but one not for HUB6 cards, whose sub-port is not copied.)
\<close>

theorem register_port_slots:
  assumes "uartclk p \<noteq> 0" and "drv_state (pt_drv t) = State_lines ls" and "length ls = drv_nr (pt_drv t)" and "pt_nr t \<le> length ls"
    and "length ls < 2 ^ 31" and "\<forall>i < length ls. unat (line (uport (ls ! i))) = i" and "\<forall>s. line (uport (vh s)) = line (uport s)"
  shows "(case serial8250_find_match_or_unused p (pt_nr t) ls of
      None \<Rightarrow> serial8250_register_port e reg vh dv p t = Inr (- ENOSPC, t)
        \<and> (\<forall>i < pt_nr t. \<not> uart_match_port (uport (ls ! i)) p \<and> type (uport (ls ! i)) \<noteq> PORT_UNKNOWN)
    | Some i \<Rightarrow> i < pt_nr t
        \<and> (uart_match_port (uport (ls ! i)) p
           \<or> type (uport (ls ! i)) = PORT_UNKNOWN \<and> (\<forall>j < pt_nr t. \<not> uart_match_port (uport (ls ! j)) p))
        \<and> (\<exists>t' s'. serial8250_register_port e reg vh dv p t = Inr (int i, t') \<and> drv_state (pt_drv t') = State_lines (ls[i := s'])
             \<and> port_present s' \<and> unat (line (uport s')) = i
             \<and> (iotype p \<in> {UPIO_PORT, UPIO_MEM, UPIO_MEM32, UPIO_AU, UPIO_TSI, UPIO_DWAPB} 
                  \<longrightarrow> uart_match_port (uport s') p \<and> serial8250_find_match_or_unused p (pt_nr t') (ls[i := s']) = Some i)))"
proof (cases "serial8250_find_match_or_unused p (pt_nr t) ls")
  case None
  then show ?thesis
    using assms(1,2) find_match_None [OF None] by (simp add: serial8250_register_port_def with_lines_def)
next
  case (Some i)
  have i: "i < pt_nr t" "i < length ls" "unat (line (uport (ls ! i))) = i"
    using find_match_Some [OF Some] assms(4,6) by auto
  define s1 where "s1 = remove_port_line (serial8250_pops e) vh (ls ! i)"
  define q where "q = register_settings p (uport s1)"
  define drv1 where "drv1 = (pt_drv t)\<lparr>drv_state := State_lines (ls[i := s1\<lparr>uport := q\<rparr>])\<rparr>"
  have s1: "\<not> port_present s1" "unat (line (uport s1)) = i"
    using remove_line [OF assms(7)] i(3) by (simp_all add: s1_def)
  then have q: "port_spot q = (iobase p, mapbase p, iotype p, hub6 (uport s1), regshift p, line (uport s1))" "unat (line q) = i"
    using register_settings_spot [of p "uport s1"] by (simp_all add: q_def) (simp add: port_spot_def)
  obtain cons' s' where add: "add_port_line (serial8250_pops e) reg (drv_cons (pt_drv t)) q (s1\<lparr>uport := q\<rparr>) = (cons', s')"
    by fastforce
  have "uart_add_one_port (serial8250_pops e) reg q drv1 =
      Inr (0, drv1\<lparr>drv_state := State_lines (ls[i := s']), drv_cons := cons'\<rparr>)"
    using i(2) s1(1) q(2) assms(3) add by (simp add: uart_add_one_port_def drv1_def Let_def)
  moreover have "sint (line q) = int i"
    using sint_small [of "line q"] q(2) i(2) assms(5) by simp
  ultimately have "\<exists>t'. serial8250_register_port e reg vh dv p t = Inr (int i, t') \<and> drv_state (pt_drv t') = State_lines (ls[i := s'])
      \<and> pt_nr t' = pt_nr t"
    using assms(1,2) Some i
    by (simp add: serial8250_register_port_def with_lines_def uart_remove_one_port_def on_slot_def Let_def s1_def [symmetric]
        q_def [symmetric] drv1_def)
  moreover have "port_present s'" "unat (line (uport s')) = i"
    using add_line [OF add] q s1(2) by (auto simp: port_spot_def)
  moreover have "iotype p \<in> {UPIO_PORT, UPIO_MEM, UPIO_MEM32, UPIO_AU, UPIO_TSI, UPIO_DWAPB} \<longrightarrow> uart_match_port (uport s') p"
    using uart_match_spot add_line [OF add] q(1) by metis
  moreover have "uart_match_port (uport s') p \<Longrightarrow> serial8250_find_match_or_unused p (pt_nr t) (ls[i := s']) = Some i"
    by (rule find_match_again [OF Some i(2)])
  ultimately show ?thesis
    using Some find_match_Some [OF Some] by auto
qed

definition example_table :: "unit port_table" where
  "example_table = \<lparr>pt_drv = \<lparr>drv_nr = 1, drv_state = State_lines [fresh_line bare_port], drv_cons = None, drv_tty_driver = True\<rparr>,
     pt_nr = 1, pt_dev = [None], pt_isa = None\<rparr>"

theorem register_port_slots_witness:
  "\<exists>t' s'. serial8250_register_port example_env (\<lambda>c. c) (\<lambda>s. s) None example_port example_table = Inr (0, t')
    \<and> drv_state (pt_drv t') = State_lines [s'] \<and> port_present s'"
proof -
  have "serial8250_find_match_or_unused example_port (pt_nr example_table) [fresh_line bare_port] = Some 0"
    by (simp add: serial8250_find_match_or_unused_def find_slot_def example_table_def fresh_line_def bare_port_def example_port_def
        uart_match_port_def)
  then show ?thesis
    using register_port_slots [of example_port example_table "[fresh_line bare_port]" "\<lambda>s. s" example_env "\<lambda>c. c" None]
    by (auto simp: example_table_def fresh_line_def bare_port_def example_port_def)
qed

section \<open>Linking a port\<close>



end
