(* ===== verification/Mac_Tools.thy ===== *)
theory Mac_Tools
  imports Kd_Prelude
begin

text \<open>
  The address and OTP tools of the Android builds (android/sys-tools/macaddr): wifimactool, bdaddrtool and
  otptool.

  The two address tools differ in their file's format and their messages, which are a record. The file
  is its content, if it exists. What \<open>fopen\<close> and \<open>system\<close> return are parameters, as is the content of the buffer that \<open>read_mac\<close>
  does not initialise. A use of a null pointer or a read past the buffer is an error of the model.
\<close>

section \<open>The address tools\<close>

datatype mac_error = Null_arg | Past_buffer | Exit nat

record mac_cfg =
  mac_prefix :: string
  mac_vendor :: string
  msg_missing :: string
  msg_generated :: string

definition wifi_cfg :: mac_cfg where
  "wifi_cfg = \<lparr>mac_prefix = ''sta='', mac_vendor = ''00:00:'',
     msg_missing = ''Wlan mac file does not exist'' @ [CHR 0x0A],
     msg_generated = ''Generate wlan mac by [ro.serialno]'' @ [CHR 0x0A]\<rparr>"

definition bd_cfg :: mac_cfg where
  "bd_cfg = \<lparr>mac_prefix = '''', mac_vendor = ''00:02:'',
     msg_missing = ''Bluetooth addr file does not exist'' @ [CHR 0x0A],
     msg_generated = ''Generate bluetooth device addr by [ro.serialno]'' @ [CHR 0x0A]\<rparr>"

record mac_world =
  mac_file :: "string option"
  mac_out :: string

definition say :: "string \<Rightarrow> mac_world \<Rightarrow> mac_world" where
  "say s w = w\<lparr>mac_out := mac_out w @ s\<rparr>"

definition mac_char :: "char \<Rightarrow> bool" where
  "mac_char c \<longleftrightarrow> c \<in> set ''0123456789aAbBcCdDeEfF:''"

fun check_loop :: "string \<Rightarrow> int" where
  "check_loop [] = 0"
| "check_loop (c # cs) = (if mac_char c then check_loop cs else -1)"

definition check_mac_valid :: "string \<Rightarrow> int" where
  "check_mac_valid mac = (if length mac \<noteq> 17 then -1 else check_loop mac)"

text \<open>\<open>args\<close> are the arguments after the name of the program; \<open>can_open\<close> is whether \<open>fopen\<close> succeeds.\<close>

definition write_mac :: "mac_cfg \<Rightarrow> bool \<Rightarrow> string list \<Rightarrow> mac_world \<Rightarrow> mac_error + mac_world" where
  "write_mac cfg can_open args w =
     (if length args < 2 then Inl Null_arg
      else if check_mac_valid (args ! 1) < 0 then Inl (Exit 1)
      else if \<not> can_open then Inr (say ''Failed to write file'' w)
      else Inr (w\<lparr>mac_file := Some (mac_prefix cfg @ args ! 1 @ [CHR 0x0A])\<rparr>))"

text \<open>The position of the first occurrence, in the string up to its NUL.\<close>

fun strstr :: "string \<Rightarrow> string \<Rightarrow> nat option" where
  "strstr s t =
     (if take (length t) s = t then Some 0
      else case s of [] \<Rightarrow> None | c # cs \<Rightarrow> if c = CHR 0x00 then None else map_option Suc (strstr cs t))"

declare strstr.simps [simp del]

text \<open>Printing with \<open>%s\<close> stops at a NUL, which must be in the buffer.\<close>

definition print_buf :: "string \<Rightarrow> mac_world \<Rightarrow> mac_error + mac_world" where
  "print_buf buf w =
     (if CHR 0x00 \<in> set buf then Inr (say (takeWhile (\<lambda>c. c \<noteq> CHR 0x00) buf) w) else Inl Past_buffer)"

text \<open>\<open>fread\<close> fills the first bytes of the 255; \<open>junk\<close> is what the rest of the stack buffer holds.\<close>

definition read_mac :: "mac_cfg \<Rightarrow> bool \<Rightarrow> string \<Rightarrow> mac_world \<Rightarrow> mac_error + mac_world" where
  "read_mac cfg can_open junk w =
     (case mac_file w of
        None \<Rightarrow> Inr (say (msg_missing cfg) w)
      | Some content \<Rightarrow>
          if \<not> can_open then Inr (say ''Failed to read file'' w)
          else
            let buf = take 255 (take 255 content @ junk)
            in if mac_prefix cfg = [] then print_buf buf w
               else case strstr buf (mac_prefix cfg) of
                      None \<Rightarrow> Inl Null_arg
                    | Some i \<Rightarrow> print_buf (drop (i + length (mac_prefix cfg)) buf) w)"

text \<open>\<open>strncpy(mac, value, 8)\<close>: a shorter value is padded with NUL.\<close>

definition get_serialno :: "string \<Rightarrow> string" where
  "get_serialno value = take 8 (value @ replicate 8 (CHR 0x00))"

definition mac_format :: "mac_cfg \<Rightarrow> string \<Rightarrow> string" where
  "mac_format cfg mac =
     mac_prefix cfg @ mac_vendor cfg @ [mac ! 0, mac ! 1, CHR '':'', mac ! 2, mac ! 3, CHR '':'', mac ! 4, mac ! 5,
       CHR '':'', mac ! 6, mac ! 7, CHR 0x0A]"

definition generate_mac :: "mac_cfg \<Rightarrow> bool \<Rightarrow> string \<Rightarrow> mac_world \<Rightarrow> mac_world" where
  "generate_mac cfg can_open serialno w =
     (case mac_file w of
        Some _ \<Rightarrow> w
      | None \<Rightarrow>
          if \<not> can_open then say ''Failed to generate file'' w
          else say (msg_generated cfg) (w\<lparr>mac_file := Some (mac_format cfg (get_serialno serialno))\<rparr>))"

text \<open>The usage text is left out; \<open>Exit\<close> is the status of \<open>exit\<close>.\<close>

definition mac_main :: "mac_cfg \<Rightarrow> bool \<Rightarrow> string \<Rightarrow> string \<Rightarrow> string list \<Rightarrow> mac_world \<Rightarrow> mac_error + mac_world" where
  "mac_main cfg can_open junk serialno args w =
     (case args of
        [] \<Rightarrow> Inl (Exit 1)
      | opt # _ \<Rightarrow>
          if length opt \<noteq> 2 then Inl (Exit 1)
          else if opt = ''-h'' then Inr w
          else if opt = ''-w'' then write_mac cfg can_open args w
          else if opt = ''-r'' then read_mac cfg can_open junk w
          else if opt = ''-g'' then Inr (generate_mac cfg can_open serialno w)
          else Inl (Exit 1))"

section \<open>The OTP tool\<close>

text \<open>\<open>sys n cmd\<close> is what the \<open>n\<close>-th call of \<open>system\<close> returns; the log holds the commands in order.\<close>

type_synonym system = "nat \<Rightarrow> string \<Rightarrow> int"

definition execute_cmd :: "system \<Rightarrow> string \<Rightarrow> string list \<Rightarrow> int \<times> string list" where
  "execute_cmd sys cmd log = (if sys (length log) cmd \<noteq> 0 then -1 else 0, log @ [cmd])"

text \<open>\<open>loop\<close> counts up after each attempt and the test for the limit comes before that of the result.\<close>

function retry_cmd :: "system \<Rightarrow> string \<Rightarrow> nat \<Rightarrow> string list \<Rightarrow> int \<times> string list" where
  "retry_cmd sys cmd loop log =
     (case execute_cmd sys cmd log of (retval, log') \<Rightarrow>
        if loop + 1 > 10 then (-1, log')
        else if retval < 0 then retry_cmd sys cmd (loop + 1) log'
        else (0, log'))"
  by pat_completeness auto
termination
  by (relation "measure (\<lambda>(sys, cmd, loop, log). 11 - loop)") auto

declare retry_cmd.simps [simp del]

text \<open>Commands in sequence: the first failure returns -1.\<close>

definition then_cmd ::
  "int \<times> string list \<Rightarrow> (string list \<Rightarrow> int \<times> string list) \<Rightarrow> int \<times> string list" where
  "then_cmd r f = (case r of (retval, log) \<Rightarrow> if retval < 0 then (-1, log) else f log)"

definition rfkill_off :: "system \<Rightarrow> string list \<Rightarrow> int \<times> string list" where
  "rfkill_off sys log =
     (case execute_cmd sys ''cat /sys/class/rfkill/rfkill0/state | grep 0 > /dev/null'' log of (retval, log1) \<Rightarrow>
        if retval < 0 then (0, snd (execute_cmd sys ''echo 0 > /sys/class/rfkill/rfkill0/state'' log1))
        else (0, log1))"

definition enter_mfg :: "system \<Rightarrow> string list \<Rightarrow> int \<times> string list" where
  "enter_mfg sys log0 =
     then_cmd (execute_cmd sys ''svc wifi disable'' log0) (\<lambda>log1.
     then_cmd (execute_cmd sys ''cat /sys/class/rfkill/rfkill0/type | grep bluetooth > /dev/null'' log1) (\<lambda>log2.
     then_cmd (rfkill_off sys log2) (\<lambda>log3.
     then_cmd (execute_cmd sys ''ifconfig wlan0 down'' log3) (\<lambda>log4.
     then_cmd (retry_cmd sys ''wl ver 2>&1 | grep adapter > /dev/null'' 1 log4) (\<lambda>log5.
     then_cmd (execute_cmd sys ''echo /etc/firmware/bcm43455_mfg.bin > /sys/module/bcmdhd/parameters/firmware_path'' log5) (\<lambda>log6.
     then_cmd (execute_cmd sys ''ifconfig wlan0 up'' log6) (\<lambda>log7.
     retry_cmd sys ''wl ver | grep WLTEST > /dev/null'' 1 log7)))))))"

definition exit_mfg :: "system \<Rightarrow> string list \<Rightarrow> int \<times> string list" where
  "exit_mfg sys log0 =
     then_cmd (execute_cmd sys ''ifconfig wlan0 down'' log0) (\<lambda>log1.
     execute_cmd sys ''echo /etc/firmware/bcm43455_sta.bin > /sys/module/bcmdhd/parameters/firmware_path'' log1)"

abbreviation (input) "OTP_CHECK \<equiv> ''wl cisdump | grep 0x43 > /dev/null''"
abbreviation (input) "OTP_WRITE \<equiv> ''wl ciswrite -p /etc/firmware/bcm43455_pciehdr.bin''"

definition write_otp :: "system \<Rightarrow> string list \<Rightarrow> int \<times> string list" where
  "write_otp sys log0 =
     then_cmd (enter_mfg sys log0) (\<lambda>log1.
     case execute_cmd sys OTP_CHECK log1 of (retval, log2) \<Rightarrow>
       if retval < 0 then
         (case execute_cmd sys OTP_WRITE log2 of (retval2, log3) \<Rightarrow>
            if retval2 < 0 then (-1, snd (exit_mfg sys log3))
            else then_cmd (execute_cmd sys OTP_CHECK log3) (exit_mfg sys))
       else exit_mfg sys log2)"

definition read_otp :: "system \<Rightarrow> string list \<Rightarrow> int \<times> string list" where
  "read_otp sys log0 =
     then_cmd (enter_mfg sys log0) (\<lambda>log1. then_cmd (execute_cmd sys ''wl cisdump'' log1) (exit_mfg sys))"

definition check_otp :: "system \<Rightarrow> string list \<Rightarrow> int \<times> string list" where
  "check_otp sys log0 =
     then_cmd (enter_mfg sys log0) (\<lambda>log1.
     case execute_cmd sys ''wl cisdump | grep 0x43  > /dev/null'' log1 of (retval, log2) \<Rightarrow>
       then_cmd (exit_mfg sys log2) (\<lambda>log3. (retval, log3)))"

text \<open>The status of the process and the commands it ran.\<close>

definition otp_main :: "system \<Rightarrow> string list \<Rightarrow> nat \<times> string list" where
  "otp_main sys args =
     (case args of
        [] \<Rightarrow> (1, [])
      | opt # _ \<Rightarrow>
          if length opt \<noteq> 2 then (1, [])
          else if opt = ''-h'' then (0, [])
          else if opt = ''-w'' then (0, snd (write_otp sys []))
          else if opt = ''-r'' then (0, snd (read_otp sys []))
          else if opt = ''-c'' then (0, snd (check_otp sys []))
          else (1, []))"

end
