(* ===== verification/Mac_Tools_Props.thy ===== *)
theory Mac_Tools_Props
  imports Mac_Tools
begin

text \<open>
  Properties of the address tools and the OTP tool.
\<close>

section \<open>Writing and reading an address\<close>

lemma check_loop_all: "check_loop s = (if list_all mac_char s then 0 else -1)"
  by (induction s) auto

lemma valid_mac: "check_mac_valid mac = 0 \<longleftrightarrow> length mac = 17 \<and> list_all mac_char mac"
  by (simp add: check_mac_valid_def check_loop_all)

lemma mac_char_no_nul: "mac_char c \<Longrightarrow> c \<noteq> CHR 0x00"
  by (auto simp: mac_char_def)

lemma strstr_prefix: "strstr (t @ s) t = Some 0"
  by (simp add: strstr.simps)

lemma print_terminated:
  assumes "list_all (\<lambda>c. c \<noteq> CHR 0x00) s"
  shows "print_buf (s @ CHR 0x00 # rest) w = Inr (say s w)"
  using assms by (simp add: print_buf_def takeWhile_append list_all_iff)

text \<open>
  C32. An address that was written is read back: for both tools, \<open>-w\<close> with a valid address stores it, and \<open>-r\<close> then prints exactly
  that address and a line end. This needs that the byte after the text in the uninitialised buffer of \<open>read_mac\<close>
  happens to be NUL.
\<close>

theorem mac_write_read:
  assumes "cfg \<in> {wifi_cfg, bd_cfg}" and "check_mac_valid mac = 0" and "junk = CHR 0x00 # rest"
  shows "\<exists>w1. mac_main cfg True junk serialno [''-w'', mac] w = Inr w1 \<and> mac_out w1 = mac_out w
    \<and> mac_main cfg True junk serialno [''-r''] w1 = Inr (say (mac @ [CHR 0x0A]) w1)"
proof -
  have mac: "length mac = 17" "list_all mac_char mac"
    using assms(2) by (simp_all add: valid_mac)
  let ?w1 = "w\<lparr>mac_file := Some (mac_prefix cfg @ mac @ [CHR 0x0A])\<rparr>"
  have stored: "mac_main cfg True junk serialno [''-w'', mac] w = Inr ?w1"
    using assms(2) by (simp add: mac_main_def write_mac_def)
  have plain: "list_all (\<lambda>c. c \<noteq> CHR 0x00) (mac @ [CHR 0x0A])"
    using mac(2) mac_char_no_nul by (auto simp: list_all_iff)
  have plen: "length (mac_prefix cfg) \<le> 4"
    using assms(1) by (auto simp: wifi_cfg_def bd_cfg_def)
  obtain r where buf: "take 255 (take 255 (mac_prefix cfg @ mac @ [CHR 0x0A]) @ junk)
      = mac_prefix cfg @ (mac @ [CHR 0x0A]) @ CHR 0x00 # r"
    using plen mac(1) by (cases "255 - (length (mac_prefix cfg) + 18)") (auto simp: assms(3) take_Cons')
  have out: "print_buf (drop (length (mac_prefix cfg)) (mac_prefix cfg @ (mac @ [CHR 0x0A]) @ CHR 0x00 # r)) ?w1
      = Inr (say (mac @ [CHR 0x0A]) ?w1)"
    using print_terminated [OF plain, of r ?w1] by simp
  define b where "b = take 255 (take 255 (mac_prefix cfg @ mac @ [CHR 0x0A]) @ junk)"
  have R: "read_mac cfg True junk ?w1 =
      (if mac_prefix cfg = [] then print_buf b ?w1
       else case strstr b (mac_prefix cfg) of None \<Rightarrow> Inl Null_arg
         | Some i \<Rightarrow> print_buf (drop (i + length (mac_prefix cfg)) b) ?w1)"
    unfolding read_mac_def Let_def b_def by simp
  have "read_mac cfg True junk ?w1 = Inr (say (mac @ [CHR 0x0A]) ?w1)"
    unfolding R unfolding b_def buf strstr_prefix using out by auto
  then show ?thesis
    using stored by (auto simp: mac_main_def)
qed

theorem mac_write_read_witness:
  "\<exists>w1. mac_main wifi_cfg True [CHR 0x00] [] [''-w'', ''00:11:22:33:44:55''] \<lparr>mac_file = None, mac_out = []\<rparr> = Inr w1
    \<and> mac_main wifi_cfg True [CHR 0x00] [] [''-r''] w1 = Inr (say (''00:11:22:33:44:55'' @ [CHR 0x0A]) w1)"
proof -
  have "check_mac_valid ''00:11:22:33:44:55'' = 0"
    by (simp add: check_mac_valid_def mac_char_def)
  then show ?thesis
    using mac_write_read [of wifi_cfg "''00:11:22:33:44:55''" "[CHR 0x00]" "[]"] by auto
qed

text \<open>The check counts no separators: seventeen colons pass as an address.\<close>

theorem colons_are_valid: "check_mac_valid (replicate 17 (CHR '':'')) = 0"
  by (simp add: valid_mac mac_char_def list_all_iff)

section \<open>One OTP write\<close>

text \<open>A call that ran some commands, none of them the write.\<close>

definition no_write :: "string list \<Rightarrow> int \<times> string list \<Rightarrow> bool" where
  "no_write log r \<longleftrightarrow> (\<exists>cmds. snd r = log @ cmds \<and> OTP_WRITE \<notin> set cmds)"

lemma no_write_exec: "cmd \<noteq> OTP_WRITE \<Longrightarrow> no_write log (execute_cmd sys cmd log)"
  by (simp add: no_write_def execute_cmd_def)

lemma no_write_then:
  assumes "no_write log r" and "\<And>log'. no_write log' (f log')"
  shows "no_write log (then_cmd r f)"
proof -
  obtain retval cmds where r: "r = (retval, log @ cmds)" "OTP_WRITE \<notin> set cmds"
    using assms(1) by (cases r) (auto simp: no_write_def)
  obtain cmds' where "snd (f (log @ cmds)) = (log @ cmds) @ cmds'" "OTP_WRITE \<notin> set cmds'"
    using assms(2) unfolding no_write_def by blast
  then show ?thesis
    using r by (auto simp: no_write_def then_cmd_def)
qed

lemma no_write_retry: "cmd \<noteq> OTP_WRITE \<Longrightarrow> no_write log (retry_cmd sys cmd loop log)"
proof (induction sys cmd loop log rule: retry_cmd.induct)
  case (1 sys cmd loop log)
  show ?case
  proof (cases "loop + 1 > 10 \<or> \<not> fst (execute_cmd sys cmd log) < 0")
    case True
    then show ?thesis
      using 1(2) by (subst retry_cmd.simps) (auto simp: no_write_def execute_cmd_def)
  next
    case False
    then have "no_write (snd (execute_cmd sys cmd log)) (retry_cmd sys cmd (loop + 1) (snd (execute_cmd sys cmd log)))"
      using 1(1) [OF surjective_pairing [symmetric]] 1(2) by simp
    then show ?thesis
      using False 1(2) by (subst retry_cmd.simps) (auto simp: no_write_def execute_cmd_def)
  qed
qed

lemma no_write_rfkill: "no_write log (rfkill_off sys log)"
  by (simp add: no_write_def rfkill_off_def execute_cmd_def)

lemma no_write_enter: "no_write log (enter_mfg sys log)"
  unfolding enter_mfg_def
  by (intro no_write_then no_write_exec no_write_retry no_write_rfkill) simp_all

lemma no_write_exit: "no_write log (exit_mfg sys log)"
  unfolding exit_mfg_def by (intro no_write_then no_write_exec) simp_all

lemma exit_mfg_last:
  assumes "exit_mfg sys log = (0, log')"
  shows "last log' = ''echo /etc/firmware/bcm43455_sta.bin > /sys/module/bcmdhd/parameters/firmware_path''"
  using assms by (auto simp: exit_mfg_def then_cmd_def execute_cmd_def split: if_splits)

text \<open>
  The one-time memory is written at most once per run, and only right after a check that found it
  unwritten; and when \<open>write_otp\<close> reports success, the last command it ran put the normal firmware back.
\<close>

theorem write_otp_once:
  "case write_otp sys [] of (ret, log) \<Rightarrow>
     (OTP_WRITE \<notin> set log
      \<or> (\<exists>before after. log = before @ [OTP_CHECK, OTP_WRITE] @ after \<and> sys (length before) OTP_CHECK \<noteq> 0
           \<and> OTP_WRITE \<notin> set before \<and> OTP_WRITE \<notin> set after))
     \<and> (ret \<noteq> 0 \<or> last log = ''echo /etc/firmware/bcm43455_sta.bin > /sys/module/bcmdhd/parameters/firmware_path'')"
proof -
  obtain r1 log1 where E: "enter_mfg sys [] = (r1, log1)" "OTP_WRITE \<notin> set log1"
    using no_write_enter [of "[]" sys] by (cases "enter_mfg sys []") (auto simp: no_write_def)
  have ex: "\<exists>cmds. snd (exit_mfg sys log) = log @ cmds \<and> OTP_WRITE \<notin> set cmds" for log
    using no_write_exit [of log sys] by (simp add: no_write_def)
  consider (enter) "r1 < 0" | (written) "\<not> r1 < 0" "sys (length log1) OTP_CHECK = 0"
    | (unwritten) "\<not> r1 < 0" "sys (length log1) OTP_CHECK \<noteq> 0"
    by blast
  then show ?thesis
  proof cases
    case enter
    then show ?thesis
      using E by (simp add: write_otp_def then_cmd_def)
  next
    case written
    then have W: "write_otp sys [] = exit_mfg sys (log1 @ [OTP_CHECK])"
      using E by (simp add: write_otp_def then_cmd_def execute_cmd_def)
    show ?thesis
      unfolding W using ex [of "log1 @ [OTP_CHECK]"] E(2) exit_mfg_last
      by (cases "exit_mfg sys (log1 @ [OTP_CHECK])") fastforce
  next
    case unwritten
    let ?log3 = "log1 @ [OTP_CHECK, OTP_WRITE]"
    let ?fin = "if sys (length log1 + 1) OTP_WRITE \<noteq> 0 then (-1, snd (exit_mfg sys ?log3))
      else if sys (length log1 + 2) OTP_CHECK \<noteq> 0 then (-1, ?log3 @ [OTP_CHECK]) else exit_mfg sys (?log3 @ [OTP_CHECK])"
    have W: "write_otp sys [] = ?fin"
      using unwritten E by (simp add: write_otp_def then_cmd_def execute_cmd_def)
    have "\<exists>after. snd ?fin = log1 @ [OTP_CHECK, OTP_WRITE] @ after \<and> OTP_WRITE \<notin> set after"
      using ex [of ?log3] ex [of "?log3 @ [OTP_CHECK]"] by auto
    moreover have "fst ?fin \<noteq> 0 \<or> last (snd ?fin) = ''echo /etc/firmware/bcm43455_sta.bin > /sys/module/bcmdhd/parameters/firmware_path''"
      using exit_mfg_last by (cases "exit_mfg sys (?log3 @ [OTP_CHECK])") auto
    moreover obtain ret log where F: "?fin = (ret, log)"
      by (cases ?fin) auto
    ultimately obtain after where A: "log = log1 @ [OTP_CHECK, OTP_WRITE] @ after" "OTP_WRITE \<notin> set after"
      and L: "ret \<noteq> 0 \<or> last log = ''echo /etc/firmware/bcm43455_sta.bin > /sys/module/bcmdhd/parameters/firmware_path''"
      by (simp only: F fst_conv snd_conv) blast
    have "\<exists>before after. log = before @ [OTP_CHECK, OTP_WRITE] @ after \<and> sys (length before) OTP_CHECK \<noteq> 0
        \<and> OTP_WRITE \<notin> set before \<and> OTP_WRITE \<notin> set after"
      using A E(2) unwritten(2) by blast
    then show ?thesis
      unfolding W F prod.case using L by blast
  qed
qed

theorem write_otp_once_witness:
  "last (snd (write_otp (\<lambda>n cmd. 0) [])) = ''echo /etc/firmware/bcm43455_sta.bin > /sys/module/bcmdhd/parameters/firmware_path''"
proof -
  have "fst (write_otp (\<lambda>n cmd. 0) []) = 0"
    by (simp add: write_otp_def enter_mfg_def exit_mfg_def then_cmd_def execute_cmd_def rfkill_off_def retry_cmd.simps)
  then show ?thesis
    using write_otp_once [of "\<lambda>n cmd. 0"] by (cases "write_otp (\<lambda>n cmd. 0) []") simp
qed

text \<open>The tenth attempt is made, but its result is not looked at.\<close>

theorem tenth_attempt_ignored:
  assumes "sys (length log) cmd = 0"
  shows "fst (execute_cmd sys cmd log) = 0" and "retry_cmd sys cmd 10 log = (-1, log @ [cmd])"
  using assms by (simp_all add: execute_cmd_def retry_cmd.simps)

end
