(* ===== verification/Demo_Device.thy ===== *)
theory Demo_Device
  imports Kd_Text
begin

text \<open>
  The character device of the dentry demo (module/dentry/demo.c): the text buffer that the ioctl commands
  fill with what they find about processes, and the file operations on it.

  The buffer is a function from positions to characters, and \<open>demo_p\<close> the position of the pointer \<open>p\<close>. A
  \<open>sprintf\<close> or a read past the \<open>maxsize\<close> bytes is an error of the model. The kernel's task list is a parameter, as
  are the results of \<open>copy_to_user\<close> and \<open>copy_from_user\<close>; \<open>size_t\<close> and \<open>loff_t\<close> have 64 bits.
\<close>

section \<open>The buffer\<close>

abbreviation (input) "maxsize \<equiv> (409600 :: nat)"
abbreviation (input) "NL \<equiv> CHR 0x0A"
abbreviation (input) "TAB \<equiv> CHR 0x09"
abbreviation (input) "NUL \<equiv> CHR 0x00"

datatype demo_error = Overrun | Overread

record demo =
  demo_buf :: "nat \<Rightarrow> char"
  demo_p :: nat
  str_len :: nat
  demo_inc :: u8
  given_pid :: int

definition demo_clear :: "demo \<Rightarrow> demo" where
  "demo_clear d = d\<lparr>demo_buf := (\<lambda>k. if k < maxsize then NUL else demo_buf d k), demo_p := 0\<rparr>"

definition put_str :: "string \<Rightarrow> nat \<Rightarrow> (nat \<Rightarrow> char) \<Rightarrow> nat \<Rightarrow> char" where
  "put_str s pos buf k = (if pos \<le> k \<and> k < pos + length s then s ! (k - pos) else if k = pos + length s then NUL else buf k)"

text \<open>\<open>sprintf(p, ...)\<close>, then \<open>i = strlen(p); str_len += i; p += i\<close>.\<close>

definition emit :: "string \<Rightarrow> demo \<Rightarrow> demo_error + demo" where
  "emit s d =
     (if demo_p d + length s + 1 > maxsize then Inl Overrun
      else Inr (d\<lparr>demo_buf := put_str s (demo_p d) (demo_buf d), demo_p := demo_p d + length s,
                  str_len := str_len d + length s\<rparr>))"

fun emit_all :: "string list \<Rightarrow> demo \<Rightarrow> demo_error + demo" where
  "emit_all [] d = Inr d"
| "emit_all (s # ss) d = (case emit s d of Inl e \<Rightarrow> Inl e | Inr d' \<Rightarrow> emit_all ss d')"

section \<open>Processes\<close>

text \<open>The address-space fields that are printed, and the areas as pairs of start and end.\<close>

record mm_info =
  start_code :: nat
  end_code :: nat
  start_data :: nat
  end_data :: nat
  start_brk :: nat
  brk :: nat
  arg_start :: nat
  arg_end :: nat
  env_start :: nat
  env_end :: nat
  vm_areas :: "(nat \<times> nat) list"

text \<open>A task with its children; \<open>threads\<close> are the names of its other threads, \<open>pwd\<close> the names on the way from the working
  directory up to the root, which is its own parent.\<close>

datatype task = Task (comm: string) (pid: int) (children: "task list")

record process =
  proc_task :: task
  threads :: "string list"
  fs_paths :: "(string list \<times> string) option"
  proc_mm :: "mm_info option"

definition task_line :: "task \<Rightarrow> string" where
  "task_line t = pad_left 16 (comm t) @ ''['' @ pad_left 4 (int_digits (pid t)) @ '']'' @ [NL]"

fun print_process_tree :: "task \<Rightarrow> nat \<Rightarrow> demo \<Rightarrow> demo_error + demo"
  and print_children :: "task list \<Rightarrow> nat \<Rightarrow> demo \<Rightarrow> demo_error + demo" where
  "print_process_tree (Task c p ks) num d = print_children ks num (demo_clear d)"
| "print_children [] num d = Inr d"
| "print_children (k # ks) num d =
     (case emit_all (replicate (num + 1) ''--'' @ [task_line k]) d of
        Inl e \<Rightarrow> Inl e
      | Inr d1 \<Rightarrow>
          (case print_process_tree k (num + 1) d1 of
             Inl e \<Rightarrow> Inl e
           | Inr d2 \<Rightarrow> print_children ks num d2))"

text \<open>\<open>list_for_each\<close> on \<open>thread_group\<close> visits the other threads of the process; each line shows the process id.\<close>

definition thread_lines :: "process \<Rightarrow> string list" where
  "thread_lines q =
     task_line (proc_task q) #
     map (\<lambda>c. ''------'' @ pad_left 16 c @ ''['' @ pad_left 4 (int_digits (pid (proc_task q))) @ '']'' @ [NL]) (threads q)"

definition print_thread_group :: "process list \<Rightarrow> demo \<Rightarrow> demo_error + demo" where
  "print_thread_group tasks d = emit_all (concat (map thread_lines tasks)) (demo_clear d)"

definition fs_lines :: "process \<Rightarrow> string list" where
  "fs_lines q =
     (case fs_paths q of
        None \<Rightarrow> [''The process '' @ int_digits (pid (proc_task q)) @ '' does not have related information!'' @ [NL]]
      | Some (pwd, root) \<Rightarrow>
          [replicate 44 (CHR ''-'') @ [NL]] @
          map (\<lambda>name. ''pwd--pwd:'' @ pad_left 10 name @ '' '' @ [TAB, NL]) pwd @
          [''root:'' @ root @ '' '' @ [TAB],
           ''pid:'' @ int_digits (pid (proc_task q)) @ '' '' @ [TAB] @ '' pwd:'' @ hd pwd @ '' '' @ [NL]])"

definition print_task_fs :: "process list \<Rightarrow> demo \<Rightarrow> demo_error + demo" where
  "print_task_fs tasks d = emit_all (concat (map fs_lines tasks)) (demo_clear d)"

text \<open>\<open>unsigned long\<close> subtraction wraps.\<close>

definition section_line :: "string \<Rightarrow> nat \<Rightarrow> nat \<Rightarrow> string" where
  "section_line what start stop =
     what @ '' section address:'' @ [NL, TAB] @ '' start: 0x'' @ hex_digits start @ '' '' @ [TAB] @ '' end: 0x'' @ hex_digits stop
       @ '' '' @ [TAB] @ '' size: 0x'' @ hex_digits ((stop + 2 ^ 64 - start) mod 2 ^ 64) @ [NL]"

definition mm_lines :: "mm_info \<Rightarrow> string list" where
  "mm_lines m =
     [section_line ''code'' (start_code m) (end_code m),
      section_line ''data'' (start_data m) (end_data m),
      section_line ''bss'' (end_data m) (start_brk m),
      section_line ''brk'' (start_brk m) (brk m),
      section_line ''remainder stack'' (brk m) (start_brk m),
      section_line ''arg'' (arg_start m) (arg_end m),
      section_line ''env'' (env_start m) (env_end m),
      ''vm_area'' @ replicate 60 (CHR ''-'') @ ''vm_area'' @ [NL]] @
     map (\<lambda>(s, e). [NL, TAB] @ '' start: 0x'' @ hex_digits s @ '' '' @ [TAB] @ '' end: 0x'' @ hex_digits e @ '' '' @ [TAB, NL])
       (vm_areas m)"

fun print_mem_stat :: "int \<Rightarrow> process list \<Rightarrow> demo \<Rightarrow> demo_error + demo" where
  "print_mem_stat p [] d = Inr d"
| "print_mem_stat p (q # qs) d =
     (if pid (proc_task q) = p then
        emit_all (case proc_mm q of
                    None \<Rightarrow> [''The process dose not have related information!'' @ [NL]]
                  | Some m \<Rightarrow> mm_lines m) (demo_clear d)
      else print_mem_stat p qs d)"

section \<open>File operations\<close>

abbreviation (input) "ERESTARTSYS \<equiv> (512 :: int)"
abbreviation (input) "EFAULT_D \<equiv> (14 :: int)"
abbreviation (input) "ENOMEM_D \<equiv> (12 :: int)"
abbreviation (input) "EINVAL_D \<equiv> (22 :: int)"

definition DEMO_open :: "demo \<Rightarrow> int \<times> demo" where
  "DEMO_open d = (if demo_inc d > 0 then (- ERESTARTSYS, d) else (0, d\<lparr>demo_inc := demo_inc d + 1\<rparr>))"

definition DEMO_release :: "demo \<Rightarrow> int \<times> demo" where
  "DEMO_release d = (0, d\<lparr>demo_inc := demo_inc d - 1\<rparr>)"

text \<open>The result is the return value, the bytes that reached the user and the new file position.\<close>

definition DEMO_read :: "bool \<Rightarrow> nat \<Rightarrow> nat \<Rightarrow> demo \<Rightarrow> demo_error + int \<times> string \<times> nat" where
  "DEMO_read fault count pos d =
     (if pos \<ge> maxsize then Inr (int count, [], pos)
      else
        let limit = nat ((40960 - int pos) mod 2 ^ 64);
            n = (if count > limit then limit else count)
        in if fault then Inr (- EFAULT_D, [], pos)
           else if pos + n > maxsize then Inl Overread
           else Inr (int n, map (demo_buf d) [pos..<pos + n], pos + n))"

definition DEMO_write :: "bool \<Rightarrow> string \<Rightarrow> nat \<Rightarrow> demo \<Rightarrow> int \<times> nat \<times> demo" where
  "DEMO_write fault data pos d =
     (if pos > maxsize then (- ENOMEM_D, pos, d)
      else
        let n = (if length data > maxsize - pos then maxsize - pos else length data)
        in if fault then (- EFAULT_D, pos, d)
           else (int n, pos + n,
                 d\<lparr>demo_buf := (\<lambda>k. if pos \<le> k \<and> k < pos + n then data ! (k - pos) else demo_buf d k)\<rparr>))"

definition DEMO_llseek :: "int \<Rightarrow> nat \<Rightarrow> nat \<Rightarrow> int \<times> nat" where
  "DEMO_llseek off whence f_pos =
     (if whence = 0 \<or> whence = 1 then
        let pos = (if whence = 0 then off else int f_pos + off)
        in if pos > int maxsize \<or> pos < 0 then (- EINVAL_D, f_pos) else (pos, nat pos)
      else (- EINVAL_D, f_pos))"

definition DEMO_ioctl :: "task \<Rightarrow> process list \<Rightarrow> nat \<Rightarrow> int \<Rightarrow> demo \<Rightarrow> demo_error + int \<times> demo" where
  "DEMO_ioctl init_task tasks cmd arg d =
     (let fin = map_sum id (Pair 0) in
      if cmd = 0 then
        fin (case emit (task_line init_task) d of Inl e \<Rightarrow> Inl e | Inr d1 \<Rightarrow> print_process_tree init_task 0 d1)
      else if cmd = 1 then fin (print_thread_group tasks d)
      else if cmd = 8 then fin (print_mem_stat arg tasks (d\<lparr>given_pid := arg\<rparr>))
      else if cmd = 16 then fin (print_task_fs tasks d)
      else Inr (- EFAULT_D, d))"

section \<open>Loading and unloading\<close>

text \<open>
  The results of the registration, the allocation and of \<open>cdev_add\<close> are parameters. The second component
  tells what is left behind: the number registered by \<open>register_chrdev\<close>, and whether the device is live.
\<close>

definition DEMO_init_module :: "int \<Rightarrow> bool \<Rightarrow> int \<Rightarrow> int \<times> bool \<times> bool" where
  "DEMO_init_module registered have_mem added =
     (if registered < 0 then (registered, False, False)
      else if \<not> have_mem then (- ENOMEM_D, True, False)
      else if added \<noteq> 0 then (added, True, False)
      else (0, True, True))"

end
