(* ===== verification/Demo_Props.thy ===== *)
theory Demo_Props
  imports Demo_Device
begin

text \<open>
  What a reader of the demo device gets: the text of the thread and directory commands, the data it wrote itself, and nothing at
  all from the process tree.
\<close>

section \<open>Emitting text\<close>

text \<open>What a call that printed \<open>s\<close> leaves behind.\<close>

definition emitted :: "string \<Rightarrow> demo \<Rightarrow> demo \<Rightarrow> bool" where
  "emitted s d d' \<longleftrightarrow> demo_p d' = demo_p d + length s \<and> str_len d' = str_len d + length s \<and> demo_inc d' = demo_inc d
     \<and> (\<forall>k < demo_p d. demo_buf d' k = demo_buf d k)
     \<and> (\<forall>k < length s. demo_buf d' (demo_p d + k) = s ! k)
     \<and> (\<forall>k \<ge> demo_p d + length s. demo_buf d k = NUL \<longrightarrow> demo_buf d' k = NUL)"

lemma emitted_trans:
  assumes "emitted s d d1" and "emitted t d1 d2"
  shows "emitted (s @ t) d d2"
proof -
  have "demo_buf d2 (demo_p d + k) = (s @ t) ! k" if "k < length (s @ t)" for k
  proof (cases "k < length s")
    case True
    then show ?thesis
      using assms by (simp add: emitted_def nth_append)
  next
    case False
    then have "k - length s < length t"
      using that by auto
    then have "demo_buf d2 (demo_p d1 + (k - length s)) = t ! (k - length s)"
      using assms(2) unfolding emitted_def by blast
    then show ?thesis
      using assms(1) False by (simp add: emitted_def nth_append)
  qed
  moreover have "demo_buf d2 k = NUL" if "k \<ge> demo_p d + length (s @ t)" "demo_buf d k = NUL" for k
    using assms that by (simp add: emitted_def)
  ultimately show ?thesis
    using assms by (simp add: emitted_def)
qed

lemma emit_ok:
  assumes "demo_p d + length s + 1 \<le> maxsize"
  shows "\<exists>d'. emit s d = Inr d' \<and> emitted s d d'"
  using assms by (simp add: emit_def emitted_def put_str_def)

lemma emit_all_ok:
  assumes "demo_p d + length (concat ss) + 1 \<le> maxsize"
  shows "\<exists>d'. emit_all ss d = Inr d' \<and> emitted (concat ss) d d'"
  using assms
proof (induction ss arbitrary: d)
  case Nil
  show ?case
    by (simp add: emitted_def)
next
  case (Cons s ss)
  obtain d1 where d1: "emit s d = Inr d1" "emitted s d d1"
    using emit_ok [of d s] Cons.prems by auto
  then obtain d2 where "emit_all ss d1 = Inr d2" "emitted (concat ss) d1 d2"
    using Cons.IH [of d1] Cons.prems by (auto simp: emitted_def)
  then show ?case
    using d1 emitted_trans by auto
qed

definition cleared :: "demo \<Rightarrow> bool" where
  "cleared d \<longleftrightarrow> demo_p d = 0 \<and> (\<forall>k < maxsize. demo_buf d k = NUL)"

lemma demo_clear_cleared [simp]: "cleared (demo_clear d)"
  by (simp add: demo_clear_def cleared_def)

lemma read_start:
  assumes "cleared d" and "emitted s d d'" and "length s \<le> count" and "count \<le> 40960"
  shows "DEMO_read False count 0 d' = Inr (int count, s @ replicate (count - length s) NUL, count)"
proof -
  have "demo_buf d' k = s ! k" if "k < length s" for k
    using assms that by (simp add: emitted_def cleared_def)
  moreover have "demo_buf d' k = NUL" if "length s \<le> k" "k < count" for k
    using assms that by (simp add: emitted_def cleared_def)
  ultimately have "map (demo_buf d') [0..<count] = s @ replicate (count - length s) NUL"
    using assms(3) by (intro nth_equalityI) (auto simp: nth_append)
  moreover have "nat ((40960 - int 0) mod 2 ^ 64) = 40960"
    by simp
  ultimately show ?thesis
    using assms(4) by (simp add: DEMO_read_def)
qed

text \<open>
  Reading the device after the thread command gives the listing: when the lines of all processes and their threads fit the part of the
  buffer that \<open>DEMO_read\<close> serves, the command succeeds and a read from the start returns their text in
  order, padded with NUL up to the size of the read.
\<close>

theorem thread_listing_read:
  assumes "length (concat (concat (map thread_lines tasks))) \<le> count" and "count \<le> 40960"
  shows "\<exists>d'. DEMO_ioctl init_task tasks 1 arg d = Inr (0, d') \<and>
    DEMO_read False count 0 d' = Inr (int count, concat (concat (map thread_lines tasks)) @
      replicate (count - length (concat (concat (map thread_lines tasks)))) NUL, count)"
proof -
  let ?ls = "concat (map thread_lines tasks)"
  obtain d' where d': "emit_all ?ls (demo_clear d) = Inr d'" "emitted (concat ?ls) (demo_clear d) d'"
    using emit_all_ok [of "demo_clear d" ?ls] assms by (auto simp: demo_clear_def)
  have "DEMO_ioctl init_task tasks 1 arg d = Inr (0, d')"
    using d'(1) by (simp add: DEMO_ioctl_def print_thread_group_def)
  then show ?thesis
    using read_start [OF demo_clear_cleared d'(2) assms] by blast
qed

definition example_process :: process where
  "example_process = \<lparr>proc_task = Task ''init'' 1 [], threads = [''worker''], fs_paths = None, proc_mm = None\<rparr>"

definition example_demo :: demo where
  "example_demo = \<lparr>demo_buf = (\<lambda>_. CHR ''x''), demo_p = 0, str_len = 0, demo_inc = 0, given_pid = 0\<rparr>"

lemma example_lines: "length (concat (concat (map thread_lines [example_process]))) = 52"
  by (simp add: thread_lines_def example_process_def task_line_def pad_left_def int_digits_def nat_digits.simps)

theorem thread_listing_read_witness:
  "\<exists>d'. DEMO_ioctl (Task ''swapper'' 0 []) [example_process] 1 0 example_demo = Inr (0, d') \<and>
    DEMO_read False 52 0 d' = Inr (52, concat (concat (map thread_lines [example_process])), 52)"
  using thread_listing_read [of "[example_process]" 52] unfolding example_lines by simp

section \<open>The process tree\<close>

text \<open>Each line of the tree fits the buffer on its own.\<close>

fun tree_fits :: "nat \<Rightarrow> task \<Rightarrow> bool" where
  "tree_fits num (Task c p ks) \<longleftrightarrow>
     list_all (\<lambda>k. 2 * (num + 1) + length (task_line k) + 1 \<le> maxsize \<and> tree_fits (num + 1) k) ks"

lemma tree_clears:
  "tree_fits num t \<Longrightarrow> \<exists>d'. print_process_tree t num d = Inr d' \<and> cleared d'"
  "list_all (\<lambda>k. 2 * (num + 1) + length (task_line k) + 1 \<le> maxsize \<and> tree_fits (num + 1) k) ks \<Longrightarrow> cleared d \<Longrightarrow>
   \<exists>d'. print_children ks num d = Inr d' \<and> cleared d'"
proof (induction t num d and ks num d rule: print_process_tree_print_children.induct)
  case (3 k ks num d)
  let ?ls = "replicate (num + 1) ''--'' @ [task_line k]"
  have len: "length (concat ?ls) = 2 * (num + 1) + length (task_line k)"
    by (induction num) simp_all
  have p: "demo_p d = 0"
    using "3.prems"(2) by (simp add: cleared_def)
  obtain d1 where d1: "emit_all ?ls d = Inr d1"
    using emit_all_ok [of d ?ls] "3.prems"(1) unfolding len p by auto
  obtain d2 where d2: "print_process_tree k (num + 1) d1 = Inr d2" "cleared d2"
    using "3.IH"(1) [OF d1] "3.prems"(1) by auto
  show ?case
    using "3.IH"(2) [OF d1 d2(1)] d2(2) "3.prems"(1) d1 d2(1) by simp
qed simp_all

text \<open>
  The process tree cannot be read: \<open>print_process_tree\<close> clears the buffer each time it enters a task, also the last one, so
  after the tree command the whole buffer is zero, whatever processes there are.
\<close>

theorem process_tree_lost:
  assumes "tree_fits 0 init_task" and "demo_p d + length (task_line init_task) + 1 \<le> 409600"
  shows "\<exists>d'. DEMO_ioctl init_task tasks 0 arg d = Inr (0, d') \<and> (\<forall>k < 409600. demo_buf d' k = CHR 0x00)"
proof -
  obtain d1 where d1: "emit (task_line init_task) d = Inr d1"
    using emit_ok [OF assms(2)] by blast
  obtain d2 where "print_process_tree init_task 0 d1 = Inr d2" "cleared d2"
    using tree_clears(1) [OF assms(1)] by blast
  then show ?thesis
    using d1 by (simp add: DEMO_ioctl_def cleared_def)
qed

theorem process_tree_lost_witness:
  "\<exists>d'. DEMO_ioctl (Task ''init'' 1 [Task ''sh'' 7 []]) [] 0 0 example_demo = Inr (0, d') \<and> demo_buf d' 0 = CHR 0x00"
proof -
  let ?t = "Task ''init'' 1 [Task ''sh'' 7 []]"
  have "length (int_digits 1) = 1" "length (int_digits 7) = 1"
    by (simp_all add: int_digits_def nat_digits.simps)
  then have "length (task_line (Task ''sh'' 7 [])) = 23" "length (task_line ?t) = 23"
    by (simp_all add: task_line_def pad_left_def)
  then have "tree_fits 0 ?t" "demo_p example_demo + length (task_line ?t) + 1 \<le> 409600"
    by (simp_all add: example_demo_def)
  from process_tree_lost [OF this, of "[]" 0] show ?thesis
    by auto
qed

section \<open>Writing and reading\<close>

text \<open>
  C33. What is written to the device is read back: data written at a position, as long as it ends within the first \<open>40960\<close> bytes,
  is returned by seeking back and reading as much.
\<close>

theorem demo_read_back:
  assumes "pos + length data \<le> 40960"
  shows "\<exists>d'. DEMO_write False data pos d = (int (length data), pos + length data, d')
    \<and> DEMO_llseek (int pos) 0 (pos + length data) = (int pos, pos)
    \<and> DEMO_read False (length data) pos d' = Inr (int (length data), data, pos + length data)"
proof -
  have limit: "nat ((40960 - int pos) mod 2 ^ 64) = 40960 - pos"
    using assms by (simp add: mod_pos_pos_trivial nat_diff_distrib)
  have "map (\<lambda>k. if pos \<le> k \<and> k < pos + length data then data ! (k - pos) else f k) [pos..<pos + length data] = data" for f
    by (intro nth_equalityI) auto
  moreover have "\<not> 40960 - pos < length data" "\<not> maxsize - pos < length data" "\<not> maxsize \<le> pos \<or> data = []"
    "\<not> maxsize < pos" "\<not> int pos > int maxsize" "\<not> maxsize < pos + length data"
    using assms by auto
  ultimately show ?thesis
    using limit assms by (auto simp: DEMO_write_def DEMO_llseek_def DEMO_read_def Let_def)
qed

theorem demo_read_back_witness:
  "\<exists>d'. DEMO_write False ''hello'' 100 example_demo = (5, 105, d') \<and> DEMO_read False 5 100 d' = Inr (5, ''hello'', 105)"
proof -
  have "length ''hello'' = 5"
    by simp
  then show ?thesis
    using demo_read_back [of 100 "''hello''" example_demo] by (simp del: list.size) blast
qed

text \<open>Past the first \<open>40960\<close> bytes the limit wraps around and a read leaves the buffer; at the end the device claims to have read.\<close>

theorem demo_read_past: "DEMO_read False 100 409590 d = Inl Overread"
  by (simp add: DEMO_read_def)

theorem demo_read_end: "DEMO_read False 100 409600 d = Inr (100, [], 409600)"
  by (simp add: DEMO_read_def)

end
