(* ===== verification/Spec2Isabelle.thy ===== *)
theory Spec2Isabelle
  imports Mm_Props Drop_Caches Node_Map_Props Movable_Zone Zone_Props Boot_Misc Serial_Props Uart_8250_Register Mac_Tools_Props Demo_Props
begin

text \<open>
  \<^bold>\<open>Verification library for the C code of kdstack.\<close>

  The repository collects kernel modules, kernel patches and system tools. Its own core logic in C is in eight groups
  of files, and each has its group of theories here. Machine words that can wrap are words or natural numbers with the
  wrap-around written out; errors, null pointers and accesses out of bounds are values of sum types; what the code
  calls but the repository does not contain is a parameter.

  \<^bold>\<open>1. The page allocator\<close> (src/linux/kernel/module/kcached: mm/page_alloc.c, fs/drop_caches.c, include/linux/mm.h).
  Page frames are numbers; the state \<open>mm\<close> of \<open>Page_Types\<close> holds the page array, the zones with their free lists, the per-cpu
  lists and the counters.
  \<^item> \<open>Pageblock\<close>: the bitmap of migrate types.
  \<^item> \<open>Buddy\<close>, \<open>Rmqueue\<close>: coalescing, splitting, stealing from other migrate types, bulk removal. \<open>Buddy_Inv\<close>, \<open>Buddy_Ops\<close>,
    \<open>Buddy_Alloc\<close> and \<open>Rmqueue_Inv\<close> show that they keep the invariant of the zone and move exactly the pages of the
    block. \<open>Block_Pool\<close> states the contract of an allocator of aligned blocks as a locale, \<open>Buddy_Pool\<close> interprets it on the
    buddy system and derives what any interleaving of its clients gets.
  \<^item> \<open>Pcp\<close> with \<open>Pcp_Inv\<close>, \<open>Pcp_Ops\<close>: the per-cpu lists. \<open>Alloc_Path\<close> with \<open>Alloc_Ops\<close>, \<open>Alloc_Path_Ops\<close>: watermarks, zonelist scan
    and the slow path; a round of its retry loop is a function of the environment, and the loop is a partial
    function whose result is proved to exist. \<open>Compound\<close>: compound pages and bad-page reports.
  \<^item> \<open>Node_Map\<close>, \<open>Node_Map_Props\<close>: active regions at boot and the sizes of zones. \<open>Movable_Zone\<close>: how
    the kernel's share of memory is spread over the nodes. \<open>Zone_Setup\<close>, \<open>Zone_Init\<close>, \<open>Zone_Setup_Props\<close>:
    zonelists, wait tables, watermarks, reserves, initialisation of zones, isolation.
  \<^item> \<open>Drop_Caches\<close>: the thread \<open>kcached\<close> that a failed allocation wakes up, with the walk over super blocks and inodes; a round of it
    ends and keeps every reference count.
  \<^item> \<open>Mm_Props\<close>, \<open>Zone_Props\<close> state the properties; \<open>Mm_Example\<close> is the machine the witnesses run on.

  \<^bold>\<open>2. The boot loader's LZMA decoder\<close> (src/linux/kernel/module/lzam_decompress: decompress.c, misc.c). \<open>Lzma\<close> is the decoder in a
  state and error monad; \<open>Lzma_Inv\<close> and \<open>Lzma_Packets\<close> give weakest preconditions, the invariant and the measure by which every
  round consumes input or range; \<open>Lzma_Props\<close> states that every input ends. The main loop needs no fuel. Distances of repeated matches
  are not checked by the code, so the memory below the output buffer, which it then reads, is a parameter of which nothing is assumed. \<open>Boot_Misc\<close> adds the
  console, \<open>memcpy\<close> and \<open>decompress_kernel\<close>.

  \<^bold>\<open>3. The telnet server\<close> (src/linux/kernel/module/serial_daemon/telnetd.c). \<open>Telnetd\<close> models the circular buffers, IAC handling,
  sessions and one round of the main loop over arbitrary results of system calls. \<open>Telnet_Ring\<close> states the contract
  of a byte queue as a locale and interprets it on the buffers; \<open>Telnet_Iac\<close> relates the work in place to functions on
  lists; \<open>Telnet_Props\<close> has the step relation of rounds and signals, its invariant and the properties. Writes to a socket may be short
  anywhere, also inside a pair of IAC bytes: the relation \<open>wire_shows\<close> between bytes and wire has a case for the IAC that is then left single.

  \<^bold>\<open>4. The serial log module\<close> (src/linux/kernel/module/serial_daemon/kernel: drivers/serial/serial_daemon.c). \<open>Serial_Daemon\<close> is the
  module, \<open>Serial_Props\<close> its properties and its composition with the telnet server: console text passes the module, netlink, telnetd
  and the telnet protocol unchanged. That the message may not be allocated, or have no room, which the thread does not check, is an outcome of its
  runs.

  \<^bold>\<open>5. Android tools\<close> (src/android/sys-tools/macaddr). \<open>Mac_Tools\<close> and \<open>Mac_Tools_Props\<close>: the address tools over a file's
  content and the OTP tool over the results of \<open>system\<close>.

  \<^bold>\<open>6. The dentry demo device\<close> (src/linux/kernel/module/dentry/demo.c). \<open>Demo_Device\<close> is the text buffer with its four listings and
  the file operations, \<open>Demo_Props\<close> what a reader of the device gets. \<open>Kd_Text\<close> has the number formats it shares with the serial
  log.

  \<^bold>\<open>7. The serial core\<close> (src/linux/kernel/module/serial_daemon/kernel: drivers/serial/serial_core.c), whose output also feeds the
  serial log. A line is the record \<open>uart_state\<close> of \<open>Uart_Types\<close>: the counts of openers, flags, terminal, transmit buffer and port. A low-level
  driver is a table \<open>uart_ops\<close> of functions on ports and lines, as in the code. Functions with a result return a null pointer they follow or a \<open>BUG_ON\<close> as
  a \<open>uart_fault\<close>; those without one record it in the field \<open>crashed\<close>, which no operation clears.
  \<^item> \<open>Uart_Xmit\<close>: the transmit buffer and the output operations; \<open>Uart_Queue\<close> interprets the locale \<open>byte_queue\<close> of
    \<open>Telnet_Ring\<close> on the buffer.
  \<^item> \<open>Uart_Line\<close>: speed, starting and stopping the hardware, flow control, settings. \<open>Uart_Config\<close>: the ioctls. \<open>Uart_Open\<close>: opening,
    blocking until the carrier comes, closing, hang-up. \<open>Uart_Console\<close>, \<open>Uart_Driver\<close>: console, power management, drivers and ports.
  \<^item> \<open>Uart_Contract\<close> states as the locale \<open>uart_lowlevel\<close> what the core relies on in a driver, with what follows
    for every operation. \<open>Uart_Runs\<close> is the step relation of a line in use (opens that sleep, fail or are refused before they count, closes,
    hang-ups, operations, interrupts and tasklets in any order) and \<open>Uart_Run_Inv\<close> its invariant: a part that always holds, and one
    that the close after a refused open breaks, as the code then takes an opener away that never was counted. \<open>Uart_Props\<close> states the properties of the core alone.

  \<^bold>\<open>8. The 8250 driver\<close> (src/linux/kernel/fiq/drivers/serial/8250.c), the driver below the core.
  \<^item> \<open>Uart_8250\<close>: register access over an arbitrary device and recognition of the chip. \<open>Uart_8250_Ops\<close>: transmitter, receiver,
    modem lines, interrupt handler, timers. \<open>Uart_8250_Port\<close>: start, shutdown, settings, resources, the table of operations, console.
  \<^item> \<open>Uart_8250_View\<close> shows once, in the locales \<open>port_view\<close>, \<open>place_view\<close> and \<open>config_view\<close>, what these leave
    alone; \<open>Uart_8250_Contract\<close> interprets \<open>uart_lowlevel\<close> on the driver, so that the invariant of part 7 holds for it.
  \<^item> \<open>Uart_8250_Props\<close>: every reachable state of a line, the last close, the transmitter, the interrupt, unprivileged
    configuration. \<open>Uart_8250_Chain\<close>: the table of shared interrupts against a function from ports to interrupts.
    \<open>Uart_8250_Register\<close>: registration of ports, platform devices, power management, loading and unloading, and that what a port
    knows of its chain agrees with the table.

  \<open>Kd_Prelude\<close> holds the arithmetic of dyadic blocks, masks and list lemmas they share.

  \<^bold>\<open>Bounds.\<close> The literal loops of the decoder have fuel 8, the number of doublings from 1 to 256; all other loops are structural,
  have a termination measure, or are partial functions with a proof that they return. The page size is 4096, the telnet
  buffers have 2026 bytes (32-bit pointers). The 8250 driver's own limits are those of the code: 10000 and 1000000 turns of the
  waits for the transmitter, 256 characters per receive, 256 passes of the interrupt handler; only the poll of the debugger's
  console, which the code does not bound, takes a number of tries. Where a process sleeps, the list of what it finds when it wakes up is
  a parameter, and the result says when it still sleeps at its end.

  \<^bold>\<open>Not modelled.\<close> The NUMA build of the page allocator (zonelist cache, node order), its output to the log and /proc,
  fault injection and the CPU hotplug callbacks; inetd mode, option parsing and the child process of telnetd; the RSA,
  Au1x00, RM9000, OMAP and KW2 variants of the 8250 driver, locks and interrupt flags; \<open>setup.c\<close> and the FIQ code, which
  read and write processor registers; kprobe, kobject, perf and V4L2 samples, which only call kernel or library interfaces; the
  C exercises; the C++, Go, Python and shell parts.
\<close>

end
